(* ===== verification/Prelude.thy ===== *)
theory Prelude
  imports Main "HOL-Library.State_Monad" "HOL-Library.Word"
begin

text \<open>
  Shared vocabulary of the development.

  \<^item> \<^emph>\<open>The outside world.\<close> The daemons of this repository are sequences of system and
    library calls. Every component declares a datatype of the calls it makes; an
    environment (\<open>'c os\<close>) answers each call from the history of all earlier calls and
    answers, so a theorem that holds for every environment holds for every behaviour of
    the kernel and of the libraries. Where a fact needs documented behaviour of a call, it
    is a named hypothesis on the environment.
  \<^item> \<^emph>\<open>State.\<close> Global variables are the fields of a record that extends \<open>io_state\<close>,
    whose field \<open>trace\<close> is the history and whose field \<open>fault\<close> records that the C
    program has run into undefined behaviour (an overrun buffer, a wild read).
  \<^item> \<^emph>\<open>Code.\<close> A C function is a computation of the state monad. \<open>valid\<close> is its Hoare
    triple, \<open>keeps\<close> its invariant form; the rules in \<open>wp_rules\<close> take them apart.
  \<^item> \<^emph>\<open>C strings.\<close> A NUL-terminated string is the list of its characters before the NUL.
  Log output (\<open>ALOGx\<close>, \<open>DEBUG\<close>, \<open>printf\<close> to a console) is not part of the models.
\<close>

named_theorems wp_rules "rules that take a Hoare triple of the state monad apart"
named_theorems run_simps "equations that run a computation of the state monad"

section \<open>Calls, answers, histories\<close>

record ret =
  ret_val :: int
  ret_errno :: int
  ret_data :: string
  ret_aux :: int

type_synonym 'c hist = "('c \<times> ret) list"
type_synonym 'c os = "'c hist \<Rightarrow> 'c \<Rightarrow> ret"

record 'c io_state =
  trace :: "'c hist"
  fault :: bool

abbreviation result :: "int \<Rightarrow> ret" where
  "result n \<equiv> \<lparr>ret_val = n, ret_errno = 0, ret_data = [], ret_aux = 0\<rparr>"

abbreviation failure :: "int \<Rightarrow> ret" where
  "failure e \<equiv> \<lparr>ret_val = -1, ret_errno = e, ret_data = [], ret_aux = 0\<rparr>"

abbreviation data_result :: "string \<Rightarrow> ret" where
  "data_result d \<equiv> \<lparr>ret_val = int (length d), ret_errno = 0, ret_data = d, ret_aux = 0\<rparr>"

abbreviation return :: "'a \<Rightarrow> ('s, 'a) state" where
  "return \<equiv> State_Monad.return"

abbreviation get :: "('s, 's) state" where
  "get \<equiv> State_Monad.get"

definition gets :: "('s \<Rightarrow> 'a) \<Rightarrow> ('s, 'a) state" where
  "gets f = State (\<lambda>s. (f s, s))"

definition modify :: "('s \<Rightarrow> 's) \<Rightarrow> ('s, unit) state" where
  "modify f = State (\<lambda>s. ((), f s))"

definition whenM :: "bool \<Rightarrow> ('s, unit) state \<Rightarrow> ('s, unit) state" where
  "whenM b m = (if b then m else return ())"

definition syscall :: "'c os \<Rightarrow> 'c \<Rightarrow> (('c, 'z) io_state_scheme, ret) state" where
  "syscall os c = State (\<lambda>s. (os (trace s) c, s\<lparr>trace := trace s @ [(c, os (trace s) c)]\<rparr>))"

definition undefined_behaviour :: "(('c, 'z) io_state_scheme, unit) state" where
  "undefined_behaviour = modify (\<lambda>s. s\<lparr>fault := True\<rparr>)"

lemma run_gets [simp, run_simps]: "run_state (gets f) s = (f s, s)"
  by (simp add: gets_def)

lemma run_modify [simp, run_simps]: "run_state (modify f) s = ((), f s)"
  by (simp add: modify_def)

lemma run_whenM [simp, run_simps]:
  "run_state (whenM b m) s = (if b then run_state m s else ((), s))"
  by (simp add: whenM_def)

lemma run_syscall [simp, run_simps]:
  "run_state (syscall os c) s =
     (os (trace s) c, s\<lparr>trace := trace s @ [(c, os (trace s) c)]\<rparr>)"
  by (simp add: syscall_def)

lemma run_undefined_behaviour [simp, run_simps]:
  "run_state undefined_behaviour s = ((), s\<lparr>fault := True\<rparr>)"
  by (simp add: undefined_behaviour_def)

lemma run_if: "run_state (if b then m else n) s = (if b then run_state m s else run_state n s)"
  by simp

text \<open>The calls a history holds, without the answers.\<close>

abbreviation calls :: "('c, 'z) io_state_scheme \<Rightarrow> 'c list" where
  "calls s \<equiv> map fst (trace s)"

abbreviation exec :: "('s, 'a) state \<Rightarrow> 's \<Rightarrow> 's" where
  "exec m s \<equiv> snd (run_state m s)"

abbreviation eval_in :: "('s, 'a) state \<Rightarrow> 's \<Rightarrow> 'a" where
  "eval_in m s \<equiv> fst (run_state m s)"

lemma exec_bind: "exec (m \<bind> f) s = exec (f (eval_in m s)) (exec m s)"
  by (simp add: split_beta)

lemma eval_bind: "eval_in (m \<bind> f) s = eval_in (f (eval_in m s)) (exec m s)"
  by (simp add: split_beta)

section \<open>Hoare triples\<close>

definition valid :: "('s \<Rightarrow> bool) \<Rightarrow> ('s, 'a) state \<Rightarrow> ('a \<Rightarrow> 's \<Rightarrow> bool) \<Rightarrow> bool" where
  "valid P m Q \<longleftrightarrow> (\<forall>s. P s \<longrightarrow> Q (eval_in m s) (exec m s))"

abbreviation keeps :: "('s \<Rightarrow> bool) \<Rightarrow> ('s, 'a) state \<Rightarrow> bool" where
  "keeps P m \<equiv> valid P m (\<lambda>_. P)"

lemma validI: "(\<And>s. P s \<Longrightarrow> Q (eval_in m s) (exec m s)) \<Longrightarrow> valid P m Q"
  by (simp add: valid_def)

lemma validD: "valid P m Q \<Longrightarrow> P s \<Longrightarrow> Q (eval_in m s) (exec m s)"
  by (simp add: valid_def)

lemma valid_weaken:
  "valid P' m Q' \<Longrightarrow> (\<And>s. P s \<Longrightarrow> P' s) \<Longrightarrow> (\<And>a s. Q' a s \<Longrightarrow> Q a s) \<Longrightarrow> valid P m Q"
  by (simp add: valid_def)

lemma valid_bind:
  "valid P m R \<Longrightarrow> (\<And>x. valid (R x) (f x) Q) \<Longrightarrow> valid P (m \<bind> f) Q"
  by (fastforce simp: valid_def split: prod.splits)

lemma keeps_bind [wp_rules]:
  "keeps P m \<Longrightarrow> (\<And>x. valid P (f x) Q) \<Longrightarrow> valid P (m \<bind> f) Q"
  by (rule valid_bind)

lemma keeps_return [wp_rules]: "keeps P (return x)"
  by (simp add: valid_def)

lemma keeps_get [wp_rules]: "keeps P get"
  by (simp add: valid_def)

lemma keeps_gets [wp_rules]: "keeps P (gets f)"
  by (simp add: valid_def)

lemma keeps_modify: "(\<And>s. P s \<Longrightarrow> P (f s)) \<Longrightarrow> keeps P (modify f)"
  by (simp add: valid_def)

lemma valid_if [wp_rules]:
  "(b \<Longrightarrow> valid P m Q) \<Longrightarrow> (\<not> b \<Longrightarrow> valid P n Q) \<Longrightarrow> valid P (if b then m else n) Q"
  by simp

lemma keeps_whenM [wp_rules]: "(b \<Longrightarrow> keeps P m) \<Longrightarrow> keeps P (whenM b m)"
  by (simp add: whenM_def keeps_return)

lemma valid_case_option [wp_rules]:
  "(x = None \<Longrightarrow> valid P m Q) \<Longrightarrow> (\<And>y. x = Some y \<Longrightarrow> valid P (f y) Q) \<Longrightarrow>
   valid P (case x of None \<Rightarrow> m | Some y \<Rightarrow> f y) Q"
  by (cases x) auto

lemma valid_case_prod [wp_rules]:
  "(\<And>a b. x = (a, b) \<Longrightarrow> valid P (f a b) Q) \<Longrightarrow> valid P (case x of (a, b) \<Rightarrow> f a b) Q"
  by (cases x) auto

lemma valid_let [wp_rules]: "valid P (f x) Q \<Longrightarrow> valid P (let y = x in f y) Q"
  by simp

text \<open>A property that does not look at the history is kept by every call.\<close>

lemma keeps_syscall:
  "(\<And>s t. P (s\<lparr>trace := t\<rparr>) = P s) \<Longrightarrow> keeps P (syscall os c)"
  by (simp add: valid_def)

lemma valid_get:
  "(\<And>s\<^sub>0. P s\<^sub>0 \<Longrightarrow> valid (\<lambda>s. s = s\<^sub>0) (f s\<^sub>0) Q) \<Longrightarrow> valid P (get \<bind> f) Q"
  by (auto simp: valid_def)

lemma valid_gets:
  "(\<And>x. valid (\<lambda>s. P s \<and> f s = x) (g x) Q) \<Longrightarrow> valid P (gets f \<bind> g) Q"
  by (auto simp: valid_def)

text \<open>What the precondition says about a value that is read.\<close>

lemma valid_gets_bind: "(\<And>s. P s \<Longrightarrow> valid P (g (f s)) Q) \<Longrightarrow> valid P (gets f \<bind> g) Q"
  by (simp add: valid_def)

text \<open>What the environment says about an answer.\<close>

lemma valid_call_bind:
  "keeps P (syscall os c) \<Longrightarrow> (\<And>h. valid P (g (os h c)) Q) \<Longrightarrow> valid P (syscall os c \<bind> g) Q"
  by (fastforce simp: valid_def)

text \<open>A part of the precondition that is not about the state.\<close>

lemma valid_pre: "(A \<Longrightarrow> valid P m Q) \<Longrightarrow> valid (\<lambda>s. A \<and> P s) m Q"
  by (auto simp: valid_def)

lemma valid_conj:
  "valid P m (\<lambda>_. Q) \<Longrightarrow> valid P' m (\<lambda>_. Q') \<Longrightarrow> valid (\<lambda>s. P s \<and> P' s) m (\<lambda>_ s. Q s \<and> Q' s)"
  by (simp add: valid_def)

section \<open>Code that only talks\<close>

text \<open>
  \<open>quiet m\<close>: \<open>m\<close> changes nothing but the history, which it extends. A property of the
  globals that does not look at the history is kept by quiet code.
\<close>

definition quiet :: "(('c, 'z) io_state_scheme, 'a) state \<Rightarrow> bool" where
  "quiet m \<longleftrightarrow> (\<forall>s. \<exists>h. exec m s = s\<lparr>trace := trace s @ h\<rparr>)"

named_theorems quiet_rules "code that changes nothing but the history"

lemma quietI: "(\<And>s. \<exists>h. exec m s = s\<lparr>trace := trace s @ h\<rparr>) \<Longrightarrow> quiet m"
  by (simp add: quiet_def)

lemma quietE:
  assumes "quiet m"
  obtains h where "exec m s = s\<lparr>trace := trace s @ h\<rparr>"
  using assms by (auto simp: quiet_def)

lemma quiet_unchanged: "(\<And>s. exec m s = s) \<Longrightarrow> quiet m"
  by (rule quietI, rule exI [of _ "[]"]) simp

lemma quiet_return [quiet_rules]: "quiet (return x)"
  by (rule quiet_unchanged) simp

lemma quiet_get [quiet_rules]: "quiet get"
  by (rule quiet_unchanged) simp

lemma quiet_gets [quiet_rules]: "quiet (gets f)"
  by (rule quiet_unchanged) simp

lemma quiet_syscall [quiet_rules]: "quiet (syscall os c)"
  by (auto simp: quiet_def)

lemma quiet_bind [quiet_rules]:
  assumes m: "quiet m" and f: "\<And>x. quiet (f x)"
  shows "quiet (m \<bind> f)"
proof (rule quietI)
  fix s
  obtain h where h: "exec m s = s\<lparr>trace := trace s @ h\<rparr>"
    by (rule quietE [OF m])
  let ?x = "eval_in m s" and ?s = "s\<lparr>trace := trace s @ h\<rparr>"
  obtain h' where h': "exec (f ?x) ?s = ?s\<lparr>trace := trace ?s @ h'\<rparr>"
    by (rule quietE [OF f])
  have "exec (m \<bind> f) s = s\<lparr>trace := trace s @ (h @ h')\<rparr>"
    using h' by (simp add: split_beta h)
  then show "\<exists>h. exec (m \<bind> f) s = s\<lparr>trace := trace s @ h\<rparr>" ..
qed

lemma quiet_if [quiet_rules]: "(b \<Longrightarrow> quiet m) \<Longrightarrow> (\<not> b \<Longrightarrow> quiet n) \<Longrightarrow> quiet (if b then m else n)"
  by simp

lemma quiet_case_prod [quiet_rules]:
  "(\<And>a b. quiet (f a b)) \<Longrightarrow> quiet (case x of (a, b) \<Rightarrow> f a b)"
  by (cases x) simp

lemma quiet_case_option [quiet_rules]:
  "quiet m \<Longrightarrow> (\<And>y. quiet (f y)) \<Longrightarrow> quiet (case x of None \<Rightarrow> m | Some y \<Rightarrow> f y)"
  by (cases x) simp_all

lemma quiet_case_list [quiet_rules]:
  "quiet m \<Longrightarrow> (\<And>y ys. quiet (f y ys)) \<Longrightarrow> quiet (case x of [] \<Rightarrow> m | y # ys \<Rightarrow> f y ys)"
  by (cases x) simp_all

lemma quiet_let [quiet_rules]: "(\<And>y. quiet (f y)) \<Longrightarrow> quiet (let y = x in f y)"
  by simp

lemma quiet_whenM [quiet_rules]: "(b \<Longrightarrow> quiet m) \<Longrightarrow> quiet (whenM b m)"
  by (simp add: whenM_def quiet_return)

lemma keeps_quiet:
  assumes "quiet m" "\<And>s h. P s \<Longrightarrow> P (s\<lparr>trace := trace s @ h\<rparr>)"
  shows "keeps P m"
proof (rule validI)
  fix s assume "P s"
  moreover obtain h where "exec m s = s\<lparr>trace := trace s @ h\<rparr>"
    by (rule quietE [OF assms(1)])
  ultimately show "P (exec m s)" using assms(2) by simp
qed

section \<open>C strings\<close>

abbreviation NUL :: char where
  "NUL \<equiv> CHR 0x00"

definition cstr :: "string \<Rightarrow> string" where
  "cstr b = takeWhile (\<lambda>c. c \<noteq> NUL) b"

definition nul_free :: "string \<Rightarrow> bool" where
  "nul_free s \<longleftrightarrow> NUL \<notin> set s"

text \<open>\<open>strncmp(a, b, n) == 0\<close> on terminated strings: the terminator takes part.\<close>

definition strncmp_eq :: "string \<Rightarrow> string \<Rightarrow> nat \<Rightarrow> bool" where
  "strncmp_eq a b n \<longleftrightarrow> take n (a @ [NUL]) = take n (b @ [NUL])"

fun starts_with :: "string \<Rightarrow> string \<Rightarrow> bool" where
  "starts_with p s \<longleftrightarrow> take (length p) s = p"

text \<open>\<open>strstr(s, p)\<close>: the suffix of \<open>s\<close> at the first occurrence of \<open>p\<close>.\<close>

fun strstr :: "string \<Rightarrow> string \<Rightarrow> string option" where
  "strstr [] p = (if p = [] then Some [] else None)"
| "strstr (c # s) p = (if starts_with p (c # s) then Some (c # s) else strstr s p)"

text \<open>\<open>strchr(s, c)\<close>: the suffix of \<open>s\<close> at the first \<open>c\<close>.\<close>

fun strchr :: "string \<Rightarrow> char \<Rightarrow> string option" where
  "strchr [] x = None"
| "strchr (c # s) x = (if c = x then Some (c # s) else strchr s x)"

definition snprintf :: "nat \<Rightarrow> string \<Rightarrow> string" where
  "snprintf n s = take (n - 1) s"

definition digit_char :: "nat \<Rightarrow> char" where
  "digit_char d = char_of (48 + d)"

fun show_nat :: "nat \<Rightarrow> string" where
  "show_nat n = (if n < 10 then [digit_char n] else show_nat (n div 10) @ [digit_char (n mod 10)])"

declare show_nat.simps [simp del]

definition show_int :: "int \<Rightarrow> string" where
  "show_int i = (if i < 0 then CHR ''-'' # show_nat (nat (- i)) else show_nat (nat i))"

definition isdigit :: "char \<Rightarrow> bool" where
  "isdigit c \<longleftrightarrow> 48 \<le> (of_char c :: nat) \<and> (of_char c :: nat) \<le> 57"

definition isspace :: "char \<Rightarrow> bool" where
  "isspace c \<longleftrightarrow> (of_char c :: nat) = 32 \<or> (9 \<le> (of_char c :: nat) \<and> (of_char c :: nat) \<le> 13)"

definition digit_val :: "char \<Rightarrow> nat" where
  "digit_val c = of_char c - 48"

fun digits_val :: "nat \<Rightarrow> string \<Rightarrow> nat" where
  "digits_val acc [] = acc"
| "digits_val acc (c # s) = (if isdigit c then digits_val (10 * acc + digit_val c) s else acc)"

text \<open>
  \<open>strtol(s, NULL, 10)\<close> and \<open>atoi\<close> of a C library with a 32-bit \<open>long\<close>: white space, an
  optional sign, digits up to the first other character, clamped to the range of \<open>long\<close>.
\<close>

definition clamp32 :: "int \<Rightarrow> int" where
  "clamp32 i = max (- (2 ^ 31)) (min (2 ^ 31 - 1) i)"

definition strtol :: "string \<Rightarrow> int" where
  "strtol s =
     (case dropWhile isspace s of
        [] \<Rightarrow> 0
      | c # t \<Rightarrow>
          (if c = CHR ''-'' then clamp32 (- int (digits_val 0 t))
           else if c = CHR ''+'' then clamp32 (int (digits_val 0 t))
           else clamp32 (int (digits_val 0 (c # t)))))"

abbreviation atoi :: "string \<Rightarrow> int" where
  "atoi \<equiv> strtol"

text \<open>The tokens \<open>strtok\<close> delivers in turn: maximal runs of characters outside the delimiters.\<close>

fun strtok_go :: "char list \<Rightarrow> string \<Rightarrow> string \<Rightarrow> string list" where
  "strtok_go ds cur [] = (if cur = [] then [] else [rev cur])"
| "strtok_go ds cur (c # s) =
     (if c \<in> set ds then (if cur = [] then strtok_go ds [] s else rev cur # strtok_go ds [] s)
      else strtok_go ds (c # cur) s)"

definition strtok_all :: "char list \<Rightarrow> string \<Rightarrow> string list" where
  "strtok_all ds s = strtok_go ds [] s"

text \<open>Two's complement reading of a mathematical integer at 32 bits (assignment to \<open>int\<close>).\<close>

definition to_int32 :: "int \<Rightarrow> int" where
  "to_int32 i = sint (word_of_int i :: 32 word)"

section \<open>Lemmas on strings and numbers\<close>

lemma cstr_nul_free [simp]: "nul_free (cstr b)"
  unfolding nul_free_def cstr_def using set_takeWhileD by fastforce

lemma cstr_id [simp]: "nul_free s \<Longrightarrow> cstr s = s"
  by (simp add: cstr_def nul_free_def takeWhile_eq_all_conv) blast

lemma cstr_append_nul [simp]: "nul_free s \<Longrightarrow> cstr (s @ NUL # r) = s"
  unfolding cstr_def nul_free_def
  by (subst takeWhile_append2) auto

lemma cstr_replicate_nul [simp]: "nul_free s \<Longrightarrow> cstr (s @ replicate n NUL) = s"
  by (cases n) simp_all

lemma strncmp_eq_prefix:
  assumes "nul_free b"
  shows "strncmp_eq a b (length b) \<longleftrightarrow> starts_with b a"
proof (cases "length b \<le> length a")
  case True
  then show ?thesis by (auto simp: strncmp_eq_def)
next
  case False
  then have "NUL \<in> set (take (length b) (a @ [NUL]))" by simp
  then have "take (length b) (a @ [NUL]) \<noteq> b" using assms unfolding nul_free_def by metis
  then show ?thesis using False by (auto simp: strncmp_eq_def dest: arg_cong [of _ _ length])
qed

lemma nul_free_append [simp]: "nul_free (a @ b) \<longleftrightarrow> nul_free a \<and> nul_free b"
  by (auto simp: nul_free_def)

lemma strtok_go_no_delim:
  "set cur \<inter> set ds = {} \<Longrightarrow> t \<in> set (strtok_go ds cur s) \<Longrightarrow> t \<noteq> [] \<and> set t \<inter> set ds = {}"
  by (induction ds cur s rule: strtok_go.induct) (auto split: if_splits)

lemma strtok_all_token:
  "t \<in> set (strtok_all ds s) \<Longrightarrow> t \<noteq> [] \<and> set t \<inter> set ds = {}"
  unfolding strtok_all_def by (rule strtok_go_no_delim [of "[]"]) auto

lemma strtok_go_token:
  "set t \<inter> set ds = {} \<Longrightarrow> strtok_go ds cur (t @ s) = strtok_go ds (rev t @ cur) s"
  by (induction t arbitrary: cur) auto

lemma strtok_all_join:
  assumes "\<forall>t\<in>set ts. t \<noteq> [] \<and> set t \<inter> set ds = {}" "d \<in> set ds"
  shows "strtok_all ds (concat (map (\<lambda>t. t @ [d]) ts)) = ts"
proof -
  have "strtok_go ds [] (concat (map (\<lambda>t. t @ [d]) ts)) = ts"
    using assms(1)
  proof (induction ts)
    case (Cons t ts)
    then show ?case using assms(2) by (simp add: strtok_go_token)
  qed simp
  then show ?thesis by (simp add: strtok_all_def)
qed

text \<open>A number that is printed and read again.\<close>

lemma isdigit_digit_char: "d < 10 \<Longrightarrow> isdigit (digit_char d) \<and> digit_val (digit_char d) = d"
  by (simp add: isdigit_def digit_val_def digit_char_def)

lemma digits_val_append:
  "(\<forall>c\<in>set s. isdigit c) \<Longrightarrow> digits_val acc (s @ t) = digits_val (digits_val acc s) t"
  by (induction acc s rule: digits_val.induct) auto

lemma show_nat_digits: "\<forall>c\<in>set (show_nat n). isdigit c"
proof (induction n rule: show_nat.induct)
  case (1 n)
  then show ?case by (subst show_nat.simps) (auto simp: isdigit_digit_char)
qed

lemma digits_val_show_nat: "digits_val 0 (show_nat n) = n"
proof (induction n rule: show_nat.induct)
  case (1 n)
  show ?case
  proof (cases "n < 10")
    case True
    then show ?thesis by (simp add: show_nat.simps isdigit_digit_char)
  next
    case False
    then have "digits_val 0 (show_nat (n div 10)) = n div 10" by (rule 1)
    then show ?thesis
      using False show_nat_digits by (subst show_nat.simps) (simp add: digits_val_append isdigit_digit_char)
  qed
qed

lemma show_nat_not_empty: "show_nat n \<noteq> []"
  by (subst show_nat.simps) simp

lemma isdigit_plain: "isdigit c \<Longrightarrow> \<not> isspace c \<and> c \<noteq> CHR ''-'' \<and> c \<noteq> CHR ''+'' \<and> c \<noteq> CHR '' '' \<and> c \<noteq> CHR '','' \<and> c \<noteq> NUL"
  by (auto simp: isdigit_def isspace_def)

lemma atoi_show_nat:
  assumes "n < 2 ^ 31"
  shows "atoi (show_nat n) = int n"
proof -
  obtain c s where cs: "show_nat n = c # s" using show_nat_not_empty [of n] by (cases "show_nat n") auto
  have c: "isdigit c" using show_nat_digits [of n] cs by simp
  have "dropWhile isspace (c # s) = c # s" using isdigit_plain [OF c] by simp
  moreover have "digits_val 0 (c # s) = n" using digits_val_show_nat [of n] cs by simp
  moreover have "clamp32 (int n) = int n" using assms by (simp add: clamp32_def)
  ultimately show ?thesis using isdigit_plain [OF c] unfolding strtol_def cs by (simp del: digits_val.simps)
qed

lemma to_int32_id: "- (2 ^ 31) \<le> i \<Longrightarrow> i < 2 ^ 31 \<Longrightarrow> to_int32 i = i"
  unfolding to_int32_def by (simp add: sint_sbintrunc' signed_take_bit_int_eq_self)

lemma to_int32_range: "- (2 ^ 31) \<le> to_int32 i \<and> to_int32 i < 2 ^ 31"
proof -
  have "- (2 ^ 31) \<le> sint (word_of_int i :: 32 word)"
    using sint_ge [of "word_of_int i :: 32 word"] by simp
  moreover have "sint (word_of_int i :: 32 word) < 2 ^ 31"
    using sint_lt [of "word_of_int i :: 32 word"] by simp
  ultimately show ?thesis by (simp add: to_int32_def)
qed

end
