(* ===== verification/Alarm.thy ===== *)
theory Alarm
  imports Prelude "HOL-Library.Multiset" "HOL-Library.Signed_Division"
begin

text \<open>
  The timer queue of the charge-only-mode program, \<open>src/charge_only_mode/alarm.c\<close>: a
  singly linked list of nodes ordered by expiry time. \<open>alarm_insert\<close> is the search-and-link
  loop of \<open>alarm_set_relative\<close>, \<open>alarm_remove\<close> the unlink loop of \<open>alarm_cancel\<close>; the
  operations themselves are computations over a state with a field \<open>alarms\<close>, parametrised
  by \<open>malloc\<close> and \<open>gettimeofday\<close>. The locale \<open>timer_queue\<close> is what the client of the queue
  relies on; the list implementation is its interpretation \<open>aq\<close>.
\<close>

section \<open>Time values\<close>

datatype timeval = Timeval (tv_sec: int) (tv_usec: int)

instantiation timeval :: linorder
begin

definition less_eq_timeval :: "timeval \<Rightarrow> timeval \<Rightarrow> bool" where
  "a \<le> b \<longleftrightarrow> tv_sec a < tv_sec b \<or> tv_sec a = tv_sec b \<and> tv_usec a \<le> tv_usec b"

definition less_timeval :: "timeval \<Rightarrow> timeval \<Rightarrow> bool" where
  "a < b \<longleftrightarrow> tv_sec a < tv_sec b \<or> tv_sec a = tv_sec b \<and> tv_usec a < tv_usec b"

instance
  by standard (auto simp: less_eq_timeval_def less_timeval_def intro: timeval.expand)

end

lemmas timeval_order = less_eq_timeval_def less_timeval_def

definition normal_time :: "timeval \<Rightarrow> bool" where
  "normal_time t \<longleftrightarrow> 0 \<le> tv_usec t \<and> tv_usec t < 1000000"

text \<open>Microseconds since the epoch; on normalised values the order of \<open>timeval\<close> is its order.\<close>

definition usecs :: "timeval \<Rightarrow> int" where
  "usecs t = tv_sec t * 1000000 + tv_usec t"

lemma usecs_le_iff: "normal_time a \<Longrightarrow> normal_time b \<Longrightarrow> a \<le> b \<longleftrightarrow> usecs a \<le> usecs b"
  by (cases a; cases b) (auto simp: timeval_order normal_time_def usecs_def)

lemma usecs_less_iff: "normal_time a \<Longrightarrow> normal_time b \<Longrightarrow> a < b \<longleftrightarrow> usecs a < usecs b"
  using usecs_le_iff [of b a] by (simp add: not_le [symmetric])

section \<open>Nodes and the linked list\<close>

record ('f, 'k) alarm_node =
  alarm_time :: timeval
  alarm_f :: 'f
  cookie :: 'k

record ('c, 'f, 'k) alarm_state = "'c io_state" +
  alarms :: "('f, 'k) alarm_node list"

text \<open>The walk stops at the first node that expires later than the new one.\<close>

fun alarm_insert :: "('f, 'k) alarm_node \<Rightarrow> ('f, 'k) alarm_node list \<Rightarrow> ('f, 'k) alarm_node list" where
  "alarm_insert a [] = [a]"
| "alarm_insert a (c # cs) =
     (if tv_sec (alarm_time c) > tv_sec (alarm_time a) then a # c # cs
      else if tv_sec (alarm_time c) = tv_sec (alarm_time a) \<and>
              tv_usec (alarm_time c) > tv_usec (alarm_time a) then a # c # cs
      else c # alarm_insert a cs)"

fun alarm_remove :: "'f \<Rightarrow> ('f, 'k) alarm_node list \<Rightarrow> int \<times> ('f, 'k) alarm_node list" where
  "alarm_remove f [] = (0, [])"
| "alarm_remove f (c # cs) =
     (let (n, cs') = alarm_remove f cs
      in if alarm_f c = f then (n + 1, cs') else (n, c # cs'))"

text \<open>The expiry time \<open>alarm_set_relative\<close> computes; \<open>int\<close> and \<open>long\<close> have 32 bits.\<close>

definition alarm_deadline :: "timeval \<Rightarrow> int \<Rightarrow> timeval" where
  "alarm_deadline now ms =
     (let usec = to_int32 (tv_usec now + to_int32 (ms * 1000))
      in if usec \<ge> 1000000
         then Timeval (to_int32 (tv_sec now + usec sdiv 1000000)) (usec smod 1000000)
         else Timeval (tv_sec now) usec)"

definition alarm_set_relative ::
  "(('c, 'f, 'k, 'z) alarm_state_scheme, bool) state \<Rightarrow>
   (('c, 'f, 'k, 'z) alarm_state_scheme, timeval) state \<Rightarrow>
   'f \<Rightarrow> 'k \<Rightarrow> int \<Rightarrow> (('c, 'f, 'k, 'z) alarm_state_scheme, int) state" where
  "alarm_set_relative malloc gettimeofday f k ms = do {
     ok \<leftarrow> malloc;
     if \<not> ok then return (-1)
     else do {
       now \<leftarrow> gettimeofday;
       let a = \<lparr>alarm_time = alarm_deadline now ms, alarm_f = f, cookie = k\<rparr>;
       modify (\<lambda>s. s\<lparr>alarms := alarm_insert a (alarms s)\<rparr>);
       return 0
     }
   }"

definition alarm_cancel :: "'f \<Rightarrow> (('c, 'f, 'k, 'z) alarm_state_scheme, int) state" where
  "alarm_cancel f = do {
     s \<leftarrow> get;
     let (n, as) = alarm_remove f (alarms s);
     modify (\<lambda>s. s\<lparr>alarms := as\<rparr>);
     return n
   }"

definition alarm_get_time_until_next ::
  "(('c, 'f, 'k, 'z) alarm_state_scheme, timeval) state \<Rightarrow>
   (('c, 'f, 'k, 'z) alarm_state_scheme, int) state" where
  "alarm_get_time_until_next gettimeofday = do {
     as \<leftarrow> gets alarms;
     (case as of
        [] \<Rightarrow> return 0x7fffffff
      | a # _ \<Rightarrow> do {
          now \<leftarrow> gettimeofday;
          return (to_int32 ((tv_sec (alarm_time a) - tv_sec now) * 1000 +
                            (tv_usec (alarm_time a) - tv_usec now) sdiv 1000))
        })
   }"

text \<open>
  The loop of \<open>alarm_process\<close>. The time is read once; a callback may change the queue. One
  unit of fuel is one expired alarm; \<open>None\<close> says that the fuel is used up.
\<close>

fun alarm_process_loop ::
  "nat \<Rightarrow> ('f \<Rightarrow> 'k \<Rightarrow> (('c, 'f, 'k, 'z) alarm_state_scheme, unit) state) \<Rightarrow> timeval \<Rightarrow>
   (('c, 'f, 'k, 'z) alarm_state_scheme, unit option) state" where
  "alarm_process_loop 0 call now = return None"
| "alarm_process_loop (Suc fuel) call now = do {
     as \<leftarrow> gets alarms;
     (case as of
        [] \<Rightarrow> return (Some ())
      | a # rest \<Rightarrow>
          (if tv_sec now < tv_sec (alarm_time a) then return (Some ())
           else if tv_sec now = tv_sec (alarm_time a) \<and> tv_usec now < tv_usec (alarm_time a)
           then return (Some ())
           else do {
             modify (\<lambda>s. s\<lparr>alarms := rest\<rparr>);
             call (alarm_f a) (cookie a);
             alarm_process_loop fuel call now
           }))
   }"

definition alarm_process ::
  "nat \<Rightarrow> (('c, 'f, 'k, 'z) alarm_state_scheme, timeval) state \<Rightarrow>
   ('f \<Rightarrow> 'k \<Rightarrow> (('c, 'f, 'k, 'z) alarm_state_scheme, unit) state) \<Rightarrow>
   (('c, 'f, 'k, 'z) alarm_state_scheme, unit option) state" where
  "alarm_process fuel gettimeofday call = do {
     now \<leftarrow> gettimeofday;
     alarm_process_loop fuel call now
   }"

section \<open>The queue as an interface\<close>

definition time_sorted :: "('f, 'k) alarm_node list \<Rightarrow> bool" where
  "time_sorted as \<longleftrightarrow> sorted (map alarm_time as)"

definition due :: "timeval \<Rightarrow> ('f, 'k) alarm_node list \<Rightarrow> ('f, 'k) alarm_node list" where
  "due now as = filter (\<lambda>a. alarm_time a \<le> now) as"

locale timer_queue =
  fixes ins :: "'n \<Rightarrow> 'q \<Rightarrow> 'q"
    and cancel :: "'f \<Rightarrow> 'q \<Rightarrow> 'q"
    and nodes :: "'q \<Rightarrow> 'n list"
    and tm :: "'n \<Rightarrow> timeval"
    and fn :: "'n \<Rightarrow> 'f"
    and invar :: "'q \<Rightarrow> bool"
  assumes invar_sorted: "invar q \<Longrightarrow> sorted (map tm (nodes q))"
    and invar_ins: "invar q \<Longrightarrow> invar (ins a q)"
    and invar_cancel: "invar q \<Longrightarrow> invar (cancel f q)"
    and nodes_ins: "invar q \<Longrightarrow>
      nodes (ins a q) = filter (\<lambda>c. tm c \<le> tm a) (nodes q) @ a # filter (\<lambda>c. tm a < tm c) (nodes q)"
    and nodes_cancel: "nodes (cancel f q) = filter (\<lambda>c. fn c \<noteq> f) (nodes q)"
begin

lemma mset_ins: "invar q \<Longrightarrow> mset (nodes (ins a q)) = add_mset a (mset (nodes q))"
proof -
  assume q: "invar q"
  have "filter_mset (\<lambda>c. tm c \<le> tm a) M + filter_mset (\<lambda>c. tm a < tm c) M = M" for M
    using multiset_partition [of M "\<lambda>c. tm c \<le> tm a"] by (simp add: not_le)
  then show ?thesis using q by (simp add: nodes_ins)
qed

lemma pending_ins: "invar q \<Longrightarrow> set (nodes (ins a q)) = insert a (set (nodes q))"
  using mset_ins [of q a] by (metis set_mset_add_mset_insert set_mset_mset)

lemma cancel_none_left: "c \<in> set (nodes (cancel f q)) \<Longrightarrow> fn c \<noteq> f"
  by (simp add: nodes_cancel)

lemma head_is_first:
  assumes "invar q" "nodes q = a # rest" "c \<in> set (nodes q)"
  shows "tm a \<le> tm c"
  using invar_sorted [OF assms(1)] assms(2,3) by auto

lemma head_not_due:
  assumes "invar q" "nodes q = a # rest" "now < tm a"
  shows "filter (\<lambda>c. tm c \<le> now) (nodes q) = []"
  using head_is_first [OF assms(1,2)] assms(3) by (fastforce simp: filter_empty_conv)

end

text \<open>The list of \<open>alarm.c\<close> keeps the order.\<close>

lemma alarm_insert_unfold:
  "alarm_insert a (c # cs) =
     (if alarm_time a < alarm_time c then a # c # cs else c # alarm_insert a cs)"
  by (auto simp: timeval_order)

lemma alarm_insert_sorted_form:
  "time_sorted as \<Longrightarrow>
   alarm_insert a as = filter (\<lambda>c. alarm_time c \<le> alarm_time a) as @
                       a # filter (\<lambda>c. alarm_time a < alarm_time c) as"
proof (induction as)
  case Nil
  show ?case by simp
next
  case (Cons c cs)
  then have IH: "alarm_insert a cs = filter (\<lambda>c. alarm_time c \<le> alarm_time a) cs @
                       a # filter (\<lambda>c. alarm_time a < alarm_time c) cs"
    by (simp add: time_sorted_def)
  show ?case
  proof (cases "alarm_time a < alarm_time c")
    case True
    with Cons.prems have later: "\<forall>x \<in> set cs. alarm_time a < alarm_time x"
      by (auto simp: time_sorted_def)
    then have "filter (\<lambda>c. alarm_time c \<le> alarm_time a) cs = []"
      by (auto simp: filter_empty_conv not_le)
    with True later show ?thesis
      by (simp add: alarm_insert_unfold del: alarm_insert.simps)
  next
    case False
    with IH show ?thesis
      by (simp add: alarm_insert_unfold del: alarm_insert.simps)
  qed
qed

lemma time_sorted_insert: "time_sorted as \<Longrightarrow> time_sorted (alarm_insert a as)"
  by (subst alarm_insert_sorted_form)
     (auto simp: time_sorted_def sorted_append intro: sorted_filter)

lemma alarm_remove_eq:
  "alarm_remove f as =
     (int (length (filter (\<lambda>c. alarm_f c = f) as)), filter (\<lambda>c. alarm_f c \<noteq> f) as)"
  by (induction as) auto

lemma time_sorted_filter: "time_sorted as \<Longrightarrow> time_sorted (filter P as)"
  by (simp add: time_sorted_def sorted_filter)

interpretation aq: timer_queue alarm_insert "\<lambda>f as. snd (alarm_remove f as)" "\<lambda>as. as"
    alarm_time alarm_f time_sorted
proof (unfold_locales, goal_cases)
  case 1 then show ?case by (simp add: time_sorted_def)
next
  case 2 then show ?case by (rule time_sorted_insert)
next
  case 3 then show ?case by (simp add: alarm_remove_eq time_sorted_filter)
next
  case 4 then show ?case by (rule alarm_insert_sorted_form)
next
  case 5 show ?case by (simp add: alarm_remove_eq)
qed

section \<open>Deadlines\<close>

lemma alarm_deadline_exact:
  assumes now: "normal_time now" "0 \<le> tv_sec now" "tv_sec now < 2 ^ 31 - 2147"
    and ms: "0 \<le> ms" "ms \<le> 2146000"
  shows "usecs (alarm_deadline now ms) = usecs now + ms * 1000"
    and "normal_time (alarm_deadline now ms)"
proof -
  let ?u = "tv_usec now + ms * 1000"
  have u: "0 \<le> ?u" "?u < 2 ^ 31" using now ms by (auto simp: normal_time_def)
  have m: "to_int32 (ms * 1000) = ms * 1000" using ms by (intro to_int32_id) auto
  have w: "to_int32 ?u = ?u" using u by (intro to_int32_id) auto
  have d: "?u sdiv 1000000 = ?u div 1000000" and r: "?u smod 1000000 = ?u mod 1000000"
    using u by (simp_all add: signed_divide_int_def signed_modulo_int_def minus_div_mult_eq_mod sgn_if)
  have "?u div 1000000 \<le> 2147" using u by simp
  then have t: "to_int32 (tv_sec now + ?u div 1000000) = tv_sec now + ?u div 1000000"
    using now u by (intro to_int32_id) (auto simp: pos_imp_zdiv_nonneg_iff)
  show "usecs (alarm_deadline now ms) = usecs now + ms * 1000"
    unfolding alarm_deadline_def by (simp add: m w d r t usecs_def Let_def)
  show "normal_time (alarm_deadline now ms)"
    unfolding alarm_deadline_def using u by (auto simp: m w d r t normal_time_def Let_def)
qed

section \<open>Expiry\<close>

text \<open>
  What the loop needs from the callbacks: in the states described by \<open>I\<close> they keep the order
  and \<open>I\<close> itself, and bring no due alarm in.
\<close>

definition calm_callbacks ::
  "(('c, 'f, 'k, 'z) alarm_state_scheme \<Rightarrow> bool) \<Rightarrow> timeval \<Rightarrow>
   ('f \<Rightarrow> 'k \<Rightarrow> (('c, 'f, 'k, 'z) alarm_state_scheme, unit) state) \<Rightarrow> bool" where
  "calm_callbacks I now call \<longleftrightarrow>
     (\<forall>s as. I s \<longrightarrow> I (s\<lparr>alarms := as\<rparr>)) \<and>
     (\<forall>f k s. I s \<and> time_sorted (alarms s) \<longrightarrow>
        I (exec (call f k) s) \<and> time_sorted (alarms (exec (call f k) s)) \<and>
        length (due now (alarms (exec (call f k) s))) \<le> length (due now (alarms s)))"

lemma due_Nil [simp]: "due now [] = []"
  by (simp add: due_def)

lemma due_Cons: "due now (a # as) = (if alarm_time a \<le> now then a # due now as else due now as)"
  by (simp add: due_def)

lemma not_yet_due:
  "(tv_sec now < tv_sec t \<or> tv_sec now = tv_sec t \<and> tv_usec now < tv_usec t) = (now < t)"
  by (auto simp: timeval_order)

lemma alarm_process_loop_step:
  "run_state (alarm_process_loop (Suc fuel) call now) s =
     (case alarms s of
        [] \<Rightarrow> (Some (), s)
      | a # rest \<Rightarrow>
          (if now < alarm_time a then (Some (), s)
           else run_state (alarm_process_loop fuel call now)
                  (exec (call (alarm_f a) (cookie a)) (s\<lparr>alarms := rest\<rparr>))))"
  by (auto simp: not_yet_due [symmetric] split: list.split prod.split)

declare alarm_process_loop.simps(2) [simp del]

lemma alarm_process_loop_complete:
  assumes calm: "calm_callbacks I now call"
  shows "I s \<Longrightarrow> time_sorted (alarms s) \<Longrightarrow> length (due now (alarms s)) < fuel \<Longrightarrow>
    eval_in (alarm_process_loop fuel call now) s = Some () \<and>
    time_sorted (alarms (exec (alarm_process_loop fuel call now) s)) \<and>
    due now (alarms (exec (alarm_process_loop fuel call now) s)) = []"
proof (induction fuel arbitrary: s)
  case 0
  then show ?case by simp
next
  case (Suc fuel)
  show ?case
  proof (cases "alarms s")
    case Nil
    with Suc.prems show ?thesis by (simp add: alarm_process_loop_step)
  next
    case (Cons a rest)
    show ?thesis
    proof (cases "now < alarm_time a")
      case True
      with aq.head_not_due [OF Suc.prems(2) Cons] have "due now (alarms s) = []"
        by (simp add: due_def)
      with True Cons Suc.prems show ?thesis
        by (simp add: alarm_process_loop_step)
    next
      case False
      let ?s = "s\<lparr>alarms := rest\<rparr>"
      let ?t = "exec (call (alarm_f a) (cookie a)) ?s"
      have pre: "I ?s" "time_sorted (alarms ?s)"
        using Suc.prems(1,2) Cons calm by (simp_all add: time_sorted_def calm_callbacks_def)
      then have t: "I ?t" "time_sorted (alarms ?t)"
        and "length (due now (alarms ?t)) \<le> length (due now (alarms ?s))"
        using calm unfolding calm_callbacks_def by blast+
      moreover have "length (due now rest) < fuel"
        using Suc.prems(3) Cons False by (simp add: due_Cons not_less)
      ultimately have less: "length (due now (alarms ?t)) < fuel" by simp
      have "run_state (alarm_process_loop (Suc fuel) call now) s =
            run_state (alarm_process_loop fuel call now) ?t"
        using False Cons by (simp add: alarm_process_loop_step)
      with Suc.IH [OF t less] show ?thesis by simp
    qed
  qed
qed

lemma div_1000_near: "0 \<le> (u :: int) - u div 1000 * 1000 \<and> u - u div 1000 * 1000 < 1000"
  by (simp add: minus_div_mult_eq_mod)

lemma sdiv_1000_near: "\<bar>(u :: int) sdiv 1000 * 1000 - u\<bar> < 1000"
proof (cases "0 \<le> u")
  case True
  then have "u sdiv 1000 = u div 1000" by (simp add: signed_divide_int_def sgn_if)
  with div_1000_near [of u] show ?thesis by linarith
next
  case False
  then have "u sdiv 1000 = - ((- u) div 1000)" by (simp add: signed_divide_int_def sgn_if)
  with div_1000_near [of "- u"] show ?thesis by linarith
qed

section \<open>Properties\<close>

text \<open>
  C6: \<open>alarm_set_relative\<close> links the new node into the queue at the place its expiry time
  asks for, behind every node that expires at the same time: the queue stays ordered, no
  other node is lost or moved, the call returns 0, and the expiry time is exactly \<open>ms\<close>
  milliseconds after the time read, with a normalised microsecond part.
\<close>

theorem alarm_set_relative_queues:
  assumes q: "time_sorted (alarms s)"
    and alloc: "run_state malloc s = (True, s\<^sub>1)"
    and clock: "run_state gettimeofday s\<^sub>1 = (now, s\<^sub>2)"
    and frame: "alarms s\<^sub>2 = alarms s"
    and now: "normal_time now" "0 \<le> tv_sec now" "tv_sec now < 2 ^ 31 - 2147"
    and ms: "0 \<le> ms" "ms \<le> 2146000"
  shows "let a = \<lparr>alarm_time = alarm_deadline now ms, alarm_f = f, cookie = k\<rparr>;
             m = alarm_set_relative malloc gettimeofday f k ms
         in run_state m s =
              (0, s\<^sub>2\<lparr>alarms := filter (\<lambda>c. alarm_time c \<le> alarm_time a) (alarms s) @
                              a # filter (\<lambda>c. alarm_time a < alarm_time c) (alarms s)\<rparr>)
            \<and> time_sorted (alarms (exec m s))
            \<and> usecs (alarm_time a) = usecs now + ms * 1000
            \<and> normal_time (alarm_time a)"
proof -
  let ?a = "\<lparr>alarm_time = alarm_deadline now ms, alarm_f = f, cookie = k\<rparr>"
  have "run_state (alarm_set_relative malloc gettimeofday f k ms) s =
        (0, s\<^sub>2\<lparr>alarms := alarm_insert ?a (alarms s)\<rparr>)"
    by (simp add: alarm_set_relative_def alloc clock frame)
  with aq.nodes_ins [OF q, of ?a] aq.invar_ins [OF q, of ?a] alarm_deadline_exact [OF now ms]
  show ?thesis by (simp add: Let_def)
qed

theorem alarm_set_relative_queues_witness:
  "eval_in (alarm_set_relative (return True) (return (Timeval 7 999000)) ''b'' () 2)
     (\<lparr>trace = [], fault = False,
       alarms = [\<lparr>alarm_time = Timeval 8 1000, alarm_f = ''a'', cookie = ()\<rparr>]\<rparr>
        :: (unit, string, unit) alarm_state) = 0"
  using alarm_set_relative_queues [of "\<lparr>trace = [], fault = False,
       alarms = [\<lparr>alarm_time = Timeval 8 1000, alarm_f = ''a'', cookie = ()\<rparr>]\<rparr>
        :: (unit, string, unit) alarm_state" "return True" _ "return (Timeval 7 999000)"
        "Timeval 7 999000" _ 2 "''b''" "()"]
  by (simp add: time_sorted_def normal_time_def Let_def)

text \<open>
  \<open>alarm_cancel\<close> removes every pending alarm with the given callback and nothing else,
  keeps the order of the rest, and returns how many it removed.
\<close>

lemma alarm_cancel_removes:
  "run_state (alarm_cancel f) s =
     (int (length (filter (\<lambda>a. alarm_f a = f) (alarms s))),
      s\<lparr>alarms := filter (\<lambda>a. alarm_f a \<noteq> f) (alarms s)\<rparr>)"
  by (simp add: alarm_cancel_def alarm_remove_eq)

lemma alarm_process_ends:
  assumes clock: "run_state gettimeofday s = (now, s\<^sub>1)"
    and q: "time_sorted (alarms s\<^sub>1)"
    and cb: "calm_callbacks I now call" "I s\<^sub>1"
    and fuel: "length (due now (alarms s\<^sub>1)) < fuel"
  shows "eval_in (alarm_process fuel gettimeofday call) s = Some () \<and>
         time_sorted (alarms (exec (alarm_process fuel gettimeofday call) s)) \<and>
         due now (alarms (exec (alarm_process fuel gettimeofday call) s)) = []"
  using alarm_process_loop_complete [OF cb q fuel] by (simp add: alarm_process_def clock)

text \<open>
  C5: \<open>alarm_process\<close> terminates and leaves no expired alarm behind: with one unit of fuel
  more than there are expired alarms at the time it reads, the loop ends normally, the queue
  is ordered and nothing in it is due, whatever callbacks ran, as long as the callbacks,
  started in states described by \<open>I\<close>, keep \<open>I\<close> and the order and bring in no alarm that is
  already due.
\<close>

theorem alarm_process_drains:
  assumes clock: "run_state gettimeofday s = (now, s\<^sub>1)"
    and q: "time_sorted (alarms s\<^sub>1)"
    and cb: "calm_callbacks I now call" "I s\<^sub>1"
    and fuel: "length (due now (alarms s\<^sub>1)) < fuel"
  shows "eval_in (alarm_process fuel gettimeofday call) s = Some () \<and>
         time_sorted (alarms (exec (alarm_process fuel gettimeofday call) s)) \<and>
         due now (alarms (exec (alarm_process fuel gettimeofday call) s)) = []"
  using assms by (rule alarm_process_ends)

theorem alarm_process_drains_witness:
  "eval_in (alarm_process 2 (return (Timeval 9 0)) (\<lambda>f k. return ()))
     (\<lparr>trace = [], fault = False,
       alarms = [\<lparr>alarm_time = Timeval 8 1000, alarm_f = ''a'', cookie = ()\<rparr>]\<rparr>
        :: (unit, string, unit) alarm_state) = Some ()"
  using alarm_process_drains [of "return (Timeval 9 0)" "\<lparr>trace = [], fault = False,
       alarms = [\<lparr>alarm_time = Timeval 8 1000, alarm_f = ''a'', cookie = ()\<rparr>]\<rparr>
        :: (unit, string, unit) alarm_state" "Timeval 9 0" _ "\<lambda>_. True" "\<lambda>f k. return ()" 2]
  by (simp add: time_sorted_def calm_callbacks_def due_def)

text \<open>
  The delay \<open>alarm_get_time_until_next\<close> hands to the event loop is less than one
  millisecond away from the true distance to the first alarm, and it is below 1 (the event
  loop then runs \<open>alarm_process\<close>) whenever that alarm is due. No alarm at all gives the
  largest \<open>int\<close>.
\<close>

lemma alarm_delay_accurate:
  assumes clock: "run_state gettimeofday s = (now, s\<^sub>1)"
    and time: "normal_time now" "normal_time (alarm_time a)"
    and near: "\<bar>tv_sec (alarm_time a) - tv_sec now\<bar> < 2000000"
    and first: "alarms s = a # rest"
  shows "let d = eval_in (alarm_get_time_until_next gettimeofday) s
         in \<bar>d * 1000 - (usecs (alarm_time a) - usecs now)\<bar> < 1000
            \<and> (alarm_time a \<le> now \<longrightarrow> d < 1)
            \<and> eval_in (alarm_get_time_until_next gettimeofday) (s\<lparr>alarms := []\<rparr>) = 2 ^ 31 - 1"
proof -
  define x where "x = tv_sec (alarm_time a) - tv_sec now"
  define u where "u = tv_usec (alarm_time a) - tv_usec now"
  have u: "- 1000000 < u" "u < 1000000"
    using time by (auto simp: u_def normal_time_def)
  have q: "- 1000 \<le> u sdiv 1000" "u sdiv 1000 \<le> 1000" "\<bar>u sdiv 1000 * 1000 - u\<bar> < 1000"
    using u sdiv_1000_near [of u] by auto
  have d: "to_int32 (x * 1000 + u sdiv 1000) = x * 1000 + u sdiv 1000"
    using near q by (intro to_int32_id) (auto simp: x_def)
  have diff: "usecs (alarm_time a) - usecs now = x * 1000000 + u"
    by (simp add: usecs_def x_def u_def algebra_simps)
  have "x * 1000000 + u \<le> 0" if "alarm_time a \<le> now"
    using that usecs_le_iff [OF time(2,1)] diff by simp
  moreover have "eval_in (alarm_get_time_until_next gettimeofday) s = x * 1000 + u sdiv 1000"
    using d first unfolding x_def u_def by (simp add: alarm_get_time_until_next_def clock)
  ultimately show ?thesis
    using q diff by (auto simp: Let_def alarm_get_time_until_next_def)
qed

lemma alarm_delay_accurate_witness:
  "eval_in (alarm_get_time_until_next (return (Timeval 8 0)))
     (\<lparr>trace = [], fault = False,
       alarms = [\<lparr>alarm_time = Timeval 7 1000, alarm_f = ''a'', cookie = ()\<rparr>]\<rparr>
        :: (unit, string, unit) alarm_state) < 1"
  using alarm_delay_accurate [of "return (Timeval 8 0)" "\<lparr>trace = [], fault = False,
       alarms = [\<lparr>alarm_time = Timeval 7 1000, alarm_f = ''a'', cookie = ()\<rparr>]\<rparr>
        :: (unit, string, unit) alarm_state" "Timeval 8 0" _
        "\<lparr>alarm_time = Timeval 7 1000, alarm_f = ''a'', cookie = ()\<rparr>" "[]"]
  by (simp add: Let_def normal_time_def timeval_order)

end
