(* ===== verification/Charge_Hardware.thy ===== *)
theory Charge_Hardware
  imports Alarm
begin

text \<open>
  State and hardware access of the charge-only-mode program
  (\<open>src/charge_only_mode/hardware.c\<close>, \<open>hardware.h\<close>): reading the power supply out of
  \<open>sysfs\<close>, the battery LED and the back light. \<open>com_state\<close> holds every global and every
  function-static variable of the program; \<open>com_call\<close> the calls it makes.

  \<open>set_brightness\<close> takes its \<open>float\<close> argument in hundredths (the callers pass 0.0, 0.4, 0.8
  and 1.0; for these the truncated product with 255 is the same).
\<close>

unbundle bit_operations_syntax

section \<open>Calls and state of the program\<close>

datatype com_call =
    Open string | OpenCreate string | Close int
  | Read int nat | Write int string
  | Malloc | Gettimeofday
  | Socket | Setsockopt int | Bind int | Fcntl int
  | Poll "int list" int | Recv int nat
  | Ioctl int string | Mmap int | Munmap
  | DrawInit | DrawUninit | DrawFrame int bool | CopyToFramebuffer int | ShowLogo
  | Truncate string | Sync | Sleep nat | System string
  | RebootPowerOff | RebootRestart2 string

text \<open>The functions of \<open>main.c\<close> that are handed to the timer queue.\<close>

datatype com_alarm =
    Animation_alarm | Screen_brightness_animation_alarm1
  | Screen_brightness_animation_alarm2 | Power_key_alarm

datatype ev_kind = EV_TYPE_UNKNOWN | EV_TYPE_KEYBOARD | EV_TYPE_UEVENT

record com_state = "(com_call, com_alarm, unit) alarm_state" +
  quit :: bool
  launched :: bool
  shutdown :: bool
  powerup :: bool
  powerup_latch :: bool
  counter :: nat
  ev_fds :: "(int \<times> ev_kind) list"
  uev_count :: nat
  fb_fd :: int
  blank :: bool
  yres :: int
  yoffset :: int

type_synonym 'a com = "(com_state, 'a) state"

definition init_com :: com_state where
  "init_com = \<lparr>trace = [], fault = False, alarms = [], quit = False, launched = False,
     shutdown = False, powerup = False, powerup_latch = False, counter = 0,
     ev_fds = [], uev_count = 0, fb_fd = 0, blank = False, yres = 0, yoffset = 0\<rparr>"

record device_state =
  is_plugged_into_ac :: int
  is_plugged_into_usb :: int
  is_battery_present :: int
  is_charging :: int
  is_discharging :: int
  is_unknown :: int
  charge_level :: int
  voltage_level :: int

section \<open>Reading parameters\<close>

definition sys_get_int_parameter :: "com_call os \<Rightarrow> string \<Rightarrow> int \<Rightarrow> int com" where
  "sys_get_int_parameter os path missing_value = do {
     fd \<leftarrow> syscall os (Open path);
     if ret_val fd < 0 then return missing_value
     else do {
       r \<leftarrow> syscall os (Read (ret_val fd) 1023);
       syscall os (Close (ret_val fd));
       if ret_val r < 0 then return missing_value
       else return (atoi (cstr (take (nat (ret_val r)) (ret_data r))))
     }
   }"

definition sys_get_string_parameter :: "com_call os \<Rightarrow> string \<Rightarrow> nat \<Rightarrow> (int \<times> string) com" where
  "sys_get_string_parameter os path sz = do {
     fd \<leftarrow> syscall os (Open path);
     if ret_val fd < 0 then return (0, [])
     else do {
       r \<leftarrow> syscall os (Read (ret_val fd) (sz - 1));
       syscall os (Close (ret_val fd));
       if ret_val r \<ge> 0
       then return (ret_val r, cstr (take (nat (ret_val r)) (ret_data r)))
       else return (ret_val r, [])
     }
   }"

definition status_is :: "com_call os \<Rightarrow> string \<Rightarrow> nat \<Rightarrow> int com" where
  "status_is os word n = do {
     (r, status) \<leftarrow> sys_get_string_parameter os ''/sys/class/power_supply/battery/status'' 128;
     if r < 0 then return 0
     else return (if strncmp_eq status word n then 1 else 0)
   }"

definition get_device_state :: "com_call os \<Rightarrow> device_state com" where
  "get_device_state os = do {
     ac \<leftarrow> sys_get_int_parameter os ''/sys/class/power_supply/ac/online'' 0;
     usb \<leftarrow> sys_get_int_parameter os ''/sys/class/power_supply/usb/online'' 0;
     present \<leftarrow> sys_get_int_parameter os ''/sys/class/power_supply/battery/present'' 0;
     charging \<leftarrow> status_is os ''Charging'' 8;
     discharging \<leftarrow> status_is os ''Discharging'' 11;
     unknown \<leftarrow> status_is os ''Unknown'' 7;
     level \<leftarrow> sys_get_int_parameter os ''/sys/class/power_supply/battery/capacity'' 0;
     voltage \<leftarrow> sys_get_int_parameter os ''/sys/class/power_supply/battery/voltage_now'' 0;
     return \<lparr>is_plugged_into_ac = ac, is_plugged_into_usb = usb, is_battery_present = present,
       is_charging = charging, is_discharging = discharging, is_unknown = unknown,
       charge_level = level, voltage_level = voltage\<rparr>
   }"

section \<open>LED and back light\<close>

definition write_string :: "com_call os \<Rightarrow> string \<Rightarrow> string \<Rightarrow> int com" where
  "write_string os file str = do {
     fd \<leftarrow> syscall os (Open file);
     if ret_val fd < 0 then return (ret_errno fd)
     else do {
       amt \<leftarrow> syscall os (Write (ret_val fd) str);
       syscall os (Close (ret_val fd));
       return (if ret_val amt \<ge> 0 then 0 else ret_errno amt)
     }
   }"

abbreviation RED_BRIGHTNESS_FILE :: string where
  "RED_BRIGHTNESS_FILE \<equiv> ''/sys/class/leds/red/brightness''"
abbreviation GREEN_BRIGHTNESS_FILE :: string where
  "GREEN_BRIGHTNESS_FILE \<equiv> ''/sys/class/leds/green/brightness''"
abbreviation BLINK_ENABLE_FILE :: string where
  "BLINK_ENABLE_FILE \<equiv> ''/sys/class/leds/red/blink''"

definition led_red :: "32 word \<Rightarrow> nat" where
  "led_red color = unat (drop_bit 16 color AND 0xFF)"

definition led_green :: "32 word \<Rightarrow> nat" where
  "led_green color = unat (drop_bit 8 color AND 0xFF)"

definition set_led_state :: "com_call os \<Rightarrow> 32 word \<Rightarrow> int \<Rightarrow> int \<Rightarrow> int com" where
  "set_led_state os color on_ms off_ms =
     (let dark = color AND 0xff000000 = 0 \<or> color AND 0x00ffffff = 0;
          on' = (if dark then 0 else on_ms);
          off' = (if dark then 0 else off_ms)
      in if on' > 0 \<and> off' > 0
         then do {
           write_string os RED_BRIGHTNESS_FILE (show_nat (led_red color));
           write_string os GREEN_BRIGHTNESS_FILE (show_nat (led_green color));
           write_string os BLINK_ENABLE_FILE (show_nat 1);
           return 0
         }
         else do {
           write_string os BLINK_ENABLE_FILE (show_nat 0);
           write_string os RED_BRIGHTNESS_FILE (show_nat (led_red color));
           write_string os GREEN_BRIGHTNESS_FILE (show_nat (led_green color));
           return 0
         })"

abbreviation LOW_BATTERY_THRESHOLD :: int where "LOW_BATTERY_THRESHOLD \<equiv> 10"
abbreviation LED_ON_THRESHOLD :: int where "LED_ON_THRESHOLD \<equiv> 90"

definition led_color :: "device_state \<Rightarrow> 32 word" where
  "led_color d =
     (if charge_level d < LOW_BATTERY_THRESHOLD then 0xFFFF0000
      else if charge_level d < LED_ON_THRESHOLD then 0xFFFFFF00
      else 0xFF00FF00)"

definition set_battery_led :: "com_call os \<Rightarrow> device_state \<Rightarrow> unit com" where
  "set_battery_led os d = do { set_led_state os (led_color d) 0 0; return () }"

definition backlight_text :: "int \<Rightarrow> string" where
  "backlight_text hundredths = show_int (255 * hundredths div 100) @ [CHR 0x0A]"

definition set_brightness :: "com_call os \<Rightarrow> int \<Rightarrow> unit com" where
  "set_brightness os hundredths = do {
     fd1 \<leftarrow> syscall os (Open ''/sys/class/backlight/lcd-backlight/brightness'');
     fd \<leftarrow> (if ret_val fd1 < 0
           then syscall os (Open ''/sys/class/backlight/lm3532_bl/brightness'')
           else return fd1);
     if ret_val fd < 0 then return ()
     else do {
       syscall os (Write (ret_val fd) (backlight_text hundredths));
       syscall os (Close (ret_val fd));
       return ()
     }
   }"

definition set_button_brightness :: "com_call os \<Rightarrow> int \<Rightarrow> unit com" where
  "set_button_brightness os hundredths = do {
     fd \<leftarrow> syscall os (Open ''/sys/class/leds/button-backlight/brightness'');
     if ret_val fd < 0 then return ()
     else do {
       syscall os (Write (ret_val fd) (backlight_text hundredths));
       syscall os (Close (ret_val fd));
       return ()
     }
   }"

section \<open>What these functions leave alone\<close>

lemma quiet_sys_get_int_parameter [quiet_rules]: "quiet (sys_get_int_parameter os p v)"
  unfolding sys_get_int_parameter_def by (intro quiet_rules)

lemma quiet_status_is [quiet_rules]: "quiet (status_is os w n)"
  unfolding status_is_def sys_get_string_parameter_def by (intro quiet_rules)

lemma quiet_get_device_state [quiet_rules]: "quiet (get_device_state os)"
  unfolding get_device_state_def by (intro quiet_rules)

lemma quiet_write_string [quiet_rules]: "quiet (write_string os f x)"
  unfolding write_string_def by (intro quiet_rules)

lemma quiet_set_battery_led [quiet_rules]: "quiet (set_battery_led os d)"
  unfolding set_battery_led_def set_led_state_def by (intro quiet_rules)

lemma quiet_set_brightness [quiet_rules]: "quiet (set_brightness os p)"
  unfolding set_brightness_def by (intro quiet_rules)

lemma quiet_set_button_brightness [quiet_rules]: "quiet (set_button_brightness os p)"
  unfolding set_button_brightness_def by (intro quiet_rules)

end
