(* ===== verification/Charge_Events.thy ===== *)
theory Charge_Events
  imports Charge_Hardware
begin

text \<open>
  Input events and the screen of the charge-only-mode program
  (\<open>src/charge_only_mode/events.c\<close>, \<open>events.h\<close>, \<open>screen.c\<close>). \<open>ev_fds\<close> pairs each entry of
  the C arrays \<open>ev_fds\<close> and \<open>ev_type\<close>; \<open>ev_count\<close> is its length. The answer of \<open>poll\<close>
  carries one character of \<open>revents\<close> per descriptor, the answer of \<open>read\<close> the 16 bytes of a
  \<open>struct input_event\<close>. Drawing a frame (\<open>draw.c\<close>) and copying it to the frame buffer are
  recorded as calls; their pixels are not part of this theory.
\<close>

section \<open>Events\<close>

abbreviation EVENT_QUIT :: int where "EVENT_QUIT \<equiv> 1"
abbreviation EVENT_BATTERY :: int where "EVENT_BATTERY \<equiv> 2"
abbreviation EVENT_POWER_KEY_DOWN :: int where "EVENT_POWER_KEY_DOWN \<equiv> 3"
abbreviation EVENT_POWER_KEY_UP :: int where "EVENT_POWER_KEY_UP \<equiv> 4"
abbreviation EVENT_VOLUMEDOWN_KEY_DOWN :: int where "EVENT_VOLUMEDOWN_KEY_DOWN \<equiv> 5"
abbreviation EVENT_VOLUMEDOWN_KEY_UP :: int where "EVENT_VOLUMEDOWN_KEY_UP \<equiv> 6"
abbreviation EVENT_VOLUMEUP_KEY_DOWN :: int where "EVENT_VOLUMEUP_KEY_DOWN \<equiv> 7"
abbreviation EVENT_VOLUMEUP_KEY_UP :: int where "EVENT_VOLUMEUP_KEY_UP \<equiv> 8"
abbreviation EVENT_CAMERA_KEY_DOWN :: int where "EVENT_CAMERA_KEY_DOWN \<equiv> 9"
abbreviation EVENT_CAMERA_KEY_UP :: int where "EVENT_CAMERA_KEY_UP \<equiv> 10"

abbreviation MAX_DEVICES :: nat where "MAX_DEVICES \<equiv> 16"
abbreviation CHARGER_DRIVER :: string where "CHARGER_DRIVER \<equiv> ''pm8921-charger''"

text \<open>Key codes of \<open>linux/input.h\<close>; \<open>EV_KEY\<close> is 1.\<close>

abbreviation KEY_VOLUMEDOWN :: nat where "KEY_VOLUMEDOWN \<equiv> 114"
abbreviation KEY_VOLUMEUP :: nat where "KEY_VOLUMEUP \<equiv> 115"
abbreviation KEY_POWER :: nat where "KEY_POWER \<equiv> 116"
abbreviation KEY_CAMERA :: nat where "KEY_CAMERA \<equiv> 212"

definition byte_at :: "string \<Rightarrow> nat \<Rightarrow> nat" where
  "byte_at b i = (if i < length b then of_char (b ! i) else 0)"

definition u16_at :: "string \<Rightarrow> nat \<Rightarrow> nat" where
  "u16_at b i = byte_at b i + 256 * byte_at b (i + 1)"

definition s32_at :: "string \<Rightarrow> nat \<Rightarrow> int" where
  "s32_at b i = to_int32 (int (u16_at b i + 65536 * u16_at b (i + 2)))"

text \<open>The chain of tests \<open>ev_get\<close> makes on a complete \<open>input_event\<close>.\<close>

definition key_event :: "nat \<Rightarrow> nat \<Rightarrow> int \<Rightarrow> int" where
  "key_event type code val =
     (if type = 1 \<and> code = KEY_POWER \<and> val = 1 then EVENT_POWER_KEY_DOWN
      else if type = 1 \<and> code = KEY_POWER \<and> val = 0 then EVENT_POWER_KEY_UP
      else if type = 1 \<and> code = KEY_VOLUMEDOWN \<and> val = 1 then EVENT_VOLUMEDOWN_KEY_DOWN
      else if type = 1 \<and> code = KEY_VOLUMEDOWN \<and> val = 0 then EVENT_VOLUMEDOWN_KEY_UP
      else if type = 1 \<and> code = KEY_VOLUMEUP \<and> val = 1 then EVENT_VOLUMEUP_KEY_DOWN
      else if type = 1 \<and> code = KEY_VOLUMEUP \<and> val = 0 then EVENT_VOLUMEUP_KEY_UP
      else if type = 1 \<and> code = KEY_CAMERA \<and> val = 1 then EVENT_CAMERA_KEY_DOWN
      else if type = 1 \<and> code = KEY_CAMERA \<and> val = 0 then EVENT_CAMERA_KEY_UP
      else -1)"

section \<open>Opening the sources\<close>

definition open_uevent_socket :: "com_call os \<Rightarrow> int com" where
  "open_uevent_socket os = do {
     s \<leftarrow> syscall os Socket;
     if ret_val s < 0 then return (-1)
     else do {
       syscall os (Setsockopt (ret_val s));
       b \<leftarrow> syscall os (Bind (ret_val s));
       if ret_val b < 0 then do { syscall os (Close (ret_val s)); return (-1) }
       else return (ret_val s)
     }
   }"

text \<open>\<open>ev_fds[ev_count++] = fd\<close>: past \<open>MAX_DEVICES\<close> entries the arrays are overrun.\<close>

definition ev_add :: "int \<Rightarrow> ev_kind \<Rightarrow> unit com" where
  "ev_add fd kind = do {
     fds \<leftarrow> gets ev_fds;
     if length fds < MAX_DEVICES then modify (\<lambda>s. s\<lparr>ev_fds := fds @ [(fd, kind)]\<rparr>)
     else undefined_behaviour
   }"

text \<open>The unbounded \<open>for\<close> loop of \<open>ev_init\<close>; it leaves the arrays before \<open>n\<close> runs out.\<close>

fun ev_open_inputs :: "com_call os \<Rightarrow> nat \<Rightarrow> nat \<Rightarrow> unit com" where
  "ev_open_inputs os 0 i = undefined_behaviour"
| "ev_open_inputs os (Suc n) i = do {
     fd \<leftarrow> syscall os (Open (''/dev/input/event'' @ show_nat i));
     if ret_val fd < 0 then return ()
     else do { ev_add (ret_val fd) EV_TYPE_KEYBOARD; ev_open_inputs os n (i + 1) }
   }"

definition ev_init :: "com_call os \<Rightarrow> int com" where
  "ev_init os = do {
     ev_open_inputs os (Suc MAX_DEVICES) 0;
     fd \<leftarrow> open_uevent_socket os;
     if fd \<ge> 0 then do {
       syscall os (Fcntl fd);
       syscall os (Fcntl fd);
       n \<leftarrow> gets (\<lambda>s. length (ev_fds s));
       ev_add fd EV_TYPE_UEVENT;
       modify (\<lambda>s. s\<lparr>uev_count := n\<rparr>);
       return 0
     } else return 0
   }"

fun close_all :: "com_call os \<Rightarrow> int list \<Rightarrow> unit com" where
  "close_all os [] = return ()"
| "close_all os (fd # fds) = do { syscall os (Close fd); close_all os fds }"

definition ev_exit :: "com_call os \<Rightarrow> unit com" where
  "ev_exit os = do {
     fds \<leftarrow> gets ev_fds;
     close_all os (rev (map fst fds));
     modify (\<lambda>s. s\<lparr>ev_fds := []\<rparr>)
   }"

section \<open>Waiting\<close>

text \<open>
  \<open>while (recv(fd, msg, sizeof msg, 0) > 0);\<close> Each message overwrites the front of the
  buffer. \<open>fuel\<close> bounds the number of messages; a socket that never runs dry is a fault.
\<close>

fun recv_drain :: "com_call os \<Rightarrow> nat \<Rightarrow> int \<Rightarrow> string \<Rightarrow> string com" where
  "recv_drain os 0 fd msg = do { undefined_behaviour; return msg }"
| "recv_drain os (Suc fuel) fd msg = do {
     r \<leftarrow> syscall os (Recv fd 1024);
     if ret_val r > 0
     then (let d = take (nat (ret_val r)) (ret_data r)
           in recv_drain os fuel fd (d @ drop (length d) msg))
     else return msg
   }"

text \<open>\<open>strstr(msg, CHARGER_DRIVER)\<close> reads on until a NUL, past what was received if there is none.\<close>

definition charger_message :: "string \<Rightarrow> bool com" where
  "charger_message msg =
     (if NUL \<in> set msg then return (strstr (cstr msg) CHARGER_DRIVER \<noteq> None)
      else do { undefined_behaviour; return False })"

definition pollin :: "string \<Rightarrow> nat \<Rightarrow> bool" where
  "pollin revents i \<longleftrightarrow> odd (byte_at revents i)"

fun ev_scan :: "com_call os \<Rightarrow> nat \<Rightarrow> string \<Rightarrow> nat \<Rightarrow> (int \<times> ev_kind) list \<Rightarrow> int com" where
  "ev_scan os fuel revents i [] = return (-1)"
| "ev_scan os fuel revents i ((fd, kind) # rest) =
     (if \<not> pollin revents i then ev_scan os fuel revents (i + 1) rest
      else case kind of
        EV_TYPE_KEYBOARD \<Rightarrow> do {
          r \<leftarrow> syscall os (Read fd 16);
          if ret_val r = 16
          then return (key_event (u16_at (ret_data r) 8) (u16_at (ret_data r) 10)
                         (s32_at (ret_data r) 12))
          else ev_scan os fuel revents (i + 1) rest
        }
      | EV_TYPE_UEVENT \<Rightarrow> do {
          msg \<leftarrow> recv_drain os fuel fd [];
          hit \<leftarrow> charger_message msg;
          if hit then return EVENT_BATTERY else ev_scan os fuel revents (i + 1) rest
        }
      | EV_TYPE_UNKNOWN \<Rightarrow> ev_scan os fuel revents (i + 1) rest)"

definition ev_get :: "com_call os \<Rightarrow> nat \<Rightarrow> int \<Rightarrow> int com" where
  "ev_get os fuel timeout_ms = do {
     fds \<leftarrow> gets ev_fds;
     r \<leftarrow> syscall os (Poll (map fst fds) timeout_ms);
     if ret_val r \<le> 0 then return (-1)
     else ev_scan os fuel (ret_data r) 0 fds
   }"

definition uev_get :: "com_call os \<Rightarrow> nat \<Rightarrow> int \<Rightarrow> int com" where
  "uev_get os fuel timeout_ms = do {
     fds \<leftarrow> gets ev_fds;
     n \<leftarrow> gets uev_count;
     let (fd, kind) = (if n < length fds then fds ! n else (0, EV_TYPE_UNKNOWN));
     r \<leftarrow> syscall os (Poll [fd] timeout_ms);
     if ret_val r \<le> 0 then return (-1)
     else if \<not> pollin (ret_data r) 0 then return (-1)
     else if kind = EV_TYPE_UEVENT then do {
       msg \<leftarrow> recv_drain os fuel fd [];
       hit \<leftarrow> charger_message msg;
       return (if hit then EVENT_BATTERY else -1)
     }
     else return (-1)
   }"

section \<open>The screen\<close>

definition vt_set_mode :: "com_call os \<Rightarrow> int com" where
  "vt_set_mode os = do {
     fd \<leftarrow> syscall os (Open ''/dev/tty0'');
     if ret_val fd < 0 then return (-1)
     else do {
       r \<leftarrow> syscall os (Ioctl (ret_val fd) ''KDSETMODE'');
       syscall os (Close (ret_val fd));
       return (ret_val r)
     }
   }"

definition fb_open :: "com_call os \<Rightarrow> int com" where
  "fb_open os = do {
     vt_set_mode os;
     fd \<leftarrow> syscall os (Open ''/dev/graphics/fb0'');
     modify (\<lambda>s. s\<lparr>fb_fd := ret_val fd\<rparr>);
     if ret_val fd < 0 then return (-1)
     else do {
       fi \<leftarrow> syscall os (Ioctl (ret_val fd) ''FBIOGET_FSCREENINFO'');
       if ret_val fi < 0 then do { syscall os (Close (ret_val fd)); return (-1) }
       else do {
         vi \<leftarrow> syscall os (Ioctl (ret_val fd) ''FBIOGET_VSCREENINFO'');
         if ret_val vi < 0 then do { syscall os (Close (ret_val fd)); return (-1) }
         else do {
           modify (\<lambda>s. s\<lparr>yres := ret_aux vi\<rparr>);
           m \<leftarrow> syscall os (Mmap (ret_val fd));
           if ret_val m < 0 then do { syscall os (Close (ret_val fd)); return (-1) }
           else return 0
         }
       }
     }
   }"

definition fb_close :: "com_call os \<Rightarrow> unit com" where
  "fb_close os = do {
     fd \<leftarrow> gets fb_fd;
     syscall os Munmap;
     syscall os (Close fd);
     return ()
   }"

definition screen_init :: "com_call os \<Rightarrow> int com" where
  "screen_init os = do {
     r \<leftarrow> fb_open os;
     if r \<noteq> 0 then return (-1)
     else do {
       syscall os Malloc;
       d \<leftarrow> syscall os DrawInit;
       if ret_val d \<noteq> 0 then do { fb_close os; return (-1) } else return 0
     }
   }"

definition screen_update :: "com_call os \<Rightarrow> int \<Rightarrow> bool \<Rightarrow> int com" where
  "screen_update os percentage error = do {
     modify (\<lambda>s. s\<lparr>yoffset := (if yoffset s \<noteq> 0 then 0 else yres s)\<rparr>);
     syscall os (DrawFrame percentage error);
     s \<leftarrow> get;
     syscall os (CopyToFramebuffer (yoffset s));
     (if \<not> blank s then do { syscall os (Ioctl (fb_fd s) ''FBIOPUT_VSCREENINFO''); return 0 }
      else return 0)
   }"

definition screen_uninit :: "com_call os \<Rightarrow> unit com" where
  "screen_uninit os = do {
     syscall os ShowLogo;
     fb_close os;
     syscall os DrawUninit;
     return ()
   }"

definition display_blank :: "com_call os \<Rightarrow> unit com" where
  "display_blank os = do {
     fd \<leftarrow> gets fb_fd;
     syscall os (Ioctl fd ''FBIOBLANK:VESA_POWERDOWN'');
     modify (\<lambda>s. s\<lparr>blank := True\<rparr>)
   }"

definition display_unblank :: "com_call os \<Rightarrow> unit com" where
  "display_unblank os = do {
     fd \<leftarrow> gets fb_fd;
     syscall os (Ioctl fd ''FBIOBLANK:VESA_NO_BLANKING'');
     modify (\<lambda>s. s\<lparr>blank := False\<rparr>)
   }"

end
