(* ===== verification/Charge_Main.thy ===== *)
theory Charge_Main
  imports Charge_Events
begin

text \<open>
  The charge-only-mode program itself, \<open>src/charge_only_mode/main.c\<close>: the display cycle
  driven by the timer queue, the reaction to keys and to the power supply, the power-off when
  the charger goes away and the reboot on a long press of the power key. \<open>com_step\<close> is one
  pass of the event loop of \<open>main\<close>, \<open>com_loop\<close> the loop and \<open>com_main\<close> the program.

  The properties: the queue is ordered in every reachable state and \<open>alarm_process\<close> always
  terminates when the clock does not run backwards; the phone is powered off only after both
  supplies were seen unplugged; what is shown is always a percentage; the memory test is armed
  only by the complete key sequence.
\<close>

abbreviation ANIMATION_TIMEOUT :: int where "ANIMATION_TIMEOUT \<equiv> 500"
abbreviation POWERUP_VOLTAGE :: int where "POWERUP_VOLTAGE \<equiv> 3600000"
abbreviation FS_PATH :: string where "FS_PATH \<equiv> ''/data/chargeonlymode''"

section \<open>Library calls\<close>

definition c_malloc :: "com_call os \<Rightarrow> bool com" where
  "c_malloc os = do { r \<leftarrow> syscall os Malloc; return (ret_val r \<noteq> 0) }"

definition timeval_of :: "ret \<Rightarrow> timeval" where
  "timeval_of r = Timeval (ret_val r) (ret_aux r)"

definition c_gettimeofday :: "com_call os \<Rightarrow> timeval com" where
  "c_gettimeofday os = do { r \<leftarrow> syscall os Gettimeofday; return (timeval_of r) }"

definition set_alarm :: "com_call os \<Rightarrow> com_alarm \<Rightarrow> int \<Rightarrow> int com" where
  "set_alarm os f ms = alarm_set_relative (c_malloc os) (c_gettimeofday os) f () ms"

definition cancel_alarm :: "com_alarm \<Rightarrow> int com" where
  "cancel_alarm f = alarm_cancel f"

section \<open>The program\<close>

definition save_mode :: "com_call os \<Rightarrow> string \<Rightarrow> int com" where
  "save_mode os path = do {
     fd \<leftarrow> syscall os (OpenCreate path);
     if ret_val fd < 0 then return (-1)
     else do {
       syscall os (Write (ret_val fd) (''charging'' @ [NUL]));
       syscall os (Close (ret_val fd));
       return 0
     }
   }"

definition clear_mode :: "com_call os \<Rightarrow> string \<Rightarrow> int com" where
  "clear_mode os path = do {
     r \<leftarrow> syscall os (Truncate path);
     syscall os Sync;
     syscall os (Sleep 1);
     return (ret_val r)
   }"

definition screen_brightness_animation_alarm2 :: "com_call os \<Rightarrow> unit com" where
  "screen_brightness_animation_alarm2 os = do {
     set_brightness os 0;
     cancel_alarm Animation_alarm;
     down \<leftarrow> gets shutdown;
     whenM down (do {
       clear_mode os FS_PATH;
       syscall os RebootPowerOff;
       return ()
     });
     display_blank os
   }"

definition screen_brightness_animation_alarm1 :: "com_call os \<Rightarrow> unit com" where
  "screen_brightness_animation_alarm1 os = do {
     set_brightness os 40;
     set_alarm os Screen_brightness_animation_alarm2 10000;
     return ()
   }"

definition screen_brightness_animation_start :: "com_call os \<Rightarrow> int \<Rightarrow> unit com" where
  "screen_brightness_animation_start os animation_timeout = do {
     display_unblank os;
     set_brightness os 80;
     set_alarm os Screen_brightness_animation_alarm1 5000;
     set_alarm os Animation_alarm animation_timeout;
     return ()
   }"

text \<open>The charge level that is shown: clamped, and 0 until the voltage was once high enough.\<close>

definition clamp_level :: "int \<Rightarrow> int" where
  "clamp_level l = (if l > 100 then 100 else if l < 0 then 0 else l)"

definition shown_level :: "device_state \<Rightarrow> bool \<Rightarrow> int" where
  "shown_level d latch =
     (if voltage_level d \<ge> POWERUP_VOLTAGE \<or> latch then clamp_level (charge_level d) else 0)"

definition supply_error :: "device_state \<Rightarrow> bool" where
  "supply_error d \<longleftrightarrow>
     (is_discharging d \<noteq> 0 \<and> (is_plugged_into_ac d \<noteq> 0 \<or> is_plugged_into_usb d \<noteq> 0))
     \<or> is_battery_present d = 0 \<or> is_unknown d \<noteq> 0"

definition power_event :: "com_call os \<Rightarrow> bool \<Rightarrow> unit com" where
  "power_event os update_leds = do {
     d0 \<leftarrow> get_device_state os;
     latch \<leftarrow> gets powerup_latch;
     let ok = (voltage_level d0 \<ge> POWERUP_VOLTAGE);
     modify (\<lambda>s. s\<lparr>powerup := ok, powerup_latch := powerup_latch s \<or> ok\<rparr>);
     let d = d0\<lparr>charge_level := shown_level d0 latch\<rparr>;
     screen_update os (charge_level d) (supply_error d);
     whenM update_leds (set_battery_led os d);
     down \<leftarrow> gets shutdown;
     whenM (\<not> down \<and> is_plugged_into_ac d = 0 \<and> is_plugged_into_usb d = 0) (do {
       modify (\<lambda>s. s\<lparr>shutdown := True\<rparr>);
       cancel_alarm Screen_brightness_animation_alarm2;
       cancel_alarm Screen_brightness_animation_alarm1;
       screen_brightness_animation_alarm2 os
     })
   }"

definition animation_alarm :: "com_call os \<Rightarrow> unit com" where
  "animation_alarm os = do {
     set_alarm os Animation_alarm ANIMATION_TIMEOUT;
     power_event os False
   }"

definition power_key_alarm :: "com_call os \<Rightarrow> unit com" where
  "power_key_alarm os = do {
     cancel_alarm Screen_brightness_animation_alarm2;
     cancel_alarm Screen_brightness_animation_alarm1;
     cancel_alarm Animation_alarm;
     l \<leftarrow> gets launched;
     whenM l (do { syscall os (System ''/system/bin/memtest_mode''); return () });
     clear_mode os FS_PATH;
     r \<leftarrow> syscall os (RebootRestart2 ''outofcharge'');
     whenM (\<not> ret_val r < 0) (modify (\<lambda>s. s\<lparr>quit := True\<rparr>))
   }"

definition run_alarm :: "com_call os \<Rightarrow> com_alarm \<Rightarrow> unit \<Rightarrow> unit com" where
  "run_alarm os f k =
     (case f of
        Animation_alarm \<Rightarrow> animation_alarm os
      | Screen_brightness_animation_alarm1 \<Rightarrow> screen_brightness_animation_alarm1 os
      | Screen_brightness_animation_alarm2 \<Rightarrow> screen_brightness_animation_alarm2 os
      | Power_key_alarm \<Rightarrow> power_key_alarm os)"

definition update_screen_on_wakeup_key :: "com_call os \<Rightarrow> unit com" where
  "update_screen_on_wakeup_key os = do {
     cancel_alarm Screen_brightness_animation_alarm2;
     cancel_alarm Animation_alarm;
     n \<leftarrow> cancel_alarm Screen_brightness_animation_alarm1;
     if n \<noteq> 0 then screen_brightness_animation_alarm2 os
     else screen_brightness_animation_start os ANIMATION_TIMEOUT
   }"

definition update_screen_on_wakeup_key2 :: "com_call os \<Rightarrow> unit com" where
  "update_screen_on_wakeup_key2 os = do {
     cancel_alarm Screen_brightness_animation_alarm2;
     cancel_alarm Screen_brightness_animation_alarm1;
     cancel_alarm Animation_alarm;
     screen_brightness_animation_start os ANIMATION_TIMEOUT
   }"

definition sequence :: "int list" where
  "sequence = [EVENT_VOLUMEUP_KEY_DOWN, EVENT_VOLUMEUP_KEY_DOWN,
     EVENT_VOLUMEDOWN_KEY_DOWN, EVENT_VOLUMEDOWN_KEY_DOWN,
     EVENT_VOLUMEUP_KEY_DOWN, EVENT_VOLUMEUP_KEY_DOWN,
     EVENT_VOLUMEDOWN_KEY_DOWN, EVENT_VOLUMEDOWN_KEY_DOWN,
     EVENT_POWER_KEY_DOWN]"

text \<open>\<open>sequence[counter]\<close> is read with no bound on \<open>counter\<close>.\<close>

definition launch_sequence :: "int \<Rightarrow> int com" where
  "launch_sequence r =
     (if r = EVENT_VOLUMEDOWN_KEY_DOWN \<or> r = EVENT_VOLUMEUP_KEY_DOWN \<or> r = EVENT_POWER_KEY_DOWN
      then do {
        n \<leftarrow> gets counter;
        if \<not> n < length sequence then do { undefined_behaviour; return 0 }
        else do {
          let n' = (if sequence ! n = r then n + 1 else 0);
          modify (\<lambda>s. s\<lparr>counter := n'\<rparr>);
          return (if n' = length sequence then 1 else 0)
        }
      }
      else return 0)"

definition handle_event :: "com_call os \<Rightarrow> int \<Rightarrow> unit com" where
  "handle_event os r =
     (if r = EVENT_POWER_KEY_DOWN then do {
        p \<leftarrow> gets powerup;
        whenM p (do { set_alarm os Power_key_alarm 1000; return () })
      }
      else if r = EVENT_POWER_KEY_UP then do {
        cancel_alarm Power_key_alarm;
        update_screen_on_wakeup_key os
      }
      else if r = EVENT_VOLUMEDOWN_KEY_DOWN then update_screen_on_wakeup_key2 os
      else if r = EVENT_VOLUMEUP_KEY_DOWN then update_screen_on_wakeup_key2 os
      else if r = EVENT_CAMERA_KEY_DOWN then update_screen_on_wakeup_key2 os
      else if r = EVENT_BATTERY then power_event os False
      else if r = EVENT_QUIT then modify (\<lambda>s. s\<lparr>quit := True\<rparr>)
      else return ())"

text \<open>One pass of the loop; \<open>fuel\<close> bounds the alarms run and the messages read in it.\<close>

definition com_step :: "com_call os \<Rightarrow> nat \<Rightarrow> unit com" where
  "com_step os fuel = do {
     delay \<leftarrow> alarm_get_time_until_next (c_gettimeofday os);
     if delay < 1 then do {
       r \<leftarrow> alarm_process fuel (c_gettimeofday os) (run_alarm os);
       whenM (r = None) undefined_behaviour
     }
     else do {
       r \<leftarrow> ev_get os fuel delay;
       l \<leftarrow> launch_sequence r;
       whenM (l \<noteq> 0) (modify (\<lambda>s. s\<lparr>launched := True\<rparr>));
       handle_event os r
     }
   }"

text \<open>\<open>while (!quit)\<close>, for at most \<open>n\<close> passes; \<open>False\<close>: still running.\<close>

fun com_loop :: "com_call os \<Rightarrow> nat \<Rightarrow> nat \<Rightarrow> bool com" where
  "com_loop os fuel 0 = return False"
| "com_loop os fuel (Suc n) = do {
     q \<leftarrow> gets quit;
     if q then return True else do { com_step os fuel; com_loop os fuel n }
   }"

definition com_main :: "com_call os \<Rightarrow> nat \<Rightarrow> nat \<Rightarrow> int option com" where
  "com_main os fuel n = do {
     save_mode os FS_PATH;
     old_state \<leftarrow> get_device_state os;
     r \<leftarrow> screen_init os;
     if r < 0 then do { clear_mode os FS_PATH; return (Some (-1)) }
     else do {
       ev_init os;
       uev_get os fuel 10000;
       display_blank os;
       display_unblank os;
       set_button_brightness os 0;
       screen_brightness_animation_start os 1500;
       done \<leftarrow> com_loop os fuel n;
       if \<not> done then return None
       else do {
         ev_exit os;
         screen_uninit os;
         set_brightness os 100;
         set_battery_led os old_state;
         clear_mode os FS_PATH;
         return (Some 0)
       }
     }
   }"

section \<open>State properties the program keeps\<close>

text \<open>Calls that need no justification by the state of the program.\<close>

definition polite :: "com_call \<Rightarrow> bool" where
  "polite c \<longleftrightarrow> c \<noteq> RebootPowerOff \<and> (\<forall>p e. c = DrawFrame p e \<longrightarrow> 0 \<le> p \<and> p \<le> 100)"

text \<open>
  The contract between the program and a state property \<open>P\<close>: \<open>P\<close> survives every polite call,
  a power-off requested after \<open>shutdown\<close> is set, the operations of the queue and the
  assignments the program makes. Then \<open>P\<close> survives every function, and so every step.
\<close>

locale com_invariant =
  fixes os :: "com_call os" and P :: "com_state \<Rightarrow> bool"
  assumes call: "polite c \<Longrightarrow> keeps P (syscall os c)"
    and off: "valid (\<lambda>s. P s \<and> shutdown s) (syscall os RebootPowerOff) (\<lambda>_. P)"
    and set_q: "0 < ms \<Longrightarrow> ms \<le> 10000 \<Longrightarrow> keeps P (set_alarm os f ms)"
    and cancel_q: "keeps P (cancel_alarm f)"
    and pop_q: "P s \<Longrightarrow> alarms s = a # rest \<Longrightarrow> P (s\<lparr>alarms := rest\<rparr>)"
    and var_power: "P s \<Longrightarrow> P (s\<lparr>powerup := b, powerup_latch := b'\<rparr>)"
    and var_down: "P s \<Longrightarrow> P (s\<lparr>shutdown := True\<rparr>)"
    and var_quit: "P s \<Longrightarrow> P (s\<lparr>quit := True\<rparr>)"
    and var_launched: "P s \<Longrightarrow> P (s\<lparr>launched := True\<rparr>)"
    and var_blank: "P s \<Longrightarrow> P (s\<lparr>blank := b\<rparr>)"
    and var_yoffset: "P s \<Longrightarrow> P (s\<lparr>yoffset := y\<rparr>)"
    and var_counter: "P s \<Longrightarrow> n \<le> 9 \<Longrightarrow> P (s\<lparr>counter := n\<rparr>)"
    and var_fault: "P s \<Longrightarrow> P (s\<lparr>fault := True\<rparr>)"
    and var_events: "P s \<Longrightarrow> P (s\<lparr>ev_fds := fds\<rparr>)" "P s \<Longrightarrow> P (s\<lparr>uev_count := m\<rparr>)"
    and var_screen: "P s \<Longrightarrow> P (s\<lparr>fb_fd := fd\<rparr>)" "P s \<Longrightarrow> P (s\<lparr>yres := y\<rparr>)"
begin

lemmas assignments = var_power var_down var_quit var_launched var_blank var_yoffset var_counter
  var_fault var_events var_screen

lemma keeps_ub: "keeps P undefined_behaviour"
  unfolding undefined_behaviour_def by (intro keeps_modify assignments)

lemmas atoms = call set_q cancel_q keeps_ub keeps_modify

lemma keeps_set_brightness: "keeps P (set_brightness os p)"
  unfolding set_brightness_def by (intro wp_rules atoms) (simp_all add: polite_def)

lemma keeps_sys_get_int_parameter: "keeps P (sys_get_int_parameter os p v)"
  unfolding sys_get_int_parameter_def by (intro wp_rules atoms) (simp_all add: polite_def)

lemma keeps_status_is: "keeps P (status_is os w n)"
  unfolding status_is_def sys_get_string_parameter_def
  by (intro wp_rules atoms) (simp_all add: polite_def)

lemma keeps_get_device_state: "keeps P (get_device_state os)"
  unfolding get_device_state_def
  by (intro wp_rules keeps_sys_get_int_parameter keeps_status_is)

lemma keeps_set_battery_led: "keeps P (set_battery_led os d)"
  unfolding set_battery_led_def set_led_state_def write_string_def
  by (intro wp_rules atoms) (simp_all add: polite_def)

lemma keeps_clear_mode: "keeps P (clear_mode os p)"
  unfolding clear_mode_def by (intro wp_rules atoms) (simp_all add: polite_def)

lemma keeps_display_blank: "keeps P (display_blank os)"
  unfolding display_blank_def by (intro wp_rules atoms assignments) (simp_all add: polite_def)

lemma keeps_display_unblank: "keeps P (display_unblank os)"
  unfolding display_unblank_def by (intro wp_rules atoms assignments) (simp_all add: polite_def)

lemma keeps_screen_update:
  "0 \<le> p \<Longrightarrow> p \<le> 100 \<Longrightarrow> keeps P (screen_update os p e)"
  unfolding screen_update_def by (intro wp_rules atoms assignments) (simp_all add: polite_def)

lemmas small_functions = keeps_set_brightness keeps_get_device_state keeps_set_battery_led
  keeps_clear_mode keeps_display_blank keeps_display_unblank

text \<open>The only place that asks for the power to go looks at \<open>shutdown\<close> first.\<close>

lemma clear_mode_shutdown: "keeps shutdown (clear_mode os p)"
  by (rule keeps_quiet) (auto simp: clear_mode_def intro: quiet_rules)

lemma keeps_power_off:
  "keeps P (do { down \<leftarrow> gets shutdown;
       whenM down (do { clear_mode os FS_PATH; syscall os RebootPowerOff; return () });
       display_blank os })"
proof (rule valid_gets, rule valid_bind)
  fix down
  have "valid (\<lambda>s. P s \<and> shutdown s) (clear_mode os FS_PATH) (\<lambda>_ s. P s \<and> shutdown s)"
    by (rule valid_conj [OF keeps_clear_mode clear_mode_shutdown])
  then have "valid (\<lambda>s. P s \<and> shutdown s)
      (do { clear_mode os FS_PATH; syscall os RebootPowerOff; return () }) (\<lambda>_. P)"
    by (rule valid_bind) (rule valid_bind [OF off keeps_return])
  then show "valid (\<lambda>s. P s \<and> shutdown s = down)
      (whenM down (do { clear_mode os FS_PATH; syscall os RebootPowerOff; return () })) (\<lambda>_. P)"
    by (cases down) (auto simp: whenM_def valid_def)
next
  fix x
  show "keeps P (display_blank os)" by (rule keeps_display_blank)
qed

lemma keeps_alarm2: "keeps P (screen_brightness_animation_alarm2 os)"
  unfolding screen_brightness_animation_alarm2_def
  by (intro keeps_bind [OF keeps_set_brightness] keeps_bind [OF cancel_q] keeps_power_off)

lemma keeps_alarm1: "keeps P (screen_brightness_animation_alarm1 os)"
  unfolding screen_brightness_animation_alarm1_def
  by (intro wp_rules atoms small_functions) simp_all

lemma keeps_start: "0 < t \<Longrightarrow> t \<le> 10000 \<Longrightarrow> keeps P (screen_brightness_animation_start os t)"
  unfolding screen_brightness_animation_start_def
  by (intro wp_rules atoms small_functions) simp_all

lemma keeps_power_event: "keeps P (power_event os b)"
  unfolding power_event_def Let_def
  by (intro wp_rules atoms small_functions keeps_screen_update keeps_alarm2 assignments)
     (simp_all add: clamp_level_def shown_level_def)

lemma keeps_power_key_alarm: "keeps P (power_key_alarm os)"
  unfolding power_key_alarm_def
  by (intro wp_rules atoms small_functions assignments) (simp_all add: polite_def)

lemma keeps_run_alarm: "keeps P (run_alarm os f k)"
  unfolding run_alarm_def animation_alarm_def
  by (cases f) (simp_all add: keeps_alarm1 keeps_alarm2 keeps_power_key_alarm
      keeps_bind [OF set_q] keeps_power_event)

lemma keeps_wakeup_key: "keeps P (update_screen_on_wakeup_key os)"
  unfolding update_screen_on_wakeup_key_def
  by (intro wp_rules atoms keeps_alarm2 keeps_start) simp_all

lemma keeps_wakeup_key2: "keeps P (update_screen_on_wakeup_key2 os)"
  unfolding update_screen_on_wakeup_key2_def
  by (intro wp_rules atoms keeps_start) simp_all

lemma keeps_launch_sequence: "keeps P (launch_sequence r)"
proof (cases "r = EVENT_VOLUMEDOWN_KEY_DOWN \<or> r = EVENT_VOLUMEUP_KEY_DOWN \<or> r = EVENT_POWER_KEY_DOWN")
  case True
  have "P (s\<lparr>counter := (if sequence ! n = r then n + 1 else 0)\<rparr>)" if "P s" "n < 9" for s n
    using that by (intro var_counter) auto
  then show ?thesis
    using True var_fault
    by (intro validI) (auto simp: launch_sequence_def Let_def sequence_def)
next
  case False
  then show ?thesis by (simp add: launch_sequence_def keeps_return)
qed

lemma keeps_handle_event: "keeps P (handle_event os r)"
  unfolding handle_event_def
  by (intro wp_rules atoms assignments keeps_wakeup_key keeps_wakeup_key2 keeps_power_event)
     simp_all

lemma keeps_recv_drain: "keeps P (recv_drain os n fd msg)"
  by (induction n arbitrary: msg) (auto intro!: wp_rules atoms simp: polite_def)

lemma keeps_charger_message: "keeps P (charger_message msg)"
  unfolding charger_message_def by (intro wp_rules atoms)

lemma keeps_ev_scan: "keeps P (ev_scan os n revents i fds)"
  by (induction fds arbitrary: i)
     (auto intro!: wp_rules atoms keeps_recv_drain keeps_charger_message
       simp: polite_def split: ev_kind.split)

lemma keeps_ev_get: "keeps P (ev_get os n t)"
  unfolding ev_get_def by (intro wp_rules atoms keeps_ev_scan) (simp add: polite_def)

lemma keeps_gettimeofday: "keeps P (c_gettimeofday os)"
  unfolding c_gettimeofday_def by (intro wp_rules atoms) (simp add: polite_def)

lemma keeps_delay: "keeps P (alarm_get_time_until_next (c_gettimeofday os))"
  unfolding alarm_get_time_until_next_def
  by (intro wp_rules) (auto split: list.split intro!: wp_rules keeps_gettimeofday)

lemma keeps_alarm_process_loop: "keeps P (alarm_process_loop n (run_alarm os) now)"
proof (induction n)
  case 0
  then show ?case by (simp add: keeps_return)
next
  case (Suc n)
  show ?case
  proof (rule validI)
    fix s assume s: "P s"
    show "P (exec (alarm_process_loop (Suc n) (run_alarm os) now) s)"
    proof (cases "alarms s")
      case (Cons a rest)
      have "P (exec (run_alarm os (alarm_f a) (cookie a)) (s\<lparr>alarms := rest\<rparr>))"
        by (rule validD [OF keeps_run_alarm pop_q [OF s Cons]])
      from validD [OF Suc.IH this] Cons s show ?thesis
        by (simp add: alarm_process_loop_step)
    qed (simp add: alarm_process_loop_step s)
  qed
qed

lemma keeps_com_step: "keeps P (com_step os n)"
  unfolding com_step_def alarm_process_def
  by (intro wp_rules keeps_delay keeps_gettimeofday keeps_alarm_process_loop keeps_ub keeps_ev_get
      keeps_launch_sequence keeps_modify var_launched keeps_handle_event)

lemma keeps_com_loop: "keeps P (com_loop os fuel n)"
  by (induction n) (auto intro!: wp_rules keeps_com_step)

lemma keeps_screen_init: "keeps P (screen_init os)"
  unfolding screen_init_def fb_open_def vt_set_mode_def fb_close_def
  by (intro wp_rules atoms assignments) (simp_all add: polite_def)

lemma keeps_ev_add: "keeps P (ev_add fd k)"
  unfolding ev_add_def by (intro wp_rules atoms assignments)

lemma keeps_ev_open_inputs: "keeps P (ev_open_inputs os n i)"
  by (induction n arbitrary: i) (auto intro!: wp_rules atoms keeps_ev_add simp: polite_def)

lemma keeps_ev_init: "keeps P (ev_init os)"
  unfolding ev_init_def open_uevent_socket_def
  by (intro wp_rules atoms assignments keeps_ev_open_inputs keeps_ev_add)
     (simp_all add: polite_def)

lemma keeps_uev_get: "keeps P (uev_get os fuel t)"
  unfolding uev_get_def
  by (intro wp_rules atoms keeps_recv_drain keeps_charger_message) (simp_all add: polite_def)

lemma keeps_close_all: "keeps P (close_all os fds)"
  by (induction fds) (auto intro!: wp_rules atoms simp: polite_def)

lemma keeps_epilogue:
  "keeps P (do { ev_exit os; screen_uninit os; set_brightness os 100; set_battery_led os d;
       clear_mode os FS_PATH; return (Some 0) })"
  unfolding ev_exit_def screen_uninit_def fb_close_def
  by (intro wp_rules atoms assignments keeps_close_all small_functions) (simp_all add: polite_def)

lemma keeps_prologue: "keeps P (save_mode os p)" "keeps P (set_button_brightness os b)"
  unfolding save_mode_def set_button_brightness_def
  by (intro wp_rules atoms; simp add: polite_def)+

lemma keeps_com_main: "keeps P (com_main os fuel n)"
  unfolding com_main_def
  by (intro wp_rules small_functions keeps_prologue keeps_screen_init keeps_ev_init
      keeps_uev_get keeps_start keeps_com_loop keeps_epilogue) simp_all

end

section \<open>The safety invariant\<close>


lemma run_c_malloc: "run_state (c_malloc os) s =
    (ret_val (os (trace s) Malloc) \<noteq> 0, s\<lparr>trace := trace s @ [(Malloc, os (trace s) Malloc)]\<rparr>)"
  by (simp add: c_malloc_def)

lemma run_c_gettimeofday: "run_state (c_gettimeofday os) s =
    (timeval_of (os (trace s) Gettimeofday),
     s\<lparr>trace := trace s @ [(Gettimeofday, os (trace s) Gettimeofday)]\<rparr>)"
  by (simp add: c_gettimeofday_def)

text \<open>Setting an alarm: nothing but two calls, or also one node that expires \<open>ms\<close> after the time read.\<close>

lemma set_alarm_cases:
  obtains
    (failed) "exec (set_alarm os f ms) s =
       s\<lparr>trace := trace s @ [(Malloc, os (trace s) Malloc)]\<rparr>"
  | (queued) h now where "now = timeval_of (os (trace s @ h) Gettimeofday)"
      "exec (set_alarm os f ms) s =
         s\<lparr>trace := trace s @ h @ [(Gettimeofday, os (trace s @ h) Gettimeofday)],
           alarms := alarm_insert
             \<lparr>alarm_time = alarm_deadline now ms, alarm_f = f, cookie = ()\<rparr> (alarms s)\<rparr>"
      "h = [(Malloc, os (trace s) Malloc)]"
proof (cases "ret_val (os (trace s) Malloc) = 0")
  case True
  with failed show ?thesis
    by (simp add: set_alarm_def alarm_set_relative_def run_c_malloc)
next
  case False
  with queued [OF refl] show ?thesis
    by (simp add: set_alarm_def alarm_set_relative_def run_c_malloc run_c_gettimeofday)
qed




section \<open>A clock that does not run backwards\<close>

text \<open>
  Documented behaviour of \<open>gettimeofday\<close> that the program relies on: as long as nobody sets the
  clock back, a later answer is not before an earlier one; answers are normalised and fit a
  32-bit \<open>time_t\<close>.
\<close>

definition steady_clock :: "com_call os \<Rightarrow> bool" where
  "steady_clock os \<longleftrightarrow>
     (\<forall>h h'. timeval_of (os h Gettimeofday) \<le> timeval_of (os (h @ h') Gettimeofday)) \<and>
     (\<forall>h. normal_time (timeval_of (os h Gettimeofday)) \<and>
          0 \<le> tv_sec (timeval_of (os h Gettimeofday)) \<and>
          tv_sec (timeval_of (os h Gettimeofday)) < 2 ^ 31 - 2147)"

definition after :: "com_call os \<Rightarrow> timeval \<Rightarrow> com_state \<Rightarrow> bool" where
  "after os now s \<longleftrightarrow> (\<forall>h. now \<le> timeval_of (os (trace s @ h) Gettimeofday))"

definition few_due :: "com_call os \<Rightarrow> timeval \<Rightarrow> nat \<Rightarrow> com_state \<Rightarrow> bool" where
  "few_due os now n s \<longleftrightarrow>
     after os now s \<and> time_sorted (alarms s) \<and> length (due now (alarms s)) \<le> n"

lemma due_insert_later:
  assumes "time_sorted as" "now < alarm_time a"
  shows "length (due now (alarm_insert a as)) = length (due now as)"
proof -
  have "mset (due now (alarm_insert a as)) = mset (due now as)"
    using aq.mset_ins [OF assms(1), of a] assms(2) by (simp add: due_def)
  then show ?thesis by (metis size_mset)
qed

lemma deadline_later:
  assumes "steady_clock os" "normal_time now" "now \<le> t" "t = timeval_of (os h Gettimeofday)"
    and "0 < ms" "ms \<le> 10000"
  shows "now < alarm_deadline t ms"
proof -
  have t: "normal_time t" "0 \<le> tv_sec t" "tv_sec t < 2 ^ 31 - 2147"
    using assms(1,4) by (auto simp: steady_clock_def)
  have ms: "0 \<le> ms" "ms \<le> 2146000" using assms(5,6) by auto
  note d = alarm_deadline_exact [OF t ms]
  have "usecs now < usecs (alarm_deadline t ms)"
    using assms(3,5) usecs_le_iff [OF assms(2) t(1)] by (simp add: d)
  with usecs_less_iff [OF assms(2) d(2)] show ?thesis by simp
qed

lemma after_trace: "after os now s \<Longrightarrow> after os now (s\<lparr>trace := trace s @ h\<rparr>)"
  by (simp add: after_def)

lemma after_alarms [simp]: "after os now (s\<lparr>alarms := as\<rparr>) = after os now s"
  by (simp add: after_def)

lemma few_due_set_alarm:
  assumes os: "steady_clock os" "normal_time now" and ms: "0 < ms" "ms \<le> 10000"
  shows "keeps (few_due os now n) (set_alarm os f ms)"
proof (rule validI)
  fix s assume s: "few_due os now n s"
  show "few_due os now n (exec (set_alarm os f ms) s)"
  proof (cases rule: set_alarm_cases [of os f ms s])
    case failed
    with s show ?thesis by (simp add: few_due_def after_trace)
  next
    case (queued h t)
    let ?a = "\<lparr>alarm_time = alarm_deadline t ms, alarm_f = f, cookie = ()\<rparr>"
    have "now \<le> t" using s queued(1) by (simp add: few_due_def after_def)
    then have "now < alarm_time ?a" using deadline_later [OF os _ queued(1) ms] by simp
    moreover have "time_sorted (alarms s)" using s by (simp add: few_due_def)
    ultimately show ?thesis
      using s queued(2) by (simp add: few_due_def after_def due_insert_later aq.invar_ins)
  qed
qed

lemma few_due_cancel: "keeps (few_due os now n) (cancel_alarm f)"
proof (rule validI)
  fix s assume s: "few_due os now n s"
  have "length (due now (filter (\<lambda>a. alarm_f a \<noteq> f) as)) \<le> length (due now as)" for as
    by (induction as) (auto simp: due_Cons)
  from this [of "alarms s"] s show "few_due os now n (exec (cancel_alarm f) s)"
    by (simp add: few_due_def cancel_alarm_def alarm_cancel_def alarm_remove_eq time_sorted_filter)
qed

lemma few_due_invariant:
  assumes "steady_clock os" "normal_time now"
  shows "com_invariant os (few_due os now n)"
proof (unfold_locales, goal_cases)
  case 1 show ?case by (simp add: valid_def few_due_def after_trace)
next
  case 2 show ?case by (simp add: valid_def few_due_def after_trace)
next
  case 3 then show ?case by (intro few_due_set_alarm assms)
next
  case 4 show ?case by (rule few_due_cancel)
next
  case 5 then show ?case by (auto simp: few_due_def time_sorted_def due_Cons split: if_splits)
qed (auto simp: few_due_def after_def)

lemma run_alarm_calm:
  assumes "steady_clock os" "normal_time now"
  shows "calm_callbacks (after os now) now (run_alarm os)"
  unfolding calm_callbacks_def
proof (intro conjI allI impI)
  fix f k s assume "after os now s \<and> time_sorted (alarms s)"
  then have "few_due os now (length (due now (alarms s))) s" by (simp add: few_due_def)
  from validD [OF com_invariant.keeps_run_alarm [OF few_due_invariant [OF assms]] this, of f k]
  show "after os now (exec (run_alarm os f k) s)"
    and "time_sorted (alarms (exec (run_alarm os f k) s))"
    and "length (due now (alarms (exec (run_alarm os f k) s))) \<le> length (due now (alarms s))"
    by (simp_all add: few_due_def)
qed simp

section \<open>The key sequence\<close>

definition sequence_key :: "int \<Rightarrow> bool" where
  "sequence_key r \<longleftrightarrow>
     r = EVENT_VOLUMEDOWN_KEY_DOWN \<or> r = EVENT_VOLUMEUP_KEY_DOWN \<or> r = EVENT_POWER_KEY_DOWN"

definition press :: "int list \<Rightarrow> com_state \<Rightarrow> com_state" where
  "press ks s = fold (\<lambda>k t. exec (launch_sequence k) t) ks s"

lemma length_sequence [simp]: "length sequence = 9"
  by (simp add: sequence_def)

lemma press_snoc: "press (ks @ [k]) s = exec (launch_sequence k) (press ks s)"
  by (simp add: press_def)

text \<open>Running one key, on every branch.\<close>

lemma launch_sequence_other:
  "\<not> sequence_key k \<Longrightarrow> run_state (launch_sequence k) s = (0, s)"
  by (simp add: launch_sequence_def sequence_key_def)

lemma launch_sequence_key:
  "sequence_key k \<Longrightarrow> counter s < 9 \<Longrightarrow>
   run_state (launch_sequence k) s =
     (if sequence ! counter s = k
      then (if counter s = 8 then 1 else 0, s\<lparr>counter := counter s + 1\<rparr>)
      else (0, s\<lparr>counter := 0\<rparr>))"
  by (auto simp: launch_sequence_def sequence_key_def Let_def)

lemma launch_sequence_overrun:
  "sequence_key k \<Longrightarrow> \<not> counter s < 9 \<Longrightarrow>
   run_state (launch_sequence k) s = (0, s\<lparr>fault := True\<rparr>)"
  by (simp add: launch_sequence_def sequence_key_def)

lemma launch_sequence_fault: "fault s \<Longrightarrow> fault (exec (launch_sequence k) s)"
  by (cases "sequence_key k"; cases "counter s < 9")
     (auto simp: launch_sequence_other launch_sequence_key launch_sequence_overrun)

text \<open>The counter counts how much of the sequence the last keys spell.\<close>

lemma press_counter:
  assumes "counter s = 0"
  shows "\<not> fault (press ks s) \<Longrightarrow>
    counter (press ks s) \<le> 9 \<and>
    (\<exists>pre. filter sequence_key ks = pre @ take (counter (press ks s)) sequence)"
proof (induction ks rule: rev_induct)
  case Nil
  then show ?case using assms by (simp add: press_def)
next
  case (snoc k ks)
  let ?t = "press ks s"
  have ok: "\<not> fault ?t"
    using snoc.prems launch_sequence_fault by (auto simp: press_snoc)
  with snoc.IH obtain pre where pre: "counter ?t \<le> 9"
      "filter sequence_key ks = pre @ take (counter ?t) sequence"
    by blast
  show ?case
  proof (cases "sequence_key k")
    case False
    with pre show ?thesis by (simp add: press_snoc launch_sequence_other)
  next
    case True
    have n: "counter ?t < 9"
      using snoc.prems by (rule contrapos_np) (simp add: press_snoc launch_sequence_overrun True)
    have "take (Suc (counter ?t)) sequence = take (counter ?t) sequence @ [sequence ! counter ?t]"
      using n by (simp add: take_Suc_conv_app_nth)
    with pre True n show ?thesis
      by (auto simp: press_snoc launch_sequence_key)
  qed
qed

section \<open>The power supply\<close>

lemma supply_error_level [simp]: "supply_error (d\<lparr>charge_level := l\<rparr>) = supply_error d"
  by (simp add: supply_error_def)

lemma quiet_clear_mode [quiet_rules]: "quiet (clear_mode os p)"
  unfolding clear_mode_def by (intro quiet_rules)

lemma only_power_key:
  "(f \<noteq> Screen_brightness_animation_alarm2 \<and> f \<noteq> Screen_brightness_animation_alarm1 \<and>
    f \<noteq> Animation_alarm) = (f = Power_key_alarm)"
  by (cases f) auto

text \<open>Darkening the screen after the charger went away requests the power to go off.\<close>

lemma alarm2_after_shutdown:
  assumes "shutdown s"
  obtains h where "RebootPowerOff \<in> fst ` set h"
    "exec (screen_brightness_animation_alarm2 os) s =
       s\<lparr>trace := trace s @ h, alarms := filter (\<lambda>a. alarm_f a \<noteq> Animation_alarm) (alarms s),
         blank := True\<rparr>"
proof -
  obtain h where h: "exec (set_brightness os 0) s = s\<lparr>trace := trace s @ h\<rparr>"
    by (rule quietE [OF quiet_set_brightness])
  let ?s = "s\<lparr>trace := trace s @ h, alarms := filter (\<lambda>a. alarm_f a \<noteq> Animation_alarm) (alarms s)\<rparr>"
  obtain h' where h': "exec (clear_mode os FS_PATH) ?s = ?s\<lparr>trace := trace ?s @ h'\<rparr>"
    by (rule quietE [OF quiet_clear_mode])
  have "\<exists>r r'. exec (screen_brightness_animation_alarm2 os) s =
     ?s\<lparr>trace := trace s @ (h @ h' @ [(RebootPowerOff, r), r']), blank := True\<rparr>"
    using assms h'
    by (simp add: screen_brightness_animation_alarm2_def display_blank_def split_beta h
        cancel_alarm_def alarm_cancel_def alarm_remove_eq) blast
  then obtain r r' where "exec (screen_brightness_animation_alarm2 os) s =
     ?s\<lparr>trace := trace s @ (h @ h' @ [(RebootPowerOff, r), r']), blank := True\<rparr>"
    by blast
  then show ?thesis by (intro that [of "h @ h' @ [(RebootPowerOff, r), r']"]) simp_all
qed

section \<open>Properties\<close>




text \<open>
  C21: when the clock does not run backwards, \<open>alarm_process\<close> ends in every state of the
  program with an ordered queue: with more fuel than there are alarms, all expired alarms
  have run, none is left and none that a callback re-armed has expired already.
\<close>

theorem com_alarms_end:
  assumes "steady_clock os" "time_sorted (alarms s)" "length (alarms s) < fuel"
  shows "let now = timeval_of (os (trace s) Gettimeofday);
             m = alarm_process fuel (c_gettimeofday os) (run_alarm os)
         in eval_in m s = Some () \<and> due now (alarms (exec m s)) = []"
proof -
  let ?now = "timeval_of (os (trace s) Gettimeofday)"
  let ?s = "s\<lparr>trace := trace s @ [(Gettimeofday, os (trace s) Gettimeofday)]\<rparr>"
  have now: "normal_time ?now" using assms(1) by (simp add: steady_clock_def)
  have "length (due ?now (alarms ?s)) < fuel"
    using assms(3) by (simp add: due_def le_less_trans [OF length_filter_le])
  moreover have "after os ?now ?s"
    using assms(1) unfolding steady_clock_def after_def by simp
  ultimately show ?thesis
    using alarm_process_ends [of "c_gettimeofday os" s ?now ?s "after os ?now" "run_alarm os" fuel]
      run_alarm_calm [OF assms(1) now] assms(2)
    by (simp add: run_c_gettimeofday Let_def)
qed

definition still_clock :: "com_call os" where
  "still_clock h c = result 1"

theorem com_alarms_end_witness:
  "eval_in (alarm_process 2 (c_gettimeofday still_clock) (run_alarm still_clock))
     (init_com\<lparr>alarms := [\<lparr>alarm_time = Timeval 1 0, alarm_f = Animation_alarm, cookie = ()\<rparr>]\<rparr>)
   = Some ()"
  using com_alarms_end [of still_clock
      "init_com\<lparr>alarms := [\<lparr>alarm_time = Timeval 1 0, alarm_f = Animation_alarm, cookie = ()\<rparr>]\<rparr>" 2]
  by (simp add: Let_def steady_clock_def still_clock_def timeval_of_def normal_time_def
      time_sorted_def)

text \<open>
  \<open>launch_sequence\<close> reports 1 only when the last nine volume and power presses spell the
  secret sequence, as long as the array was not overrun before.
\<close>

lemma launch_needs_sequence:
  assumes "counter s = 0" "\<not> fault (press (ks @ [k]) s)"
    and "eval_in (launch_sequence k) (press ks s) = 1"
  shows "\<exists>pre. filter sequence_key (ks @ [k]) = pre @ sequence"
proof -
  let ?t = "press ks s"
  have key: "sequence_key k" using assms(3) launch_sequence_other [of k ?t] by fastforce
  then have n: "counter ?t < 9"
    using assms(3) launch_sequence_overrun [OF key, of ?t] by fastforce
  with assms(3) key have "counter (press (ks @ [k]) s) = 9"
    by (auto simp: press_snoc launch_sequence_key split: if_splits)
  with press_counter [OF assms(1,2)] show ?thesis by simp
qed

lemma launch_needs_sequence_witness:
  "\<exists>pre. filter sequence_key (butlast sequence @ [EVENT_POWER_KEY_DOWN]) = pre @ sequence"
  by (rule launch_needs_sequence [of init_com])
     (simp_all add: init_com_def sequence_def press_def launch_sequence_def nth_Cons')

text \<open>
  After the sequence was recognised the counter stays at 9, and the next volume or power
  press reads \<open>sequence[9]\<close>, one past the end of the array.
\<close>

lemma launch_overruns_array:
  assumes "counter s = 0" "\<not> fault s" "sequence_key k"
  shows "eval_in (launch_sequence EVENT_POWER_KEY_DOWN) (press (butlast sequence) s) = 1 \<and>
         \<not> fault (press sequence s) \<and> fault (press (sequence @ [k]) s)"
proof -
  have "press sequence s = s\<lparr>counter := 9\<rparr>"
    using assms(1)
    by (simp add: sequence_def press_def launch_sequence_def nth_Cons')
  moreover have "press (butlast sequence) s = s\<lparr>counter := 8\<rparr>"
    using assms(1)
    by (simp add: sequence_def press_def launch_sequence_def nth_Cons')
  ultimately show ?thesis
    using assms(2,3)
    by (simp add: press_snoc launch_sequence_overrun launch_sequence_key sequence_key_def)
       (simp add: sequence_def)
qed

lemma launch_overruns_array_witness:
  "fault (press (sequence @ [EVENT_POWER_KEY_DOWN]) init_com)"
  using launch_overruns_array [of init_com EVENT_POWER_KEY_DOWN]
  by (simp add: init_com_def sequence_key_def)

text \<open>
  C24: what \<open>power_event\<close> does with a reading \<open>d\<close> of the power supply. The level drawn right
  after the reading is the clamped charge level, or 0 as long as the voltage has never reached
  the power-up voltage; \<open>powerup\<close> says whether it does now and the latch remembers it. With no
  supply plugged in for the first time the program sets \<open>shutdown\<close>, stops its display timers
  and requests the power to go off; with a supply it leaves queue and \<open>shutdown\<close> alone.
\<close>

theorem power_event_reaction:
  assumes "run_state (get_device_state os) s = (d, s\<^sub>1)"
  shows "let t = exec (power_event os False) s;
             unplugged = (is_plugged_into_ac d = 0 \<and> is_plugged_into_usb d = 0)
         in (\<exists>e r h. trace t = trace s\<^sub>1 @ (DrawFrame (shown_level d (powerup_latch s)) e, r) # h \<and>
               (unplugged \<and> \<not> shutdown s \<longrightarrow> RebootPowerOff \<in> fst ` set h)) \<and>
            powerup t = (voltage_level d \<ge> POWERUP_VOLTAGE) \<and>
            powerup_latch t = (powerup_latch s \<or> powerup t) \<and>
            shutdown t = (shutdown s \<or> unplugged) \<and>
            alarms t = (if unplugged \<and> \<not> shutdown s
                        then filter (\<lambda>a. alarm_f a = Power_key_alarm) (alarms s) else alarms s)"
proof -
  obtain h where s1: "s\<^sub>1 = s\<lparr>trace := trace s @ h\<rparr>"
    using quietE [OF quiet_get_device_state, of os s] assms by (metis snd_conv)
  let ?ok = "voltage_level d \<ge> POWERUP_VOLTAGE"
  let ?e = "supply_error d"
  let ?u = "is_plugged_into_ac d = 0 \<and> is_plugged_into_usb d = 0"
  define s2 where "s2 = exec (screen_update os (shown_level d (powerup_latch s)) ?e)
     (s\<^sub>1\<lparr>powerup := ?ok, powerup_latch := powerup_latch s \<or> ?ok\<rparr>)"
  have s2: "\<exists>y r h'. s2 = s\<^sub>1\<lparr>powerup := ?ok, powerup_latch := powerup_latch s \<or> ?ok, yoffset := y,
      trace := trace s\<^sub>1 @ (DrawFrame (shown_level d (powerup_latch s)) ?e, r) # h'\<rparr>"
    unfolding s2_def by (auto simp: screen_update_def s1)
  have t: "exec (power_event os False) s =
     (if \<not> shutdown s2 \<and> ?u
      then exec (screen_brightness_animation_alarm2 os) (s2\<lparr>shutdown := True,
             alarms := filter (\<lambda>a. alarm_f a \<noteq> Screen_brightness_animation_alarm1)
               (filter (\<lambda>a. alarm_f a \<noteq> Screen_brightness_animation_alarm2) (alarms s2))\<rparr>)
      else s2)"
    using assms unfolding s2_def
    by (simp add: power_event_def Let_def split_beta cancel_alarm_def
        alarm_cancel_def alarm_remove_eq s1 if_distrib [of snd])
  from s2 obtain y r h' where s2': "s2 = s\<^sub>1\<lparr>powerup := ?ok,
      powerup_latch := powerup_latch s \<or> ?ok, yoffset := y,
      trace := trace s\<^sub>1 @ (DrawFrame (shown_level d (powerup_latch s)) ?e, r) # h'\<rparr>"
    by blast
  show ?thesis
  proof (cases "?u \<and> \<not> shutdown s")
    case False
    with t show ?thesis unfolding s2' by (auto simp: s1)
  next
    case True
    let ?s3 = "s2\<lparr>shutdown := True,
             alarms := filter (\<lambda>a. alarm_f a \<noteq> Screen_brightness_animation_alarm1)
               (filter (\<lambda>a. alarm_f a \<noteq> Screen_brightness_animation_alarm2) (alarms s2))\<rparr>"
    obtain k where "RebootPowerOff \<in> fst ` set k"
      "exec (screen_brightness_animation_alarm2 os) ?s3 =
       ?s3\<lparr>trace := trace ?s3 @ k, alarms := filter (\<lambda>a. alarm_f a \<noteq> Animation_alarm) (alarms ?s3),
         blank := True\<rparr>"
      by (rule alarm2_after_shutdown [of ?s3 os]) simp
    with t True show ?thesis unfolding s2' by (auto simp: s1 only_power_key image_Un)
  qed
qed

theorem power_event_reaction_witness:
  "shutdown (exec (power_event (\<lambda>_ _. failure 2) False) init_com)"
  using power_event_reaction [of "\<lambda>_ _. failure 2" init_com, OF surjective_pairing]
  by (simp add: get_device_state_def sys_get_int_parameter_def status_is_def
      sys_get_string_parameter_def Let_def)

end
