(* ===== verification/Charge_Draw.thy ===== *)
theory Charge_Draw
  imports Prelude "HOL-Library.Monad_Syntax" "HOL-Library.Signed_Division"
begin

text \<open>
  The pictures of the charge-only-mode program (\<open>src/charge_only_mode/draw.c\<close> and the dimensions in the
  three directories of generated images): unpacking the images with \<open>zlib\<close>, and composing a frame out of
  them in memory.

  A buffer of \<open>malloc\<close> is a list of bytes, each \<open>None\<close> until it is written. A frame is a list of 16-bit pixels.
  An access outside of a buffer or of a byte that was never written is undefined: the routines that paint are in
  the option monad and then have the value \<open>None\<close>, the routines that load set \<open>fault\<close>. Coordinates and
  sizes are mathematical integers: they are bounded by the size of a frame buffer, far below \<open>INT_MAX\<close>.
\<close>

unbundle bit_operations_syntax

section \<open>Images\<close>

datatype colour = Red | Orange | Green
datatype pane = Pane_charge | Pane_complete | Pane_error
datatype plane = Alpha | Intensity

text \<open>The names of the images: \<open>battery_red_img\<close>, \<open>battery_red_ani[k]\<close>, \<open>ic_pane_battery_charge_a\<close>, \<open>battery_numbers_k_i\<close> and so on.\<close>

datatype asset_id =
    Background
  | Img colour
  | Ani colour nat
  | Ic_pane pane plane
  | Number nat plane
  | Percentage plane

record asset =
  asset_w :: int
  asset_h :: int
  gz :: string
  bits :: "8 word option list option"

text \<open>The directory of images the build takes, by the name of the product.\<close>

datatype variant = Default_assets | Solana_assets | Venus2_assets

definition PNG_TOP :: "variant \<Rightarrow> int" where
  "PNG_TOP v = (case v of Default_assets \<Rightarrow> 62 | Solana_assets \<Rightarrow> 71 | Venus2_assets \<Rightarrow> 45)"

definition PNG_BOTTOM :: "variant \<Rightarrow> int" where
  "PNG_BOTTOM v = (case v of Default_assets \<Rightarrow> 338 | Solana_assets \<Rightarrow> 318 | Venus2_assets \<Rightarrow> 203)"

definition PNG_LEFT :: "variant \<Rightarrow> int" where
  "PNG_LEFT v = (case v of Default_assets \<Rightarrow> 105 | Solana_assets \<Rightarrow> 105 | Venus2_assets \<Rightarrow> 67)"

text \<open>Heights of the frames after the first, which hold only what changes.\<close>

fun ani_heights :: "variant \<Rightarrow> colour \<Rightarrow> nat \<Rightarrow> int" where
  "ani_heights Default_assets c k = (if k = 0 then 16 else 9)"
| "ani_heights Solana_assets c k = (if k = 0 then 16 else if c = Orange \<and> k < 3 then 14 else 13)"
| "ani_heights Venus2_assets c k = (if k = 0 then 10 else if c = Orange \<and> k < 3 then 9 else 8)"

fun asset_size :: "variant \<Rightarrow> asset_id \<Rightarrow> int \<times> int" where
  "asset_size v Background = (if v = Venus2_assets then (220, 248) else (346, 390))"
| "asset_size v (Img c) = (if v = Venus2_assets then 86 else 136, 1)"
| "asset_size v (Ani c k) = (if v = Venus2_assets then 86 else 136, ani_heights v c k)"
| "asset_size v (Ic_pane p q) = (if v = Venus2_assets then (90, 90) else (136, 136))"
| "asset_size v (Number k q) = (if v = Venus2_assets then (17, 26) else (26, 39))"
| "asset_size v (Percentage q) = (if v = Venus2_assets then (12, 26) else (18, 39))"

text \<open>The table of images the program starts with; \<open>z\<close> are the compressed bytes of the generated headers.\<close>

definition asset_table :: "variant \<Rightarrow> (asset_id \<Rightarrow> string) \<Rightarrow> asset_id \<Rightarrow> asset" where
  "asset_table v z a = \<lparr>asset_w = fst (asset_size v a), asset_h = snd (asset_size v a), gz = z a, bits = None\<rparr>"

section \<open>Memory\<close>

type_synonym bytes = "8 word option list"
type_synonym surface = "16 word list"

definition get_byte :: "bytes \<Rightarrow> nat \<Rightarrow> 8 word option" where
  "get_byte b i = (if i < length b then b ! i else None)"

definition get_short :: "bytes \<Rightarrow> nat \<Rightarrow> 16 word option" where
  "get_short b i = do { lo \<leftarrow> get_byte b (2 * i); hi \<leftarrow> get_byte b (2 * i + 1); Some (word_cat hi lo) }"

definition set_short :: "bytes \<Rightarrow> nat \<Rightarrow> 16 word \<Rightarrow> bytes" where
  "set_short b i v = b[2 * i := Some (ucast v), 2 * i + 1 := Some (ucast (drop_bit 8 v))]"

definition load :: "surface \<Rightarrow> int \<Rightarrow> 16 word option" where
  "load f t = (if 0 \<le> t \<and> t < int (length f) then Some (f ! nat t) else None)"

definition store :: "surface \<Rightarrow> int \<Rightarrow> 16 word \<Rightarrow> surface option" where
  "store f t v = (if 0 \<le> t \<and> t < int (length f) then Some (f[nat t := v]) else None)"

text \<open>\<open>memset(f, 0, n)\<close> of \<open>n\<close> bytes of a frame.\<close>

definition zero_bytes :: "surface \<Rightarrow> int \<Rightarrow> surface option" where
  "zero_bytes f n =
     (if 0 \<le> n \<and> n \<le> 2 * int (length f)
      then Some (map (\<lambda>(i, v). if 2 * int i + 1 < n then 0 else if 2 * int i < n then v AND 0xFF00 else v) (enumerate 0 f))
      else None)"

text \<open>\<open>n\<close> bytes of data written into a buffer at \<open>off\<close>; \<open>None\<close> when they do not fit.\<close>

definition fill_in :: "bytes \<Rightarrow> int \<Rightarrow> string \<Rightarrow> bytes option" where
  "fill_in b off d =
     (if 0 \<le> off \<and> off + int (length d) \<le> int (length b)
      then Some (take (nat off) b @ map (\<lambda>c. Some (of_char c)) d @ drop (nat off + length d) b)
      else None)"

section \<open>Loading\<close>

datatype draw_call = Malloc int | Free | InflateInit2 | Inflate string int | InflateEnd

record draw_state = "draw_call io_state" +
  assets :: "asset_id \<Rightarrow> asset"
  fb_width :: int
  fb_height :: int
  fb_size :: int
  draw_initialized :: bool
  frame :: nat
  aborted :: bool

type_synonym ('z, 'a) drawing = "('z draw_state_scheme, 'a) state"

text \<open>\<open>__load_asset\<close>. The buffer is filled from its row \<open>y0\<close> on; \<open>inflate\<close> answers with the bytes it wrote.\<close>

definition load_asset_at :: "draw_call os \<Rightarrow> asset_id \<Rightarrow> int \<Rightarrow> int \<Rightarrow> ('z, int) drawing" where
  "load_asset_at os i canvas_h y0 = do {
     tab \<leftarrow> gets assets;
     let a = tab i;
     m \<leftarrow> syscall os (Malloc (asset_w a * canvas_h * 2));
     if ret_val m = 0 then return (-1)
     else do {
       let b = replicate (nat (asset_w a * canvas_h * 2)) (if canvas_h \<noteq> asset_h a then Some (0xff :: 8 word) else None);
       r \<leftarrow> syscall os InflateInit2;
       if ret_val r \<noteq> 0 then do { syscall os Free; return (-1) }
       else do {
         z \<leftarrow> syscall os (Inflate (gz a) (asset_w a * asset_h a * 2));
         case fill_in b (y0 * asset_w a * 2) (ret_data z) of
           None \<Rightarrow> do { undefined_behaviour; return (-1) }
         | Some b' \<Rightarrow>
             if ret_val z \<noteq> 0 then do { syscall os Free; return (-1) }
             else do {
               e \<leftarrow> syscall os InflateEnd;
               if ret_val e \<noteq> 0 then do { syscall os Free; return (-1) }
               else do {
                 modify (\<lambda>s. s\<lparr>assets := (assets s)(i := a\<lparr>bits := Some b'\<rparr>)\<rparr>);
                 return 0
               }
             }
       }
     }
   }"

definition load_asset :: "draw_call os \<Rightarrow> asset_id \<Rightarrow> ('z, int) drawing" where
  "load_asset os i = do { tab \<leftarrow> gets assets; load_asset_at os i (asset_h (tab i)) 0 }"

text \<open>Transparent pixels \<open>i, i + 1, \<dots>\<close> (\<open>n\<close> of them) of a frame are taken from the frame before.\<close>

fun patch_pixels :: "bytes \<Rightarrow> bytes \<Rightarrow> nat \<Rightarrow> nat \<Rightarrow> bytes option" where
  "patch_pixels b p i 0 = Some b"
| "patch_pixels b p i (Suc n) = do {
     v \<leftarrow> get_short b i;
     b' \<leftarrow> (if v = 0xffff then do { u \<leftarrow> get_short p i; Some (set_short b i u) } else Some b);
     patch_pixels b' p (Suc i) n
   }"

definition patch_frame :: "asset_id \<Rightarrow> asset_id \<Rightarrow> ('z, unit) drawing" where
  "patch_frame i prev = do {
     tab \<leftarrow> gets assets;
     let a = (tab i)\<lparr>asset_h := asset_h (tab prev)\<rparr>;
     case (bits a, bits (tab prev)) of
       (Some b, Some p) \<Rightarrow>
         (case patch_pixels b p 0 (nat (asset_w a * asset_h a)) of
            Some b' \<Rightarrow> modify (\<lambda>s. s\<lparr>assets := (assets s)(i := a\<lparr>bits := Some b'\<rparr>)\<rparr>)
          | None \<Rightarrow> undefined_behaviour)
     | _ \<Rightarrow> undefined_behaviour
   }"

primrec load_frames :: "draw_call os \<Rightarrow> asset_id \<Rightarrow> asset_id list \<Rightarrow> asset_id \<Rightarrow> ('z, int) drawing" where
  "load_frames os a0 [] prev = return 0"
| "load_frames os a0 (i # is) prev = do {
     tab \<leftarrow> gets assets;
     r \<leftarrow> load_asset_at os i (asset_h (tab a0)) 1;
     if r < 0 then return (-1)
     else do { patch_frame i prev; load_frames os a0 is i }
   }"

definition load_anim_asset :: "draw_call os \<Rightarrow> asset_id list \<Rightarrow> ('z, int) drawing" where
  "load_anim_asset os is = do {
     r \<leftarrow> load_asset os (hd is);
     if r < 0 then return (-1) else load_frames os (hd is) (tl is) (hd is)
   }"

definition unload_asset :: "draw_call os \<Rightarrow> asset_id \<Rightarrow> ('z, unit) drawing" where
  "unload_asset os i = do {
     tab \<leftarrow> gets assets;
     whenM (bits (tab i) \<noteq> None) (do { syscall os Free; return () });
     modify (\<lambda>s. s\<lparr>assets := (assets s)(i := (assets s i)\<lparr>bits := None\<rparr>)\<rparr>)
   }"

primrec unload_anim_asset :: "draw_call os \<Rightarrow> asset_id list \<Rightarrow> ('z, unit) drawing" where
  "unload_anim_asset os [] = return ()"
| "unload_anim_asset os (i # is) = do { unload_asset os i; unload_anim_asset os is }"

text \<open>The images in the order of \<open>draw_init\<close> and \<open>draw_uninit\<close>, an animation as the list of its frames.\<close>

definition battery_ani :: "colour \<Rightarrow> asset_id list" where
  "battery_ani c = [Ani c 0, Ani c 1, Ani c 2, Ani c 3]"

definition both_planes :: "(plane \<Rightarrow> asset_id) \<Rightarrow> asset_id list list" where
  "both_planes f = [[f Alpha], [f Intensity]]"

definition all_assets :: "asset_id list list" where
  "all_assets = [[Background], [Img Green], battery_ani Green, [Img Orange], battery_ani Orange, [Img Red], battery_ani Red] @
     concat (map both_planes [Ic_pane Pane_charge, Ic_pane Pane_complete, Ic_pane Pane_error,
       Number 0, Number 1, Number 2, Number 3, Number 4, Number 5, Number 6, Number 7, Number 8, Number 9, Percentage])"

definition load_group :: "draw_call os \<Rightarrow> asset_id list \<Rightarrow> ('z, int) drawing" where
  "load_group os g = (if length g = 1 then load_asset os (hd g) else load_anim_asset os g)"

definition unload_group :: "draw_call os \<Rightarrow> asset_id list \<Rightarrow> ('z, unit) drawing" where
  "unload_group os g = (if length g = 1 then unload_asset os (hd g) else unload_anim_asset os g)"

text \<open>The conjunction in \<open>draw_init\<close>: it stops at the first group that cannot be loaded.\<close>

primrec load_groups :: "draw_call os \<Rightarrow> asset_id list list \<Rightarrow> ('z, bool) drawing" where
  "load_groups os [] = return True"
| "load_groups os (g # gs) = do { r \<leftarrow> load_group os g; if r = 0 then load_groups os gs else return False }"

primrec unload_groups :: "draw_call os \<Rightarrow> asset_id list list \<Rightarrow> ('z, unit) drawing" where
  "unload_groups os [] = return ()"
| "unload_groups os (g # gs) = do { unload_group os g; unload_groups os gs }"

definition draw_uninit :: "draw_call os \<Rightarrow> ('z, unit) drawing" where
  "draw_uninit os = do {
     unload_groups os all_assets;
     modify (\<lambda>s. s\<lparr>draw_initialized := False\<rparr>)
   }"

definition draw_init :: "draw_call os \<Rightarrow> int \<Rightarrow> int \<Rightarrow> int \<Rightarrow> ('z, int) drawing" where
  "draw_init os width height sz = do {
     modify (\<lambda>s. s\<lparr>fb_width := width, fb_height := height, fb_size := sz\<rparr>);
     again \<leftarrow> gets draw_initialized;
     if again then do { modify (\<lambda>s. s\<lparr>aborted := True\<rparr>); return (-1) }
     else do {
       ok \<leftarrow> load_groups os all_assets;
       if ok then do { modify (\<lambda>s. s\<lparr>draw_initialized := True\<rparr>); return 0 }
       else do { draw_uninit os; return (-1) }
     }
   }"

section \<open>Painting\<close>

text \<open>\<open>memcpy(t, s, w * 2)\<close> of \<open>n\<close> pixels of an image from its pixel \<open>s\<close> on.\<close>

fun copy_row :: "bytes \<Rightarrow> nat \<Rightarrow> nat \<Rightarrow> int \<Rightarrow> surface \<Rightarrow> surface option" where
  "copy_row b s 0 t f = Some f"
| "copy_row b s (Suc n) t f = do { v \<leftarrow> get_short b s; f' \<leftarrow> store f t v; copy_row b (Suc s) n (t + 1) f' }"

text \<open>A loop over \<open>n\<close> rows \<open>r, r + 1, \<dots>\<close> of an image: the pointer into the frame moves by \<open>W\<close> pixels a row.\<close>

fun for_rows :: "(nat \<Rightarrow> int \<Rightarrow> surface \<Rightarrow> surface option) \<Rightarrow> int \<Rightarrow> nat \<Rightarrow> nat \<Rightarrow> int \<Rightarrow> surface \<Rightarrow> surface option" where
  "for_rows row W r 0 t f = Some f"
| "for_rows row W r (Suc n) t f = do { f' \<leftarrow> row r t f; for_rows row W (Suc r) n (t + W) f' }"

definition blit :: "int \<Rightarrow> surface \<Rightarrow> asset \<Rightarrow> int \<Rightarrow> int \<Rightarrow> surface option" where
  "blit W f a x y = do {
     b \<leftarrow> bits a;
     for_rows (\<lambda>r. copy_row b (r * nat (asset_w a)) (nat (asset_w a))) W 0 (nat (asset_h a)) (W * y + x) f
   }"

text \<open>A pixel of 5, 6 and 5 bits.\<close>

definition pack565 :: "int \<Rightarrow> int \<Rightarrow> int \<Rightarrow> 16 word" where
  "pack565 r g b = word_of_int (push_bit 11 r OR push_bit 5 g OR b)"

definition red565 :: "16 word \<Rightarrow> int" where
  "red565 p = drop_bit 11 (uint p)"

definition green565 :: "16 word \<Rightarrow> int" where
  "green565 p = drop_bit 5 (uint p) AND 0x3f"

definition blue565 :: "16 word \<Rightarrow> int" where
  "blue565 p = uint p AND 0x1f"

definition mix :: "int \<Rightarrow> int \<Rightarrow> int \<Rightarrow> int" where
  "mix a new old = (new * a + old * (255 - a)) sdiv 255"

text \<open>The new value of a pixel under an image with opacity \<open>a\<close> and intensity \<open>i\<close>.\<close>

definition ai_pixel :: "8 word \<Rightarrow> 8 word \<Rightarrow> 16 word \<Rightarrow> 16 word" where
  "ai_pixel a i p =
     (if a = 0 then p
      else if a = 255 then pack565 (drop_bit 3 (uint i)) (drop_bit 2 (uint i)) (drop_bit 3 (uint i))
      else pack565 (mix (uint a) (drop_bit 3 (uint i)) (red565 p))
             (mix (uint a) (drop_bit 2 (uint i)) (green565 p))
             (mix (uint a) (drop_bit 3 (uint i)) (blue565 p)))"

text \<open>Where the image is transparent neither its intensity nor the frame is accessed.\<close>

definition ai_put :: "bytes \<Rightarrow> bytes \<Rightarrow> nat \<Rightarrow> int \<Rightarrow> surface \<Rightarrow> surface option" where
  "ai_put al it k t f = do {
     a \<leftarrow> get_byte al k;
     if a = 0 then Some f
     else do {
       i \<leftarrow> get_byte it k;
       p \<leftarrow> load f t;
       store f t (ai_pixel a i p)
     }
   }"

fun ai_row :: "bytes \<Rightarrow> bytes \<Rightarrow> nat \<Rightarrow> nat \<Rightarrow> int \<Rightarrow> surface \<Rightarrow> surface option" where
  "ai_row al it k 0 t f = Some f"
| "ai_row al it k (Suc n) t f = do { f' \<leftarrow> ai_put al it k t f; ai_row al it (Suc k) n (t + 1) f' }"

definition ai_blit :: "int \<Rightarrow> surface \<Rightarrow> asset \<Rightarrow> asset \<Rightarrow> int \<Rightarrow> int \<Rightarrow> surface option" where
  "ai_blit W f aa ii x y = do {
     al \<leftarrow> bits aa;
     it \<leftarrow> bits ii;
     for_rows (\<lambda>r. ai_row al it (r * nat (asset_w ii)) (nat (asset_w ii))) W 0 (nat (asset_h ii)) (W * y + x) f
   }"

definition battery_colour :: "int \<Rightarrow> colour" where
  "battery_colour percent = (if percent \<le> 10 then Red else if percent < 30 then Orange else Green)"

definition desired_ic_pane :: "int \<Rightarrow> bool \<Rightarrow> pane" where
  "desired_ic_pane percent error = (if error then Pane_error else if percent < 100 then Pane_charge else Pane_complete)"

text \<open>The digits of the percentage; each is stored in an \<open>unsigned char\<close>.\<close>

definition draw_digits :: "int \<Rightarrow> int list" where
  "draw_digits percent =
     (if percent = 100 then [1] else []) @
     (if percent \<ge> 10 then [(percent sdiv 10) smod 10 mod 256] else []) @
     [percent smod 10 mod 256]"

text \<open>The bar up to the level, and the wave on top of it.\<close>

definition draw_level :: "variant \<Rightarrow> 'z draw_state_scheme \<Rightarrow> int \<Rightarrow> surface \<Rightarrow> surface option" where
  "draw_level v s percent f = do {
     let W = fb_width s;
     let bg = assets s Background;
     let img = assets s (Img (battery_colour percent));
     let ani = assets s (Ani (battery_colour percent) (frame s mod 4));
     let top = PNG_TOP v + (fb_height s - asset_h bg) sdiv 2;
     let bottom = PNG_BOTTOM v + (fb_height s - asset_h bg) sdiv 2;
     let left = PNG_LEFT v + (W - asset_w bg) sdiv 2;
     let fill_height_pixels = (percent * (bottom - top)) sdiv 100;
     let y = bottom - fill_height_pixels;
     f1 \<leftarrow> (if y < bottom
            then do {
              b \<leftarrow> bits img;
              for_rows (\<lambda>r. copy_row b 0 (nat (asset_w img))) W 0 (nat (bottom - y)) (W * y + left) f
            }
            else Some f);
     let y2 = max top (bottom - fill_height_pixels - asset_h ani);
     if percent < 100
     then do {
       b \<leftarrow> bits ani;
       for_rows (\<lambda>r. copy_row b (r * nat (asset_w ani)) (nat (asset_w ani))) W 0 (nat (asset_h ani)) (W * y2 + left) f1
     }
     else Some f1
   }"

fun draw_numbers :: "'z draw_state_scheme \<Rightarrow> int list \<Rightarrow> int \<Rightarrow> int \<Rightarrow> int \<Rightarrow> surface \<Rightarrow> surface option" where
  "draw_numbers s [] w x y f =
     ai_blit (fb_width s) f (assets s (Percentage Alpha)) (assets s (Percentage Intensity)) x y"
| "draw_numbers s (d # ds) w x y f =
     (if d < 10 then do {
        f' \<leftarrow> ai_blit (fb_width s) f (assets s (Number (nat d) Alpha)) (assets s (Number (nat d) Intensity)) x y;
        draw_numbers s ds w (x + w) y f'
      }
      else None)"

definition draw :: "variant \<Rightarrow> 'z draw_state_scheme \<Rightarrow> surface \<Rightarrow> int \<Rightarrow> bool \<Rightarrow> (surface \<times> 'z draw_state_scheme) option" where
  "draw v s color_channel percent error = do {
     let W = fb_width s;
     let bg = assets s Background;
     let pane = Ic_pane (desired_ic_pane percent error);
     f0 \<leftarrow> zero_bytes color_channel (fb_size s);
     f1 \<leftarrow> blit W f0 bg ((W - asset_w bg) sdiv 2) ((fb_height s - asset_h bg) sdiv 2);
     f2 \<leftarrow> (if \<not> error then draw_level v s percent f1 else Some f1);
     let i = assets s (pane Intensity);
     f3 \<leftarrow> ai_blit W f2 (assets s (pane Alpha)) i ((W - asset_w i) sdiv 2) ((fb_height s - asset_h i) sdiv 2);
     f4 \<leftarrow> (if \<not> error
            then let ds = draw_digits percent; w = asset_w (assets s (Number 0 Intensity)) + 2 in
              draw_numbers s ds w ((W - int (length ds) * w) sdiv 2 + 1) ((fb_height s + asset_h bg) sdiv 2 - 10) f3
            else Some f3);
     if frame s < 2 ^ 31 - 1 then Some (f4, s\<lparr>frame := frame s + 1\<rparr>) else None
   }"

end
