(* ===== verification/Charge_Picture.thy ===== *)
theory Charge_Picture
  imports Charge_Draw
begin

text \<open>
  What \<open>draw.c\<close> paints. A frame is described pixel by pixel: \<open>repaint\<close> applies a function of position and old
  value, \<open>layer\<close> is such a function for a rectangle. The locale \<open>raster\<close> states what one row of an image must do
  for the loop over its rows to paint a rectangle; it is interpreted for copied images, for the bar and for blended
  images. \<open>picture\<close> is the stack of layers a frame consists of.
\<close>

section \<open>Frames as functions of the position\<close>

definition repaint :: "(nat \<Rightarrow> 'p \<Rightarrow> 'p) \<Rightarrow> 'p list \<Rightarrow> 'p list" where
  "repaint h f = map (\<lambda>(i, p). h i p) (enumerate 0 f)"

lemma length_repaint [simp]: "length (repaint h f) = length f"
  by (simp add: repaint_def)

lemma nth_repaint [simp]: "i < length f \<Longrightarrow> repaint h f ! i = h i (f ! i)"
  by (simp add: repaint_def nth_enumerate_eq)

lemma repaint_repaint: "repaint h (repaint g f) = repaint (\<lambda>i p. h i (g i p)) f"
  by (rule nth_equalityI) simp_all

lemma repaint_cong: "(\<And>i p. i < length f \<Longrightarrow> g i p = h i p) \<Longrightarrow> repaint g f = repaint h f"
  by (rule nth_equalityI) simp_all

lemma repaint_same: "(\<And>i p. i < length f \<Longrightarrow> h i p = p) \<Longrightarrow> repaint h f = f"
  by (rule nth_equalityI) simp_all

lemma zero_bytes_all: "zero_bytes f (2 * int (length f)) = Some (repaint (\<lambda>i p. 0) f)"
  by (auto simp: zero_bytes_def intro!: nth_equalityI simp: nth_enumerate_eq)

text \<open>A rectangle of \<open>h\<close> rows of \<open>w\<close> pixels whose corner is at \<open>(x0, y0)\<close>; \<open>g\<close> is the new value by row and column.\<close>

definition layer :: "int \<Rightarrow> int \<Rightarrow> int \<Rightarrow> int \<Rightarrow> (nat \<Rightarrow> nat \<Rightarrow> 'p \<Rightarrow> 'p) \<Rightarrow> nat \<Rightarrow> nat \<Rightarrow> 'p \<Rightarrow> 'p" where
  "layer x0 y0 w h g x y p =
     (if x0 \<le> int x \<and> int x < x0 + w \<and> y0 \<le> int y \<and> int y < y0 + h
      then g (nat (int y - y0)) (nat (int x - x0)) p else p)"

text \<open>A run of \<open>w\<close> pixels from position \<open>t\<close> on.\<close>

definition span :: "nat \<Rightarrow> nat \<Rightarrow> (nat \<Rightarrow> 'p \<Rightarrow> 'p) \<Rightarrow> nat \<Rightarrow> 'p \<Rightarrow> 'p" where
  "span t w g i p = (if t \<le> i \<and> i < t + w then g (i - t) p else p)"

lemma repaint_span_0: "repaint (span t 0 g) f = f"
  by (rule repaint_same) (auto simp: span_def)

lemma span_row:
  assumes "x0 + w \<le> W"
  shows "span (W * y0 + x0) w g i p =
    (if x0 \<le> i mod W \<and> i mod W < x0 + w \<and> i div W = y0 then g (i mod W - x0) p else p)"
proof (cases "w = 0")
  case True
  then show ?thesis by (auto simp: span_def)
next
  case False
  then have W: "0 < W" using assms by simp
  have i: "i = W * (i div W) + i mod W" by simp
  have "W * y0 + x0 \<le> i \<and> i < W * y0 + x0 + w \<longleftrightarrow> x0 \<le> i mod W \<and> i mod W < x0 + w \<and> i div W = y0"
  proof
    assume b: "W * y0 + x0 \<le> i \<and> i < W * y0 + x0 + w"
    then have "i - W * y0 < W" "i = W * y0 + (i - W * y0)" using assms by linarith+
    then have "i div W = y0" using W by (metis div_mult_self4 div_less add.right_neutral not_less_zero)
    moreover have "i = W * y0 + i mod W" using i calculation by simp
    ultimately show "x0 \<le> i mod W \<and> i mod W < x0 + w \<and> i div W = y0" using b by linarith
  next
    assume "x0 \<le> i mod W \<and> i mod W < x0 + w \<and> i div W = y0"
    then show "W * y0 + x0 \<le> i \<and> i < W * y0 + x0 + w" using i by auto
  qed
  moreover have "i - (W * y0 + x0) = i mod W - x0" if "i div W = y0"
    using i that by (metis add_diff_cancel_left' diff_diff_left)
  ultimately show ?thesis unfolding span_def by auto
qed

text \<open>One more row on top of a rectangle.\<close>

lemma layer_Suc:
  assumes "x0 + w \<le> W"
  shows "layer (int x0) (int (Suc y0)) (int w) (int n) (\<lambda>r'. g (Suc (r + r'))) (i mod W) (i div W) (span (W * y0 + x0) w (g r) i p) =
    layer (int x0) (int y0) (int w) (int (Suc n)) (\<lambda>r'. g (r + r')) (i mod W) (i div W) p"
proof -
  let ?x = "i mod W" and ?y = "i div W"
  have "nat (int ?y - int (Suc y0)) = ?y - Suc y0" "nat (int ?y - int y0) = ?y - y0" "nat (int ?x - int x0) = ?x - x0"
    by simp_all
  moreover have "Suc (r + (?y - Suc y0)) = r + (?y - y0)" if "y0 < ?y" using that by simp
  ultimately show ?thesis
    unfolding span_row [OF assms] layer_def
    by (cases "?y = y0"; cases "y0 < ?y") (auto simp: Suc_le_eq)
qed

section \<open>Loops over the rows of an image\<close>

locale raster =
  fixes ready :: "'a \<Rightarrow> bool"
    and width :: "'a \<Rightarrow> nat"
    and height :: "'a \<Rightarrow> nat"
    and row :: "'a \<Rightarrow> nat \<Rightarrow> int \<Rightarrow> surface \<Rightarrow> surface option"
    and shade :: "'a \<Rightarrow> nat \<Rightarrow> nat \<Rightarrow> 16 word \<Rightarrow> 16 word"
  assumes row_paints: "ready a \<Longrightarrow> r < height a \<Longrightarrow> t + width a \<le> length f \<Longrightarrow>
    row a r (int t) f = Some (repaint (span t (width a) (shade a r)) f)"
begin

lemma rows_from:
  assumes "ready a" "x0 + width a \<le> W"
  shows "r + n = height a \<Longrightarrow> W * (y0 + n) \<le> length f \<Longrightarrow>
    for_rows (row a) (int W) r n (int (W * y0 + x0)) f =
      Some (repaint (\<lambda>i. layer (int x0) (int y0) (int (width a)) (int n) (\<lambda>r'. shade a (r + r')) (i mod W) (i div W)) f)"
proof (induction n arbitrary: r y0 f)
  case 0
  have "repaint (\<lambda>i. layer (int x0) (int y0) (int (width a)) (int 0) (\<lambda>r'. shade a (r + r')) (i mod W) (i div W)) f = f"
    by (rule repaint_same) (auto simp: layer_def)
  then show ?case by simp
next
  case (Suc n)
  let ?f = "repaint (span (W * y0 + x0) (width a) (shade a r)) f"
  have "W * y0 + x0 + width a \<le> W * (y0 + 1)" using assms(2) by simp
  also have "\<dots> \<le> length f" using Suc.prems(2) by (simp add: algebra_simps)
  finally have row: "row a r (int (W * y0 + x0)) f = Some ?f"
    using Suc.prems(1) assms(1) by (intro row_paints) auto
  have t: "int (W * y0 + x0) + int W = int (W * Suc y0 + x0)" by simp
  have "for_rows (row a) (int W) (Suc r) n (int (W * Suc y0 + x0)) ?f =
    Some (repaint (\<lambda>i. layer (int x0) (int (Suc y0)) (int (width a)) (int n) (\<lambda>r'. shade a (Suc r + r')) (i mod W) (i div W)) ?f)"
    using Suc.prems by (intro Suc.IH) auto
  then show ?case
    unfolding for_rows.simps row t Option.bind.simps repaint_repaint
    by (simp add: layer_Suc [OF assms(2)] cong: repaint_cong del: of_nat_Suc)
qed

lemma rows_paint:
  assumes "ready a" "0 \<le> x" "0 \<le> y" "x + int (width a) \<le> W" "y + int (height a) \<le> H" "nat (W * H) \<le> length f"
  shows "for_rows (row a) W 0 (height a) (W * y + x) f =
    Some (repaint (\<lambda>i. layer x y (int (width a)) (int (height a)) (shade a) (i mod nat W) (i div nat W)) f)"
proof -
  have W: "int (nat W) = W" using assms(2,4) by simp
  have t: "int (nat W * nat y + nat x) = W * y + x" using assms(2,3) W by simp
  have "nat W * (nat y + height a) \<le> nat W * nat H"
    using assms(3,5) by (intro mult_le_mono2) linarith
  also have "\<dots> = nat (W * H)" using W by (metis nat_mult_distrib of_nat_0_le_iff)
  also have "\<dots> \<le> length f" by (rule assms(6))
  finally have len: "nat W * (nat y + height a) \<le> length f" .
  have "nat x + width a \<le> nat W" using assms(2,4) by linarith
  from rows_from [OF assms(1) this, of 0 "height a" "nat y" f] len assms(2,3)
  show ?thesis unfolding t W by (simp del: int_nat_eq)
qed

end

section \<open>Images that are ready to be painted\<close>

text \<open>Every pixel of an image of 16-bit pixels, every byte of an image of bytes is there.\<close>

definition rgb_ready :: "asset \<Rightarrow> bool" where
  "rgb_ready a \<longleftrightarrow> (\<exists>b. bits a = Some b \<and> (\<forall>i < nat (asset_w a) * nat (asset_h a). get_short b i \<noteq> None))"

definition bytes_ready :: "nat \<Rightarrow> asset \<Rightarrow> bool" where
  "bytes_ready n a \<longleftrightarrow> (\<exists>b. bits a = Some b \<and> (\<forall>i < n. get_byte b i \<noteq> None))"

definition rgb_at :: "asset \<Rightarrow> nat \<Rightarrow> nat \<Rightarrow> 16 word" where
  "rgb_at a r c = the (get_short (the (bits a)) (r * nat (asset_w a) + c))"

definition byte_at :: "asset \<Rightarrow> nat \<Rightarrow> nat \<Rightarrow> nat \<Rightarrow> 8 word" where
  "byte_at a w r c = the (get_byte (the (bits a)) (r * w + c))"

lemma cell_index: "r < h \<Longrightarrow> c < w \<Longrightarrow> r * w + c < w * (h :: nat)"
proof -
  assume "r < h" "c < w"
  then have "r * w + c < Suc r * w" by simp
  also have "\<dots> \<le> h * w" using \<open>r < h\<close> by (intro mult_le_mono1) simp
  finally show ?thesis by (simp add: mult.commute)
qed

lemma span_Suc:
  "t + Suc n \<le> length f \<Longrightarrow> f' = repaint (\<lambda>i p. if i = t then g 0 p else p) f \<Longrightarrow>
   repaint (span (Suc t) n (\<lambda>c. g (Suc c))) f' = repaint (span t (Suc n) g) f"
  unfolding repaint_def [of _ f'] by (intro nth_equalityI) (auto simp: span_def nth_enumerate_eq Suc_diff_Suc)

lemma update_repaint: "t < length f \<Longrightarrow> f[t := h (f ! t)] = repaint (\<lambda>i p. if i = t then h p else p) f"
  by (rule nth_equalityI) (auto simp: nth_list_update)

lemma copy_row_paints:
  "(\<And>c. c < n \<Longrightarrow> get_short b (s + c) \<noteq> None) \<Longrightarrow> t + n \<le> length f \<Longrightarrow>
   copy_row b s n (int t) f = Some (repaint (span t n (\<lambda>c p. the (get_short b (s + c)))) f)"
proof (induction n arbitrary: s t f)
  case 0
  then show ?case by (simp add: repaint_span_0)
next
  case (Suc n)
  obtain v where v: "get_short b s = Some v" using Suc.prems(1) [of 0] by auto
  let ?f = "f[t := v]"
  have "copy_row b (Suc s) n (int (Suc t)) ?f = Some (repaint (span (Suc t) n (\<lambda>c p. the (get_short b (Suc s + c)))) ?f)"
  proof (rule Suc.IH)
    show "get_short b (Suc s + c) \<noteq> None" if "c < n" for c using Suc.prems(1) [of "Suc c"] that by simp
  qed (use Suc.prems(2) in simp)
  also have "\<dots> = Some (repaint (span t (Suc n) (\<lambda>c p. the (get_short b (s + c)))) f)"
    using span_Suc [of t n f ?f "\<lambda>c p. the (get_short b (s + c))"] Suc.prems(2) update_repaint [of t f "\<lambda>_. v"] v by simp
  finally show ?case using Suc.prems(2) v by (simp add: store_def add.commute)
qed

lemma ai_put_paints:
  assumes "get_byte al k = Some a" "get_byte it k = Some i" "t < length f"
  shows "ai_put al it k (int t) f = Some (repaint (\<lambda>j p. if j = t then ai_pixel a i p else p) f)"
proof (cases "a = 0")
  case True
  then have "repaint (\<lambda>j p. if j = t then ai_pixel a i p else p) f = f" by (intro repaint_same) (simp add: ai_pixel_def)
  then show ?thesis using True assms by (simp add: ai_put_def)
next
  case False
  then show ?thesis using assms update_repaint [OF assms(3), of "ai_pixel a i"] by (simp add: ai_put_def load_def store_def)
qed

lemma ai_row_paints:
  "(\<And>c. c < n \<Longrightarrow> get_byte al (k + c) \<noteq> None \<and> get_byte it (k + c) \<noteq> None) \<Longrightarrow> t + n \<le> length f \<Longrightarrow>
   ai_row al it k n (int t) f =
     Some (repaint (span t n (\<lambda>c. ai_pixel (the (get_byte al (k + c))) (the (get_byte it (k + c))))) f)"
proof (induction n arbitrary: k t f)
  case 0
  then show ?case by (simp add: repaint_span_0)
next
  case (Suc n)
  let ?g = "\<lambda>c. ai_pixel (the (get_byte al (k + c))) (the (get_byte it (k + c)))"
  obtain a i where ai: "get_byte al k = Some a" "get_byte it k = Some i" using Suc.prems(1) [of 0] by auto
  let ?f = "repaint (\<lambda>j p. if j = t then ai_pixel a i p else p) f"
  have "ai_row al it (Suc k) n (int (Suc t)) ?f = Some (repaint (span (Suc t) n (\<lambda>c. ?g (Suc c))) ?f)"
  proof (subst Suc.IH)
    show "get_byte al (Suc k + c) \<noteq> None \<and> get_byte it (Suc k + c) \<noteq> None" if "c < n" for c
      using Suc.prems(1) [of "Suc c"] that by simp
  qed (use Suc.prems(2) in simp_all)
  also have "\<dots> = Some (repaint (span t (Suc n) ?g) f)"
    by (rule arg_cong [where f = Some], rule span_Suc) (use Suc.prems(2) ai in \<open>simp_all cong: if_cong\<close>)
  finally show ?case using ai_put_paints [OF ai, of t f] Suc.prems(2) by (simp add: add.commute)
qed

interpretation copied: raster rgb_ready "\<lambda>a. nat (asset_w a)" "\<lambda>a. nat (asset_h a)"
  "\<lambda>a r. copy_row (the (bits a)) (r * nat (asset_w a)) (nat (asset_w a))" "\<lambda>a r c p. rgb_at a r c"
proof
  fix a :: asset and r t :: nat and f :: surface
  assume a: "rgb_ready a" "r < nat (asset_h a)" "t + nat (asset_w a) \<le> length f"
  show "copy_row (the (bits a)) (r * nat (asset_w a)) (nat (asset_w a)) (int t) f =
    Some (repaint (span t (nat (asset_w a)) (\<lambda>c p. rgb_at a r c)) f)"
    unfolding rgb_at_def
    by (rule copy_row_paints) (use a cell_index [OF a(2)] in \<open>auto simp: rgb_ready_def\<close>)
qed

text \<open>The bar repeats the first row of its image.\<close>

interpretation bar: raster "\<lambda>(a, n). rgb_ready a \<and> asset_h a > 0" "\<lambda>(a, n). nat (asset_w a)" "\<lambda>(a, n). n"
  "\<lambda>(a, n) r. copy_row (the (bits a)) 0 (nat (asset_w a))" "\<lambda>(a, n) r c p. rgb_at a 0 c"
proof
  fix an :: "asset \<times> nat" and r t :: nat and f :: surface
  obtain a n where an: "an = (a, n)" by (cases an)
  assume a: "case an of (a, n) \<Rightarrow> rgb_ready a \<and> asset_h a > 0" "t + (case an of (a, n) \<Rightarrow> nat (asset_w a)) \<le> length f"
  have "0 < nat (asset_h a)" using a an by simp
  then show "(case an of (a, n) \<Rightarrow> \<lambda>r. copy_row (the (bits a)) 0 (nat (asset_w a))) r (int t) f =
    Some (repaint (span t (case an of (a, n) \<Rightarrow> nat (asset_w a)) ((case an of (a, n) \<Rightarrow> \<lambda>r c p. rgb_at a 0 c) r)) f)"
    using a cell_index [of 0 "nat (asset_h a)" _ "nat (asset_w a)"] copy_row_paints [of "nat (asset_w a)" "the (bits a)" 0 t f]
    by (auto simp: an rgb_at_def rgb_ready_def)
qed

definition ai_ready :: "asset \<times> asset \<Rightarrow> bool" where
  "ai_ready = (\<lambda>(a, i). bytes_ready (nat (asset_w i) * nat (asset_h i)) a \<and> bytes_ready (nat (asset_w i) * nat (asset_h i)) i)"

interpretation blended: raster ai_ready "\<lambda>(a, i). nat (asset_w i)" "\<lambda>(a, i). nat (asset_h i)"
  "\<lambda>(a, i) r. ai_row (the (bits a)) (the (bits i)) (r * nat (asset_w i)) (nat (asset_w i))"
  "\<lambda>(a, i) r c. ai_pixel (byte_at a (nat (asset_w i)) r c) (byte_at i (nat (asset_w i)) r c)"
proof
  fix ai :: "asset \<times> asset" and r t :: nat and f :: surface
  obtain a i where ai: "ai = (a, i)" by (cases ai)
  assume r: "ai_ready ai" "r < (case ai of (a, i) \<Rightarrow> nat (asset_h i))" "t + (case ai of (a, i) \<Rightarrow> nat (asset_w i)) \<le> length f"
  show "(case ai of (a, i) \<Rightarrow> \<lambda>r. ai_row (the (bits a)) (the (bits i)) (r * nat (asset_w i)) (nat (asset_w i))) r (int t) f =
    Some (repaint (span t (case ai of (a, i) \<Rightarrow> nat (asset_w i))
      ((case ai of (a, i) \<Rightarrow> \<lambda>r c. ai_pixel (byte_at a (nat (asset_w i)) r c) (byte_at i (nat (asset_w i)) r c)) r)) f)"
    using r cell_index [of r "nat (asset_h i)" _ "nat (asset_w i)"]
      ai_row_paints [of "nat (asset_w i)" "the (bits a)" "r * nat (asset_w i)" "the (bits i)" t f]
    by (auto simp: ai byte_at_def ai_ready_def bytes_ready_def)
qed

section \<open>The picture\<close>

definition image_layer :: "asset \<Rightarrow> int \<Rightarrow> int \<Rightarrow> nat \<Rightarrow> nat \<Rightarrow> 16 word \<Rightarrow> 16 word" where
  "image_layer a x0 y0 = layer x0 y0 (asset_w a) (asset_h a) (\<lambda>r c p. rgb_at a r c)"

definition ai_layer :: "asset \<Rightarrow> asset \<Rightarrow> int \<Rightarrow> int \<Rightarrow> nat \<Rightarrow> nat \<Rightarrow> 16 word \<Rightarrow> 16 word" where
  "ai_layer a i x0 y0 = layer x0 y0 (asset_w i) (asset_h i)
     (\<lambda>r c. ai_pixel (byte_at a (nat (asset_w i)) r c) (byte_at i (nat (asset_w i)) r c))"

text \<open>
  The parts of the picture: the bar reaches from the lower edge of the drawn battery to the level, in proportion to
  the percentage; the wave lies on top of it but never above the upper edge; the digits stand side by side with the
  percent sign at the end.
\<close>

definition bar_rows :: "variant \<Rightarrow> int \<Rightarrow> int" where
  "bar_rows v percent = percent * (PNG_BOTTOM v - PNG_TOP v) div 100"

definition bar_layer :: "variant \<Rightarrow> asset \<Rightarrow> int \<Rightarrow> int \<Rightarrow> int \<Rightarrow> nat \<Rightarrow> nat \<Rightarrow> 16 word \<Rightarrow> 16 word" where
  "bar_layer v img bgx bgy percent =
     layer (bgx + PNG_LEFT v) (bgy + PNG_BOTTOM v - bar_rows v percent) (asset_w img) (bar_rows v percent) (\<lambda>r c p. rgb_at img 0 c)"

definition wave_layer :: "variant \<Rightarrow> asset \<Rightarrow> int \<Rightarrow> int \<Rightarrow> int \<Rightarrow> nat \<Rightarrow> nat \<Rightarrow> 16 word \<Rightarrow> 16 word" where
  "wave_layer v ani bgx bgy percent x y p =
     (if percent < 100
      then image_layer ani (bgx + PNG_LEFT v) (bgy + max (PNG_TOP v) (PNG_BOTTOM v - bar_rows v percent - asset_h ani)) x y p
      else p)"

fun number_layers :: "(asset_id \<Rightarrow> asset) \<Rightarrow> int list \<Rightarrow> int \<Rightarrow> int \<Rightarrow> nat \<Rightarrow> nat \<Rightarrow> 16 word \<Rightarrow> 16 word" where
  "number_layers tab [] x0 y0 x y p = ai_layer (tab (Percentage Alpha)) (tab (Percentage Intensity)) x0 y0 x y p"
| "number_layers tab (d # ds) x0 y0 x y p =
     number_layers tab ds (x0 + asset_w (tab (Number 0 Intensity)) + 2) y0 x y
       (ai_layer (tab (Number (nat d) Alpha)) (tab (Number (nat d) Intensity)) x0 y0 x y p)"

definition picture :: "variant \<Rightarrow> (asset_id \<Rightarrow> asset) \<Rightarrow> int \<Rightarrow> int \<Rightarrow> nat \<Rightarrow> int \<Rightarrow> bool \<Rightarrow> nat \<Rightarrow> nat \<Rightarrow> 16 word" where
  "picture v tab W H k percent error x y = (
     let bg = tab Background; c = battery_colour percent;
       bgx = (W - asset_w bg) div 2; bgy = (H - asset_h bg) div 2;
       a = tab (Ic_pane (desired_ic_pane percent error) Alpha); i = tab (Ic_pane (desired_ic_pane percent error) Intensity);
       px = (W - asset_w i) div 2; py = (H - asset_h i) div 2;
       ds = draw_digits percent; dw = asset_w (tab (Number 0 Intensity)) + 2;
       p1 = image_layer bg bgx bgy x y 0
     in if error then ai_layer a i px py x y p1
        else number_layers tab ds ((W - int (length ds) * dw) div 2 + 1) ((H + asset_h bg) div 2 - 10) x y
               (ai_layer a i px py x y
                 (wave_layer v (tab (Ani c (k mod 4))) bgx bgy percent x y
                   (bar_layer v (tab (Img c)) bgx bgy percent x y p1))))"

section \<open>Drawing paints the picture\<close>

fun blended_image :: "asset_id \<Rightarrow> bool" where
  "blended_image (Ic_pane p q) = True"
| "blended_image (Number k q) = True"
| "blended_image (Percentage q) = True"
| "blended_image _ = False"

text \<open>All frames of an animation have the height of the first once they are loaded.\<close>

fun loaded_size :: "variant \<Rightarrow> asset_id \<Rightarrow> int \<times> int" where
  "loaded_size v (Ani c k) = asset_size v (Ani c 0)"
| "loaded_size v i = asset_size v i"

definition image_loaded :: "variant \<Rightarrow> asset_id \<Rightarrow> asset \<Rightarrow> bool" where
  "image_loaded v i a \<longleftrightarrow> (asset_w a, asset_h a) = loaded_size v i \<and>
     (if blended_image i then bytes_ready (nat (asset_w a) * nat (asset_h a)) a else rgb_ready a)"

definition loaded :: "variant \<Rightarrow> (asset_id \<Rightarrow> asset) \<Rightarrow> bool" where
  "loaded v tab \<longleftrightarrow> (\<forall>g\<in>set all_assets. \<forall>i\<in>set g. image_loaded v i (tab i))"

text \<open>A screen that is large enough: the digits reach below the background.\<close>

definition screen_fits :: "variant \<Rightarrow> int \<Rightarrow> int \<Rightarrow> bool" where
  "screen_fits v W H \<longleftrightarrow> (case v of Venus2_assets \<Rightarrow> 220 \<le> W \<and> 280 \<le> H | _ \<Rightarrow> 346 \<le> W \<and> 448 \<le> H)"

lemma sdiv_nonneg: "0 \<le> a \<Longrightarrow> 0 < b \<Longrightarrow> a sdiv b = a div (b :: int)"
  by (cases "a = 0") (simp_all add: signed_divide_int_def)

lemma smod_nonneg: "0 \<le> a \<Longrightarrow> 0 < b \<Longrightarrow> a smod b = a mod (b :: int)"
  by (cases "a = 0") (simp_all add: signed_modulo_int_def)

lemma draw_digits_eq:
  assumes "0 \<le> percent" "percent \<le> 100"
  shows "draw_digits percent =
    (if percent = 100 then [1, 0, 0] else if 10 \<le> percent then [percent div 10, percent mod 10] else [percent])"
proof -
  have "0 \<le> percent div 10" "percent div 10 \<le> 10" "0 \<le> percent mod 10" "percent mod 10 < 256" using assms by simp_all
  moreover have "percent div 10 mod 10 mod 256 = percent div 10" if "percent \<noteq> 100"
  proof -
    have "percent div 10 < 10" using that assms by simp
    then show ?thesis using \<open>0 \<le> percent div 10\<close> by simp
  qed
  ultimately show ?thesis using assms by (auto simp: draw_digits_def sdiv_nonneg smod_nonneg)
qed

lemma draw_digits_bounds:
  assumes "0 \<le> percent" "percent \<le> 100"
  shows "d \<in> set (draw_digits percent) \<Longrightarrow> 0 \<le> d \<and> d < 10" "length (draw_digits percent) \<le> 3"
  using assms by (auto simp: draw_digits_eq [OF assms] split: if_splits)

text \<open>The digits are the decimal representation of the percentage.\<close>

lemma draw_digits_decimal:
  assumes "0 \<le> percent" "percent \<le> 100"
  shows "map (\<lambda>d. digit_char (nat d)) (draw_digits percent) = show_nat (nat percent)"
proof -
  have "nat (percent div 10) < 10" if "percent \<noteq> 100" using that assms by (simp add: nat_div_distrib)
  moreover have "nat percent div 10 = nat (percent div 10)" "nat percent mod 10 = nat (percent mod 10)"
    using assms by (simp_all add: nat_div_distrib nat_mod_distrib)
  ultimately show ?thesis
    using assms unfolding draw_digits_eq [OF assms]
    by (auto simp: show_nat.simps [of "nat percent"] show_nat.simps [of "nat (percent div 10)"] show_nat.simps [of 100] show_nat.simps [of 10] show_nat.simps [of "Suc 0"])
qed

lemma blit_paints:
  assumes "rgb_ready a" "0 \<le> asset_w a" "0 \<le> asset_h a" "0 \<le> x" "0 \<le> y" "x + asset_w a \<le> W" "y + asset_h a \<le> H"
    and "nat (W * H) \<le> length f"
  shows "blit W f a x y = Some (repaint (\<lambda>i. image_layer a x y (i mod nat W) (i div nat W)) f)"
  using copied.rows_paint [of a x y W H f] assms by (auto simp: blit_def image_layer_def rgb_ready_def)

lemma ai_blit_paints:
  assumes "ai_ready (a, i)" "0 \<le> asset_w i" "0 \<le> asset_h i" "0 \<le> x" "0 \<le> y" "x + asset_w i \<le> W" "y + asset_h i \<le> H"
    and "nat (W * H) \<le> length f"
  shows "ai_blit W f a i x y = Some (repaint (\<lambda>j. ai_layer a i x y (j mod nat W) (j div nat W)) f)"
  using blended.rows_paint [of "(a, i)" x y W H f] assms by (auto simp: ai_blit_def ai_layer_def ai_ready_def bytes_ready_def)

text \<open>The images a frame uses are among those that are loaded.\<close>

lemma all_assets_known:
  "Background \<in> set (concat all_assets)" "Img c \<in> set (concat all_assets)" "Ani c (k mod 4) \<in> set (concat all_assets)"
  "Ic_pane n q \<in> set (concat all_assets)" "d < 10 \<Longrightarrow> Number d q \<in> set (concat all_assets)" "Percentage q \<in> set (concat all_assets)"
proof -
  have "k mod 4 = 0 \<or> k mod 4 = 1 \<or> k mod 4 = 2 \<or> k mod 4 = 3" by linarith
  then show "Ani c (k mod 4) \<in> set (concat all_assets)" by (cases c) (auto simp: all_assets_def battery_ani_def)
  show "Number d q \<in> set (concat all_assets)" if "d < 10"
  proof -
    have "d = 0 \<or> d = 1 \<or> d \<in> set [2..<10]" unfolding set_upt using that by auto
    then show ?thesis by (cases q) (auto simp: upt_rec_numeral all_assets_def both_planes_def simp del: set_upt)
  qed
  show "Ic_pane n q \<in> set (concat all_assets)" by (cases n; cases q) (simp_all add: all_assets_def both_planes_def)
  show "Percentage q \<in> set (concat all_assets)" by (cases q) (simp_all add: all_assets_def both_planes_def)
  show "Background \<in> set (concat all_assets)" by (simp add: all_assets_def)
  show "Img c \<in> set (concat all_assets)" by (cases c) (simp_all add: all_assets_def)
qed

lemma loaded_image: "loaded v tab \<Longrightarrow> i \<in> set (concat all_assets) \<Longrightarrow> image_loaded v i (tab i)"
  by (auto simp: loaded_def)

lemma image_loaded_size: "image_loaded v i a \<Longrightarrow> asset_w a = fst (loaded_size v i) \<and> asset_h a = snd (loaded_size v i)"
  by (auto simp: image_loaded_def dest: arg_cong [of _ _ fst] arg_cong [of _ _ snd])

lemma loaded_sizes:
  assumes "loaded v tab"
  shows "asset_w (tab Background) = (if v = Venus2_assets then 220 else 346)" "asset_h (tab Background) = (if v = Venus2_assets then 248 else 390)"
    "asset_w (tab (Img c)) = (if v = Venus2_assets then 86 else 136)" "asset_h (tab (Img c)) = 1"
    "asset_w (tab (Ani c (k mod 4))) = (if v = Venus2_assets then 86 else 136)" "asset_h (tab (Ani c (k mod 4))) = (if v = Venus2_assets then 10 else 16)"
    "asset_w (tab (Ic_pane n q)) = (if v = Venus2_assets then 90 else 136)" "asset_h (tab (Ic_pane n q)) = (if v = Venus2_assets then 90 else 136)"
    "d < 10 \<Longrightarrow> asset_w (tab (Number d q)) = (if v = Venus2_assets then 17 else 26)" "d < 10 \<Longrightarrow> asset_h (tab (Number d q)) = (if v = Venus2_assets then 26 else 39)"
    "asset_w (tab (Percentage q)) = (if v = Venus2_assets then 12 else 18)" "asset_h (tab (Percentage q)) = (if v = Venus2_assets then 26 else 39)"
  using all_assets_known [THEN loaded_image [OF assms], THEN image_loaded_size] by (cases v; simp)+

lemma loaded_ready:
  assumes "loaded v tab"
  shows "rgb_ready (tab Background)" "rgb_ready (tab (Img c))" "rgb_ready (tab (Ani c (k mod 4)))"
    "ai_ready (tab (Ic_pane n Alpha), tab (Ic_pane n Intensity))"
    "d < 10 \<Longrightarrow> ai_ready (tab (Number d Alpha), tab (Number d Intensity))"
    "ai_ready (tab (Percentage Alpha), tab (Percentage Intensity))"
  using all_assets_known [THEN loaded_image [OF assms]] loaded_sizes [OF assms]
  by (simp_all add: image_loaded_def ai_ready_def)

lemma bar_rows_bounds:
  assumes "0 \<le> percent" "percent \<le> 100"
  shows "0 \<le> bar_rows v percent" "bar_rows v percent \<le> PNG_BOTTOM v - PNG_TOP v"
proof -
  have d: "0 \<le> PNG_BOTTOM v - PNG_TOP v" by (cases v) (simp_all add: PNG_BOTTOM_def PNG_TOP_def)
  then show "0 \<le> bar_rows v percent" using assms by (simp add: bar_rows_def pos_imp_zdiv_nonneg_iff)
  have "percent * (PNG_BOTTOM v - PNG_TOP v) \<le> 100 * (PNG_BOTTOM v - PNG_TOP v)"
    using assms d by (intro mult_right_mono)
  then show "bar_rows v percent \<le> PNG_BOTTOM v - PNG_TOP v" 
    using zdiv_mono1 [of _ "100 * (PNG_BOTTOM v - PNG_TOP v)" 100] by (simp add: bar_rows_def)
qed

lemma bar_paints:
  assumes "rgb_ready img" "0 < asset_h img" "0 \<le> asset_w img" "0 \<le> n" "0 \<le> x" "0 \<le> y" "x + asset_w img \<le> W" "y + n \<le> H"
    and "nat (W * H) \<le> length f" "0 < n"
  shows "(do { b \<leftarrow> bits img; for_rows (\<lambda>r. copy_row b 0 (nat (asset_w img))) W 0 (nat n) (W * y + x) f }) =
    Some (repaint (\<lambda>i. layer x y (asset_w img) n (\<lambda>r c p. rgb_at img 0 c) (i mod nat W) (i div nat W)) f)"
  using bar.rows_paint [of "(img, nat n)" x y W H f] assms by (auto simp: rgb_ready_def)

lemma draw_level_paints:
  fixes s :: "'z draw_state_scheme"
  assumes "loaded v (assets s)" "screen_fits v (fb_width s) (fb_height s)" "nat (fb_width s * fb_height s) \<le> length f"
    and p: "0 \<le> percent" "percent \<le> 100"
  defines "bgx \<equiv> (fb_width s - asset_w (assets s Background)) div 2" and "bgy \<equiv> (fb_height s - asset_h (assets s Background)) div 2"
    and "c \<equiv> battery_colour percent" and "W \<equiv> nat (fb_width s)"
  shows "draw_level v s percent f = Some (repaint (\<lambda>i p. wave_layer v (assets s (Ani c (frame s mod 4))) bgx bgy percent (i mod W) (i div W)
    (bar_layer v (assets s (Img c)) bgx bgy percent (i mod W) (i div W) p)) f)"
proof -
  let ?W = "fb_width s" and ?H = "fb_height s" and ?n = "bar_rows v percent"
  let ?img = "assets s (Img c)" and ?ani = "assets s (Ani c (frame s mod 4))"
  note sz = loaded_sizes [OF assms(1)] and rdy = loaded_ready [OF assms(1)]
  note n = bar_rows_bounds [OF p, of v]
  have bg: "asset_w (assets s Background) \<le> ?W" "asset_h (assets s Background) + 58 \<le> ?H \<or> v = Venus2_assets \<and> asset_h (assets s Background) + 32 \<le> ?H"
    using assms(2) by (cases v; simp add: screen_fits_def sz)+
  then have b: "0 \<le> bgx" "0 \<le> bgy" "bgx + asset_w (assets s Background) \<le> ?W" "bgy + asset_h (assets s Background) \<le> ?H"
    "(?W - asset_w (assets s Background)) sdiv 2 = bgx" "(?H - asset_h (assets s Background)) sdiv 2 = bgy"
    unfolding bgx_def bgy_def by (auto simp: sdiv_nonneg)
  have dims: "PNG_LEFT v + asset_w ?img \<le> asset_w (assets s Background)" "0 \<le> PNG_LEFT v" "0 \<le> PNG_TOP v"
    "PNG_BOTTOM v \<le> asset_h (assets s Background)" "asset_w ?ani = asset_w ?img" "asset_h ?ani \<le> PNG_BOTTOM v - PNG_TOP v"
    by (cases v; simp add: sz PNG_LEFT_def PNG_TOP_def PNG_BOTTOM_def)+
  have fill: "(percent * (PNG_BOTTOM v + bgy - (PNG_TOP v + bgy))) sdiv 100 = ?n"
    using p dims by (subst sdiv_nonneg) (auto simp: bar_rows_def sz intro!: mult_nonneg_nonneg split: if_splits)
  let ?f1 = "repaint (\<lambda>i. bar_layer v ?img bgx bgy percent (i mod W) (i div W)) f"
  have bar: "(if PNG_BOTTOM v + bgy - ?n < PNG_BOTTOM v + bgy
      then do { b \<leftarrow> bits ?img; for_rows (\<lambda>r. copy_row b 0 (nat (asset_w ?img))) ?W 0 (nat (PNG_BOTTOM v + bgy - (PNG_BOTTOM v + bgy - ?n)))
        (?W * (PNG_BOTTOM v + bgy - ?n) + (PNG_LEFT v + bgx)) f }
      else Some f) = Some ?f1"
  proof (cases "0 < ?n")
    case True
    then show ?thesis
      using bar_paints [of ?img ?n "PNG_LEFT v + bgx" "PNG_BOTTOM v + bgy - ?n" ?W ?H f] rdy(2) [of c] sz(3,4) [of c] b dims n assms(3)
      by (auto simp: bar_layer_def W_def algebra_simps)
  next
    case False
    then have "?f1 = f" using n by (intro repaint_same) (auto simp: bar_layer_def layer_def)
    then show ?thesis using False by simp
  qed
  let ?y = "max (PNG_TOP v + bgy) (PNG_BOTTOM v + bgy - ?n - asset_h ?ani)"
  have "blit ?W ?f1 ?ani (PNG_LEFT v + bgx) ?y =
    Some (repaint (\<lambda>i. image_layer ?ani (PNG_LEFT v + bgx) ?y (i mod nat ?W) (i div nat ?W)) ?f1)"
    using rdy(3) [of c "frame s"] sz(3,5,6) [of c] b dims n assms(3) by (intro blit_paints) auto
  moreover have "?y = bgy + max (PNG_TOP v) (PNG_BOTTOM v - ?n - asset_h ?ani)" by simp
  ultimately have wave: "percent < 100 \<Longrightarrow> blit ?W ?f1 ?ani (PNG_LEFT v + bgx) ?y =
    Some (repaint (\<lambda>i p. wave_layer v ?ani bgx bgy percent (i mod W) (i div W) (bar_layer v ?img bgx bgy percent (i mod W) (i div W) p)) f)"
    by (simp add: repaint_repaint wave_layer_def W_def add.commute)
  show ?thesis
  proof (cases "percent < 100")
    case True
    then show ?thesis using wave unfolding draw_level_def Let_def b(5,6) c_def [symmetric] fill bar by (simp add: blit_def)
  next
    case False
    then show ?thesis unfolding draw_level_def Let_def b(5,6) c_def [symmetric] fill bar by (simp add: wave_layer_def)
  qed
qed

lemma draw_numbers_paints:
  fixes s :: "'z draw_state_scheme"
  defines "dw \<equiv> asset_w (assets s (Number 0 Intensity)) + 2" and "W \<equiv> nat (fb_width s)"
  assumes ld: "loaded v (assets s)" and y: "0 \<le> y" "y + asset_h (assets s (Percentage Intensity)) \<le> fb_height s"
  shows "(\<And>d. d \<in> set ds \<Longrightarrow> 0 \<le> d \<and> d < 10) \<Longrightarrow> 0 \<le> x \<Longrightarrow>
    x + int (length ds) * dw + asset_w (assets s (Percentage Intensity)) \<le> fb_width s \<Longrightarrow>
    nat (fb_width s * fb_height s) \<le> length f \<Longrightarrow>
    draw_numbers s ds dw x y f = Some (repaint (\<lambda>i. number_layers (assets s) ds x y (i mod W) (i div W)) f)"
proof (induction ds arbitrary: x f)
  case Nil
  then show ?case
    using ai_blit_paints [OF loaded_ready(6) [OF ld], of x y "fb_width s" "fb_height s" f] loaded_sizes(11,12) [OF ld, of Intensity] y
    by (simp add: W_def)
next
  case (Cons d ds)
  have d: "nat d < 10" "d < 10" using Cons.prems(1) [of d] by auto
  let ?a = "assets s (Number (nat d) Alpha)" and ?i = "assets s (Number (nat d) Intensity)"
  let ?f = "repaint (\<lambda>j. ai_layer ?a ?i x y (j mod W) (j div W)) f"
  have w: "asset_w ?i + 2 = dw" "0 \<le> asset_w ?i" "asset_h ?i = asset_h (assets s (Percentage Intensity))" "0 \<le> asset_h ?i"
    "0 \<le> asset_w (assets s (Percentage Intensity))" "0 \<le> dw"
    using loaded_sizes [OF ld] d by (simp_all add: dw_def)
  have "0 \<le> int (length ds) * dw" using w by simp
  then have room: "x + asset_w ?i \<le> fb_width s" "x + dw + int (length ds) * dw + asset_w (assets s (Percentage Intensity)) \<le> fb_width s"
    using Cons.prems(3) w distrib_right [of 1 "int (length ds)" dw] by (simp_all, linarith+)
  have "ai_blit (fb_width s) f ?a ?i x y = Some ?f"
    using Cons.prems w y room unfolding W_def by (intro ai_blit_paints loaded_ready(5) [OF ld d(1)]) auto
  moreover have "draw_numbers s ds dw (x + dw) y ?f =
    Some (repaint (\<lambda>i. number_layers (assets s) ds (x + dw) y (i mod W) (i div W)) ?f)"
    using Cons.prems w room by (intro Cons.IH) auto
  ultimately show ?case using d by (simp add: repaint_repaint dw_def add.assoc)
qed

lemma draw_paints:
  fixes s :: "'z draw_state_scheme"
  assumes ld: "loaded v (assets s)" and fits: "screen_fits v (fb_width s) (fb_height s)"
    and len: "fb_size s = 2 * int (length f)" "nat (fb_width s * fb_height s) \<le> length f"
    and p: "0 \<le> percent" "percent \<le> 100" and k: "frame s < 2 ^ 31 - 1"
  shows "draw v s f percent error =
    Some (repaint (\<lambda>i p. picture v (assets s) (fb_width s) (fb_height s) (frame s) percent error (i mod nat (fb_width s)) (i div nat (fb_width s))) f,
      s\<lparr>frame := frame s + 1\<rparr>)"
proof -
  let ?W = "fb_width s" and ?H = "fb_height s" and ?bg = "assets s Background"
  let ?a = "assets s (Ic_pane (desired_ic_pane percent error) Alpha)" and ?i = "assets s (Ic_pane (desired_ic_pane percent error) Intensity)"
  let ?dw = "asset_w (assets s (Number 0 Intensity)) + 2" and ?ds = "draw_digits percent" and ?pc = "assets s (Percentage Intensity)"
  note sz = loaded_sizes [OF ld] and rdy = loaded_ready [OF ld] and digits = draw_digits_bounds [OF p]
  have room: "asset_w ?bg \<le> ?W" "asset_h ?bg \<le> ?H" "0 \<le> asset_w ?bg" "20 \<le> asset_h ?bg" "asset_w ?i \<le> ?W" "asset_h ?i \<le> ?H" "0 \<le> asset_w ?i" "0 \<le> asset_h ?i"
    "3 * ?dw + 2 + 2 * asset_w ?pc \<le> ?W" "asset_h ?bg + 2 * asset_h ?pc - 20 \<le> ?H" "0 \<le> asset_w ?pc" "0 \<le> ?dw"
    using fits by (cases v; simp add: screen_fits_def sz)+
  have "int (length ?ds) * ?dw \<le> 3 * ?dw" using digits(2) room(12) by (intro mult_right_mono) auto
  then have nx: "0 \<le> ?W - int (length ?ds) * ?dw"
    "(?W - int (length ?ds) * ?dw) div 2 + 1 + int (length ?ds) * ?dw + asset_w ?pc \<le> ?W"
    using room by linarith+
  define W where "W = nat ?W"
  define bgx bgy px py nx ny where defs: "bgx = (?W - asset_w ?bg) div 2" "bgy = (?H - asset_h ?bg) div 2"
    "px = (?W - asset_w ?i) div 2" "py = (?H - asset_h ?i) div 2"
    "nx = (?W - int (length ?ds) * ?dw) div 2 + 1" "ny = (?H + asset_h ?bg) div 2 - 10"
  have sd: "(?W - asset_w ?bg) sdiv 2 = bgx" "(?H - asset_h ?bg) sdiv 2 = bgy" "(?W - asset_w ?i) sdiv 2 = px" "(?H - asset_h ?i) sdiv 2 = py"
    "(?W - int (length ?ds) * ?dw) sdiv 2 + 1 = nx" "(?H + asset_h ?bg) sdiv 2 - 10 = ny"
    using room nx by (simp_all add: defs sdiv_nonneg)
  define f1 where "f1 = repaint (\<lambda>i p. image_layer ?bg bgx bgy (i mod W) (i div W) 0) f"
  have f1: "zero_bytes f (fb_size s) \<bind> (\<lambda>f0. blit ?W f0 ?bg bgx bgy) = Some f1"
    using blit_paints [OF rdy(1), of bgx bgy ?W ?H "repaint (\<lambda>i p. 0) f"] room len
    by (simp add: zero_bytes_all repaint_repaint f1_def W_def defs)
  have pane: "ai_blit ?W g ?a ?i px py = Some (repaint (\<lambda>j. ai_layer ?a ?i px py (j mod W) (j div W)) g)" if "length g = length f" for g
    using ai_blit_paints [OF rdy(4), of "desired_ic_pane percent error" px py ?W ?H g] room len that by (simp add: W_def defs)
  have nums: "draw_numbers s ?ds ?dw nx ny g = Some (repaint (\<lambda>i. number_layers (assets s) ?ds nx ny (i mod W) (i div W)) g)"
    if "length g = length f" for g
    unfolding W_def
  proof (rule draw_numbers_paints [OF ld])
    show "0 \<le> ny" "ny + asset_h (assets s (Percentage Intensity)) \<le> ?H" using room unfolding defs by linarith+
    show "0 \<le> nx" "nx + int (length ?ds) * ?dw + asset_w ?pc \<le> ?W" using nx unfolding defs by linarith+
  qed (use digits that len in auto)
  have level: "draw_level v s percent f1 = Some (repaint (\<lambda>i p. wave_layer v (assets s (Ani (battery_colour percent) (frame s mod 4))) bgx bgy percent (i mod W) (i div W)
    (bar_layer v (assets s (Img (battery_colour percent))) bgx bgy percent (i mod W) (i div W) p)) f1)"
    unfolding defs W_def by (rule draw_level_paints [OF ld fits _ p]) (simp add: f1_def len)
  obtain f0 where z: "zero_bytes f (fb_size s) = Some f0" "blit ?W f0 ?bg bgx bgy = Some f1"
    using f1 by (auto simp: bind_eq_Some_conv)
  define f2 where "f2 = (if error then f1 else the (draw_level v s percent f1))"
  define f3 where "f3 = repaint (\<lambda>j. ai_layer ?a ?i px py (j mod W) (j div W)) f2"
  define f4 where "f4 = (if error then f3 else repaint (\<lambda>i. number_layers (assets s) ?ds nx ny (i mod W) (i div W)) f3)"
  have len2: "length f2 = length f" using level by (simp add: f2_def f1_def)
  have s2: "(if \<not> error then draw_level v s percent f1 else Some f1) = Some f2" using level by (simp add: f2_def)
  have len3: "length f3 = length f" by (simp add: f3_def len2)
  have s3: "ai_blit ?W f2 ?a ?i px py = Some f3" using pane [OF len2] by (simp add: f3_def)
  have s4: "(if \<not> error then draw_numbers s ?ds ?dw nx ny f3 else Some f3) = Some f4"
    using nums [OF len3] by (simp add: f4_def)
  have "draw v s f percent error = Some (f4, s\<lparr>frame := frame s + 1\<rparr>)"
    unfolding draw_def Let_def sd z s2 Option.bind.simps s3 s4 using k by simp
  moreover have "f4 = repaint (\<lambda>i p. picture v (assets s) ?W ?H (frame s) percent error (i mod W) (i div W)) f"
    unfolding f4_def f3_def f2_def level option.sel unfolding f1_def picture_def Let_def defs by (simp add: repaint_repaint)
  ultimately show ?thesis by (simp add: W_def)
qed

text \<open>
  C10: \<open>draw\<close> paints exactly the picture of the percentage, whatever the frame held before. For each of the three sets of images,
  with all images loaded and a screen that is large enough, every access is inside of the frame and of the images, and
  each pixel is the composition of background, bar, wave, symbol and digits at its place.
\<close>

theorem draw_paints_picture:
  fixes s :: "'z draw_state_scheme"
  assumes ld: "loaded v (assets s)" and fits: "screen_fits v (fb_width s) (fb_height s)"
    and len: "fb_size s = 2 * int (length f)" "nat (fb_width s * fb_height s) \<le> length f"
    and p: "0 \<le> percent" "percent \<le> 100" and k: "frame s < 2 ^ 31 - 1"
  shows "\<exists>f'. draw v s f percent error = Some (f', s\<lparr>frame := frame s + 1\<rparr>) \<and> length f' = length f \<and>
    (\<forall>i < length f. f' ! i =
      picture v (assets s) (fb_width s) (fb_height s) (frame s) percent error (i mod nat (fb_width s)) (i div nat (fb_width s)))"
  using draw_paints [OF ld fits len p k, of error] by simp

text \<open>Images that are all black and transparent.\<close>

definition dark_assets :: "variant \<Rightarrow> asset_id \<Rightarrow> asset" where
  "dark_assets v i = \<lparr>asset_w = fst (loaded_size v i), asset_h = snd (loaded_size v i), gz = [],
     bits = Some (replicate (2 * (nat (fst (loaded_size v i)) * nat (snd (loaded_size v i)))) (Some 0))\<rparr>"

lemma dark_assets_loaded: "loaded v (dark_assets v)"
  by (auto simp: loaded_def image_loaded_def dark_assets_def bytes_ready_def rgb_ready_def get_byte_def get_short_def)

definition dark_state :: "variant \<Rightarrow> int \<Rightarrow> int \<Rightarrow> draw_state" where
  "dark_state v W H = \<lparr>trace = [], fault = False, assets = dark_assets v, fb_width = W, fb_height = H, fb_size = 2 * W * H,
     draw_initialized = True, frame = 0, aborted = False\<rparr>"

theorem draw_paints_picture_witness:
  "\<exists>f'. draw Solana_assets (dark_state Solana_assets 540 960) (replicate (540 * 960) 0xffff) 57 False =
       Some (f', (dark_state Solana_assets 540 960)\<lparr>frame := 1\<rparr>) \<and> length f' = 540 * 960 \<and>
     (\<forall>i < 540 * 960. f' ! i = picture Solana_assets (dark_assets Solana_assets) 540 960 0 57 False (i mod 540) (i div 540))"
  using draw_paints_picture [of Solana_assets "dark_state Solana_assets 540 960" "replicate (540 * 960) 0xffff" 57 False] dark_assets_loaded
  by (simp add: dark_state_def screen_fits_def)

section \<open>Blending\<close>

lemma bit_below:
  fixes r :: int
  assumes "0 \<le> r" "r < 2 ^ k" "bit r n"
  shows "n < k"
proof -
  have "take_bit k r = r" using assms by (simp add: take_bit_int_eq_self)
  then have "bit (take_bit k r) n" using assms(3) by simp
  then show ?thesis by (simp add: bit_take_bit_iff)
qed

lemma unpack565:
  assumes "0 \<le> r" "r < 32" "0 \<le> g" "g < 64" "0 \<le> b" "b < 32"
  shows "red565 (pack565 r g b) = r" "green565 (pack565 r g b) = g" "blue565 (pack565 r g b) = b"
proof -
  have r: "bit r n \<Longrightarrow> n < 5" and g: "bit g n \<Longrightarrow> n < 6" and b: "bit b n \<Longrightarrow> n < 5" for n
    using bit_below [of r 5] bit_below [of g 6] bit_below [of b 5] assms by auto
  have m: "(0x3f :: int) = mask 6" "(0x1f :: int) = mask 5" by (simp_all add: mask_numeral)
  show "red565 (pack565 r g b) = r" unfolding red565_def pack565_def
    by (rule bit_eqI) (auto simp: bit_simps dest: r g b)
  show "green565 (pack565 r g b) = g" unfolding green565_def pack565_def m
    by (rule bit_eqI) (auto simp: bit_simps dest: r g b)
  show "blue565 (pack565 r g b) = b" unfolding blue565_def pack565_def m
    by (rule bit_eqI) (auto simp: bit_simps dest: r g b)
qed

lemma mix_between:
  assumes "0 \<le> a" "a \<le> 255" "0 \<le> new" "0 \<le> old"
  shows "min new old \<le> mix a new old" "mix a new old \<le> max new old"
proof -
  let ?l = "min new old" and ?u = "max new old"
  have n: "0 \<le> new * a + old * (255 - a)" using assms by simp
  have "?l * a + ?l * (255 - a) \<le> new * a + old * (255 - a)" using assms by (intro add_mono mult_right_mono) auto
  moreover have "new * a + old * (255 - a) \<le> ?u * a + ?u * (255 - a)" using assms by (intro add_mono mult_right_mono) auto
  moreover have "x * a + x * (255 - a) = x * 255" for x :: int by (simp add: algebra_simps)
  ultimately have "?l * 255 \<le> new * a + old * (255 - a)" "new * a + old * (255 - a) \<le> ?u * 255" by metis+
  then show "?l \<le> mix a new old" "mix a new old \<le> ?u" 
    using sdiv_nonneg [OF n, of 255] unfolding mix_def by linarith+
qed

lemma fields565: "0 \<le> red565 p" "red565 p < 32" "0 \<le> green565 p" "green565 p < 64" "0 \<le> blue565 p" "blue565 p < 32"
proof -
  have m: "(0x3f :: int) = mask 6" "(0x1f :: int) = mask 5" by (simp_all add: mask_numeral)
  have "uint p < 2 ^ 16" using uint_bounded [of p] by simp
  then show "0 \<le> red565 p" "red565 p < 32" by (simp_all add: red565_def drop_bit_eq_div pos_imp_zdiv_nonneg_iff)
  show "0 \<le> green565 p" "green565 p < 64" "0 \<le> blue565 p" "blue565 p < 32"
    unfolding green565_def blue565_def m take_bit_eq_mask [symmetric]
    by (simp_all add: take_bit_eq_mod)
qed

lemma intensity_bounds:
  fixes i :: "8 word"
  shows "0 \<le> drop_bit 3 (uint i)" "drop_bit 3 (uint i) < 32" "0 \<le> drop_bit 2 (uint i)" "drop_bit 2 (uint i) < 64"
proof -
  have "uint i < 2 ^ 8" using uint_bounded [of i] by simp
  then show "0 \<le> drop_bit 3 (uint i)" "drop_bit 3 (uint i) < 32" "0 \<le> drop_bit 2 (uint i)" "drop_bit 2 (uint i) < 64"
    by (simp_all add: drop_bit_eq_div pos_imp_zdiv_nonneg_iff)
qed

text \<open>
  Blending stays within the fields of a pixel. Whatever the opacity, each colour of the new pixel lies between the
  colour of the old one and the grey of the image, so nothing spills over into the next field.
\<close>

lemma blend_between:
  "red565 (ai_pixel a i p) \<in> {min (drop_bit 3 (uint i)) (red565 p) .. max (drop_bit 3 (uint i)) (red565 p)} \<and>
   green565 (ai_pixel a i p) \<in> {min (drop_bit 2 (uint i)) (green565 p) .. max (drop_bit 2 (uint i)) (green565 p)} \<and>
   blue565 (ai_pixel a i p) \<in> {min (drop_bit 3 (uint i)) (blue565 p) .. max (drop_bit 3 (uint i)) (blue565 p)}"
proof -
  let ?r = "drop_bit 3 (uint i)" and ?g = "drop_bit 2 (uint i)"
  note i = intensity_bounds [of i] and p = fields565 [of p]
  have a: "0 \<le> uint a" "uint a \<le> 255" using uint_bounded [of a] by simp_all
  note m = mix_between [OF a i(1) p(1)] mix_between [OF a i(3) p(3)] mix_between [OF a i(1) p(5)]
  have "red565 (pack565 (mix (uint a) ?r (red565 p)) (mix (uint a) ?g (green565 p)) (mix (uint a) ?r (blue565 p))) = mix (uint a) ?r (red565 p)"
    "green565 (pack565 (mix (uint a) ?r (red565 p)) (mix (uint a) ?g (green565 p)) (mix (uint a) ?r (blue565 p))) = mix (uint a) ?g (green565 p)"
    "blue565 (pack565 (mix (uint a) ?r (red565 p)) (mix (uint a) ?g (green565 p)) (mix (uint a) ?r (blue565 p))) = mix (uint a) ?r (blue565 p)"
    by (rule unpack565; use m i p in linarith)+
  moreover have "red565 (pack565 ?r ?g ?r) = ?r" "green565 (pack565 ?r ?g ?r) = ?g" "blue565 (pack565 ?r ?g ?r) = ?r"
    using i by (simp_all add: unpack565)
  ultimately show ?thesis using m by (simp add: ai_pixel_def)
qed

end
