(* ===== verification/Charge_Load.thy ===== *)
theory Charge_Load
  imports Charge_Picture
begin

text \<open>
  Loading the images (\<open>draw_init\<close> and \<open>draw_uninit\<close> of \<open>src/charge_only_mode/draw.c\<close>): either every image is there, complete
  and patched, or none is and every buffer has been freed. \<open>zlib\<close> is the environment; what is used of it is that
  \<open>inflate\<close> never writes more than the room it was given, and that the generated images unpack to as many bytes as their
  dimensions say.
\<close>

section \<open>Buffers in use\<close>

definition heap_effect :: "draw_call \<times> ret \<Rightarrow> int" where
  "heap_effect e = (case fst e of Malloc n \<Rightarrow> if ret_val (snd e) \<noteq> 0 then 1 else 0 | Free \<Rightarrow> -1 | _ \<Rightarrow> 0)"

definition live :: "draw_call hist \<Rightarrow> int" where
  "live h = sum_list (map heap_effect h)"

lemma live_simps [simp]: "live [] = 0" "live (h @ h') = live h + live h'" "live (e # h) = heap_effect e + live h"
  by (simp_all add: live_def)

lemma heap_effect_simps [simp]:
  "heap_effect (Malloc n, r) = (if ret_val r \<noteq> 0 then 1 else 0)" "heap_effect (Free, r) = -1" "heap_effect (InflateInit2, r) = 0"
  "heap_effect (Inflate g n, r) = 0" "heap_effect (InflateEnd, r) = 0"
  by (simp_all add: heap_effect_def)

section \<open>What is used of zlib and of the images\<close>

definition stored_bytes :: "variant \<Rightarrow> asset_id \<Rightarrow> int" where
  "stored_bytes v i = (let n = fst (asset_size v i) * snd (asset_size v i) in if blended_image i then n else 2 * n)"

definition images_unpack :: "variant \<Rightarrow> (asset_id \<Rightarrow> string) \<Rightarrow> draw_call os \<Rightarrow> bool" where
  "images_unpack v z os \<longleftrightarrow>
     (\<forall>h i n. int (length (ret_data (os h (Inflate (z i) n)))) \<le> max 0 n) \<and>
     (\<forall>h i n. n = fst (asset_size v i) * snd (asset_size v i) * 2 \<longrightarrow>
       ret_val (os h (Inflate (z i) n)) = 0 \<longrightarrow> int (length (ret_data (os h (Inflate (z i) n)))) = stored_bytes v i)"

lemma images_unpackD:
  assumes "images_unpack v z os"
  shows "int (length (ret_data (os h (Inflate (z i) n)))) \<le> max 0 n"
    "n = fst (asset_size v i) * snd (asset_size v i) * 2 \<Longrightarrow> ret_val (os h (Inflate (z i) n)) = 0 \<Longrightarrow>
     int (length (ret_data (os h (Inflate (z i) n)))) = stored_bytes v i"
  using assms by (auto simp: images_unpack_def)

lemma asset_size_pos: "0 < fst (asset_size v i)" "0 < snd (asset_size v i)"
  by (cases v; cases i; simp)+

text \<open>One image: on failure nothing is left behind.\<close>

lemma load_asset_at_cases:
  fixes s :: "'z draw_state_scheme"
  assumes u: "images_unpack v z os" and a: "assets s i = asset_table v z i"
    and room: "0 \<le> y0" "y0 + asset_h (assets s i) \<le> canvas_h"
  shows "\<exists>h. (eval_in (load_asset_at os i canvas_h y0) s = -1 \<and> live h = 0 \<and>
        exec (load_asset_at os i canvas_h y0) s = s\<lparr>trace := trace s @ h\<rparr>) \<or>
     (\<exists>d b. eval_in (load_asset_at os i canvas_h y0) s = 0 \<and> live h = 1 \<and> int (length d) = stored_bytes v i \<and>
        fill_in (replicate (nat (asset_w (assets s i) * canvas_h * 2)) (if canvas_h \<noteq> asset_h (assets s i) then Some 0xff else None))
          (y0 * asset_w (assets s i) * 2) d = Some b \<and>
        exec (load_asset_at os i canvas_h y0) s = s\<lparr>trace := trace s @ h, assets := (assets s)(i := (assets s i)\<lparr>bits := Some b\<rparr>)\<rparr>)"
    (is "\<exists>h. ?fails h \<or> ?works h")
proof -
  let ?a = "assets s i" and ?n = "asset_w (assets s i) * asset_h (assets s i) * 2"
  have g: "gz ?a = z i" "asset_w ?a = fst (asset_size v i)" "asset_h ?a = snd (asset_size v i)" "0 \<le> asset_w ?a" "0 \<le> asset_h ?a"
    using asset_size_pos [of v i] by (simp_all add: a asset_table_def)
  define h1 where "h1 = [(Malloc (asset_w ?a * canvas_h * 2), os (trace s) (Malloc (asset_w ?a * canvas_h * 2)))]"
  define h2 where "h2 = h1 @ [(InflateInit2, os (trace s @ h1) InflateInit2)]"
  define r where "r = os (trace s @ h2) (Inflate (gz ?a) ?n)"
  define h3 where "h3 = h2 @ [(Inflate (gz ?a) ?n, r)]"
  define h4 where "h4 = h3 @ [(InflateEnd, os (trace s @ h3) InflateEnd)]"
  have "int (length (ret_data r)) \<le> ?n" using images_unpackD(1) [OF u, of "trace s @ h2" i ?n] room g by (simp add: r_def)
  moreover have "(y0 + asset_h ?a) * (asset_w ?a * 2) \<le> canvas_h * (asset_w ?a * 2)" using room g by (intro mult_right_mono) auto
  ultimately have "y0 * asset_w ?a * 2 + int (length (ret_data r)) \<le> asset_w ?a * canvas_h * 2" by (simp add: algebra_simps)
  then obtain b where b: "fill_in (replicate (nat (asset_w ?a * canvas_h * 2)) (if canvas_h \<noteq> asset_h ?a then Some 0xff else None))
    (y0 * asset_w ?a * 2) (ret_data r) = Some b"
    using room g by (auto simp: fill_in_def)
  note defs = load_asset_at_def h1_def h2_def h3_def h4_def r_def Let_def
  consider (m) "ret_val (snd (hd h1)) = 0"
    | (i) "ret_val (snd (hd h1)) \<noteq> 0" "ret_val (os (trace s @ h1) InflateInit2) \<noteq> 0"
    | (z) "ret_val (snd (hd h1)) \<noteq> 0" "ret_val (os (trace s @ h1) InflateInit2) = 0" "ret_val r \<noteq> 0"
    | (e) "ret_val (snd (hd h1)) \<noteq> 0" "ret_val (os (trace s @ h1) InflateInit2) = 0" "ret_val r = 0" "ret_val (os (trace s @ h3) InflateEnd) \<noteq> 0"
    | (ok) "ret_val (snd (hd h1)) \<noteq> 0" "ret_val (os (trace s @ h1) InflateInit2) = 0" "ret_val r = 0" "ret_val (os (trace s @ h3) InflateEnd) = 0"
    by blast
  then show ?thesis
  proof cases
    case m
    then have "?fails h1" by (simp add: defs)
    then show ?thesis by blast
  next
    case i
    then have "?fails (h2 @ [(Free, os (trace s @ h2) Free)])" by (simp add: defs)
    then show ?thesis by blast
  next
    case z
    then have "?fails (h3 @ [(Free, os (trace s @ h3) Free)])" using b by (simp add: defs)
    then show ?thesis by blast
  next
    case e
    then have "?fails (h4 @ [(Free, os (trace s @ h4) Free)])" using b by (simp add: defs)
    then show ?thesis by blast
  next
    case ok
    then have "int (length (ret_data r)) = stored_bytes v i"
      using images_unpackD(2) [OF u, of ?n i "trace s @ h2"] g by (simp add: r_def)
    moreover have "eval_in (load_asset_at os i canvas_h y0) s = 0"
      "exec (load_asset_at os i canvas_h y0) s = s\<lparr>trace := trace s @ h4, assets := (assets s)(i := (assets s i)\<lparr>bits := Some b\<rparr>)\<rparr>"
      using ok b by (simp_all add: defs)
    moreover have "live h4 = 1" using ok by (simp add: h4_def h3_def h2_def h1_def)
    ultimately have "?works h4" using b by blast
    then show ?thesis by blast
  qed
qed

section \<open>What a buffer holds\<close>

definition filled :: "nat \<Rightarrow> bytes \<Rightarrow> bool" where
  "filled n b \<longleftrightarrow> (\<forall>j < n. get_byte b j \<noteq> None)"

lemma filledD: "filled n b \<Longrightarrow> j < n \<Longrightarrow> \<exists>y. get_byte b j = Some y"
  by (simp add: filled_def)

lemma filled_short:
  assumes "filled (2 * n) b" "i < n"
  shows "get_short b i \<noteq> None"
  using filledD [OF assms(1), of "2 * i"] filledD [OF assms(1), of "2 * i + 1"] assms(2) by (auto simp: get_short_def)

lemma filled_ready:
  "bits a = Some b \<Longrightarrow> filled (2 * (nat (asset_w a) * nat (asset_h a))) b \<Longrightarrow> rgb_ready a"
  "bits a = Some b \<Longrightarrow> filled n b \<Longrightarrow> bytes_ready n a"
  using filled_short by (auto simp: rgb_ready_def bytes_ready_def filled_def)

lemma fill_in_filled:
  assumes "fill_in (replicate n x) off d = Some b" "off = 0 \<and> m \<le> length d \<or> x \<noteq> None \<and> m \<le> n"
  shows "filled m b"
  unfolding filled_def
proof (intro allI impI)
  fix j assume "j < m"
  then show "get_byte b j \<noteq> None"
    using assms by (auto simp: fill_in_def get_byte_def nth_append split: if_splits)
qed

lemma filled_set_short: "filled n b \<Longrightarrow> filled n (set_short b i v)"
  unfolding filled_def
proof (intro allI impI)
  fix j assume "\<forall>j<n. get_byte b j \<noteq> None" "j < n"
  then have "j < length b" "b ! j \<noteq> None" by (auto simp: get_byte_def split: if_splits)
  then show "get_byte (set_short b i v) j \<noteq> None"
    by (cases "j = Suc (2 * i)"; cases "j = 2 * i") (simp_all add: get_byte_def set_short_def)
qed

text \<open>Patching reads and writes inside of both buffers, and keeps the buffer complete.\<close>

lemma patch_pixels_filled:
  "filled (2 * (i + n)) b \<Longrightarrow> filled (2 * (i + n)) p \<Longrightarrow> \<exists>b'. patch_pixels b p i n = Some b' \<and> filled (2 * (i + n)) b'"
proof (induction n arbitrary: i b)
  case (Suc n)
  obtain x y where xy: "get_short b i = Some x" "get_short p i = Some y"
    using filled_short [of "i + Suc n" b i] filled_short [of "i + Suc n" p i] Suc.prems by auto
  let ?b = "if x = 0xffff then set_short b i y else b"
  have "\<exists>b'. patch_pixels ?b p (Suc i) n = Some b' \<and> filled (2 * (Suc i + n)) b'"
    using Suc.prems by (intro Suc.IH) (auto intro: filled_set_short)
  then show ?case using xy by auto
qed simp

section \<open>Stages of the loading\<close>

text \<open>The images in \<open>D\<close> are loaded, the others are as the program started; \<open>n\<close> buffers belong to others.\<close>

definition stage :: "variant \<Rightarrow> (asset_id \<Rightarrow> string) \<Rightarrow> int \<Rightarrow> asset_id set \<Rightarrow> 'z draw_state_scheme \<Rightarrow> bool" where
  "stage v z n D s \<longleftrightarrow> finite D \<and> \<not> fault s \<and> live (trace s) = n + int (card D) \<and>
     (\<forall>i\<in>D. image_loaded v i (assets s i)) \<and> (\<forall>i. i \<notin> D \<longrightarrow> assets s i = asset_table v z i)"

lemma stage_insert:
  assumes "stage v z n D s" "i \<notin> D" "live h = 1" "image_loaded v i a"
  shows "stage v z n (insert i D) (s\<lparr>trace := trace s @ h, assets := (assets s)(i := a)\<rparr>)"
  using assms by (auto simp: stage_def)

lemma stage_trace: "stage v z n D s \<Longrightarrow> live h = 0 \<Longrightarrow> stage v z n D (s\<lparr>trace := trace s @ h\<rparr>)"
  by (simp add: stage_def)

lemma stage_fresh: "stage v z n D s \<Longrightarrow> i \<notin> D \<Longrightarrow> assets s i = asset_table v z i"
  by (simp add: stage_def)

definition loaded_to :: "variant \<Rightarrow> (asset_id \<Rightarrow> string) \<Rightarrow> int \<Rightarrow> asset_id set \<Rightarrow> int \<Rightarrow> 'z draw_state_scheme \<Rightarrow> bool" where
  "loaded_to v z n D r s \<longleftrightarrow> r = 0 \<and> stage v z n D s \<or> r = -1 \<and> (\<exists>D' \<subseteq> D. stage v z n D' s)"

lemma load_asset_stage:
  assumes u: "images_unpack v z os" and i: "i \<notin> D" "loaded_size v i = asset_size v i"
  shows "valid (stage v z n D) (load_asset os i :: ('z, int) drawing) (loaded_to v z n (insert i D))"
proof (rule validI)
  fix s :: "'z draw_state_scheme" assume s: "stage v z n D s"
  let ?a = "assets s i" and ?r = "eval_in (load_asset os i) s" and ?t = "exec (load_asset os i) s"
  have a: "?a = asset_table v z i" using stage_fresh [OF s i(1)] .
  have pos: "0 \<le> asset_w ?a" "0 \<le> asset_h ?a" "gz ?a = z i" using asset_size_pos [of v i] by (simp_all add: a asset_table_def)
  have run: "load_asset os i = gets assets \<bind> (\<lambda>tab. load_asset_at os i (asset_h (tab i)) 0)" by (simp add: load_asset_def)
  from load_asset_at_cases [OF u a, of 0 "asset_h ?a" ]
  obtain h where "?r = -1 \<and> live h = 0 \<and> ?t = s\<lparr>trace := trace s @ h\<rparr> \<or>
     (\<exists>d b. ?r = 0 \<and> live h = 1 \<and> int (length d) = stored_bytes v i \<and>
        fill_in (replicate (nat (asset_w ?a * asset_h ?a * 2)) None) 0 d = Some b \<and>
        ?t = s\<lparr>trace := trace s @ h, assets := (assets s)(i := ?a\<lparr>bits := Some b\<rparr>)\<rparr>)"
    by (auto simp: run)
  then show "loaded_to v z n (insert i D) ?r ?t"
  proof (elim disjE exE conjE)
    assume "?r = -1" "live h = 0" "?t = s\<lparr>trace := trace s @ h\<rparr>"
    then show ?thesis using stage_trace [OF s] by (auto simp: loaded_to_def)
  next
    fix d b
    assume d: "?r = 0" "live h = 1" "int (length d) = stored_bytes v i"
      "fill_in (replicate (nat (asset_w ?a * asset_h ?a * 2)) None) 0 d = Some b"
      "?t = s\<lparr>trace := trace s @ h, assets := (assets s)(i := ?a\<lparr>bits := Some b\<rparr>)\<rparr>"
    have "filled (length d) b" using fill_in_filled [OF d(4), of "length d"] by simp
    moreover have "length d = (if blended_image i then 1 else 2) * (nat (asset_w ?a) * nat (asset_h ?a))"
      using d(3) pos asset_size_pos [of v i]
      by (auto simp: stored_bytes_def Let_def a asset_table_def nat_mult_distrib [symmetric] simp del: of_nat_mult)
    ultimately have "image_loaded v i (?a\<lparr>bits := Some b\<rparr>)"
      using i(2) filled_ready [of "?a\<lparr>bits := Some b\<rparr>" b] by (auto simp: image_loaded_def a asset_table_def split: if_splits)
    then show ?thesis using stage_insert [OF s i(1) d(2)] d(1,5) by (simp add: loaded_to_def)
  qed
qed

text \<open>A frame after the first: shorter than the first, so its buffer starts out transparent, and then patched.\<close>

lemma ani_shorter: "0 < k \<Longrightarrow> 1 + snd (asset_size v (Ani c k)) \<le> snd (asset_size v (Ani c 0))"
  by (cases v) simp_all

lemma rgb_filled:
  assumes "rgb_ready a" "0 < asset_w a"
  obtains b where "bits a = Some b" "filled (2 * (nat (asset_w a) * nat (asset_h a))) b"
proof -
  obtain b where b: "bits a = Some b" "\<forall>i < nat (asset_w a) * nat (asset_h a). get_short b i \<noteq> None"
    using assms(1) by (auto simp: rgb_ready_def)
  have "get_byte b j \<noteq> None" if "j < 2 * (nat (asset_w a) * nat (asset_h a))" for j
  proof -
    have "get_short b (j div 2) \<noteq> None" using b(2) that by (simp add: less_mult_imp_div_less mult.commute)
    then have "get_byte b (2 * (j div 2)) \<noteq> None" "get_byte b (2 * (j div 2) + 1) \<noteq> None"
      by (auto simp: get_short_def bind_eq_Some_conv)
    then show ?thesis by (cases "even j") (auto elim!: evenE oddE)
  qed
  then show ?thesis using that b(1) by (simp add: filled_def)
qed

lemma patch_frame_stage:
  fixes s :: "'z draw_state_scheme"
  assumes s: "stage v z n D s" and prev: "Ani c j \<in> D" and i: "Ani c k \<notin> D"
    and a: "asset_w a = fst (asset_size v (Ani c k))" "bits a = Some b" "filled (2 * (nat (asset_w a) * nat (snd (asset_size v (Ani c 0))))) b"
    and h: "live h = 1"
  shows "stage v z n (insert (Ani c k) D)
    (exec (patch_frame (Ani c k) (Ani c j)) (s\<lparr>trace := trace s @ h, assets := (assets s)(Ani c k := a)\<rparr>))"
proof -
  let ?p = "assets s (Ani c j)" and ?H = "snd (asset_size v (Ani c 0))"
  have p: "rgb_ready ?p" "asset_h ?p = ?H" "asset_w ?p = asset_w a" using s prev a(1) by (auto simp: stage_def image_loaded_def)
  moreover have "0 < asset_w a" "0 < ?H" using asset_size_pos [of v "Ani c k"] asset_size_pos [of v "Ani c 0"] a(1) by simp_all
  moreover obtain pb where pb: "bits ?p = Some pb" "filled (2 * (nat (asset_w a) * nat ?H)) pb"
    using rgb_filled [OF p(1)] p \<open>0 < asset_w a\<close> by metis
  have nw: "nat (asset_w a * ?H) = nat (asset_w a) * nat ?H" using \<open>0 < asset_w a\<close> by (simp add: nat_mult_distrib)
  obtain b' where b': "patch_pixels b pb 0 (nat (asset_w a) * nat ?H) = Some b'" "filled (2 * (nat (asset_w a) * nat ?H)) b'"
    using patch_pixels_filled [of 0 "nat (asset_w a) * nat ?H" b pb] a(3) pb(2) by auto
  have "Ani c j \<noteq> Ani c k" using prev i by auto
  then have "exec (patch_frame (Ani c k) (Ani c j)) (s\<lparr>trace := trace s @ h, assets := (assets s)(Ani c k := a)\<rparr>) =
    s\<lparr>trace := trace s @ h, assets := (assets s)(Ani c k := a\<lparr>asset_h := ?H, bits := Some b'\<rparr>)\<rparr>"
    using a(2) pb(1) b'(1) p(2) by (simp add: patch_frame_def Let_def nw [simplified])
  moreover have "image_loaded v (Ani c k) (a\<lparr>asset_h := ?H, bits := Some b'\<rparr>)"
    using filled_ready(1) [of "a\<lparr>asset_h := ?H, bits := Some b'\<rparr>" b'] b'(2) a(1) by (simp add: image_loaded_def)
  ultimately show ?thesis using stage_insert [OF s i h] by simp
qed

lemma load_frames_stage:
  assumes u: "images_unpack v z os"
  shows "Ani c 0 \<in> D \<Longrightarrow> Ani c j \<in> D \<Longrightarrow> Ani c ` set ks \<inter> D = {} \<Longrightarrow> distinct ks \<Longrightarrow> 0 \<notin> set ks \<Longrightarrow>
    valid (stage v z n D) (load_frames os (Ani c 0) (map (Ani c) ks) (Ani c j) :: ('z, int) drawing) (loaded_to v z n (D \<union> Ani c ` set ks))"
proof (induction ks arbitrary: D j)
  case Nil
  then show ?case by (simp add: valid_def loaded_to_def)
next
  case (Cons k ks)
  let ?i = "Ani c k" and ?E = "D \<union> Ani c ` set (k # ks)"
  show ?case
  proof (rule validI)
    fix s :: "'z draw_state_scheme" assume s: "stage v z n D s"
    let ?a = "assets s ?i" and ?H = "snd (asset_size v (Ani c 0))"
    let ?m = "load_frames os (Ani c 0) (map (Ani c) (k # ks)) (Ani c j)"
    have i: "?i \<notin> D" "0 < k" using Cons.prems by auto
    have a: "?a = asset_table v z ?i" using stage_fresh [OF s i(1)] .
    have H: "asset_h (assets s (Ani c 0)) = ?H" using s Cons.prems(1) by (auto simp: stage_def image_loaded_def)
    have pos: "gz ?a = z ?i" "0 \<le> asset_w ?a" "0 \<le> asset_h ?a" "1 + asset_h ?a \<le> ?H"
      using asset_size_pos [of v ?i] ani_shorter [OF i(2), of v c] by (simp_all add: a asset_table_def)
    from load_asset_at_cases [OF u a _ pos(4)] pos(4)
    obtain h where "eval_in (load_asset_at os ?i ?H 1) s = -1 \<and> live h = 0 \<and> exec (load_asset_at os ?i ?H 1) s = s\<lparr>trace := trace s @ h\<rparr> \<or>
       (\<exists>d b. eval_in (load_asset_at os ?i ?H 1) s = 0 \<and> live h = 1 \<and>
          fill_in (replicate (nat (asset_w ?a * ?H * 2)) (Some 0xff)) (1 * asset_w ?a * 2) d = Some b \<and>
          exec (load_asset_at os ?i ?H 1) s = s\<lparr>trace := trace s @ h, assets := (assets s)(?i := ?a\<lparr>bits := Some b\<rparr>)\<rparr>)"
      by auto
    then show "loaded_to v z n ?E (eval_in ?m s) (exec ?m s)"
    proof (elim disjE exE conjE)
      assume "eval_in (load_asset_at os ?i ?H 1) s = -1" "live h = 0" "exec (load_asset_at os ?i ?H 1) s = s\<lparr>trace := trace s @ h\<rparr>"
      then show ?thesis using stage_trace [OF s] by (auto simp: H split_beta loaded_to_def)
    next
      fix d b
      let ?s = "s\<lparr>trace := trace s @ h, assets := (assets s)(?i := ?a\<lparr>bits := Some b\<rparr>)\<rparr>"
      assume d: "eval_in (load_asset_at os ?i ?H 1) s = 0" "live h = 1" "exec (load_asset_at os ?i ?H 1) s = ?s"
        "fill_in (replicate (nat (asset_w ?a * ?H * 2)) (Some 0xff)) (1 * asset_w ?a * 2) d = Some b"
      have "filled (nat (asset_w ?a * ?H * 2)) b" using fill_in_filled [OF d(4)] by simp
      then have "filled (2 * (nat (asset_w ?a) * nat ?H)) b" using pos by (simp add: nat_mult_distrib mult.commute mult.left_commute)
      then have t: "stage v z n (insert ?i D) (exec (patch_frame ?i (Ani c j)) ?s)"
        using Cons.prems(2) i d(2) by (intro patch_frame_stage [OF s, where b = b]) (simp_all add: a asset_table_def)
      have "valid (stage v z n (insert ?i D)) (load_frames os (Ani c 0) (map (Ani c) ks) ?i :: ('z, int) drawing) (loaded_to v z n (insert ?i D \<union> Ani c ` set ks))"
        using Cons.prems by (intro Cons.IH) auto
      from validD [OF this t] show ?thesis using d(1,3) by (simp add: H split_beta)
    qed
  qed
qed

lemma loaded_to_cases: "loaded_to v z n D r s \<Longrightarrow> r = 0 \<and> stage v z n D s \<or> r = -1 \<and> (\<exists>D' \<subseteq> D. stage v z n D' s)"
  by (simp add: loaded_to_def)

lemma load_anim_stage:
  assumes u: "images_unpack v z os" and D: "set (battery_ani c) \<inter> D = {}"
  shows "valid (stage v z n D) (load_anim_asset os (battery_ani c) :: ('z, int) drawing) (loaded_to v z n (D \<union> set (battery_ani c)))"
proof (rule validI)
  fix s :: "'z draw_state_scheme" assume s: "stage v z n D s"
  let ?t = "exec (load_asset os (Ani c 0)) s" and ?r = "eval_in (load_asset os (Ani c 0)) s"
  have ani: "battery_ani c = Ani c 0 # map (Ani c) [1, 2, 3]" "set (battery_ani c) = insert (Ani c 0) (Ani c ` set [1, 2, 3])"
    by (simp_all add: battery_ani_def)
  have "loaded_to v z n (insert (Ani c 0) D) ?r ?t" using D by (intro validD [OF load_asset_stage [OF u] s]) (auto simp: ani)
  then consider "?r = 0" "stage v z n (insert (Ani c 0) D) ?t" | D' where "?r = -1" "D' \<subseteq> insert (Ani c 0) D" "stage v z n D' ?t"
    by (auto dest: loaded_to_cases)
  then show "loaded_to v z n (D \<union> set (battery_ani c)) (eval_in (load_anim_asset os (battery_ani c)) s) (exec (load_anim_asset os (battery_ani c)) s)"
  proof cases
    case 1
    have "valid (stage v z n (insert (Ani c 0) D)) (load_frames os (Ani c 0) (map (Ani c) [1, 2, 3]) (Ani c 0) :: ('z, int) drawing)
      (loaded_to v z n (insert (Ani c 0) D \<union> Ani c ` set [1, 2, 3]))"
      using D by (intro load_frames_stage [OF u]) (auto simp: ani)
    from validD [OF this 1(2)] show ?thesis using 1(1) unfolding load_anim_asset_def ani(2)
      by (simp add: ani(1) split_beta Un_commute insert_commute del: list.map)
  next
    case 2
    then show ?thesis using ani(2) unfolding load_anim_asset_def by (auto simp: ani(1) split_beta loaded_to_def)
  qed
qed

lemma group_kind: "g \<in> set all_assets \<Longrightarrow> (\<exists>i. g = [i] \<and> loaded_size v i = asset_size v i) \<or> (\<exists>c. g = battery_ani c)"
  by (auto simp: all_assets_def both_planes_def)

lemma load_group_stage:
  assumes "images_unpack v z os" "g \<in> set all_assets" "set g \<inter> D = {}"
  shows "valid (stage v z n D) (load_group os g :: ('z, int) drawing) (loaded_to v z n (D \<union> set g))"
  using group_kind [OF assms(2), of v] load_asset_stage [OF assms(1)] load_anim_stage [OF assms(1)] assms(3)
  by (auto simp: load_group_def) (simp_all add: battery_ani_def)

lemma load_groups_stage:
  assumes u: "images_unpack v z os"
  shows "set gs \<subseteq> set all_assets \<Longrightarrow> distinct (concat gs) \<Longrightarrow> set (concat gs) \<inter> D = {} \<Longrightarrow>
    valid (stage v z n D) (load_groups os gs :: ('z, bool) drawing)
      (\<lambda>ok s. if ok then stage v z n (D \<union> set (concat gs)) s else \<exists>D' \<subseteq> D \<union> set (concat gs). stage v z n D' s)"
proof (induction gs arbitrary: D)
  case Nil
  then show ?case by (simp add: valid_def)
next
  case (Cons g gs)
  show ?case
  proof (rule validI)
    fix s :: "'z draw_state_scheme" assume s: "stage v z n D s"
    let ?t = "exec (load_group os g) s" and ?r = "eval_in (load_group os g) s" and ?m = "load_groups os (g # gs) :: ('z, bool) drawing"
    have "loaded_to v z n (D \<union> set g) ?r ?t"
      using Cons.prems by (intro validD [OF load_group_stage [OF u] s]) auto
    then consider "?r = 0" "stage v z n (D \<union> set g) ?t" | D' where "?r = -1" "D' \<subseteq> D \<union> set g" "stage v z n D' ?t"
      by (auto dest: loaded_to_cases)
    then show "if eval_in ?m s then stage v z n (D \<union> set (concat (g # gs))) (exec ?m s)
      else \<exists>D' \<subseteq> D \<union> set (concat (g # gs)). stage v z n D' (exec ?m s)"
    proof cases
      case 1
      have "set gs \<subseteq> set all_assets" "distinct (concat gs)" "set (concat gs) \<inter> (D \<union> set g) = {}" using Cons.prems by auto
      from validD [OF Cons.IH [OF this] 1(2)] show ?thesis using 1(1) by (auto simp: split_beta Un_assoc split: if_splits)
    next
      case 2
      then show ?thesis by (auto simp: split_beta)
    qed
  qed
qed

section \<open>Unloading\<close>

definition holding :: "int \<Rightarrow> asset_id set \<Rightarrow> 'z draw_state_scheme \<Rightarrow> bool" where
  "holding n D s \<longleftrightarrow> finite D \<and> \<not> fault s \<and> live (trace s) = n + int (card D) \<and> (\<forall>i. bits (assets s i) \<noteq> None \<longleftrightarrow> i \<in> D)"

lemma stage_holding: "stage v z n D s \<Longrightarrow> holding n D s"
  by (auto simp: stage_def holding_def image_loaded_def rgb_ready_def bytes_ready_def asset_table_def split: if_splits)

lemma unload_asset_holding:
  assumes s: "holding n D s"
  shows "holding n (D - {i}) (exec (unload_asset os i) s)"
proof (cases "i \<in> D")
  case True
  moreover have "finite D" using s by (simp add: holding_def)
  ultimately have "bits (assets s i) \<noteq> None" "int (card (D - {i})) = int (card D) - 1"
    using s card_gt_0_iff [of D] by (auto simp: holding_def card_Diff_singleton)
  then show ?thesis using s by (auto simp: unload_asset_def holding_def)
next
  case False
  then have "bits (assets s i) = None" "D - {i} = D" using s by (auto simp: holding_def)
  then show ?thesis using s by (auto simp: unload_asset_def holding_def)
qed

lemma unload_anim_holding: "holding n D s \<Longrightarrow> holding n (D - set is) (exec (unload_anim_asset os is) s)"
proof (induction "is" arbitrary: D s)
  case (Cons i "is")
  have "holding n (D - {i} - set is) (exec (unload_anim_asset os is) (exec (unload_asset os i) s))"
    by (intro Cons.IH unload_asset_holding Cons.prems)
  moreover have "D - {i} - set is = D - set (i # is)" by auto
  ultimately show ?case by (simp add: split_beta)
qed simp

lemma unload_groups_holding:
  "holding n D s \<Longrightarrow> [] \<notin> set gs \<Longrightarrow> holding n (D - set (concat gs)) (exec (unload_groups os gs) s)"
proof (induction gs arbitrary: D s)
  case (Cons g gs)
  have "holding n (D - set g) (exec (unload_group os g) s)"
  proof (cases "length g = 1")
    case True
    then obtain i where "g = [i]" by (auto simp: length_Suc_conv)
    then show ?thesis using unload_asset_holding [OF Cons.prems(1)] by (simp add: unload_group_def)
  next
    case False
    then show ?thesis using unload_anim_holding [OF Cons.prems(1)] by (simp add: unload_group_def)
  qed
  then have "holding n (D - set g - set (concat gs)) (exec (unload_groups os gs) (exec (unload_group os g) s))"
    using Cons.prems(2) by (intro Cons.IH) auto
  moreover have "D - set g - set (concat gs) = D - set (concat (g # gs))" by auto
  ultimately show ?case by (simp add: split_beta)
qed simp

lemma draw_uninit_holding:
  assumes "holding n D s" "D \<subseteq> set (concat all_assets)"
  shows "holding n {} (exec (draw_uninit os) s)" "\<not> draw_initialized (exec (draw_uninit os) s)"
proof -
  have "[] \<notin> set all_assets" by (simp add: all_assets_def battery_ani_def both_planes_def)
  from unload_groups_holding [OF assms(1) this] have "holding n {} (exec (unload_groups os all_assets) s)"
    using assms(2) by (simp only: Diff_eq_empty_iff [THEN iffD2])
  then show "holding n {} (exec (draw_uninit os) s)" "\<not> draw_initialized (exec (draw_uninit os) s)"
    by (simp_all add: draw_uninit_def split_beta holding_def)
qed

lemma all_assets_distinct: "distinct (concat all_assets)" "length (concat all_assets) = 44"
  by (simp_all add: all_assets_def battery_ani_def both_planes_def)

text \<open>
  C12: \<open>draw_init\<close> is all or nothing. With images that unpack to their dimensions, and whatever fails on the way, it
  either returns 0 with every image complete in a buffer of its own, or \<open>-1\<close> with no image loaded and every buffer freed;
  no buffer is overrun while the frames of an animation are padded and patched. After a success \<open>draw_uninit\<close> frees
  every buffer.
\<close>

theorem draw_init_all_or_nothing:
  fixes s :: "'z draw_state_scheme"
  assumes u: "images_unpack v z os" and s: "assets s = asset_table v z" "\<not> fault s" "\<not> draw_initialized s"
  shows "let r = eval_in (draw_init os W H n) s; t = exec (draw_init os W H n) s; t' = exec (draw_uninit os) t in
    \<not> fault t \<and> \<not> fault t' \<and> live (trace t') = live (trace s) \<and> (\<forall>i. bits (assets t' i) = None) \<and>
    (r = 0 \<and> draw_initialized t \<and> loaded v (assets t) \<and> live (trace t) = live (trace s) + 44 \<or>
     r = -1 \<and> \<not> draw_initialized t \<and> (\<forall>i. bits (assets t i) = None) \<and> live (trace t) = live (trace s))"
proof -
  let ?s = "s\<lparr>fb_width := W, fb_height := H, fb_size := n\<rparr>" and ?A = "set (concat all_assets)"
  let ?t = "exec (load_groups os all_assets) ?s" and ?ok = "eval_in (load_groups os all_assets) ?s"
  have st: "stage v z (live (trace s)) {} ?s" using s by (simp add: stage_def)
  have run: "if ?ok then stage v z (live (trace s)) ?A ?t else \<exists>D \<subseteq> ?A. stage v z (live (trace s)) D ?t"
    using validD [OF load_groups_stage [OF u, of all_assets "{}"] st] all_assets_distinct(1) by (auto split: if_splits)
  have card: "int (card ?A) = 44" using all_assets_distinct distinct_card [of "concat all_assets"] by simp
  show ?thesis
  proof (cases ?ok)
    case True
    let ?u = "?t\<lparr>draw_initialized := True\<rparr>"
    have st: "stage v z (live (trace s)) ?A ?u" using run True by (simp add: stage_def)
    have "eval_in (draw_init os W H n) s = 0" "exec (draw_init os W H n) s = ?u"
      using True s by (simp_all add: draw_init_def split_beta)
    then show ?thesis
      using st draw_uninit_holding [OF stage_holding [OF st] subset_refl, of os] card
      by (auto simp: Let_def stage_def loaded_def holding_def)
  next
    case False
    then obtain D where D: "D \<subseteq> ?A" "holding (live (trace s)) D ?t" using run by (auto dest: stage_holding)
    let ?u = "exec (draw_uninit os) ?t"
    have "eval_in (draw_init os W H n) s = -1" "exec (draw_init os W H n) s = ?u"
      using False s by (simp_all add: draw_init_def split_beta)
    moreover note u = draw_uninit_holding [OF D(2,1), of os]
    ultimately show ?thesis
      using draw_uninit_holding [OF u(1) empty_subsetI, of os] by (auto simp: Let_def holding_def)
  qed
qed

text \<open>A library that unpacks every image to black, except one for which the memory runs out.\<close>

definition dark_zlib :: "nat \<Rightarrow> draw_call os" where
  "dark_zlib k h c = (case c of
     Malloc n \<Rightarrow> result (if length h = k then 0 else 1)
   | Inflate g n \<Rightarrow> (result 0)\<lparr>ret_data := take (nat n) g\<rparr>
   | _ \<Rightarrow> result 0)"

definition dark_gz :: "variant \<Rightarrow> asset_id \<Rightarrow> string" where
  "dark_gz v i = replicate (nat (stored_bytes v i)) (CHR 0x00)"

lemma dark_zlib_unpacks: "images_unpack v (dark_gz v) (dark_zlib k)"
proof -
  have b: "0 \<le> stored_bytes v i" "stored_bytes v i \<le> fst (asset_size v i) * snd (asset_size v i) * 2" for i
    using asset_size_pos [of v i] by (auto simp: stored_bytes_def Let_def)
  then have "int (min (nat (fst (asset_size v i) * snd (asset_size v i) * 2)) (nat (stored_bytes v i))) = stored_bytes v i" for i
    using b [of i] by (simp add: min_absorb2 nat_mono)
  then show ?thesis by (auto simp: images_unpack_def dark_zlib_def dark_gz_def)
qed

definition fresh_draw :: "variant \<Rightarrow> draw_state" where
  "fresh_draw v = \<lparr>trace = [], fault = False, assets = asset_table v (dark_gz v), fb_width = 0, fb_height = 0, fb_size = 0,
     draw_initialized = False, frame = 0, aborted = False\<rparr>"

theorem draw_init_all_or_nothing_witness:
  "let r = eval_in (draw_init (dark_zlib 8) 540 960 1036800) (fresh_draw Solana_assets);
     t = exec (draw_init (dark_zlib 8) 540 960 1036800) (fresh_draw Solana_assets); t' = exec (draw_uninit (dark_zlib 8)) t in
   \<not> fault t \<and> \<not> fault t' \<and> live (trace t') = 0 \<and> (\<forall>i. bits (assets t' i) = None) \<and>
   (r = 0 \<and> draw_initialized t \<and> loaded Solana_assets (assets t) \<and> live (trace t) = 44 \<or>
    r = -1 \<and> \<not> draw_initialized t \<and> (\<forall>i. bits (assets t i) = None) \<and> live (trace t) = 0)"
  using draw_init_all_or_nothing [OF dark_zlib_unpacks, of "fresh_draw Solana_assets" Solana_assets 8 540 960 1036800]
  by (simp add: fresh_draw_def)

end
