(* ===== verification/Charge_Screen.thy ===== *)
theory Charge_Screen
  imports Charge_Load
begin

text \<open>
  The frame buffer of the charge-only-mode program (\<open>src/charge_only_mode/screen.c\<close>): copying a frame to one of its two
  pages, with the conversion to 32 bits a pixel, and the logo in run lengths that is left on the screen at the end. The
  calls \<open>DrawFrame\<close>, \<open>CopyToFramebuffer\<close> and \<open>ShowLogo\<close> of the theory \<open>Charge_Events\<close> stand for these functions. The
  mapping is a list of bytes; \<open>None\<close> is an access outside of it.
\<close>

section \<open>The frame buffer\<close>

record framebuffer =
  fb_bits :: "8 word list"
  line_length :: int
  vi_yres :: int
  vi_yoffset :: int
  vi_yres_virtual :: int
  bits_per_pixel :: int

definition width_of :: "framebuffer \<Rightarrow> int option" where
  "width_of fb = (if bits_per_pixel fb div 8 = 0 then None else Some (line_length fb div (bits_per_pixel fb div 8)))"

definition size_of :: "framebuffer \<Rightarrow> int" where
  "size_of fb = line_length fb * vi_yres fb"

definition poke :: "8 word list \<Rightarrow> int \<Rightarrow> 8 word list \<Rightarrow> 8 word list option" where
  "poke m t d = (if 0 \<le> t \<and> t + int (length d) \<le> int (length m)
     then Some (take (nat t) m @ d @ drop (nat t + length d) m) else None)"

definition le16 :: "16 word \<Rightarrow> 8 word list" where
  "le16 p = [ucast p, ucast (drop_bit 8 p)]"

definition le32 :: "32 word \<Rightarrow> 8 word list" where
  "le32 p = [ucast p, ucast (drop_bit 8 p), ucast (drop_bit 16 p), ucast (drop_bit 24 p)]"

section \<open>Copying a frame\<close>

text \<open>A pixel of 5, 6 and 5 bits as one of 8, 8 and 8 bits: the high bits are repeated below.\<close>

definition widen565 :: "16 word \<Rightarrow> 32 word" where
  "widen565 p = (
     let r = drop_bit 11 (ucast p) AND 0x1F; red = push_bit 3 r OR drop_bit 2 r;
       g = drop_bit 5 (ucast p) AND 0x3F; green = push_bit 2 g OR drop_bit 4 g;
       b = ucast p AND 0x1F; blue = push_bit 3 b OR drop_bit 2 b;
       alpha = 0xff
     in push_bit 24 alpha OR push_bit 16 red OR push_bit 8 green OR blue)"

fun flip_32 :: "8 word list \<Rightarrow> int \<Rightarrow> surface \<Rightarrow> nat \<Rightarrow> nat \<Rightarrow> 8 word list option" where
  "flip_32 m t ptr i 0 = Some m"
| "flip_32 m t ptr i (Suc n) = do {
     p \<leftarrow> load ptr (int i);
     m' \<leftarrow> poke m (t + 4 * int i) (le32 (widen565 p));
     flip_32 m' t ptr (Suc i) n
   }"

text \<open>The part of \<open>screen_update\<close> behind \<open>draw\<close>, for the page that starts at row \<open>vi_yoffset\<close>.\<close>

definition copy_to_framebuffer :: "framebuffer \<Rightarrow> surface \<Rightarrow> framebuffer option" where
  "copy_to_framebuffer fb f = do {
     W \<leftarrow> width_of fb;
     m \<leftarrow> (if bits_per_pixel fb = 16
          then if size_of fb \<le> 2 * int (length f)
            then poke (fb_bits fb) (2 * (vi_yoffset fb * W)) (take (nat (size_of fb)) (concat (map le16 f)))
            else None
          else flip_32 (fb_bits fb) (4 * (vi_yoffset fb * W)) f 0 (nat (W * vi_yres fb)));
     Some (fb\<lparr>fb_bits := m\<rparr>)
   }"

text \<open>\<open>screen_update\<close> of the pixels: the page that is not shown is drawn, and becomes the one that is shown.\<close>

definition screen_update :: "variant \<Rightarrow> 'z draw_state_scheme \<Rightarrow> surface \<Rightarrow> framebuffer \<Rightarrow> int \<Rightarrow> bool \<Rightarrow>
    ('z draw_state_scheme \<times> surface \<times> framebuffer) option" where
  "screen_update v s mem_surface fb percentage error = do {
     let fb1 = fb\<lparr>vi_yres_virtual := vi_yres fb * 2, vi_yoffset := (if vi_yoffset fb \<noteq> 0 then 0 else vi_yres fb)\<rparr>;
     (f, s') \<leftarrow> draw v s mem_surface percentage error;
     fb2 \<leftarrow> copy_to_framebuffer fb1 f;
     Some (s', f, fb2)
   }"

section \<open>The logo\<close>

fun put_run :: "8 word list \<Rightarrow> int \<Rightarrow> nat \<Rightarrow> 16 word \<Rightarrow> 8 word list option" where
  "put_run m k 0 p = Some m"
| "put_run m k (Suc n) p = do { m' \<leftarrow> poke m (2 * k) (le16 p); put_run m' (k + 1) n p }"

text \<open>The loop of \<open>show_565rle\<close> over the records of the file; \<open>mx\<close> pixels are left on the page.\<close>

fun rle_loop :: "8 word list \<Rightarrow> int \<Rightarrow> int \<Rightarrow> 8 word list \<Rightarrow> 8 word list option" where
  "rle_loop m k mx (n0 # n1 # p0 # p1 # rest) = (
     let n = word_cat n1 n0 :: 16 word; p = word_cat p1 p0 in
     if uint n > mx then Some m
     else do { m' \<leftarrow> put_run m k (unat n) p; rle_loop m' (k + uint n) (mx - uint n) rest })"
| "rle_loop m k mx _ = Some m"

text \<open>\<open>file\<close> is the mapping of the logo, absent when it cannot be opened or mapped.\<close>

definition show_565rle :: "framebuffer \<Rightarrow> 8 word list option \<Rightarrow> (framebuffer \<times> int) option" where
  "show_565rle fb file =
     (case file of
        None \<Rightarrow> Some (fb, -1)
      | Some data \<Rightarrow> do {
          W \<leftarrow> width_of fb;
          m \<leftarrow> rle_loop (fb_bits fb) 0 (W * vi_yres fb) data;
          m' \<leftarrow> (if 2 * (W * vi_yres fb) \<le> int (length m)
                then poke m (2 * (vi_yres fb * W)) (take (nat (2 * (W * vi_yres fb))) m) else None);
          Some (fb\<lparr>fb_bits := m', vi_yres_virtual := vi_yres fb * 2,
            vi_yoffset := (if vi_yoffset fb \<noteq> 0 then 0 else vi_yres fb), bits_per_pixel := 16\<rparr>, 0)
        })"

section \<open>Bytes of the frame buffer\<close>

lemma length_le [simp]: "length (le16 p) = 2" "length (le32 q) = 4"
  by (simp_all add: le16_def le32_def)

lemma poke_bytes:
  assumes "t + length d \<le> length m"
  shows "\<exists>m'. poke m (int t) d = Some m' \<and> length m' = length m \<and>
    (\<forall>j < length m. m' ! j = (if t \<le> j \<and> j < t + length d then d ! (j - t) else m ! j))"
  using assms by (auto simp: poke_def nth_append min_def)

lemma pixel_bytes:
  assumes "\<And>p. length (e p) = k" "0 < k"
  shows "length (concat (map e f)) = k * length f"
    and "j < k * length f \<Longrightarrow> concat (map e f) ! j = e (f ! (j div k)) ! (j mod k)"
proof -
  show len: "length (concat (map e f)) = k * length f" for f using assms(1) by (induction f) simp_all
  show "concat (map e f) ! j = e (f ! (j div k)) ! (j mod k)" if "j < k * length f" for j
    using that
  proof (induction f arbitrary: j)
    case (Cons p f)
    show ?case
    proof (cases "j < k")
      case True
      then show ?thesis by (simp add: nth_append assms)
    next
      case False
      then have "(j - k) div k = j div k - 1" "0 < j div k" "(j - k) mod k = j mod k" using assms(2)
        by (simp_all add: le_div_geq le_mod_geq)
      then show ?thesis using Cons False by (simp add: nth_append assms nth_Cons')
    qed
  qed simp
qed

lemma flip_32_bytes:
  "t + 4 * (i + n) \<le> length m \<Longrightarrow> i + n \<le> length f \<Longrightarrow>
   \<exists>m'. flip_32 m (int t) f i n = Some m' \<and> length m' = length m \<and>
     (\<forall>j < length m. m' ! j = (if t + 4 * i \<le> j \<and> j < t + 4 * (i + n) then le32 (widen565 (f ! ((j - t) div 4))) ! ((j - t) mod 4) else m ! j))"
proof (induction n arbitrary: i m)
  case (Suc n)
  let ?d = "le32 (widen565 (f ! i))"
  have "t + 4 * i + length ?d \<le> length m" using Suc.prems by simp
  from poke_bytes [OF this] obtain m1 where m1: "poke m (int t + 4 * int i) ?d = Some m1" "length m1 = length m"
    "\<forall>j < length m. m1 ! j = (if t + 4 * i \<le> j \<and> j < t + 4 * i + 4 then ?d ! (j - (t + 4 * i)) else m ! j)" by auto
  from Suc.IH [of "Suc i" m1] Suc.prems m1(2) obtain m2 where m2: "flip_32 m1 (int t) f (Suc i) n = Some m2" "length m2 = length m"
    "\<forall>j < length m. m2 ! j = (if t + 4 * Suc i \<le> j \<and> j < t + 4 * (Suc i + n) then le32 (widen565 (f ! ((j - t) div 4))) ! ((j - t) mod 4) else m1 ! j)"
    by auto
  have "?d ! (j - (t + 4 * i)) = le32 (widen565 (f ! ((j - t) div 4))) ! ((j - t) mod 4)" if "t + 4 * i \<le> j" "j < t + 4 * i + 4" for j
  proof -
    have "j - t = 4 * i + (j - (t + 4 * i))" "j - (t + 4 * i) < 4" using that by auto
    moreover have "(4 * i + r) div 4 = i" "(4 * i + r) mod 4 = r" if "r < 4" for r using that by simp_all
    ultimately have "(j - t) div 4 = i" "(j - t) mod 4 = j - (t + 4 * i)" by metis+
    then show ?thesis by simp
  qed
  then show ?case using m1 m2 Suc.prems by (auto simp: load_def)
qed auto

section \<open>Frames on the screen\<close>

definition pixel_on_screen :: "framebuffer \<Rightarrow> 16 word \<Rightarrow> 8 word list" where
  "pixel_on_screen fb p = (if bits_per_pixel fb = 16 then le16 p else le32 (widen565 p))"

definition pixel_size :: "framebuffer \<Rightarrow> nat" where
  "pixel_size fb = (if bits_per_pixel fb = 16 then 2 else 4)"

text \<open>A buffer of two pages of \<open>H\<close> rows of \<open>W\<close> pixels, at 16 or 32 bits a pixel.\<close>

definition two_pages :: "framebuffer \<Rightarrow> nat \<Rightarrow> nat \<Rightarrow> bool" where
  "two_pages fb W H \<longleftrightarrow> bits_per_pixel fb \<in> {16, 32} \<and> line_length fb = int (W * pixel_size fb) \<and> vi_yres fb = int H \<and>
     vi_yoffset fb \<in> {0, int H} \<and> 2 * (pixel_size fb * (W * H)) \<le> length (fb_bits fb)"

definition page_start :: "framebuffer \<Rightarrow> nat \<Rightarrow> nat" where
  "page_start fb W = pixel_size fb * (nat (vi_yoffset fb) * W)"

text \<open>The page that is shown holds the picture \<open>g\<close>.\<close>

definition page_shows :: "framebuffer \<Rightarrow> nat \<Rightarrow> nat \<Rightarrow> (nat \<Rightarrow> nat \<Rightarrow> 16 word) \<Rightarrow> bool" where
  "page_shows fb W H g \<longleftrightarrow> (\<forall>x < W. \<forall>y < H. \<forall>k < pixel_size fb.
     fb_bits fb ! (page_start fb W + pixel_size fb * (y * W + x) + k) = pixel_on_screen fb (g x y) ! k)"

lemma two_pages_width: "two_pages fb W H \<Longrightarrow> width_of fb = Some (int W)"
  by (auto simp: two_pages_def width_of_def pixel_size_def)

lemma copy_to_framebuffer_page:
  assumes fb: "two_pages fb W H" and f: "W * H \<le> length f"
  shows "\<exists>m. copy_to_framebuffer fb f = Some (fb\<lparr>fb_bits := m\<rparr>) \<and> length m = length (fb_bits fb) \<and>
    (\<forall>j < length m. m ! j =
      (if page_start fb W \<le> j \<and> j < page_start fb W + pixel_size fb * (W * H)
       then pixel_on_screen fb (f ! ((j - page_start fb W) div pixel_size fb)) ! ((j - page_start fb W) mod pixel_size fb)
       else fb_bits fb ! j))"
proof -
  let ?B = "pixel_size fb" and ?t = "page_start fb W" and ?m = "fb_bits fb"
  have y: "nat (vi_yoffset fb) \<le> H" "0 \<le> vi_yoffset fb" using fb by (auto simp: two_pages_def)
  have "?t \<le> ?B * (H * W)" unfolding page_start_def using y(1) by (intro mult_le_mono) auto
  then have room: "?t + ?B * (W * H) \<le> length ?m" using fb by (simp add: two_pages_def mult.commute)
  have t: "int ?B * (vi_yoffset fb * int W) = int ?t" using y(2) by (simp add: page_start_def)
  have depth: "bits_per_pixel fb = 16 \<or> bits_per_pixel fb = 32" using fb by (auto simp: two_pages_def)
  show ?thesis
  proof (cases "bits_per_pixel fb = 16")
    case True
    then have B: "?B = 2" by (simp add: pixel_size_def)
    have sz: "size_of fb = int (2 * (W * H))" using fb B by (simp add: size_of_def two_pages_def)
    let ?d = "take (2 * (W * H)) (concat (map le16 f))"
    have d: "length ?d = 2 * (W * H)" using pixel_bytes(1) [of le16 2 f] f by simp
    have "?t + length ?d \<le> length ?m" unfolding d using room B by simp
    from poke_bytes [OF this] obtain m where m: "poke ?m (int ?t) ?d = Some m" "length m = length ?m"
      "\<forall>j < length ?m. m ! j = (if ?t \<le> j \<and> j < ?t + 2 * (W * H) then ?d ! (j - ?t) else ?m ! j)" unfolding d by blast
    have "?d ! i = le16 (f ! (i div 2)) ! (i mod 2)" if "i < 2 * (W * H)" for i
      using pixel_bytes(2) [of le16 2 i f] f that by simp
    moreover have "j - ?t < 2 * (W * H)" if "?t \<le> j" "j < ?t + 2 * (W * H)" for j using that by linarith
    moreover have "int W * int H \<le> int (length f)" using f by (metis of_nat_le_iff of_nat_mult)
    then have "copy_to_framebuffer fb f = Some (fb\<lparr>fb_bits := m\<rparr>)"
      using True m(1) t B sz by (simp add: copy_to_framebuffer_def two_pages_width [OF fb] nat_mult_distrib)
    ultimately show ?thesis using m True B by (intro exI [of _ m]) (simp add: pixel_on_screen_def)
  next
    case False
    then have B: "?B = 4" by (simp add: pixel_size_def)
    have n: "nat (int W * vi_yres fb) = W * H" using fb by (simp add: two_pages_def nat_mult_distrib)
    have "?t + 4 * (0 + W * H) \<le> length ?m" "0 + W * H \<le> length f" using room B f by simp_all
    from flip_32_bytes [OF this] obtain m where m: "flip_32 ?m (int ?t) f 0 (W * H) = Some m" "length m = length ?m"
      "\<forall>j < length ?m. m ! j = (if ?t \<le> j \<and> j < ?t + 4 * (W * H) then le32 (widen565 (f ! ((j - ?t) div 4))) ! ((j - ?t) mod 4) else ?m ! j)"
      by auto
    have "copy_to_framebuffer fb f = Some (fb\<lparr>fb_bits := m\<rparr>)"
      using False m(1) t B n by (simp add: copy_to_framebuffer_def two_pages_width [OF fb])
    then show ?thesis using m False B by (intro exI [of _ m]) (simp add: pixel_on_screen_def)
  qed
qed

text \<open>
  The screen shows the picture: on a buffer with room for two pages of 16 or 32 bits a pixel, \<open>screen_update\<close>
  draws and copies without leaving any buffer; it turns to the other page, which then shows the picture of the
  percentage in the depth of the screen, and it changes no byte outside of that page, so the page that was on display
  is never seen half drawn.
\<close>

lemma screen_shows_picture:
  fixes s :: "'z draw_state_scheme"
  assumes ld: "loaded v (assets s)" and fits: "screen_fits v (int W) (int H)" and fb: "two_pages fb W H"
    and geo: "fb_width s = int W" "fb_height s = int H" "fb_size s = size_of fb" "size_of fb = 2 * int (length f)"
    and p: "0 \<le> percent" "percent \<le> 100" and k: "frame s < 2 ^ 31 - 1"
  shows "\<exists>f' fb'. screen_update v s f fb percent error = Some (s\<lparr>frame := frame s + 1\<rparr>, f', fb') \<and> length f' = length f \<and>
    two_pages fb' W H \<and> vi_yoffset fb' \<noteq> vi_yoffset fb \<and>
    page_shows fb' W H (picture v (assets s) (int W) (int H) (frame s) percent error) \<and>
    (\<forall>j < length (fb_bits fb). j < page_start fb' W \<or> page_start fb' W + pixel_size fb * (W * H) \<le> j \<longrightarrow> fb_bits fb' ! j = fb_bits fb ! j)"
proof -
  let ?pic = "picture v (assets s) (int W) (int H) (frame s) percent error"
  define fb1 where "fb1 = fb\<lparr>vi_yres_virtual := vi_yres fb * 2, vi_yoffset := (if vi_yoffset fb \<noteq> 0 then 0 else vi_yres fb)\<rparr>"
  have B: "pixel_size fb1 = pixel_size fb" "pixel_on_screen fb1 = pixel_on_screen fb" by (auto simp: fb1_def pixel_size_def pixel_on_screen_def)
  have W: "0 < W" "0 < H" using fits by (cases v; simp add: screen_fits_def)+
  have two: "two_pages fb1 W H" using fb B by (auto simp: two_pages_def fb1_def)
  have "int (2 * (W * H)) \<le> size_of fb" using fb by (auto simp: two_pages_def size_of_def pixel_size_def)
  then have len: "W * H \<le> length f" using geo(4) by linarith
  obtain f' where f': "draw v s f percent error = Some (f', s\<lparr>frame := frame s + 1\<rparr>)" "length f' = length f"
    "\<forall>i < length f. f' ! i = ?pic (i mod W) (i div W)"
    using draw_paints [OF ld, of f percent error] fits geo p k len by (simp add: nat_mult_distrib)
  obtain m where m: "copy_to_framebuffer fb1 f' = Some (fb1\<lparr>fb_bits := m\<rparr>)" "length m = length (fb_bits fb1)"
    "\<forall>j < length m. m ! j =
      (if page_start fb1 W \<le> j \<and> j < page_start fb1 W + pixel_size fb1 * (W * H)
       then pixel_on_screen fb1 (f' ! ((j - page_start fb1 W) div pixel_size fb1)) ! ((j - page_start fb1 W) mod pixel_size fb1)
       else fb_bits fb1 ! j)"
    using copy_to_framebuffer_page [OF two, of f'] len f'(2) by auto
  define fb2 where "fb2 = fb1\<lparr>fb_bits := m\<rparr>"
  have B2: "pixel_size fb2 = pixel_size fb" "pixel_on_screen fb2 = pixel_on_screen fb" "page_start fb2 W = page_start fb1 W"
    using B by (simp_all add: fb2_def pixel_size_def pixel_on_screen_def page_start_def fun_eq_iff)
  have "screen_update v s f fb percent error = Some (s\<lparr>frame := frame s + 1\<rparr>, f', fb2)"
    using f'(1) m(1) by (simp add: screen_update_def fb1_def [symmetric] fb2_def)
  moreover have "two_pages fb2 W H" using two m(2) by (simp add: two_pages_def fb2_def pixel_size_def)
  moreover have "vi_yoffset fb2 \<noteq> vi_yoffset fb" using fb W by (auto simp: fb2_def fb1_def two_pages_def)
  moreover have "page_shows fb2 W H ?pic"
    unfolding page_shows_def B2
  proof (intro allI impI)
    fix x y k assume xy: "x < W" "y < H" "k < pixel_size fb"
    have c: "y * W + x < W * H" by (rule cell_index [OF xy(2,1)])
    from cell_index [OF c xy(3)] have j: "pixel_size fb * (y * W + x) + k < pixel_size fb * (W * H)" by (simp only: mult.commute)
    moreover have "page_start fb1 W + pixel_size fb * (W * H) \<le> length m"
      using two m(2) by (auto simp: two_pages_def page_start_def B mult.commute)
    ultimately have "m ! (page_start fb1 W + pixel_size fb * (y * W + x) + k) = pixel_on_screen fb (f' ! (y * W + x)) ! k"
      using m(3) [rule_format, of "page_start fb1 W + pixel_size fb * (y * W + x) + k"] xy(3) by (simp add: B)
    moreover have "f' ! (y * W + x) = ?pic x y" using f'(3) c len xy(1) by simp
    ultimately show "fb_bits fb2 ! (page_start fb1 W + pixel_size fb * (y * W + x) + k) = pixel_on_screen fb (?pic x y) ! k"
      by (simp add: fb2_def)
  qed
  moreover have "fb_bits fb2 ! j = fb_bits fb ! j"
    if "j < length (fb_bits fb)" "j < page_start fb2 W \<or> page_start fb2 W + pixel_size fb * (W * H) \<le> j" for j
  proof -
    have b: "fb_bits fb1 = fb_bits fb" "fb_bits fb2 = m" by (simp_all add: fb1_def fb2_def)
    show ?thesis using m(3) [rule_format, of j] m(2) that unfolding b B2 B by auto
  qed
  ultimately show ?thesis using f'(2) by blast
qed

lemma screen_update_size:
  "screen_update v s f fb percent error = Some (s', f', fb') \<Longrightarrow> size_of fb' = size_of fb"
  by (auto simp: screen_update_def copy_to_framebuffer_def size_of_def bind_eq_Some_conv Let_def split: prod.splits)

definition phone_fb :: framebuffer where
  "phone_fb = \<lparr>fb_bits = replicate (8 * (540 * 960)) 0, line_length = 2160, vi_yres = 960, vi_yoffset = 0, vi_yres_virtual = 1920, bits_per_pixel = 32\<rparr>"

lemma phone_fb_pages: "two_pages phone_fb 540 960"
  by (simp add: two_pages_def phone_fb_def pixel_size_def)

section \<open>The logo on the screen\<close>

text \<open>The format of the file: records of a count and a pixel.\<close>

definition rle_format :: "(16 word \<times> 16 word) list \<Rightarrow> 8 word list" where
  "rle_format rs = concat (map (\<lambda>(n, p). le16 n @ le16 p) rs)"

definition rle_pixels :: "(16 word \<times> 16 word) list \<Rightarrow> 16 word list" where
  "rle_pixels rs = concat (map (\<lambda>(n, p). replicate (unat n) p) rs)"

lemma cat16: "word_cat (ucast (drop_bit 8 p) :: 8 word) (ucast p :: 8 word) = (p :: 16 word)"
  by (rule bit_word_eqI) (auto simp: bit_word_cat_iff bit_simps)

definition overwrite :: "'a list \<Rightarrow> nat \<Rightarrow> 'a list \<Rightarrow> 'a list" where
  "overwrite m t d = take t m @ d @ drop (t + length d) m"

lemma length_overwrite: "t + length d \<le> length m \<Longrightarrow> length (overwrite m t d) = length m"
  by (simp add: overwrite_def)

lemma overwrite_overwrite:
  "t + length d + length e \<le> length m \<Longrightarrow> overwrite (overwrite m t d) (t + length d) e = overwrite m t (d @ e)"
  by (simp add: overwrite_def ac_simps)

lemma overwrite_outside: "t + length d \<le> length m \<Longrightarrow> j < length m \<Longrightarrow> j < t \<or> t + length d \<le> j \<Longrightarrow> overwrite m t d ! j = m ! j"
  by (auto simp: overwrite_def nth_append)

lemma poke_overwrite: "t + length d \<le> length m \<Longrightarrow> poke m (int t) d = Some (overwrite m t d)"
  by (simp add: poke_def overwrite_def)

lemma put_run_bytes:
  "2 * (k + n) \<le> length m \<Longrightarrow> put_run m (int k) n p = Some (overwrite m (2 * k) (concat (map le16 (replicate n p))))"
proof (induction n arbitrary: m k)
  case 0
  then show ?case by (simp add: overwrite_def)
next
  case (Suc n)
  let ?d = "concat (map le16 (replicate n p))"
  have d: "length ?d = 2 * n" using pixel_bytes(1) [of le16 2 "replicate n p"] by simp
  have "poke m (2 * int k) (le16 p) = Some (overwrite m (2 * k) (le16 p))"
    using poke_overwrite [of "2 * k" "le16 p" m] Suc.prems by simp
  moreover have "put_run (overwrite m (2 * k) (le16 p)) (int (Suc k)) n p =
    Some (overwrite (overwrite m (2 * k) (le16 p)) (2 * Suc k) ?d)"
    using Suc.prems by (intro Suc.IH) (simp add: length_overwrite)
  moreover have "overwrite (overwrite m (2 * k) (le16 p)) (2 * Suc k) ?d = overwrite m (2 * k) (le16 p @ ?d)"
    using overwrite_overwrite [of "2 * k" "le16 p" ?d m] Suc.prems d by simp
  ultimately show ?case by (simp add: add.commute)
qed

text \<open>Whatever the file holds, the loop writes pixels at the start of what is left of the page, and no more than fit.\<close>

lemma rle_step_bytes:
  assumes "0 \<le> k" "2 * (k + mx) \<le> int (length m)" "uint n \<le> mx"
  shows "put_run m k (unat n) p = Some (overwrite m (nat (2 * k)) (concat (map le16 (replicate (unat n) p))))"
proof -
  have "int (2 * (nat k + unat n)) \<le> int (length m)" using assms by simp
  then have "2 * (nat k + unat n) \<le> length m" by (simp only: of_nat_le_iff)
  from put_run_bytes [OF this, of p] show ?thesis using assms(1) by (simp add: nat_mult_distrib)
qed

lemma rle_loop_bytes:
  "0 \<le> k \<Longrightarrow> 0 \<le> mx \<Longrightarrow> 2 * (k + mx) \<le> int (length m) \<Longrightarrow>
   \<exists>ps. int (length ps) \<le> mx \<and> rle_loop m k mx data = Some (overwrite m (nat (2 * k)) (concat (map le16 ps)))"
proof (induction m k mx data rule: rle_loop.induct)
  case (1 m k mx n0 n1 p0 p1 rest)
  let ?n = "word_cat n1 n0 :: 16 word" and ?p = "word_cat p1 p0 :: 16 word"
  show ?case
  proof (cases "uint ?n > mx")
    case True
    then show ?thesis using 1(3) by (intro exI [of _ "[]"]) (simp add: overwrite_def)
  next
    case False
    let ?d = "replicate (unat ?n) ?p"
    let ?m = "overwrite m (nat (2 * k)) (concat (map le16 ?d))"
    have run: "put_run m k (unat ?n) ?p = Some ?m" using 1 False by (intro rle_step_bytes) auto
    have d: "int (length (concat (map le16 ps))) = 2 * int (length ps)" for ps using pixel_bytes(1) [of le16 2 ps] by simp
    have n: "int (unat ?n) = uint ?n" by simp
    have len: "length ?m = length m" using 1(2,4) False d [of ?d] n by (intro length_overwrite) simp
    obtain ps where ps: "int (length ps) \<le> mx - uint ?n"
      "rle_loop ?m (k + uint ?n) (mx - uint ?n) rest = Some (overwrite ?m (nat (2 * (k + uint ?n))) (concat (map le16 ps)))"
      using 1(1) [OF refl refl False run] 1(2,3,4) False len by auto
    have "nat (2 * (k + uint ?n)) = nat (2 * k) + length (concat (map le16 ?d))" using d [of ?d] n 1(2) by simp
    then have "overwrite ?m (nat (2 * (k + uint ?n))) (concat (map le16 ps)) = overwrite m (nat (2 * k)) (concat (map le16 (?d @ ps)))"
      using overwrite_overwrite [of "nat (2 * k)" "concat (map le16 ?d)" "concat (map le16 ps)" m] d [of ?d] d [of ps] ps(1) n 1(2,4) by simp
    then show ?thesis using False run ps n by (intro exI [of _ "?d @ ps"]) (simp add: Let_def)
  qed
qed (auto intro!: exI [of _ "[]"] simp: overwrite_def)

lemma rle_format_bytes:
  "0 \<le> k \<Longrightarrow> 2 * (k + mx) \<le> int (length m) \<Longrightarrow> int (length (rle_pixels rs)) \<le> mx \<Longrightarrow>
   rle_loop m k mx (rle_format rs) = Some (overwrite m (nat (2 * k)) (concat (map le16 (rle_pixels rs))))"
proof (induction rs arbitrary: m k mx)
  case Nil
  then show ?case by (simp add: rle_format_def rle_pixels_def overwrite_def)
next
  case (Cons r rs)
  obtain n p where r: "r = (n, p)" by (cases r)
  let ?d = "replicate (unat n) p" and ?ps = "rle_pixels rs"
  let ?m = "overwrite m (nat (2 * k)) (concat (map le16 ?d))"
  have ps: "rle_pixels (r # rs) = ?d @ ?ps" by (simp add: rle_pixels_def r)
  have n: "int (unat n) = uint n" "uint n + int (length ?ps) \<le> mx" using Cons.prems(3) unfolding ps by simp_all
  have run: "put_run m k (unat n) p = Some ?m" using Cons.prems n by (intro rle_step_bytes) auto
  have d: "int (length (concat (map le16 qs))) = 2 * int (length qs)" for qs using pixel_bytes(1) [of le16 2 qs] by simp
  have len: "length ?m = length m" using Cons.prems d [of ?d] n by (intro length_overwrite) simp
  have "rle_loop ?m (k + uint n) (mx - uint n) (rle_format rs) = Some (overwrite ?m (nat (2 * (k + uint n))) (concat (map le16 ?ps)))"
    using Cons.prems n len by (intro Cons.IH) auto
  moreover have "nat (2 * (k + uint n)) = nat (2 * k) + length (concat (map le16 ?d))" using d [of ?d] n Cons.prems(1) by simp
  then have "overwrite ?m (nat (2 * (k + uint n))) (concat (map le16 ?ps)) = overwrite m (nat (2 * k)) (concat (map le16 (?d @ ?ps)))"
    using overwrite_overwrite [of "nat (2 * k)" "concat (map le16 ?d)" "concat (map le16 ?ps)" m] d [of ?d] d [of ?ps] n Cons.prems by simp
  moreover have "rle_format (r # rs) = ucast n # ucast (drop_bit 8 n) # ucast p # ucast (drop_bit 8 p) # rle_format rs"
    by (simp add: rle_format_def r le16_def)
  ultimately show ?case using run n unfolding ps by (simp add: cat16 Let_def)
qed

text \<open>
  C13: the logo. Whatever bytes the file holds, \<open>show_565rle\<close> writes only inside of the first page and of its copy, and
  leaves the same pixels on both; a file in the format of run lengths that fits the page is unpacked to its pixels.
\<close>

theorem logo_on_both_pages:
  assumes fb: "two_pages fb W H"
  shows "\<exists>fb'. show_565rle fb (Some data) = Some (fb', 0) \<and> length (fb_bits fb') = length (fb_bits fb) \<and>
    (\<forall>j < 2 * (W * H). fb_bits fb' ! (2 * (W * H) + j) = fb_bits fb' ! j) \<and>
    (\<forall>j < length (fb_bits fb). 4 * (W * H) \<le> j \<longrightarrow> fb_bits fb' ! j = fb_bits fb ! j) \<and>
    (\<forall>rs. data = rle_format rs \<and> length (rle_pixels rs) \<le> W * H \<longrightarrow>
       take (2 * length (rle_pixels rs)) (fb_bits fb') = concat (map le16 (rle_pixels rs)))"
proof -
  let ?m = "fb_bits fb" and ?n = "W * H"
  have room: "4 * ?n \<le> length ?m" using fb by (auto simp: two_pages_def pixel_size_def split: if_splits)
  have room': "2 * int ?n \<le> int (length ?m)"
  proof -
    have "int (2 * ?n) \<le> int (length ?m)" using room by (intro of_nat_mono) simp
    then show ?thesis by simp
  qed
  have H: "vi_yres fb = int H" using fb by (simp add: two_pages_def)
  have d: "length (concat (map le16 qs)) = 2 * length qs" for qs using pixel_bytes(1) [of le16 2 qs] by simp
  have "2 * (0 + int ?n) \<le> int (length ?m)" using room' by (simp del: of_nat_mult)
  then obtain ps where ps: "length ps \<le> ?n" "rle_loop ?m 0 (int ?n) data = Some (overwrite ?m 0 (concat (map le16 ps)))"
    using rle_loop_bytes [of 0 "int ?n" ?m data] by (auto simp del: of_nat_mult)
  let ?m1 = "overwrite ?m 0 (concat (map le16 ps))"
  have len1: "length ?m1 = length ?m" using ps(1) d [of ps] room by (intro length_overwrite) simp
  let ?m2 = "overwrite ?m1 (2 * ?n) (take (2 * ?n) ?m1)"
  have t: "length (take (2 * ?n) ?m1) = 2 * ?n" using len1 room by simp
  have n2: "2 * int ?n = int (2 * ?n)" by simp
  have pk: "poke ?m1 (2 * int ?n) (take (nat (2 * int ?n)) ?m1) = Some ?m2"
    unfolding n2 nat_int using len1 room t by (intro poke_overwrite) linarith
  have "int W * int H = int ?n" "int H * int W = int ?n" by simp_all
  then have run: "show_565rle fb (Some data) = Some (fb\<lparr>fb_bits := ?m2, vi_yres_virtual := vi_yres fb * 2,
      vi_yoffset := (if vi_yoffset fb \<noteq> 0 then 0 else vi_yres fb), bits_per_pixel := 16\<rparr>, 0)"
    using ps(2) len1 room' pk unfolding show_565rle_def by (simp add: two_pages_width [OF fb] H del: of_nat_mult)
  have len2: "length ?m2 = length ?m" using len1 room t length_overwrite [of "2 * ?n" "take (2 * ?n) ?m1" ?m1] by linarith
  have first: "?m2 ! j = ?m1 ! j" if "j < 2 * ?n" for j using that len1 room t by (intro overwrite_outside disjI1) linarith+
  have both: "?m2 ! (2 * ?n + j) = ?m2 ! j" if "j < 2 * ?n" for j
    using that first [OF that] t len1 room by (simp add: overwrite_def [of ?m1] nth_append)
  have rest: "?m2 ! j = ?m ! j" if "j < length ?m" "4 * ?n \<le> j" for j
  proof -
    have "?m2 ! j = ?m1 ! j" using that len1 room t by (intro overwrite_outside disjI2) linarith+
    also have "\<dots> = ?m ! j" using that ps(1) d [of ps] room by (intro overwrite_outside disjI2) linarith+
    finally show ?thesis .
  qed
  have unpacked: "take (2 * length (rle_pixels rs)) ?m2 = concat (map le16 (rle_pixels rs))"
    if "data = rle_format rs" "length (rle_pixels rs) \<le> ?n" for rs
  proof -
    have "rle_loop ?m 0 (int ?n) data = Some (overwrite ?m 0 (concat (map le16 (rle_pixels rs))))"
      unfolding that(1) using rle_format_bytes [of 0 "int ?n" ?m rs] that(2) room' by (simp del: of_nat_mult)
    then have m1: "?m1 = concat (map le16 (rle_pixels rs)) @ drop (2 * length (rle_pixels rs)) ?m"
      using ps(2) d [of "rle_pixels rs"] by (simp add: overwrite_def)
    have "take (2 * length (rle_pixels rs)) ?m2 = take (2 * length (rle_pixels rs)) ?m1"
      using that(2) len1 room by (simp add: overwrite_def [of ?m1] min_def)
    then show ?thesis unfolding m1 using d [of "rle_pixels rs"] by simp
  qed
  show ?thesis unfolding run using len2 both rest unpacked by auto
qed

theorem logo_on_both_pages_witness:
  "\<exists>fb'. show_565rle phone_fb (Some (rle_format [(60000, 0xf800), (40000, 0x001f)])) = Some (fb', 0)"
  using logo_on_both_pages [OF phone_fb_pages] by blast

section \<open>Depths\<close>

text \<open>No colour is lost by the conversion: the pixel can be read back from the high bits.\<close>

definition narrow888 :: "32 word \<Rightarrow> 16 word" where
  "narrow888 q = ucast (push_bit 11 (drop_bit 19 q AND 0x1F) OR push_bit 5 (drop_bit 10 q AND 0x3F) OR (drop_bit 3 q AND 0x1F))"

lemma widen565_lossless: "narrow888 (widen565 p) = p"
proof (rule bit_word_eqI)
  have m: "(0x1F :: 32 word) = mask 5" "(0x3F :: 32 word) = mask 6" "(0xff :: 32 word) = mask 8" by (simp_all add: mask_numeral)
  have l: "[2..<16] = [2, 3, 4, 5, 6, 7, 8] @ [9, 10, 11, 12, 13, 14, 15]" by simp
  have "list_all (\<lambda>n. bit (narrow888 (widen565 p)) n = bit p n) (0 # 1 # [2..<16])"
    unfolding narrow888_def widen565_def Let_def m l append.simps list.pred_inject
    by (intro conjI TrueI; simp add: bit_simps)
  moreover fix n assume "n < LENGTH(16)"
  then have "n \<in> set (0 # 1 # [2..<16])" unfolding list.set set_upt by auto
  ultimately show "bit (narrow888 (widen565 p)) n = bit p n" unfolding list_all_iff by (rule bspec)
qed

text \<open>Every depth but 16 is taken for 32: at 24 bits a pixel the second page overruns the mapping.\<close>

lemma flip_32_overrun:
  "0 \<le> t \<Longrightarrow> 0 < n \<Longrightarrow> int (length m) < t + 4 * int (i + n) \<Longrightarrow> flip_32 m t f i n = None"
proof (induction n arbitrary: i m)
  case (Suc n)
  show ?case
  proof (cases "poke m (t + 4 * int i) (le32 (widen565 (the (load f (int i)))))")
    case None
    then show ?thesis by (cases "load f (int i)") simp_all
  next
    case (Some m')
    then have len: "length m' = length m" "t + 4 * int i + 4 \<le> int (length m)" using Suc.prems(1) by (auto simp: poke_def split: if_splits)
    then have "n \<noteq> 0" using Suc.prems(3) by (intro notI) simp
    then have "flip_32 m' t f (Suc i) n = None" using Suc.prems len by (intro Suc.IH) auto
    then show ?thesis using Some by (cases "load f (int i)") simp_all
  qed
qed simp

lemma depth_24_overruns:
  assumes "bits_per_pixel fb = 24" "line_length fb = 3 * int W" "vi_yres fb = int H" "vi_yoffset fb = int H"
    and "length (fb_bits fb) = 2 * (3 * W * H)" "0 < W" "0 < H"
  shows "copy_to_framebuffer fb f = None"
proof -
  have "flip_32 (fb_bits fb) (4 * (int H * int W)) f 0 (nat (int W * int H)) = None"
    using assms(5-7) by (intro flip_32_overrun) (simp_all add: nat_mult_distrib zero_less_mult_iff mult.commute)
  then show ?thesis using assms(1-4) by (simp add: copy_to_framebuffer_def width_of_def)
qed

end
