(* ===== verification/Usbd_Modes.thy ===== *)
theory Usbd_Modes
  imports Prelude
begin

text \<open>
  The USB mode daemon, first part (\<open>src/usbd/usb_defines.h\<close> and the first half of
  \<open>src/usbd/usb_app.c\<close>): the daemon's globals, the calls it makes, the table of USB modes with
  its hooks, the CD-ROM image handling behind the hooks, and \<open>usbd_set_usb_mode\<close>.

  \<^item> The build-time macros (\<open>MSD_CDROM_ENABLED\<close>, \<open>AT_RELAY\<close>, \<open>USBD_TABLET_MODE\<close>, the two device
    paths) are the fields of \<open>usbd_cfg\<close>, an argument of the code that depends on them.
  \<^item> The function pointers of the mode table are the constructors of \<open>hook\<close>, named after the C
    functions; \<open>run_hook\<close> is the call through the pointer.
  \<^item> An access to the mode table outside its bounds sets \<open>fault\<close>.
\<close>

unbundle bit_operations_syntax

section \<open>Types and state\<close>

datatype usbd_call =
    Open string | Close int | Read int nat | Write int string
  | Fopen string | Ftell int | Fread int nat | Fgets int nat | Fputs int string | Fclose int
  | Access string | Ioctl int string int | Mknod string nat "32 word"
  | Mount string string string | Umount string
  | System string
  | Socket_local_server string | Chown string | Chmod string nat
  | Netlink_socket | Setsockopt int string | Bind int
  | Recvmsg int nat | Msg_field string
  | Select int | Fd_isset int | Accept int
  | Property_get string string
  | Opendir string | Readdir int

record usbd_cfg =
  msd_cdrom_enabled :: bool
  at_relay :: bool
  usbd_tablet_mode :: bool
  cdromio_devnode :: string
  cdrom_block_device :: string

datatype MOTO_ACCY_TYPE_T =
    MOTO_ACCY_TYPE_EMU_CABLE_USB | MOTO_ACCY_TYPE_EMU_CABLE_FACTORY | MOTO_ACCY_TYPE_EMU_UNKNOWN

datatype MOTO_MODE_TYPE_T =
    MOTO_MODE_TYPE_NORMAL | MOTO_MODE_TYPE_DEBUG | MOTO_MODE_TYPE_BPTOOLS
  | MOTO_MODE_TYPE_TABLET | MOTO_MODE_TYPE_UNKNOWN

datatype USBD_STATE_T =
    USBD_STATE_CABLE_DEFAULT | USBD_STATE_CABLE_DETACHED | USBD_STATE_CABLE_ATTACHED
  | USBD_STATE_ENUM_IN_PROGRESS | USBD_STATE_ENUMERATED

text \<open>\<open>USB_MODE_T\<close>: the modes are indices into the mode table.\<close>

type_synonym usb_mode = nat

abbreviation "USB_MODE_MIN \<equiv> 0 :: usb_mode"
abbreviation "USB_MODE_NGP \<equiv> 1 :: usb_mode"
abbreviation "USB_MODE_CDROM \<equiv> 2 :: usb_mode"
abbreviation "USB_MODE_MTP \<equiv> 3 :: usb_mode"
abbreviation "USB_MODE_MSC \<equiv> 4 :: usb_mode"
abbreviation "USB_MODE_MSC_ONLY \<equiv> 5 :: usb_mode"
abbreviation "USB_MODE_HID \<equiv> 6 :: usb_mode"
abbreviation "USB_MODE_NGP_ADB \<equiv> 7 :: usb_mode"
abbreviation "USB_MODE_MTP_ADB \<equiv> 8 :: usb_mode"
abbreviation "USB_MODE_MSC_ADB \<equiv> 9 :: usb_mode"
abbreviation "USB_MODE_ADB \<equiv> 10 :: usb_mode"
abbreviation "USB_MODE_NETWORK \<equiv> 11 :: usb_mode"
abbreviation "USB_MODE_MODEM \<equiv> 12 :: usb_mode"
abbreviation "USB_MODE_MODEM_ADB \<equiv> 13 :: usb_mode"
abbreviation "USB_MODE_NETWORK_ADB \<equiv> 14 :: usb_mode"
abbreviation "USB_MODE_CHARGE_ONLY \<equiv> 15 :: usb_mode"
abbreviation "USB_MODE_CHARGE_ADB \<equiv> 16 :: usb_mode"
abbreviation "USB_MODE_RNDIS \<equiv> 17 :: usb_mode"
abbreviation "USB_MODE_RNDIS_ADB \<equiv> 18 :: usb_mode"
abbreviation "USB_MODE_CDROM2 \<equiv> 19 :: usb_mode"
abbreviation "USB_MODE_BPTOOLS_ETH \<equiv> 20 :: usb_mode"
abbreviation "USB_MODE_BPTOOLS_ETH_ADB \<equiv> 21 :: usb_mode"
abbreviation "USB_MODE_RNDIS_BPTOOLS_ETH \<equiv> 22 :: usb_mode"
abbreviation "USB_MODE_RNDIS_BPTOOLS_ETH_ADB \<equiv> 23 :: usb_mode"
abbreviation "USB_MODE_TABLET_NETWORK_MTP \<equiv> 24 :: usb_mode"
abbreviation "USB_MODE_TABLET_NETWORK_MTP_ADB \<equiv> 25 :: usb_mode"
abbreviation "USB_MODE_MAX \<equiv> 26 :: usb_mode"

text \<open>
  The globals. \<open>cdrom_mounted\<close> is the function-static flag of \<open>cdrom_partition_mount\<close>; the last
  three are the buffers of \<open>main\<close> that live across the iterations of its loop (\<open>None\<close> while
  uninitialised).
\<close>

record usbd_state = "usbd_call io_state" +
  usbd_curr_usb_mode :: usb_mode
  usbd_current_state :: USBD_STATE_T
  connected_apps_fd :: "int set"
  usbd_server_fd :: int
  usb_device_fd :: int
  uevent_sock :: int
  usbd_app_fd :: int
  max_fd :: int
  usb_get_des_count :: int
  current_usb_online :: int
  usbd_mode :: MOTO_MODE_TYPE_T
  usb_alt_mode :: int
  tethering_enabled :: int
  usbd_curr_cable_status :: MOTO_ACCY_TYPE_T
  curr_loop_dev :: string
  cdrom_mounted :: int
  pcSwitchbuf :: "string option"
  adbEnablebuf :: "string option"
  tetheringEnablebuf :: "string option"

type_synonym 'a usbd = "(usbd_state, 'a) state"

definition init_usbd :: usbd_state where
  "init_usbd = \<lparr>trace = [], fault = False,
     usbd_curr_usb_mode = USB_MODE_MIN, usbd_current_state = USBD_STATE_CABLE_DEFAULT,
     connected_apps_fd = {}, usbd_server_fd = -1, usb_device_fd = -1, uevent_sock = -1,
     usbd_app_fd = 0, max_fd = -1, usb_get_des_count = 0, current_usb_online = 0,
     usbd_mode = MOTO_MODE_TYPE_NORMAL, usb_alt_mode = 0, tethering_enabled = 0,
     usbd_curr_cable_status = MOTO_ACCY_TYPE_EMU_UNKNOWN, curr_loop_dev = [],
     cdrom_mounted = 0, pcSwitchbuf = None, adbEnablebuf = None, tetheringEnablebuf = None\<rparr>"

text \<open>The hooks of the mode table.\<close>

datatype hook =
    mtp_enable_done | adb_pre_enable | adb_pre_disable
  | ngp_pre_enable | ngp_enable_done | ngp_pre_disable
  | ngp_adb_pre_enable | ngp_adb_enable_done | ngp_adb_pre_disable
  | mtp_adb_pre_enable | mtp_adb_enable_done | mtp_adb_pre_disable
  | modem_enable_done | modem_pre_disable
  | modem_adb_pre_enable | modem_adb_enable_done | modem_adb_pre_disable
  | cdrom_pre_enable | cdrom_disable_done | cdrom_enable_done | cdrom_pre_disable
  | msc_pre_enable | msc_enable_done | msc_pre_disable | msc_disable_done
  | msc_only_enable_done | msc_only_pre_disable
  | msc_adb_enable_done | msc_adb_pre_disable
  | network_enable_done | network_pre_disable

record usb_mode_data =
  mode :: usb_mode
  mode_name :: string
  pre_enable :: "hook option"
  enable_done :: "hook option"
  pre_disable :: "hook option"
  disable_done :: "hook option"
  mode_req :: "string option"
  mode_done :: "string option"
  switch_req :: "string option"
  resp_ok :: "string option"
  resp_fail :: "string option"

text \<open>An initialiser of the table leaves every field it does not name null.\<close>

definition usb_mode_entry :: "usb_mode \<Rightarrow> string \<Rightarrow> usb_mode_data" where
  "usb_mode_entry m n = \<lparr>mode = m, mode_name = n, pre_enable = None, enable_done = None,
     pre_disable = None, disable_done = None, mode_req = None, mode_done = None,
     switch_req = None, resp_ok = None, resp_fail = None\<rparr>"

section \<open>Strings of the protocol with the user interface\<close>

abbreviation "USBD_REQ_SWITCH_NGP \<equiv> ''usbd_req_switch_ngp''"
abbreviation "USBD_REQ_SWITCH_MTP \<equiv> ''usbd_req_switch_mtp''"
abbreviation "USBD_REQ_SWITCH_MSC \<equiv> ''usbd_req_switch_msc''"
abbreviation "USBD_REQ_SWITCH_HID \<equiv> ''usbd_req_switch_hid''"
abbreviation "USBD_REQ_SWITCH_MODEM \<equiv> ''usbd_req_switch_modem''"
abbreviation "USBD_REQ_SWITCH_CHARGE_ONLY \<equiv> ''usbd_req_switch_none''"
abbreviation "USBD_REQ_SWITCH_RNDIS \<equiv> ''usbd_req_switch_rndis''"
abbreviation "USBD_REQ_SWITCH_BPTOOLS \<equiv> ''usbd_req_switch_bptools''"
abbreviation "USBD_START_NGP \<equiv> ''usbd_start_ngp''"
abbreviation "USBD_START_MTP \<equiv> ''usbd_start_mtp''"
abbreviation "USBD_START_MSC_MOUNT \<equiv> ''usbd_start_msc_mount''"

section \<open>The table of USB modes\<close>

text \<open>The table in two parts, \<open>USB_MODE_MIN\<close> to \<open>USB_MODE_NETWORK\<close> and the rest.\<close>

definition usb_mode_list_low :: "usbd_cfg \<Rightarrow> usb_mode_data list" where
  "usb_mode_list_low cfg =
   [(usb_mode_entry USB_MODE_MIN ''unuse'')\<lparr>mode_req := Some ''usb_unload_driver''\<rparr>,
    (usb_mode_entry USB_MODE_NGP ''acm_eth_mtp'')
      \<lparr>pre_enable := Some ngp_pre_enable, enable_done := Some ngp_enable_done,
       pre_disable := Some ngp_pre_disable,
       mode_done := Some USBD_START_NGP, switch_req := Some USBD_REQ_SWITCH_NGP,
       resp_fail := Some ''usb_mode_ngp:fail''\<rparr>,
    (usb_mode_entry USB_MODE_CDROM ''cdrom'')
      \<lparr>pre_enable := Some cdrom_pre_enable, enable_done := Some cdrom_enable_done,
       pre_disable := Some cdrom_pre_disable, disable_done := Some cdrom_disable_done,
       mode_req := Some ''usb_mode_ngp'',
       resp_ok := Some ''usb_mode_ngp:ok'', resp_fail := Some ''usb_mode_ngp:fail''\<rparr>,
    (usb_mode_entry USB_MODE_MTP ''mtp'')
      \<lparr>enable_done := Some mtp_enable_done,
       mode_req := Some ''usb_mode_mtp'', mode_done := Some USBD_START_MTP,
       switch_req := Some USBD_REQ_SWITCH_MTP,
       resp_ok := Some ''usb_mode_mtp:ok'', resp_fail := Some ''usb_mode_mtp:fail''\<rparr>,
    (usb_mode_entry USB_MODE_MSC ''msc'')
      \<lparr>pre_enable := Some msc_pre_enable, enable_done := Some msc_enable_done,
       pre_disable := Some msc_pre_disable, disable_done := Some msc_disable_done,
       mode_req := Some ''usb_mode_msc'', mode_done := Some USBD_START_MSC_MOUNT,
       switch_req := Some USBD_REQ_SWITCH_MSC,
       resp_ok := Some ''usb_mode_msc:ok'', resp_fail := Some ''usb_mode_msc:fail''\<rparr>,
    (usb_mode_entry USB_MODE_MSC_ONLY ''msc_only'')
      \<lparr>enable_done := Some msc_only_enable_done, pre_disable := Some msc_only_pre_disable,
       mode_req := Some ''usb_mode_msc_only'', mode_done := Some USBD_START_MSC_MOUNT,
       resp_ok := Some ''usb_mode_msc:ok'', resp_fail := Some ''usb_mode_msc:fail''\<rparr>,
    (usb_mode_entry USB_MODE_HID ''hid'')
      \<lparr>mode_req := Some ''usb_mode_hid'', switch_req := Some USBD_REQ_SWITCH_HID,
       resp_ok := Some ''usb_mode_hid:ok'', resp_fail := Some ''usb_mode_hid:fail''\<rparr>,
    (usb_mode_entry USB_MODE_NGP_ADB
       (if at_relay cfg then ''acm_acm1_eth_mtp_adb'' else ''acm_eth_mtp_adb''))
      \<lparr>pre_enable := Some ngp_adb_pre_enable, enable_done := Some ngp_adb_enable_done,
       pre_disable := Some ngp_adb_pre_disable,
       mode_req := Some ''usb_mode_ngp_adb'', mode_done := Some USBD_START_NGP,
       switch_req := Some USBD_REQ_SWITCH_NGP,
       resp_ok := Some ''usb_mode_ngp:ok'', resp_fail := Some ''usb_mode_ngp:fail''\<rparr>,
    (usb_mode_entry USB_MODE_MTP_ADB ''mtp_adb'')
      \<lparr>pre_enable := Some mtp_adb_pre_enable, pre_disable := Some mtp_adb_pre_disable,
       enable_done := Some mtp_adb_enable_done,
       mode_req := Some ''usb_mode_mtp_adb'', mode_done := Some USBD_START_MTP,
       switch_req := Some USBD_REQ_SWITCH_MTP,
       resp_ok := Some ''usb_mode_mtp:ok'', resp_fail := Some ''usb_mode_mtp:fail''\<rparr>,
    (usb_mode_entry USB_MODE_MSC_ADB ''msc_adb'')
      \<lparr>enable_done := Some msc_adb_enable_done, pre_disable := Some msc_adb_pre_disable,
       mode_req := Some ''usb_mode_msc_adb'', mode_done := Some USBD_START_MSC_MOUNT,
       switch_req := Some USBD_REQ_SWITCH_MSC,
       resp_ok := Some ''usb_mode_msc:ok'', resp_fail := Some ''usb_mode_msc:fail''\<rparr>,
    (usb_mode_entry USB_MODE_ADB ''android_adb_only'')
      \<lparr>pre_enable := Some adb_pre_enable, pre_disable := Some adb_pre_disable,
       mode_req := Some ''usb_mode_adb'', switch_req := Some USBD_REQ_SWITCH_HID,
       resp_ok := Some ''usb_mode_hid:ok'', resp_fail := Some ''usb_mode_hid:fail''\<rparr>,
    (usb_mode_entry USB_MODE_NETWORK ''eth'')
      \<lparr>enable_done := Some network_enable_done, pre_disable := Some network_pre_disable\<rparr>]"

definition usb_mode_list_high :: "usbd_cfg \<Rightarrow> usb_mode_data list" where
  "usb_mode_list_high cfg =
   [(usb_mode_entry USB_MODE_MODEM ''acm'')
      \<lparr>pre_disable := Some modem_pre_disable, enable_done := Some modem_enable_done,
       mode_req := Some ''usb_mode_modem'', switch_req := Some USBD_REQ_SWITCH_MODEM,
       resp_ok := Some ''usb_mode_modem:ok'', resp_fail := Some ''usb_mode_modem:fail''\<rparr>,
    (usb_mode_entry USB_MODE_MODEM_ADB ''modem_adb'')
      \<lparr>pre_enable := Some modem_adb_pre_enable, enable_done := Some modem_adb_enable_done,
       pre_disable := Some modem_adb_pre_disable,
       mode_req := Some ''usb_mode_modem_adb'', switch_req := Some USBD_REQ_SWITCH_MODEM,
       resp_ok := Some ''usb_mode_modem:ok'', resp_fail := Some ''usb_mode_modem:fail''\<rparr>,
    (usb_mode_entry USB_MODE_NETWORK_ADB
       (if at_relay cfg then ''acm1_eth_adb'' else ''eth_adb''))
      \<lparr>enable_done := Some network_enable_done, pre_disable := Some network_pre_disable\<rparr>,
    (usb_mode_entry USB_MODE_CHARGE_ONLY ''charge_only'')
      \<lparr>mode_req := Some ''usb_mode_charge_only'',
       switch_req := Some USBD_REQ_SWITCH_CHARGE_ONLY,
       resp_ok := Some ''usb_mode_msc:ok'', resp_fail := Some ''usb_mode_msc:fail''\<rparr>,
    (usb_mode_entry USB_MODE_CHARGE_ADB ''charge_adb'')
      \<lparr>mode_req := Some ''usb_mode_charge_adb'',
       switch_req := Some USBD_REQ_SWITCH_CHARGE_ONLY,
       resp_ok := Some ''usb_mode_msc:ok'', resp_fail := Some ''usb_mode_msc:fail''\<rparr>,
    (usb_mode_entry USB_MODE_RNDIS ''rndis'')
      \<lparr>mode_req := Some ''usb_mode_rndis'', switch_req := Some USBD_REQ_SWITCH_RNDIS,
       resp_ok := Some ''usb_mode_rndis:ok'', resp_fail := Some ''usb_mode_rndis:fail''\<rparr>,
    (usb_mode_entry USB_MODE_RNDIS_ADB ''rndis_adb'')
      \<lparr>mode_req := Some ''usb_mode_rndis_adb'', switch_req := Some USBD_REQ_SWITCH_RNDIS,
       resp_ok := Some ''usb_mode_rndis:ok'', resp_fail := Some ''usb_mode_rndis:fail''\<rparr>,
    (usb_mode_entry USB_MODE_CDROM2 ''cdrom2'')
      \<lparr>pre_enable := Some cdrom_pre_enable, enable_done := Some cdrom_enable_done,
       pre_disable := Some cdrom_pre_disable, disable_done := Some cdrom_disable_done\<rparr>,
    (usb_mode_entry USB_MODE_BPTOOLS_ETH ''acm_acm1_acm2_acm3_eth'')
      \<lparr>mode_req := Some ''usb_mode_acm_acm1_acm2_acm3_eth'',
       switch_req := Some USBD_REQ_SWITCH_BPTOOLS,
       resp_ok := Some ''usb_mode_bptools:ok'', resp_fail := Some ''usb_mode_bptools:fail''\<rparr>,
    (usb_mode_entry USB_MODE_BPTOOLS_ETH_ADB ''acm_acm1_acm2_acm3_eth_adb'')
      \<lparr>mode_req := Some ''usb_mode_acm_acm1_acm2_acm3_eth_adb'',
       switch_req := Some USBD_REQ_SWITCH_BPTOOLS,
       resp_ok := Some ''usb_mode_bptools:ok'', resp_fail := Some ''usb_mode_bptools:fail''\<rparr>,
    (usb_mode_entry USB_MODE_RNDIS_BPTOOLS_ETH ''rndis_acm_acm1_acm2_acm3_eth'')
      \<lparr>mode_req := Some ''usb_mode_rndis_acm_acm1_acm2_acm3_eth'',
       switch_req := Some USBD_REQ_SWITCH_BPTOOLS,
       resp_ok := Some ''usb_mode_bptools:ok'', resp_fail := Some ''usb_mode_bptools:fail''\<rparr>,
    (usb_mode_entry USB_MODE_RNDIS_BPTOOLS_ETH_ADB ''rndis_acm_acm1_acm2_acm3_eth_adb'')
      \<lparr>mode_req := Some ''usb_mode_rndis_acm_acm1_acm2_acm3_eth_adb'',
       switch_req := Some USBD_REQ_SWITCH_BPTOOLS,
       resp_ok := Some ''usb_mode_bptools:ok'', resp_fail := Some ''usb_mode_bptools:fail''\<rparr>,
    usb_mode_entry USB_MODE_TABLET_NETWORK_MTP ''eth_mtp'',
    usb_mode_entry USB_MODE_TABLET_NETWORK_MTP_ADB ''eth_mtp_adb'',
    usb_mode_entry USB_MODE_MAX ''unuse'']"

definition usb_mode_list :: "usbd_cfg \<Rightarrow> usb_mode_data list" where
  "usb_mode_list cfg = usb_mode_list_low cfg @ usb_mode_list_high cfg"

section \<open>The CD-ROM image\<close>

text \<open>
  The bytes a buffer of \<open>n\<close> bytes holds after a read into it: what was delivered, the rest
  as the environment left it (here NUL).
\<close>

definition fill :: "nat \<Rightarrow> string \<Rightarrow> string" where
  "fill n d = take n (d @ replicate n NUL)"

abbreviation "LOOP_MAX \<equiv> 4096 :: nat"
abbreviation "LOOP_DEV_PATH_LEN \<equiv> 255 :: nat"
abbreviation "MAX_VERSION_SIZE \<equiv> 255 :: nat"
abbreviation "EEXIST \<equiv> 17 :: int"
abbreviation "ENXIO \<equiv> 6 :: int"

definition version_prefix :: string where
  "version_prefix = ''pc_mot_drv_vers_query:''"

definition cdrom_read_version_key :: "usbd_call os \<Rightarrow> int usbd" where
  "cdrom_read_version_key os = do {
     let prefix_len = length version_prefix;
     let max_version_len = MAX_VERSION_SIZE - prefix_len - 1;
     f \<leftarrow> syscall os (Fopen ''/cdrom/cdinfo'');
     if ret_val f = 0 then return 0
     else do {
       t \<leftarrow> syscall os (Ftell (ret_val f));
       let len = nat (ret_val t mod 2 ^ 32);
       let file_len = (if len > max_version_len then max_version_len else len);
       r \<leftarrow> syscall os (Fread (ret_val f) file_len);
       syscall os (Fclose (ret_val f));
       dev \<leftarrow> gets usb_device_fd;
       if dev < 0 then return 0
       else do {
         w \<leftarrow> syscall os (Write dev (version_prefix @ fill file_len (ret_data r) @ [NUL]));
         return (ret_val w)
       }
     }
   }"

text \<open>\<open>loop_create\<close>: the search for a free loop device, then the binding of the file to it.\<close>

definition loop_path :: "nat \<Rightarrow> string" where
  "loop_path i = ''/dev/block/loop'' @ show_nat i"

definition loop_dev :: "nat \<Rightarrow> 32 word" where
  "loop_dev i = (0xff AND of_nat i) OR (push_bit 12 (of_nat i) AND 0xfff00000) OR push_bit 8 7"

text \<open>\<open>loop_search os k i\<close> has \<open>k\<close> devices left to try, the next one is \<open>i\<close>.\<close>

fun loop_search :: "usbd_call os \<Rightarrow> nat \<Rightarrow> nat \<Rightarrow> (int \<times> nat) option usbd" where
  "loop_search os 0 i = return None"
| "loop_search os (Suc k) i = do {
     m \<leftarrow> syscall os (Mknod (loop_path i) 25008 (loop_dev i));
     if ret_val m < 0 \<and> ret_errno m \<noteq> EEXIST then return None
     else do {
       fd \<leftarrow> syscall os (Open (loop_path i));
       if ret_val fd < 0 then return None
       else do {
         rc \<leftarrow> syscall os (Ioctl (ret_val fd) ''LOOP_GET_STATUS'' 0);
         if ret_val rc < 0 \<and> ret_errno rc = ENXIO then return (Some (ret_val fd, i))
         else do {
           syscall os (Close (ret_val fd));
           if ret_val rc < 0 then return None else loop_search os k (Suc i)
         }
       }
     }
   }"

definition loop_create :: "usbd_call os \<Rightarrow> string \<Rightarrow> int usbd" where
  "loop_create os loopFile = do {
     free \<leftarrow> loop_search os LOOP_MAX 0;
     case free of
       None \<Rightarrow> return (-1)
     | Some (fd, i) \<Rightarrow> do {
         modify (\<lambda>s. s\<lparr>curr_loop_dev := take (LOOP_DEV_PATH_LEN - 1) (loop_path i)\<rparr>);
         file_fd \<leftarrow> syscall os (Open loopFile);
         if ret_val file_fd < 0 then do { syscall os (Close fd); return (-1) }
         else do {
           rc \<leftarrow> syscall os (Ioctl fd ''LOOP_SET_FD'' (ret_val file_fd));
           if ret_val rc < 0 then do {
             syscall os (Close (ret_val file_fd)); syscall os (Close fd); return (-1) }
           else do {
             syscall os (Close fd); syscall os (Close (ret_val file_fd)); return 0 }
         }
       }
   }"

definition CDROM_FILE :: string where
  "CDROM_FILE = ''/cdrom/cdrom_vfat.bin''"

text \<open>The loop device is taken down: false when the function has to return at once.\<close>

definition cdrom_clear_loop :: "usbd_call os \<Rightarrow> int \<Rightarrow> bool usbd" where
  "cdrom_clear_loop os fd = do {
     syscall os (Write fd [NUL]);
     loop_dev \<leftarrow> gets curr_loop_dev;
     device_fd \<leftarrow> syscall os (Open loop_dev);
     if ret_val device_fd < 0 then return False
     else do {
       rc \<leftarrow> syscall os (Ioctl (ret_val device_fd) ''LOOP_CLR_FD'' 0);
       if ret_val rc < 0 then do { syscall os (Close (ret_val device_fd)); return False }
       else do {
         modify (\<lambda>s. s\<lparr>cdrom_mounted := 0\<rparr>);
         syscall os (Close (ret_val device_fd));
         return True
       }
     }
   }"

definition cdrom_mount_loop :: "usbd_call os \<Rightarrow> int \<Rightarrow> bool usbd" where
  "cdrom_mount_loop os fd = do {
     rc \<leftarrow> loop_create os CDROM_FILE;
     if rc \<noteq> 0 then return False
     else do {
       modify (\<lambda>s. s\<lparr>cdrom_mounted := 1\<rparr>);
       loop_dev \<leftarrow> gets curr_loop_dev;
       syscall os (Write fd loop_dev);
       return True
     }
   }"

definition cdrom_partition_mount :: "usbd_call os \<Rightarrow> usbd_cfg \<Rightarrow> bool \<Rightarrow> unit usbd" where
  "cdrom_partition_mount os cfg do_mount = do {
     fd \<leftarrow> syscall os (Open (cdromio_devnode cfg));
     if ret_val fd < 0 then return ()
     else do {
       a \<leftarrow> syscall os (Access (cdrom_block_device cfg));
       if ret_val a = 0 then do {
         syscall os (Write (ret_val fd) (if do_mount then cdrom_block_device cfg else [NUL]));
         syscall os (Close (ret_val fd));
         return ()
       } else do {
         mounted \<leftarrow> gets cdrom_mounted;
         cleared \<leftarrow> (if mounted \<noteq> 0 then cdrom_clear_loop os (ret_val fd) else return True);
         if \<not> cleared then return ()
         else do {
           created \<leftarrow> (if do_mount then cdrom_mount_loop os (ret_val fd) else return True);
           whenM created (do { syscall os (Close (ret_val fd)); return () })
         }
       }
     }
   }"

definition cdrom_smart_version_mount :: "usbd_call os \<Rightarrow> usbd_cfg \<Rightarrow> bool \<Rightarrow> unit usbd" where
  "cdrom_smart_version_mount os cfg imount = do {
     a \<leftarrow> syscall os (Access (cdrom_block_device cfg));
     if ret_val a = 0 then do {
       (if imount then syscall os (Mount (cdrom_block_device cfg) ''/cdrom'' ''iso9660'')
        else syscall os (Umount ''/cdrom''));
       return ()
     } else if imount then do {
       rc \<leftarrow> loop_create os CDROM_FILE;
       if rc \<noteq> 0 then return ()
       else do {
         loop_dev \<leftarrow> gets curr_loop_dev;
         syscall os (Mount loop_dev ''/cdrom'' ''iso9660'');
         return ()
       }
     } else do {
       syscall os (Umount ''/cdrom'');
       loop_dev \<leftarrow> gets curr_loop_dev;
       device_fd \<leftarrow> syscall os (Open loop_dev);
       if ret_val device_fd < 0 then return ()
       else do {
         rc \<leftarrow> syscall os (Ioctl (ret_val device_fd) ''LOOP_CLR_FD'' 0);
         if ret_val rc < 0 then return ()
         else do { syscall os (Close (ret_val device_fd)); return () }
       }
     }
   }"

section \<open>Hooks and mode switch\<close>

definition sh :: "usbd_call os \<Rightarrow> string \<Rightarrow> unit usbd" where
  "sh os cmd = do { syscall os (System cmd); return () }"

definition cdrom_param :: "bool \<Rightarrow> string" where
  "cdrom_param b = ''echo '' @ (if b then ''1'' else ''0'') @
     '' > /sys/module/g_mot_android/parameters/cdrom''"

definition allow_eject_param :: "bool \<Rightarrow> string" where
  "allow_eject_param b = ''echo '' @ (if b then ''1'' else ''0'') @
     '' > /sys/module/g_mot_android/parameters/allow_eject''"

definition mass_storage_param :: "bool \<Rightarrow> string" where
  "mass_storage_param b = ''echo '' @ (if b then ''1'' else ''0'') @
     '' > /sys/devices/virtual/usb_composite/usb_mass_storage/enable''"

definition cdrom_hook :: "usbd_call os \<Rightarrow> usbd_cfg \<Rightarrow> hook \<Rightarrow> unit usbd" where
  "cdrom_hook os cfg h =
     (case h of
        cdrom_pre_enable \<Rightarrow> sh os (cdrom_param True)
      | cdrom_disable_done \<Rightarrow> sh os (cdrom_param False)
      | cdrom_enable_done \<Rightarrow> cdrom_partition_mount os cfg True
      | cdrom_pre_disable \<Rightarrow> cdrom_partition_mount os cfg False
      | _ \<Rightarrow> return ())"

definition msc_hook :: "usbd_call os \<Rightarrow> usbd_cfg \<Rightarrow> hook \<Rightarrow> unit usbd" where
  "msc_hook os cfg h =
     (case h of
        msc_pre_enable \<Rightarrow> whenM (msd_cdrom_enabled cfg)
          (do { sh os (cdrom_param True); sh os (allow_eject_param False) })
      | msc_enable_done \<Rightarrow> do {
          whenM (msd_cdrom_enabled cfg) (cdrom_partition_mount os cfg True);
          sh os (mass_storage_param True) }
      | msc_pre_disable \<Rightarrow> do {
          whenM (msd_cdrom_enabled cfg) (cdrom_partition_mount os cfg False);
          sh os (mass_storage_param False) }
      | msc_disable_done \<Rightarrow> whenM (msd_cdrom_enabled cfg)
          (do { sh os (cdrom_param False); sh os (allow_eject_param True) })
      | msc_only_enable_done \<Rightarrow> sh os (mass_storage_param True)
      | msc_only_pre_disable \<Rightarrow> sh os (mass_storage_param False)
      | msc_adb_enable_done \<Rightarrow> sh os (mass_storage_param True)
      | msc_adb_pre_disable \<Rightarrow> sh os (mass_storage_param False)
      | _ \<Rightarrow> return ())"

text \<open>The hooks of the other modes have empty bodies in the source.\<close>

definition run_hook :: "usbd_call os \<Rightarrow> usbd_cfg \<Rightarrow> hook \<Rightarrow> unit usbd" where
  "run_hook os cfg h =
     (if h \<in> {cdrom_pre_enable, cdrom_disable_done, cdrom_enable_done, cdrom_pre_disable}
      then cdrom_hook os cfg h
      else if h \<in> {msc_pre_enable, msc_enable_done, msc_pre_disable, msc_disable_done,
        msc_only_enable_done, msc_only_pre_disable, msc_adb_enable_done, msc_adb_pre_disable}
      then msc_hook os cfg h
      else return ())"

definition call_hook :: "usbd_call os \<Rightarrow> usbd_cfg \<Rightarrow> hook option \<Rightarrow> unit usbd" where
  "call_hook os cfg f = (case f of None \<Rightarrow> return () | Some h \<Rightarrow> run_hook os cfg h)"

text \<open>\<open>usb_mode_list[i]\<close>.\<close>

definition mode_entry :: "usbd_cfg \<Rightarrow> usb_mode \<Rightarrow> (usb_mode_data \<Rightarrow> 'a usbd) \<Rightarrow> 'a \<Rightarrow> 'a usbd" where
  "mode_entry cfg i k dflt =
     (if i < length (usb_mode_list cfg) then k (usb_mode_list cfg ! i)
      else do { undefined_behaviour; return dflt })"

definition usbd_set_usb_mode :: "usbd_call os \<Rightarrow> usbd_cfg \<Rightarrow> usb_mode \<Rightarrow> int usbd" where
  "usbd_set_usb_mode os cfg new_mode = do {
     curr \<leftarrow> gets usbd_curr_usb_mode;
     mode_entry cfg curr (\<lambda>e. call_hook os cfg (pre_disable e)) ();
     mode_entry cfg curr (\<lambda>e. call_hook os cfg (disable_done e)) ();
     modify (\<lambda>s. s\<lparr>usbd_curr_usb_mode := new_mode\<rparr>);
     if new_mode = USB_MODE_MIN then return 0
     else mode_entry cfg new_mode (\<lambda>e. do {
       call_hook os cfg (pre_enable e);
       dev \<leftarrow> gets usb_device_fd;
       syscall os (Write dev (mode_name e @ [NUL]));
       return 0
     }) 0
   }"

end
