(* ===== verification/Usbd_Daemon.thy ===== *)
theory Usbd_Daemon
  imports Usbd_Modes
begin

text \<open>
  The USB mode daemon, second part (\<open>src/usbd/usb_app.c\<close> from \<open>usbd_socket_init\<close> on, and
  \<open>usbd_alt_mode_set\<close>): the protocol with the application, the messages of the USB driver, the
  kernel's uevents, and \<open>main\<close>. \<open>usbd_main os cfg n\<close> is the daemon's start and \<open>n\<close> iterations of
  its endless loop.

  \<^item> The descriptors \<open>select\<close> left in its set are answered one by one by \<open>Fd_isset\<close>; a descriptor
    that was not watched is never ready.
  \<^item> The sender of a netlink message (its address and credentials) is answered by \<open>Msg_field\<close>.
\<close>

section \<open>Properties and notifications\<close>

abbreviation "USBD_CABLE_ATTACHED \<equiv> ''cable_connected''"
abbreviation "USBD_CABLE_DETACHED \<equiv> ''cable_disconnected''"
abbreviation "USBD_GET_DESCRIPTOR \<equiv> ''get_descriptor''"
abbreviation "USBD_ENUMERATED \<equiv> ''usb_enumerated''"
abbreviation "USBD_EVENT_ADB_ON \<equiv> ''usbd_adb_status_on''"
abbreviation "USBD_EVENT_ADB_OFF \<equiv> ''usbd_adb_status_off''"
abbreviation "USBD_EVENT_TETHERING_ON \<equiv> ''usbd_tethering_status_on''"
abbreviation "USBD_EVENT_TETHERING_OFF \<equiv> ''usbd_tethering_status_off''"
abbreviation "USBD_DISK_ATTACH \<equiv> ''usb_disk_plugin''"
abbreviation "USBD_DISK_DETACH \<equiv> ''usb_disk_plugout''"

text \<open>\<open>write(fd, s, strlen(s) + 1)\<close>.\<close>

definition send :: "usbd_call os \<Rightarrow> int \<Rightarrow> string \<Rightarrow> int usbd" where
  "send os fd msg = do { r \<leftarrow> syscall os (Write fd (msg @ [NUL])); return (ret_val r) }"

definition property_get :: "usbd_call os \<Rightarrow> string \<Rightarrow> string \<Rightarrow> (int \<times> string) usbd" where
  "property_get os key dflt = do {
     r \<leftarrow> syscall os (Property_get key dflt);
     return (ret_val r, cstr (ret_data r))
   }"

definition usbd_get_adb_property :: "usbd_call os \<Rightarrow> int usbd" where
  "usbd_get_adb_property os = do {
     (rc, buf) \<leftarrow> property_get os ''persist.service.adb.enable'' ''0'';
     return (if rc = 0 then -1 else if buf = ''1'' then 1 else 0)
   }"

definition usbd_get_startup_mode :: "usbd_call os \<Rightarrow> usbd_cfg \<Rightarrow> MOTO_MODE_TYPE_T usbd" where
  "usbd_get_startup_mode os cfg = do {
     (_, buf) \<leftarrow> property_get os ''ro.usb_mode'' ''normal'';
     if buf = ''debug'' then return MOTO_MODE_TYPE_DEBUG
     else do {
       (_, buf) \<leftarrow> property_get os ''persist.usb.android_config'' ''0'';
       if buf = ''1'' then return MOTO_MODE_TYPE_DEBUG
       else do {
         (_, buf) \<leftarrow> property_get os ''ro.bootmode'' ''normal'';
         if buf = ''bp-tools'' then return MOTO_MODE_TYPE_BPTOOLS
         else return (if usbd_tablet_mode cfg then MOTO_MODE_TYPE_TABLET
                      else MOTO_MODE_TYPE_NORMAL)
       }
     }
   }"

definition usbd_factorycable_adb_enabled :: "usbd_call os \<Rightarrow> bool usbd" where
  "usbd_factorycable_adb_enabled os = do {
     (_, buf) \<leftarrow> property_get os ''persist.factory.allow_adb'' ''0'';
     return (buf = ''1'')
   }"

definition usbd_send_adb_status :: "usbd_call os \<Rightarrow> int \<Rightarrow> int \<Rightarrow> int usbd" where
  "usbd_send_adb_status os newfd en_flag =
     send os newfd (if en_flag = 1 then USBD_EVENT_ADB_ON else USBD_EVENT_ADB_OFF)"

definition usbd_send_tethering_status :: "usbd_call os \<Rightarrow> int \<Rightarrow> int \<Rightarrow> int usbd" where
  "usbd_send_tethering_status os newfd en_flag =
     send os newfd (if en_flag = 1 then USBD_EVENT_TETHERING_ON else USBD_EVENT_TETHERING_OFF)"

definition notification_message :: "USBD_STATE_T \<Rightarrow> string option" where
  "notification_message st =
     (case st of
        USBD_STATE_CABLE_ATTACHED \<Rightarrow> Some USBD_CABLE_ATTACHED
      | USBD_STATE_CABLE_DETACHED \<Rightarrow> Some USBD_CABLE_DETACHED
      | USBD_STATE_ENUM_IN_PROGRESS \<Rightarrow> Some USBD_GET_DESCRIPTOR
      | USBD_STATE_ENUMERATED \<Rightarrow> Some USBD_ENUMERATED
      | USBD_STATE_CABLE_DEFAULT \<Rightarrow> None)"

definition usbd_notify_current_status :: "usbd_call os \<Rightarrow> int \<Rightarrow> int usbd" where
  "usbd_notify_current_status os appfd = do {
     st \<leftarrow> gets usbd_current_state;
     case notification_message st of
       None \<Rightarrow> return 0
     | Some msg \<Rightarrow> do { rc \<leftarrow> send os appfd msg; return (if rc < 0 then -1 else rc) }
   }"

section \<open>The watched descriptors\<close>

definition usbd_get_maxfd :: "int usbd" where
  "usbd_get_maxfd = do {
     s \<leftarrow> get;
     return (max (max (max (uevent_sock s) (usb_device_fd s)) (usbd_server_fd s)) (usbd_app_fd s))
   }"

text \<open>\<open>FD_SET\<close>: an \<open>fd_set\<close> has 1024 bits.\<close>

definition fd_set :: "int \<Rightarrow> unit usbd" where
  "fd_set fd =
     (if 0 \<le> fd \<and> fd < 1024
      then modify (\<lambda>s. s\<lparr>connected_apps_fd := insert fd (connected_apps_fd s)\<rparr>)
      else undefined_behaviour)"

definition set_maxfd :: "unit usbd" where
  "set_maxfd = do { m \<leftarrow> usbd_get_maxfd; modify (\<lambda>s. s\<lparr>max_fd := m\<rparr>) }"

text \<open>
  The three statements that forget the application, wherever a write to it fails or it hangs
  up: \<open>FD_CLR(usbd_app_fd, \<dots>); usbd_app_fd = -1; max_fd = usbd_get_maxfd()\<close>.
\<close>

definition forget_app :: "unit usbd" where
  "forget_app = do {
     modify (\<lambda>s. s\<lparr>connected_apps_fd := connected_apps_fd s - {usbd_app_fd s}\<rparr>);
     modify (\<lambda>s. s\<lparr>usbd_app_fd := -1\<rparr>);
     set_maxfd
   }"

definition usbd_save_socket_fd :: "int \<Rightarrow> unit usbd" where
  "usbd_save_socket_fd newfd = do {
     app \<leftarrow> gets usbd_app_fd;
     whenM (app = -1) (do {
       fd_set newfd;
       modify (\<lambda>s. s\<lparr>usbd_app_fd := newfd\<rparr>)
     })
   }"

definition usbd_socket_init :: "usbd_call os \<Rightarrow> int usbd" where
  "usbd_socket_init os = do {
     fd \<leftarrow> syscall os (Socket_local_server ''usbd'');
     modify (\<lambda>s. s\<lparr>usbd_server_fd := ret_val fd\<rparr>);
     if ret_val fd < 0 then return (-1)
     else do {
       syscall os (Chown ''/dev/socket/usbd'');
       syscall os (Chmod ''/dev/socket/usbd'' 432);
       return 0
     }
   }"

section \<open>Requests of the application\<close>

abbreviation "ECONNRESET \<equiv> 104 :: int"
abbreviation "SOCKET_BUFFER_SIZE \<equiv> 1024 :: nat"

text \<open>The search loops over the table: the first index below \<open>USB_MODE_MAX\<close> that satisfies \<open>p\<close>.\<close>

fun first_index :: "('a \<Rightarrow> bool) \<Rightarrow> 'a list \<Rightarrow> nat option" where
  "first_index p [] = None"
| "first_index p (x # xs) = (if p x then Some 0 else map_option Suc (first_index p xs))"

definition find_mode :: "usbd_cfg \<Rightarrow> (usb_mode_data \<Rightarrow> bool) \<Rightarrow> usb_mode option" where
  "find_mode cfg p = first_index p (take USB_MODE_MAX (usb_mode_list cfg))"

text \<open>The request for mode \<open>i\<close>: the confirmation, then the switch unless it is the current one.\<close>

definition usbd_mode_request :: "usbd_call os \<Rightarrow> usbd_cfg \<Rightarrow> int \<Rightarrow> usb_mode \<Rightarrow> int usbd" where
  "usbd_mode_request os cfg client_fd i = mode_entry cfg i (\<lambda>e. do {
     ok \<leftarrow> (case resp_ok e of None \<Rightarrow> return 0 | Some msg \<Rightarrow> send os client_fd msg);
     if ok < 0 then return (-1)
     else do {
       curr \<leftarrow> gets usbd_curr_usb_mode;
       if curr \<noteq> i then do {
         online \<leftarrow> gets current_usb_online;
         whenM (online \<noteq> 0) (do { usbd_set_usb_mode os cfg i; return () });
         return 0
       } else do {
         rc \<leftarrow> (case mode_done e of None \<Rightarrow> return 0 | Some msg \<Rightarrow> send os client_fd msg);
         return (if rc < 0 then -1 else 0)
       }
     }
   }) 0"

definition usbd_socket_event :: "usbd_call os \<Rightarrow> usbd_cfg \<Rightarrow> int \<Rightarrow> int usbd" where
  "usbd_socket_event os cfg client_fd = do {
     r \<leftarrow> syscall os (Read client_fd SOCKET_BUFFER_SIZE);
     if ret_val r < 0 then return (-1)
     else if ret_val r = 0 then do { syscall os (Close client_fd); return (- ECONNRESET) }
     else do {
       let buf = cstr (take (min SOCKET_BUFFER_SIZE (nat (ret_val r))) (ret_data r));
       cable \<leftarrow> gets usbd_curr_cable_status;
       if cable = MOTO_ACCY_TYPE_EMU_CABLE_FACTORY then return 0
       else case find_mode cfg (\<lambda>e. mode_req e = Some buf) of
         None \<Rightarrow> return 0
       | Some i \<Rightarrow>
           if i = USB_MODE_MIN then do { usbd_set_usb_mode os cfg i; return 0 }
           else usbd_mode_request os cfg client_fd i
     }
   }"

text \<open>
  \<open>usbd_enumerate_default_mode\<close>: the \<open>if (usbd_get_adb_property())\<close> of the source takes every
  non-zero answer, the error value -1 included, for true.
\<close>

definition usbd_enumerate_default_mode :: "usbd_call os \<Rightarrow> usbd_cfg \<Rightarrow> int usbd" where
  "usbd_enumerate_default_mode os cfg = do {
     m \<leftarrow> gets usbd_mode;
     (case m of
        MOTO_MODE_TYPE_DEBUG \<Rightarrow> do {
          adb \<leftarrow> usbd_get_adb_property os;
          usbd_set_usb_mode os cfg (if adb \<noteq> 0 then USB_MODE_MSC_ADB else USB_MODE_MSC) }
      | MOTO_MODE_TYPE_BPTOOLS \<Rightarrow> do {
          adb \<leftarrow> usbd_get_adb_property os;
          usbd_set_usb_mode os cfg
            (if adb \<noteq> 0 then USB_MODE_BPTOOLS_ETH_ADB else USB_MODE_BPTOOLS_ETH) }
      | MOTO_MODE_TYPE_TABLET \<Rightarrow> do {
          adb \<leftarrow> usbd_get_adb_property os;
          usbd_set_usb_mode os cfg
            (if adb \<noteq> 0 then USB_MODE_TABLET_NETWORK_MTP_ADB else USB_MODE_CDROM) }
      | _ \<Rightarrow> return 0);
     return 0
   }"

definition usbd_enum_process :: "usbd_call os \<Rightarrow> usbd_cfg \<Rightarrow> int \<Rightarrow> int usbd" where
  "usbd_enum_process os cfg newfd = do {
     curr \<leftarrow> gets usbd_curr_usb_mode;
     mode_entry cfg curr (\<lambda>e. do {
       call_hook os cfg (enable_done e);
       (case mode_done e of
          Some msg \<Rightarrow>
            if newfd \<ge> 0 then do { rc \<leftarrow> send os newfd msg; return (if rc < 0 then -1 else 0) }
            else return 0
        | None \<Rightarrow> return 0)
     }) 0
   }"

section \<open>Alternate modes\<close>

text \<open>\<open>usb_alt_mode_tlb[mode - MOTO_MODE_TYPE_BPTOOLS][adb_en][tethering_enabled]\<close>.\<close>

definition usb_alt_mode_tlb :: "usb_mode list list list" where
  "usb_alt_mode_tlb =
     [[[USB_MODE_BPTOOLS_ETH, USB_MODE_RNDIS_BPTOOLS_ETH],
       [USB_MODE_BPTOOLS_ETH_ADB, USB_MODE_RNDIS_BPTOOLS_ETH_ADB]],
      [[USB_MODE_CDROM, USB_MODE_CDROM],
       [USB_MODE_TABLET_NETWORK_MTP_ADB, USB_MODE_RNDIS_ADB]]]"

definition alt_mode_lookup :: "nat \<Rightarrow> int \<Rightarrow> int \<Rightarrow> usb_mode option" where
  "alt_mode_lookup k adb_en tether =
     (if k < 2 \<and> 0 \<le> adb_en \<and> adb_en < 2 \<and> 0 \<le> tether \<and> tether < 2
      then Some (usb_alt_mode_tlb ! k ! nat adb_en ! nat tether) else None)"

definition switch_flag :: "string \<Rightarrow> string \<Rightarrow> string \<Rightarrow> int" where
  "switch_flag on off buf = (if buf = on then 1 else if buf = off then 0 else -1)"

text \<open>The table look-up and the switch to its entry.\<close>

definition alt_mode_apply :: "usbd_call os \<Rightarrow> usbd_cfg \<Rightarrow> nat \<Rightarrow> int \<Rightarrow> int usbd" where
  "alt_mode_apply os cfg k adb_en = do {
     tether \<leftarrow> gets tethering_enabled;
     case alt_mode_lookup k adb_en tether of
       None \<Rightarrow> do { undefined_behaviour; return 0 }
     | Some alt_new_mode \<Rightarrow> do {
         whenM (alt_new_mode < USB_MODE_MAX)
           (do { usbd_set_usb_mode os cfg alt_new_mode; return () });
         return 0
       }
   }"

definition usbd_alt_mode_set ::
  "usbd_call os \<Rightarrow> usbd_cfg \<Rightarrow> MOTO_MODE_TYPE_T \<Rightarrow> string \<Rightarrow> string \<Rightarrow> int usbd" where
  "usbd_alt_mode_set os cfg m adb_buf tether_buf = do {
     let adb_en = switch_flag ''adb_enable'' ''adb_disable'' adb_buf;
     let tether_en = switch_flag ''tethering_enable'' ''tethering_disable'' tether_buf;
     if tether_en < 0 \<and> adb_en < 0 then return 0
     else do {
       whenM (tether_en \<ge> 0) (modify (\<lambda>s. s\<lparr>tethering_enabled := tether_en\<rparr>));
       if m = MOTO_MODE_TYPE_DEBUG then do {
         usbd_set_usb_mode os cfg
           (if adb_en = 1 \<or> tether_en = 1 then USB_MODE_MSC_ADB else USB_MODE_MSC);
         return 0
       } else if m = MOTO_MODE_TYPE_BPTOOLS \<or> m = MOTO_MODE_TYPE_TABLET then do {
         adb_en \<leftarrow> (if adb_en < 0 then usbd_get_adb_property os else return adb_en);
         if adb_en < 0 then return (-1)
         else alt_mode_apply os cfg (if m = MOTO_MODE_TYPE_BPTOOLS then 0 else 1) adb_en
       } else return (-1)
     }
   }"

section \<open>Switch requests of the PC\<close>

definition usb_req_mode_switch :: "usbd_call os \<Rightarrow> usbd_cfg \<Rightarrow> string \<Rightarrow> unit usbd" where
  "usb_req_mode_switch os cfg tag = do {
     en_flag \<leftarrow> usbd_get_adb_property os;
     if en_flag < 0 then return ()
     else case find_mode cfg (\<lambda>e. mode_name e = tag \<and> switch_req e \<noteq> None) of
       None \<Rightarrow>
         whenM (tag = ''cdrom2'') (do { usbd_set_usb_mode os cfg USB_MODE_CDROM2; return () })
     | Some i \<Rightarrow> do {
         curr \<leftarrow> gets usbd_curr_usb_mode;
         if curr = USB_MODE_CDROM \<or> curr = USB_MODE_CDROM2 then do {
           m \<leftarrow> gets usbd_mode;
           tether \<leftarrow> gets tethering_enabled;
           usbd_set_usb_mode os cfg
             (if m = MOTO_MODE_TYPE_TABLET then
                if en_flag = 0 then
                  if tether \<noteq> 0 then USB_MODE_RNDIS else USB_MODE_TABLET_NETWORK_MTP
                else if tether \<noteq> 0 then USB_MODE_RNDIS_ADB else USB_MODE_TABLET_NETWORK_MTP_ADB
              else if en_flag = 0 then USB_MODE_NGP else USB_MODE_NGP_ADB);
           return ()
         } else do {
           app \<leftarrow> gets usbd_app_fd;
           if app \<ge> 0 then mode_entry cfg i (\<lambda>e. do {
             rc \<leftarrow> send os app (the (switch_req e));
             whenM (rc < 0) forget_app
           }) ()
           else return ()
         }
       }
   }"

section \<open>The cable\<close>

definition copy_string_from_file :: "usbd_call os \<Rightarrow> string \<Rightarrow> nat \<Rightarrow> string option usbd" where
  "copy_string_from_file os filename sz = do {
     fd \<leftarrow> syscall os (Open filename);
     if ret_val fd = -1 then return None
     else do {
       r \<leftarrow> syscall os (Read (ret_val fd) sz);
       syscall os (Close (ret_val fd));
       let count = min sz (nat (ret_val r));
       if ret_val r < 0 then return None
       else if count > 0 then return (Some (cstr (take (count - 1) (ret_data r))))
       else return (Some [])
     }
   }"

text \<open>\<open>None\<close> is the error value -1. \<open>fgets\<close> answers 0 for the null pointer.\<close>

definition readUsbSwitchState :: "usbd_call os \<Rightarrow> MOTO_ACCY_TYPE_T option usbd" where
  "readUsbSwitchState os = do {
     fp \<leftarrow> syscall os (Fopen ''/sys/class/switch/usb_connected/state'');
     if ret_val fp = 0 then return None
     else do {
       r \<leftarrow> syscall os (Fgets (ret_val fp) 255);
       syscall os (Fclose (ret_val fp));
       if ret_val r = 0 then return None
       else return (Some (case ret_data r of
           [] \<Rightarrow> MOTO_ACCY_TYPE_EMU_UNKNOWN
         | c # _ \<Rightarrow>
             if c = CHR ''1'' then MOTO_ACCY_TYPE_EMU_CABLE_USB
             else if c = CHR ''2'' then MOTO_ACCY_TYPE_EMU_CABLE_FACTORY
             else MOTO_ACCY_TYPE_EMU_UNKNOWN))
     }
   }"

definition usbd_get_initial_cable_status :: "usbd_call os \<Rightarrow> int usbd" where
  "usbd_get_initial_cable_status os = do {
     modify (\<lambda>s. s\<lparr>current_usb_online := 0, usbd_current_state := USBD_STATE_CABLE_DEFAULT\<rparr>);
     st \<leftarrow> readUsbSwitchState os;
     case st of
       None \<Rightarrow> return (-1)
     | Some cable \<Rightarrow> do {
         (if cable \<noteq> MOTO_ACCY_TYPE_EMU_UNKNOWN
          then modify (\<lambda>s. s\<lparr>usbd_curr_cable_status := cable, current_usb_online := 1,
                 usbd_current_state := USBD_STATE_CABLE_ATTACHED\<rparr>)
          else modify (\<lambda>s. s\<lparr>usbd_curr_cable_status := cable\<rparr>));
         return 0
       }
   }"

section \<open>Uevents of the kernel\<close>

definition tolower :: "char \<Rightarrow> char" where
  "tolower c = (let n = of_char c :: nat in if 65 \<le> n \<and> n \<le> 90 then char_of (n + 32) else c)"

definition strcasestr :: "string \<Rightarrow> string \<Rightarrow> bool" where
  "strcasestr s p \<longleftrightarrow> strstr (map tolower s) (map tolower p) \<noteq> None"

text \<open>The strings of a uevent: the message is cut at its NULs.\<close>

function nul_strings :: "string \<Rightarrow> string list" where
  "nul_strings [] = []"
| "nul_strings (c # s) = cstr (c # s) # nul_strings (drop (Suc (length (cstr (c # s)))) (c # s))"
  by pat_completeness auto
termination by (relation "measure length") auto

text \<open>
  The value of the last string that starts with \<open>key\<close>, by the tests in the order of the source
  (a string that starts with \<open>ACTION=\<close> is not looked at for \<open>SUBSYSTEM=\<close>; no string starts with
  both).
\<close>

definition uevent_value :: "string \<Rightarrow> string list \<Rightarrow> string option" where
  "uevent_value key strs =
     (case filter (starts_with key) strs of [] \<Rightarrow> None | ms \<Rightarrow> Some (drop (length key) (last ms)))"

text \<open>
  The part of the device path between the last \<open>-\<close> before the sixth \<open>/\<close> from the end and that
  \<open>/\<close>, by the backward scan of the source: \<open>scan_device n t p\<close> reads the path from its end, \<open>n\<close>
  slashes still to come, \<open>t\<close> what was read since the last one. \<open>None\<close>: the scan reached the
  start (the first character is not looked at), where the source sets the path to the null
  pointer, which the C library prints as \<open>(null)\<close>.
\<close>

fun scan_device :: "nat \<Rightarrow> string \<Rightarrow> string \<Rightarrow> string option" where
  "scan_device n t [] = None"
| "scan_device n t [c] = None"
| "scan_device n t (c # d # p) =
     (if 0 < n \<and> c = CHR ''/'' then scan_device (n - 1) [] (d # p)
      else if n = 0 \<and> c = CHR ''-'' then Some t
      else scan_device n (c # t) (d # p))"

definition device_part :: "string \<Rightarrow> string" where
  "device_part path =
     (case scan_device 6 [] (NUL # rev path) of Some d \<Rightarrow> d | None \<Rightarrow> ''(null)'')"

abbreviation "USBD_UEVENT_MSG_LEN \<equiv> 65536 :: nat"

text \<open>
  The \<open>scsi_device\<close> branch. The scan for \<open>@\<close> has no bound and \<open>sprintf\<close> into \<open>filename[255]\<close>
  neither: a message without \<open>@\<close> or with a path that does not fit is undefined behaviour.
\<close>

definition scsi_event :: "usbd_call os \<Rightarrow> string \<Rightarrow> unit usbd" where
  "scsi_event os buffer =
     (case strchr buffer (CHR ''@'') of
        None \<Rightarrow> undefined_behaviour
      | Some rest \<Rightarrow>
          let dev_path = cstr (tl rest);
              strs = nul_strings buffer;
              a = uevent_value ''ACTION='' strs;
              subsys_type = uevent_value ''SUBSYSTEM='' strs
          in if subsys_type = Some ''scsi_device'' \<and> (a = Some ''add'' \<or> a = Some ''remove'') then
               if length dev_path + 16 \<ge> 255 then undefined_behaviour
               else do {
                 type \<leftarrow> copy_string_from_file os (''/sys'' @ dev_path @ ''/device/type'') 128;
                 if type \<noteq> Some ''0'' then return ()
                 else if length dev_path + 17 \<ge> 255 then undefined_behaviour
                 else do {
                   model \<leftarrow> copy_string_from_file os (''/sys'' @ dev_path @ ''/device/model'') 128;
                   let prodname = (case model of None \<Rightarrow> ''NONAME'' | Some n \<Rightarrow> n);
                   let event_string = snprintf 255
                     ((if a = Some ''add'' then USBD_DISK_ATTACH else USBD_DISK_DETACH)
                      @ '':'' @ prodname @ '':/mnt/usbdisk_'' @ device_part dev_path);
                   app \<leftarrow> gets usbd_app_fd;
                   send os app event_string;
                   return ()
                 }
               }
             else return ())"

definition kernel_message :: "usbd_call os \<Rightarrow> bool usbd" where
  "kernel_message os = do {
     groups \<leftarrow> syscall os (Msg_field ''nl_groups'');
     pid \<leftarrow> syscall os (Msg_field ''nl_pid'');
     if ret_val groups \<noteq> 1 \<or> ret_val pid \<noteq> 0 then return False
     else do {
       cmsg \<leftarrow> syscall os (Msg_field ''SCM_CREDENTIALS'');
       if ret_val cmsg = 0 then return False
       else do {
         uid \<leftarrow> syscall os (Msg_field ''uid'');
         return (ret_val uid = 0)
       }
     }
   }"

definition switch_event :: "usbd_call os \<Rightarrow> bool usbd" where
  "switch_event os = do {
     st \<leftarrow> readUsbSwitchState os;
     case st of
       None \<Rightarrow> return False
     | Some cable \<Rightarrow>
         if cable \<noteq> MOTO_ACCY_TYPE_EMU_UNKNOWN then do {
           modify (\<lambda>s. s\<lparr>usbd_curr_cable_status := cable, current_usb_online := 1,
             usbd_current_state := USBD_STATE_CABLE_ATTACHED\<rparr>);
           return True
         } else do {
           modify (\<lambda>s. s\<lparr>usbd_curr_cable_status := cable, current_usb_online := 0,
             usbd_current_state := USBD_STATE_CABLE_DETACHED, usb_get_des_count := 0\<rparr>);
           dev \<leftarrow> gets usb_device_fd;
           send os dev ''usb_cable_detach'';
           return True
         }
   }"

definition uevent_dispatch :: "usbd_call os \<Rightarrow> string \<Rightarrow> bool usbd" where
  "uevent_dispatch os buffer =
     (if strcasestr (cstr buffer) ''usb_connected'' \<and> strcasestr (cstr buffer) ''switch''
      then switch_event os
      else do {
        whenM (strcasestr (cstr buffer) ''scsi_device'') (scsi_event os buffer);
        return False
      })"

definition process_usb_uevent_message :: "usbd_call os \<Rightarrow> int \<Rightarrow> bool usbd" where
  "process_usb_uevent_message os socket = do {
     r \<leftarrow> syscall os (Recvmsg socket USBD_UEVENT_MSG_LEN);
     if ret_val r \<le> 0 then return False
     else do {
       trusted \<leftarrow> kernel_message os;
       if \<not> trusted \<or> nat (ret_val r) \<ge> USBD_UEVENT_MSG_LEN - 1 then return False
       else uevent_dispatch os (take (nat (ret_val r)) (ret_data r))
     }
   }"

definition uevent_socket_init :: "usbd_call os \<Rightarrow> int usbd" where
  "uevent_socket_init os = do {
     fd \<leftarrow> syscall os Netlink_socket;
     modify (\<lambda>s. s\<lparr>uevent_sock := ret_val fd\<rparr>);
     if ret_val fd < 0 then return (-1)
     else do {
       o1 \<leftarrow> syscall os (Setsockopt (ret_val fd) ''SO_RCVBUFFORCE'');
       if ret_val o1 < 0 then return (-1)
       else do {
         o2 \<leftarrow> syscall os (Setsockopt (ret_val fd) ''SO_PASSCRED'');
         if ret_val o2 < 0 then return (-1)
         else do {
           b \<leftarrow> syscall os (Bind (ret_val fd));
           return (if ret_val b < 0 then -1 else 0)
         }
       }
     }
   }"

text \<open>\<open>readdir\<close> until the null pointer (answer 0); \<open>k\<close> bounds the entries looked at.\<close>

fun flashdrive_scan :: "usbd_call os \<Rightarrow> nat \<Rightarrow> int \<Rightarrow> unit usbd" where
  "flashdrive_scan os 0 dir = return ()"
| "flashdrive_scan os (Suc k) dir = do {
     entry \<leftarrow> syscall os (Readdir dir);
     if ret_val entry = 0 then return ()
     else let d_name = cstr (ret_data entry) in
       if strncmp_eq ''host'' d_name 5 then do {
         let fullpath = snprintf 256 (''/sys/bus/scsi/devices/'' @ d_name @ ''/uevent'');
         f \<leftarrow> syscall os (Fopen fullpath);
         if ret_val f = 0 then return ()
         else do {
           syscall os (Fputs (ret_val f) ''add'');
           syscall os (Fclose (ret_val f));
           return ()
         }
       } else flashdrive_scan os k dir
   }"

definition usbd_get_flashdrive_status :: "usbd_call os \<Rightarrow> nat \<Rightarrow> int usbd" where
  "usbd_get_flashdrive_status os k = do {
     dir \<leftarrow> syscall os (Opendir ''/sys/bus/scsi/devices'');
     if ret_val dir = 0 then return (-1)
     else do { flashdrive_scan os k (ret_val dir); return 0 }
   }"

section \<open>Reaction to a cable change\<close>

definition usbd_factory_mode :: "usbd_call os \<Rightarrow> usbd_cfg \<Rightarrow> unit usbd" where
  "usbd_factory_mode os cfg = do {
     adb \<leftarrow> usbd_factorycable_adb_enabled os;
     usbd_set_usb_mode os cfg (if adb then USB_MODE_NETWORK_ADB else USB_MODE_NETWORK);
     return ()
   }"

definition usbd_handle_cable_status_change :: "usbd_call os \<Rightarrow> usbd_cfg \<Rightarrow> unit usbd" where
  "usbd_handle_cable_status_change os cfg = do {
     cable \<leftarrow> gets usbd_curr_cable_status;
     alt \<leftarrow> gets usb_alt_mode;
     if cable = MOTO_ACCY_TYPE_EMU_CABLE_FACTORY then usbd_factory_mode os cfg
     else if alt = 0 then do {
       app \<leftarrow> gets usbd_app_fd;
       whenM (app \<ge> 0) (do {
         rc \<leftarrow> usbd_notify_current_status os app;
         whenM (rc < 0) forget_app
       })
     } else whenM (cable = MOTO_ACCY_TYPE_EMU_CABLE_USB) (do {
       modify (\<lambda>s. s\<lparr>tethering_enabled := 0\<rparr>);
       usbd_enumerate_default_mode os cfg;
       return ()
     })
   }"

section \<open>The start of the daemon\<close>

text \<open>\<open>FD_ZERO\<close> to the first \<open>usbd_get_maxfd\<close> of \<open>main\<close>.\<close>

definition usbd_watch :: "unit usbd" where
  "usbd_watch = do {
     modify (\<lambda>s. s\<lparr>connected_apps_fd := {}\<rparr>);
     ue \<leftarrow> gets uevent_sock;
     fd_set ue;
     alt \<leftarrow> gets usb_alt_mode;
     server \<leftarrow> gets usbd_server_fd;
     whenM (alt = 0) (fd_set server);
     dev \<leftarrow> gets usb_device_fd;
     fd_set dev;
     set_maxfd
   }"

text \<open>\<open>main\<close> up to the point where all descriptors are open; false when it returns before.\<close>

definition usbd_open :: "usbd_call os \<Rightarrow> usbd_cfg \<Rightarrow> bool usbd" where
  "usbd_open os cfg = do {
     modify (\<lambda>s. s\<lparr>usbd_app_fd := -1\<rparr>);
     u \<leftarrow> uevent_socket_init os;
     if u < 0 then return False
     else do {
       dev \<leftarrow> syscall os (Open ''/dev/usb_device_mode'');
       modify (\<lambda>s. s\<lparr>usb_device_fd := ret_val dev\<rparr>);
       if ret_val dev < 0 then return False
       else do {
         m \<leftarrow> usbd_get_startup_mode os cfg;
         modify (\<lambda>s. s\<lparr>usbd_mode := m\<rparr>);
         whenM (m \<noteq> MOTO_MODE_TYPE_NORMAL) (modify (\<lambda>s. s\<lparr>usb_alt_mode := 1\<rparr>));
         srv \<leftarrow> (if m = MOTO_MODE_TYPE_NORMAL then usbd_socket_init os else return 0);
         if srv < 0 then do { syscall os (Close (ret_val dev)); return False }
         else do {
           c \<leftarrow> usbd_get_initial_cable_status os;
           if c < 0 then return False
           else do { usbd_watch; return True }
         }
       }
     }
   }"

text \<open>The version key of the CD-ROM, and the mode for a cable that was there first.\<close>

definition usbd_boot :: "usbd_call os \<Rightarrow> usbd_cfg \<Rightarrow> unit usbd" where
  "usbd_boot os cfg = do {
     cdrom_smart_version_mount os cfg True;
     cdrom_read_version_key os;
     cdrom_smart_version_mount os cfg False;
     online \<leftarrow> gets current_usb_online;
     cable \<leftarrow> gets usbd_curr_cable_status;
     alt \<leftarrow> gets usb_alt_mode;
     whenM (online \<noteq> 0) (
       if cable = MOTO_ACCY_TYPE_EMU_CABLE_FACTORY then usbd_factory_mode os cfg
       else whenM (alt \<noteq> 0 \<and> cable = MOTO_ACCY_TYPE_EMU_CABLE_USB)
         (do { usbd_enumerate_default_mode os cfg; return () }))
   }"

section \<open>Messages of the USB driver\<close>

text \<open>
  A message has the form \<open>mode:adb:tethering:enumeration\<close>. \<open>sscanf(s, "%[^:]", buf)\<close> stores the
  characters before the first colon, writes nothing when there are none, and has no bound:
  \<open>cap\<close> is the size of \<open>buf\<close>. The result is the text of the buffer afterwards, read with
  \<open>strlen\<close>: an overrun, or a buffer that was never written, is undefined behaviour.
\<close>

definition sscanf_field :: "nat \<Rightarrow> string \<Rightarrow> string option \<Rightarrow> string option" where
  "sscanf_field cap s old =
     (let f = takeWhile (\<lambda>c. c \<noteq> CHR '':'') s in
      if f = [] then old else if length f < cap then Some f else None)"

text \<open>The string at an offset of \<open>devbuf[90]\<close>.\<close>

definition devbuf_at :: "string \<Rightarrow> nat \<Rightarrow> string option" where
  "devbuf_at devbuf off = (if off < 90 then Some (cstr (drop off devbuf)) else None)"

definition scan_at :: "nat \<Rightarrow> string \<Rightarrow> nat \<Rightarrow> string option \<Rightarrow> string option" where
  "scan_at cap devbuf off old =
     (case devbuf_at devbuf off of None \<Rightarrow> None | Some s \<Rightarrow> sscanf_field cap s old)"

text \<open>The tail of the message, copied into \<open>enubuf\<close>.\<close>

definition enubuf_of :: "string \<Rightarrow> nat \<Rightarrow> string" where
  "enubuf_of devbuf used =
     (let len = int (length (cstr devbuf)) - int used - 2 in
      if len > 0 then cstr (take (nat len) (drop (used + 3) devbuf)) else [])"

definition usbd_factory_event :: "usbd_call os \<Rightarrow> usbd_cfg \<Rightarrow> string \<Rightarrow> unit usbd" where
  "usbd_factory_event os cfg adb = do {
     allowed \<leftarrow> usbd_factorycable_adb_enabled os;
     if allowed \<and> adb = ''adb_enable''
     then do { usbd_set_usb_mode os cfg USB_MODE_NETWORK_ADB; return () }
     else whenM (adb = ''adb_disable'')
       (do { usbd_set_usb_mode os cfg USB_MODE_NETWORK; return () })
   }"

definition usbd_forward_status :: "usbd_call os \<Rightarrow> int \<Rightarrow> string \<Rightarrow> string \<Rightarrow> unit usbd" where
  "usbd_forward_status os app adb tether = do {
     (if adb = ''adb_enable'' then usbd_send_adb_status os app 1
      else if adb = ''adb_disable'' then usbd_send_adb_status os app 0 else return 0);
     (if tether = ''tethering_enable'' then usbd_send_tethering_status os app 1
      else if tether = ''tethering_disable'' then usbd_send_tethering_status os app 0
      else return 0);
     return ()
   }"

definition usbd_enum_event :: "usbd_call os \<Rightarrow> usbd_cfg \<Rightarrow> string \<Rightarrow> unit usbd" where
  "usbd_enum_event os cfg enubuf =
     (if strncmp_eq enubuf ''get_desc'' 8 then do {
        modify (\<lambda>s. s\<lparr>usb_get_des_count := usb_get_des_count s + 1\<rparr>);
        n \<leftarrow> gets usb_get_des_count;
        whenM (n = 1) (do {
          modify (\<lambda>s. s\<lparr>usbd_current_state := USBD_STATE_ENUM_IN_PROGRESS\<rparr>);
          app \<leftarrow> gets usbd_app_fd;
          whenM (app \<ge> 0) (do {
            rc \<leftarrow> send os app USBD_GET_DESCRIPTOR;
            whenM (rc < 0) forget_app
          })
        })
      } else whenM (strncmp_eq enubuf ''enumerated'' 10) (do {
        modify (\<lambda>s. s\<lparr>usbd_current_state := USBD_STATE_ENUMERATED\<rparr>);
        app \<leftarrow> gets usbd_app_fd;
        rc \<leftarrow> usbd_enum_process os cfg app;
        whenM (rc < 0) forget_app
      }))"

definition usbd_driver_message :: "usbd_call os \<Rightarrow> usbd_cfg \<Rightarrow> string \<Rightarrow> string \<Rightarrow> string \<Rightarrow> string \<Rightarrow> unit usbd" where
  "usbd_driver_message os cfg pc adb tether enubuf = do {
     alt \<leftarrow> gets usb_alt_mode;
     online \<leftarrow> gets current_usb_online;
     app \<leftarrow> gets usbd_app_fd;
     m \<leftarrow> gets usbd_mode;
     (if alt \<noteq> 0 \<and> online \<noteq> 0
      then do { usbd_alt_mode_set os cfg m adb tether; return () }
      else whenM (app \<ge> 0) (usbd_forward_status os app adb tether));
     cable \<leftarrow> gets usbd_curr_cable_status;
     whenM (cable = MOTO_ACCY_TYPE_EMU_CABLE_USB \<and> online \<noteq> 0) (do {
       whenM (pc \<noteq> ''none'') (usb_req_mode_switch os cfg pc);
       usbd_enum_event os cfg enubuf
     })
   }"

definition usbd_device_event :: "usbd_call os \<Rightarrow> usbd_cfg \<Rightarrow> unit usbd" where
  "usbd_device_event os cfg = do {
     dev \<leftarrow> gets usb_device_fd;
     r \<leftarrow> syscall os (Read dev 89);
     let devbuf = fill 90 (take (min 89 (nat (ret_val r))) (ret_data r));
     s \<leftarrow> get;
     if ret_val r \<le> 0 then return ()
     else case scan_at 50 devbuf 0 (pcSwitchbuf s) of
       None \<Rightarrow> undefined_behaviour
     | Some pc \<Rightarrow>
         case scan_at 20 devbuf (length pc + 1) (adbEnablebuf s) of
           None \<Rightarrow> undefined_behaviour
         | Some adb \<Rightarrow> do {
             modify (\<lambda>s. s\<lparr>pcSwitchbuf := Some pc, adbEnablebuf := Some adb\<rparr>);
             if usbd_curr_cable_status s = MOTO_ACCY_TYPE_EMU_CABLE_FACTORY
             then usbd_factory_event os cfg adb
             else case scan_at 20 devbuf (length pc + length adb + 2) (tetheringEnablebuf s) of
               None \<Rightarrow> undefined_behaviour
             | Some tether \<Rightarrow> do {
                 modify (\<lambda>s. s\<lparr>tetheringEnablebuf := Some tether\<rparr>);
                 usbd_driver_message os cfg pc adb tether
                   (enubuf_of devbuf (length pc + length adb + length tether))
               }
           }
   }"

section \<open>The loop\<close>

definition usbd_accept_event :: "usbd_call os \<Rightarrow> nat \<Rightarrow> unit usbd" where
  "usbd_accept_event os k = do {
     server \<leftarrow> gets usbd_server_fd;
     newfd \<leftarrow> syscall os (Accept server);
     whenM (ret_val newfd \<ge> 0) (do {
       usbd_save_socket_fd (ret_val newfd);
       set_maxfd;
       en_flag \<leftarrow> usbd_get_adb_property os;
       usbd_send_adb_status os (ret_val newfd) en_flag;
       cable \<leftarrow> gets usbd_curr_cable_status;
       whenM (cable \<noteq> MOTO_ACCY_TYPE_EMU_CABLE_FACTORY)
         (do { usbd_notify_current_status os (ret_val newfd); return () });
       usbd_get_flashdrive_status os k;
       return ()
     })
   }"

definition usbd_app_event :: "usbd_call os \<Rightarrow> usbd_cfg \<Rightarrow> unit usbd" where
  "usbd_app_event os cfg = do {
     app \<leftarrow> gets usbd_app_fd;
     rc \<leftarrow> usbd_socket_event os cfg app;
     whenM (rc < 0) forget_app
   }"

definition fd_isset :: "usbd_call os \<Rightarrow> int set \<Rightarrow> int \<Rightarrow> bool usbd" where
  "fd_isset os rset fd = do {
     r \<leftarrow> syscall os (Fd_isset fd);
     return (fd \<in> rset \<and> ret_val r \<noteq> 0)
   }"

definition usbd_step :: "usbd_call os \<Rightarrow> usbd_cfg \<Rightarrow> nat \<Rightarrow> unit usbd" where
  "usbd_step os cfg k = do {
     rset \<leftarrow> gets connected_apps_fd;
     m \<leftarrow> gets max_fd;
     syscall os (Select (m + 1));
     ue \<leftarrow> gets uevent_sock;
     u \<leftarrow> fd_isset os rset ue;
     whenM u (do {
       change \<leftarrow> process_usb_uevent_message os ue;
       whenM change (usbd_handle_cable_status_change os cfg)
     });
     dev \<leftarrow> gets usb_device_fd;
     d \<leftarrow> fd_isset os rset dev;
     whenM d (usbd_device_event os cfg);
     alt \<leftarrow> gets usb_alt_mode;
     server \<leftarrow> gets usbd_server_fd;
     c \<leftarrow> (if alt = 0 then fd_isset os rset server else return False);
     whenM c (usbd_accept_event os k);
     app \<leftarrow> gets usbd_app_fd;
     a \<leftarrow> (if alt = 0 \<and> app \<ge> 0 then fd_isset os rset app else return False);
     whenM a (usbd_app_event os cfg)
   }"

fun usbd_loop :: "usbd_call os \<Rightarrow> usbd_cfg \<Rightarrow> nat \<Rightarrow> nat \<Rightarrow> unit usbd" where
  "usbd_loop os cfg k 0 = return ()"
| "usbd_loop os cfg k (Suc n) = do { usbd_step os cfg k; usbd_loop os cfg k n }"

definition usbd_main :: "usbd_call os \<Rightarrow> usbd_cfg \<Rightarrow> nat \<Rightarrow> nat \<Rightarrow> unit usbd" where
  "usbd_main os cfg k n = do {
     started \<leftarrow> usbd_open os cfg;
     whenM started (do { usbd_boot os cfg; usbd_loop os cfg k n })
   }"

end
