(* ===== verification/Usbd_Safety.thy ===== *)
theory Usbd_Safety
  imports Usbd_Daemon
begin

text \<open>
  Invariants of the USB mode daemon. \<open>usbd_calls\<close> is the contract of a property that the CD-ROM
  code keeps, \<open>usbd_switching\<close> of one that every mode switch keeps, \<open>usbd_invariant\<close> of one that
  every step of the daemon keeps; each is proved once and the invariants below instantiate it:
  the structural invariant of the globals, the state of the mass-storage and CD-ROM functions
  of the gadget driver read off the history, and the absence of undefined behaviour for
  well-formed messages.
\<close>

section \<open>Facts on the mode table\<close>

lemma length_usb_mode_list [simp]: "length (usb_mode_list cfg) = 27"
  by (simp add: usb_mode_list_def usb_mode_list_low_def usb_mode_list_high_def)

lemma first_index_Some:
  "first_index p xs = Some i \<longleftrightarrow> i < length xs \<and> p (xs ! i) \<and> (\<forall>j<i. \<not> p (xs ! j))"
proof (induction xs arbitrary: i)
  case (Cons x xs)
  show ?case
    by (cases i) (auto simp: Cons.IH less_Suc_eq_0_disj)
qed simp

lemma find_mode_Some:
  "find_mode cfg p = Some i \<Longrightarrow> i < USB_MODE_MAX \<and> p (usb_mode_list cfg ! i)"
  by (auto simp: find_mode_def first_index_Some)

lemma mode_entry_in_range:
  "i < USB_MODE_MAX \<Longrightarrow> mode_entry cfg i k d = k (usb_mode_list cfg ! i)"
  by (simp add: mode_entry_def)

lemma alt_mode_lookup_range: "alt_mode_lookup k a t = Some m \<Longrightarrow> m < USB_MODE_MAX"
  by (auto simp: alt_mode_lookup_def usb_alt_mode_tlb_def less_2_cases_iff nth_Cons'
      split: if_splits)

section \<open>Code that only makes calls\<close>

definition is_system :: "usbd_call \<Rightarrow> bool" where
  "is_system c \<longleftrightarrow> (case c of System _ \<Rightarrow> True | _ \<Rightarrow> False)"

lemma is_system_simps [simp]:
  "is_system (System x)" "\<not> is_system (Open p)" "\<not> is_system (Close fd)" "\<not> is_system (Read fd n)"
  "\<not> is_system (Write fd m)" "\<not> is_system (Fopen p)" "\<not> is_system (Ftell fd)"
  "\<not> is_system (Fread fd n)" "\<not> is_system (Fgets fd n)" "\<not> is_system (Fputs fd m)"
  "\<not> is_system (Fclose fd)" "\<not> is_system (Access p)" "\<not> is_system (Ioctl fd m i)"
  "\<not> is_system (Mknod p n w)" "\<not> is_system (Mount p q m)" "\<not> is_system (Umount p)"
  "\<not> is_system (Socket_local_server p)" "\<not> is_system (Chown p)" "\<not> is_system (Chmod p n)"
  "\<not> is_system Netlink_socket" "\<not> is_system (Setsockopt fd p)" "\<not> is_system (Bind fd)"
  "\<not> is_system (Recvmsg fd n)" "\<not> is_system (Msg_field p)" "\<not> is_system (Select fd)"
  "\<not> is_system (Fd_isset fd)" "\<not> is_system (Accept fd)" "\<not> is_system (Property_get p q)"
  "\<not> is_system (Opendir p)" "\<not> is_system (Readdir fd)"
  by (simp_all add: is_system_def)

locale usbd_calls =
  fixes os :: "usbd_call os" and P :: "usbd_state \<Rightarrow> bool"
  assumes call: "\<not> is_system c \<Longrightarrow> keeps P (syscall os c)"
    and var_loop_dev: "P s \<Longrightarrow> P (s\<lparr>curr_loop_dev := d\<rparr>)"
    and var_mounted: "P s \<Longrightarrow> P (s\<lparr>cdrom_mounted := b\<rparr>)"
begin

lemmas cdrom_atoms = call keeps_modify var_loop_dev var_mounted

lemma keeps_loop_search: "keeps P (loop_search os k i)"
proof (induction k arbitrary: i)
  case (Suc k)
  show ?case unfolding loop_search.simps
    by (intro wp_rules cdrom_atoms Suc.IH) simp_all
qed (simp add: wp_rules)

lemma keeps_loop_create: "keeps P (loop_create os f)"
  unfolding loop_create_def by (intro wp_rules cdrom_atoms keeps_loop_search) simp_all

lemma keeps_cdrom_partition_mount: "keeps P (cdrom_partition_mount os cfg b)"
  unfolding cdrom_partition_mount_def cdrom_clear_loop_def cdrom_mount_loop_def
  by (intro wp_rules cdrom_atoms keeps_loop_create) simp_all

lemma keeps_cdrom_smart_version_mount: "keeps P (cdrom_smart_version_mount os cfg b)"
  unfolding cdrom_smart_version_mount_def
  by (intro wp_rules cdrom_atoms keeps_loop_create) simp_all

lemma keeps_cdrom_read_version_key: "keeps P (cdrom_read_version_key os)"
  unfolding cdrom_read_version_key_def by (intro wp_rules cdrom_atoms) simp_all

lemma keeps_send: "keeps P (send os fd m)"
  unfolding send_def by (intro wp_rules call) simp_all

lemma keeps_property_get: "keeps P (property_get os p d)"
  unfolding property_get_def by (intro wp_rules call) simp_all

lemma keeps_usbd_get_adb_property: "keeps P (usbd_get_adb_property os)"
  unfolding usbd_get_adb_property_def by (intro wp_rules keeps_property_get)

lemma keeps_usbd_get_startup_mode: "keeps P (usbd_get_startup_mode os cfg)"
  unfolding usbd_get_startup_mode_def by (intro wp_rules keeps_property_get)

lemma keeps_usbd_factorycable_adb_enabled: "keeps P (usbd_factorycable_adb_enabled os)"
  unfolding usbd_factorycable_adb_enabled_def by (intro wp_rules keeps_property_get)

lemma keeps_usbd_notify_current_status: "keeps P (usbd_notify_current_status os fd)"
  unfolding usbd_notify_current_status_def by (intro wp_rules keeps_send)

lemma keeps_usbd_forward_status: "keeps P (usbd_forward_status os fd a t)"
  unfolding usbd_forward_status_def usbd_send_adb_status_def usbd_send_tethering_status_def
  by (intro wp_rules keeps_send)

lemma keeps_copy_string_from_file: "keeps P (copy_string_from_file os f n)"
  unfolding copy_string_from_file_def by (intro wp_rules call) simp_all

lemma keeps_readUsbSwitchState: "keeps P (readUsbSwitchState os)"
  unfolding readUsbSwitchState_def by (intro wp_rules call) simp_all

lemma keeps_kernel_message: "keeps P (kernel_message os)"
  unfolding kernel_message_def by (intro wp_rules call) simp_all

lemma keeps_flashdrive_scan: "keeps P (flashdrive_scan os k dir)"
proof (induction k)
  case (Suc k)
  show ?case unfolding flashdrive_scan.simps by (intro wp_rules call Suc.IH) simp_all
qed (simp add: wp_rules)

lemma keeps_usbd_get_flashdrive_status: "keeps P (usbd_get_flashdrive_status os k)"
  unfolding usbd_get_flashdrive_status_def
  by (intro wp_rules call keeps_flashdrive_scan) simp_all

lemma keeps_fd_isset: "keeps P (fd_isset os r fd)"
  unfolding fd_isset_def by (intro wp_rules call) simp_all

lemmas talk = keeps_send keeps_usbd_get_adb_property keeps_usbd_get_startup_mode
  keeps_usbd_factorycable_adb_enabled keeps_usbd_notify_current_status keeps_usbd_forward_status
  keeps_copy_string_from_file keeps_readUsbSwitchState keeps_kernel_message
  keeps_usbd_get_flashdrive_status keeps_fd_isset

end

section \<open>Code that switches modes\<close>

locale usbd_modes = usbd_calls +
  fixes cfg :: usbd_cfg
  assumes switch: "m < USB_MODE_MAX \<Longrightarrow> keeps P (usbd_set_usb_mode os cfg m)"
    and enum_process: "keeps P (usbd_enum_process os cfg fd)"
    and tether_range: "P s \<Longrightarrow> tethering_enabled s = 0 \<or> tethering_enabled s = 1"
    and var_tether: "P s \<Longrightarrow> t = 0 \<or> t = 1 \<Longrightarrow> P (s\<lparr>tethering_enabled := t\<rparr>)"
    and forget: "keeps P forget_app"
begin

lemma keeps_mode_entry:
  "i < USB_MODE_MAX \<Longrightarrow> (\<And>e. valid P (k e) Q) \<Longrightarrow> valid P (mode_entry cfg i k d) Q"
  by (simp add: mode_entry_in_range)

lemma keeps_usbd_socket_event: "keeps P (usbd_socket_event os cfg fd)"
  unfolding usbd_socket_event_def usbd_mode_request_def
  by (intro wp_rules call talk switch keeps_mode_entry) (auto dest: find_mode_Some)

lemma keeps_usbd_enumerate_default_mode: "keeps P (usbd_enumerate_default_mode os cfg)"
proof -
  have "keeps P (case m of
        MOTO_MODE_TYPE_DEBUG \<Rightarrow> do {
          adb \<leftarrow> usbd_get_adb_property os;
          usbd_set_usb_mode os cfg (if adb \<noteq> 0 then USB_MODE_MSC_ADB else USB_MODE_MSC) }
      | MOTO_MODE_TYPE_BPTOOLS \<Rightarrow> do {
          adb \<leftarrow> usbd_get_adb_property os;
          usbd_set_usb_mode os cfg
            (if adb \<noteq> 0 then USB_MODE_BPTOOLS_ETH_ADB else USB_MODE_BPTOOLS_ETH) }
      | MOTO_MODE_TYPE_TABLET \<Rightarrow> do {
          adb \<leftarrow> usbd_get_adb_property os;
          usbd_set_usb_mode os cfg
            (if adb \<noteq> 0 then USB_MODE_TABLET_NETWORK_MTP_ADB else USB_MODE_CDROM) }
      | _ \<Rightarrow> return 0)" for m
    by (cases m; simp only: MOTO_MODE_TYPE_T.case) (intro wp_rules talk switch; simp)+
  then show ?thesis unfolding usbd_enumerate_default_mode_def by (intro wp_rules)
qed

lemma keeps_alt_mode_apply:
  assumes "0 \<le> a" "a \<le> 1" "k < 2"
  shows "keeps P (alt_mode_apply os cfg k a)"
  unfolding alt_mode_apply_def
proof (rule valid_gets, rule valid_case_option)
  fix x :: int assume "alt_mode_lookup k a x = None"
  with assms have "\<not> (x = 0 \<or> x = 1)" by (auto simp: alt_mode_lookup_def split: if_splits)
  then show "valid (\<lambda>s. P s \<and> tethering_enabled s = x)
      (do { undefined_behaviour; return 0 }) (\<lambda>_. P)"
    using tether_range by (auto simp: valid_def)
next
  fix x m
  have "keeps P (do {
      whenM (m < USB_MODE_MAX) (do { usbd_set_usb_mode os cfg m; return () });
      return (0 :: int) })"
    by (intro wp_rules switch)
  then show "valid (\<lambda>s. P s \<and> tethering_enabled s = x) (do {
      whenM (m < USB_MODE_MAX) (do { usbd_set_usb_mode os cfg m; return () });
      return (0 :: int) }) (\<lambda>_. P)"
    by (simp add: valid_def)
qed

lemma keeps_alt_mode_choose:
  assumes "f \<le> 1" "k < 2"
  shows "keeps P (do {
    a \<leftarrow> (if f < 0 then usbd_get_adb_property os else return f);
    if a < 0 then return (-1) else alt_mode_apply os cfg k a })"
proof (rule valid_bind [where R = "\<lambda>a s. P s \<and> a \<le> 1"])
  show "valid P (if f < 0 then usbd_get_adb_property os else return f) (\<lambda>a s. P s \<and> a \<le> 1)"
    using keeps_usbd_get_adb_property assms
    by (auto simp: valid_def usbd_get_adb_property_def property_get_def split_beta)
  show "valid (\<lambda>s. P s \<and> x \<le> 1) (if x < 0 then return (-1) else alt_mode_apply os cfg k x)
      (\<lambda>_. P)" for x
    using keeps_alt_mode_apply [of x k] assms(2) by (auto simp: valid_def)
qed

lemma switch_flag_cases: "switch_flag p q b = -1 \<or> switch_flag p q b = 0 \<or> switch_flag p q b = 1"
  by (simp add: switch_flag_def)

lemma keeps_usbd_alt_mode_set: "keeps P (usbd_alt_mode_set os cfg m a t)"
  unfolding usbd_alt_mode_set_def
  by (intro wp_rules switch keeps_modify var_tether keeps_alt_mode_choose)
     (auto simp: switch_flag_def split: if_splits)

lemma keeps_usb_req_mode_switch: "keeps P (usb_req_mode_switch os cfg tag)"
  unfolding usb_req_mode_switch_def
  by (intro wp_rules talk switch forget keeps_mode_entry) (auto dest: find_mode_Some)

lemma keeps_usbd_factory_mode: "keeps P (usbd_factory_mode os cfg)"
  unfolding usbd_factory_mode_def by (intro wp_rules talk switch) simp

lemma keeps_usbd_factory_event: "keeps P (usbd_factory_event os cfg adb)"
  unfolding usbd_factory_event_def by (intro wp_rules talk switch) simp_all

lemma keeps_usbd_handle_cable_status_change:
  "keeps P (usbd_handle_cable_status_change os cfg)"
  unfolding usbd_handle_cable_status_change_def
  by (intro wp_rules talk forget keeps_modify var_tether keeps_usbd_factory_mode
      keeps_usbd_enumerate_default_mode) simp_all

lemma keeps_usbd_app_event: "keeps P (usbd_app_event os cfg)"
  unfolding usbd_app_event_def by (intro wp_rules forget keeps_usbd_socket_event)

end

text \<open>
  A property that does not look at the history: a switch keeps it when the assignment of the
  mode does.
\<close>

locale usbd_plain = usbd_calls +
  assumes system: "keeps P (syscall os (System c))"
    and var_mode: "P s \<Longrightarrow> m < USB_MODE_MAX \<Longrightarrow> P (s\<lparr>usbd_curr_usb_mode := m\<rparr>)"
    and in_range: "P s \<Longrightarrow> usbd_curr_usb_mode s < USB_MODE_MAX"
begin

lemma keeps_run_hook: "keeps P (run_hook os cfg h)"
proof -
  have "keeps P (cdrom_hook os cfg h)"
    unfolding cdrom_hook_def sh_def
    by (cases h; simp only: hook.case) (intro wp_rules system keeps_cdrom_partition_mount)+
  moreover have "keeps P (msc_hook os cfg h)"
    unfolding msc_hook_def sh_def
    by (cases h; simp only: hook.case) (intro wp_rules system keeps_cdrom_partition_mount)+
  ultimately show ?thesis unfolding run_hook_def by (intro wp_rules)
qed

lemma keeps_call_hook: "keeps P (call_hook os cfg f)"
  unfolding call_hook_def by (intro wp_rules keeps_run_hook)

lemma keeps_entry_hook: "keeps P (do { i \<leftarrow> gets usbd_curr_usb_mode; m i })"
  if "\<And>i. i < USB_MODE_MAX \<Longrightarrow> keeps P (m i)" for m :: "nat \<Rightarrow> 'a usbd"
  using that in_range by (auto simp: valid_def)

lemma keeps_usbd_set_usb_mode:
  "m < USB_MODE_MAX \<Longrightarrow> keeps P (usbd_set_usb_mode os cfg m)"
  unfolding usbd_set_usb_mode_def
  by (intro keeps_entry_hook; simp only: mode_entry_in_range)
     (intro wp_rules keeps_call_hook keeps_modify var_mode call; simp)

lemma keeps_usbd_enum_process: "keeps P (usbd_enum_process os cfg fd)"
  unfolding usbd_enum_process_def
  by (intro keeps_entry_hook; simp only: mode_entry_in_range)
     (intro wp_rules keeps_call_hook talk)

end

text \<open>The mode stays within the table and nothing but the cable handling touches \<open>online\<close>.\<close>

definition modes_ok :: "int \<Rightarrow> usbd_state \<Rightarrow> bool" where
  "modes_ok v s \<longleftrightarrow> usbd_curr_usb_mode s < USB_MODE_MAX \<and>
     (tethering_enabled s = 0 \<or> tethering_enabled s = 1) \<and> current_usb_online s = v"

lemma exec_forget_app:
  "exec forget_app s = s\<lparr>connected_apps_fd := connected_apps_fd s - {usbd_app_fd s},
     usbd_app_fd := -1,
     max_fd := max (max (max (uevent_sock s) (usb_device_fd s)) (usbd_server_fd s)) (-1)\<rparr>"
  by (simp add: forget_app_def set_maxfd_def usbd_get_maxfd_def)

interpretation online_plain: usbd_plain os "modes_ok v" for os v
  by unfold_locales (auto simp: valid_def modes_ok_def)

interpretation online: usbd_modes os "modes_ok v" cfg for os v cfg
proof (unfold_locales, goal_cases)
  case 1 then show ?case by (rule online_plain.keeps_usbd_set_usb_mode)
next
  case 2 show ?case by (rule online_plain.keeps_usbd_enum_process)
qed (auto simp: valid_def modes_ok_def exec_forget_app)

section \<open>Code that reacts to the cable and the driver\<close>

locale usbd_switching = usbd_modes +
  assumes in_range: "P s \<Longrightarrow> usbd_curr_usb_mode s < USB_MODE_MAX"
    and var_count: "P s \<Longrightarrow> P (s\<lparr>usb_get_des_count := n\<rparr>)"
    and var_state: "P s \<Longrightarrow> current_usb_online s \<noteq> 0 \<Longrightarrow>
      st = USBD_STATE_ENUM_IN_PROGRESS \<or> st = USBD_STATE_ENUMERATED \<Longrightarrow>
      P (s\<lparr>usbd_current_state := st\<rparr>)"
    and var_attach: "P s \<Longrightarrow> c \<noteq> MOTO_ACCY_TYPE_EMU_UNKNOWN \<Longrightarrow>
      P (s\<lparr>usbd_curr_cable_status := c, current_usb_online := 1,
           usbd_current_state := USBD_STATE_CABLE_ATTACHED\<rparr>)"
    and var_detach: "P s \<Longrightarrow>
      P (s\<lparr>usbd_curr_cable_status := MOTO_ACCY_TYPE_EMU_UNKNOWN, current_usb_online := 0,
           usbd_current_state := USBD_STATE_CABLE_DETACHED, usb_get_des_count := 0\<rparr>)"
begin

lemma online_kept:
  assumes "keeps P m" "\<And>v. keeps (modes_ok v) m"
  shows "keeps (\<lambda>s. P s \<and> current_usb_online s = v) m"
proof (rule validI)
  fix s assume s: "P s \<and> current_usb_online s = v"
  then have "modes_ok v s"
    using in_range tether_range by (auto simp: modes_ok_def)
  with validD [OF assms(2)] have "modes_ok v (exec m s)" by blast
  then show "P (exec m s) \<and> current_usb_online (exec m s) = v"
    using validD [OF assms(1)] s by (simp add: modes_ok_def)
qed

lemma valid_drop: "keeps P m \<Longrightarrow> valid (\<lambda>s. P s \<and> R s) m (\<lambda>_. P)"
  by (simp add: valid_def)

lemma keeps_enum_notify:
  "keeps P (do {
     app \<leftarrow> gets usbd_app_fd;
     whenM (app \<ge> 0) (do {
       rc \<leftarrow> send os app USBD_GET_DESCRIPTOR;
       whenM (rc < 0) forget_app }) })"
  by (intro wp_rules talk forget)

lemma keeps_enum_finish:
  "keeps P (do {
     app \<leftarrow> gets usbd_app_fd;
     rc \<leftarrow> usbd_enum_process os cfg app;
     whenM (rc < 0) forget_app })"
  by (intro wp_rules enum_process forget)

lemma valid_state_then:
  assumes "st = USBD_STATE_ENUM_IN_PROGRESS \<or> st = USBD_STATE_ENUMERATED" "keeps P m"
  shows "valid (\<lambda>s. P s \<and> current_usb_online s \<noteq> 0)
    (do { modify (\<lambda>s. s\<lparr>usbd_current_state := st\<rparr>); m }) (\<lambda>_. P)"
  using var_state assms by (auto simp: valid_def)

lemma keeps_usbd_enum_event:
  "valid (\<lambda>s. P s \<and> current_usb_online s \<noteq> 0) (usbd_enum_event os cfg e) (\<lambda>_. P)"
proof -
  let ?R = "\<lambda>s. P s \<and> current_usb_online s \<noteq> 0"
  note progress = valid_state_then [OF disjI1 [OF refl] keeps_enum_notify]
    and done_ = valid_state_then [OF disjI2 [OF refl] keeps_enum_finish]
  have skip: "valid ?R (return ()) (\<lambda>_. P)" by (simp add: valid_def)
  have count: "keeps ?R (modify (\<lambda>s. s\<lparr>usb_get_des_count := usb_get_des_count s + 1\<rparr>))"
    using var_count by (auto simp: valid_def)
  show ?thesis unfolding usbd_enum_event_def whenM_def [of "_ = 1"]
      whenM_def [of "strncmp_eq _ _ _"]
    by (intro valid_if keeps_bind [OF count] keeps_bind [OF keeps_gets] progress done_ skip)
qed

lemma keeps_usbd_driver_message: "keeps P (usbd_driver_message os cfg pc a t e)"
proof -
  have alt: "keeps (\<lambda>s. P s \<and> current_usb_online s = v)
      (if b then do { usbd_alt_mode_set os cfg m a t; return () }
       else whenM (app \<ge> 0) (usbd_forward_status os app a t))" for b m app v
    by (rule online_kept)
       (intro wp_rules keeps_usbd_alt_mode_set talk,
        intro wp_rules online.keeps_usbd_alt_mode_set online_plain.talk)
  have req: "keeps (\<lambda>s. P s \<and> current_usb_online s = v)
      (whenM (pc \<noteq> ''none'') (usb_req_mode_switch os cfg pc))" for v
    by (rule online_kept)
       (intro wp_rules keeps_usb_req_mode_switch, intro wp_rules online.keeps_usb_req_mode_switch)
  have tail: "valid (\<lambda>s. P s \<and> current_usb_online s = v)
      (do { cable \<leftarrow> gets usbd_curr_cable_status;
        whenM (cable = MOTO_ACCY_TYPE_EMU_CABLE_USB \<and> v \<noteq> 0) (do {
          whenM (pc \<noteq> ''none'') (usb_req_mode_switch os cfg pc);
          usbd_enum_event os cfg e }) }) (\<lambda>_. P)" for v
  proof (rule keeps_bind [OF keeps_gets])
    fix cable
    have "valid (\<lambda>s. P s \<and> current_usb_online s = v) (do {
        whenM (pc \<noteq> ''none'') (usb_req_mode_switch os cfg pc);
        usbd_enum_event os cfg e }) (\<lambda>_. P)" if "v \<noteq> 0"
      using that by (intro keeps_bind [OF req] valid_weaken [OF keeps_usbd_enum_event]) auto
    then show "valid (\<lambda>s. P s \<and> current_usb_online s = v)
        (whenM (cable = MOTO_ACCY_TYPE_EMU_CABLE_USB \<and> v \<noteq> 0) (do {
          whenM (pc \<noteq> ''none'') (usb_req_mode_switch os cfg pc);
          usbd_enum_event os cfg e })) (\<lambda>_. P)"
      by (auto simp: whenM_def valid_def)
  qed
  show ?thesis unfolding usbd_driver_message_def
    by (intro keeps_bind [OF keeps_gets] valid_gets)
       (intro keeps_bind [OF keeps_gets] keeps_bind [OF alt] tail)
qed

lemma keeps_switch_event: "keeps P (switch_event os)"
  unfolding switch_event_def
  by (intro wp_rules talk keeps_modify var_attach) (auto dest: var_detach)

end

section \<open>Every step of the daemon\<close>

text \<open>
  What is left to show of an invariant: the code that takes data from outside keeps it (a
  message may overrun a buffer), and it holds once the descriptors are open.
\<close>

locale usbd_invariant = usbd_switching +
  fixes k :: nat
  assumes uevent: "keeps P (process_usb_uevent_message os fd)"
    and device: "keeps P (usbd_device_event os cfg)"
    and accept: "valid (\<lambda>s. P s \<and> usb_alt_mode s = 0) (usbd_accept_event os k) (\<lambda>_. P)"
    and start: "P (exec (usbd_open os cfg) init_usbd)"
begin

lemma quiet_fd_isset: "quiet (fd_isset os rset fd)"
  unfolding fd_isset_def by (intro quiet_rules)

lemma keeps_usbd_step: "keeps P (usbd_step os cfg k)"
proof -
  have alt: "keeps (\<lambda>s. P s \<and> usb_alt_mode s = a) (if b then fd_isset os r fd else return False)"
    for a b r fd
    by (intro valid_if keeps_return valid_conj keeps_fd_isset keeps_quiet [OF quiet_fd_isset]) simp
  have accepts: "valid (\<lambda>s. P s \<and> usb_alt_mode s = a)
      (do { c \<leftarrow> (if a = 0 then fd_isset os r fd else return False);
            whenM c (usbd_accept_event os k) }) (\<lambda>_. P)" for a r fd
  proof (cases "a = 0")
    case True
    show ?thesis
      by (rule keeps_bind [OF alt]) (use accept True in \<open>auto simp: valid_def whenM_def\<close>)
  qed (simp add: valid_def)
  have tail: "keeps P (do {
      app \<leftarrow> gets usbd_app_fd;
      c \<leftarrow> (if a = 0 \<and> app \<ge> 0 then fd_isset os r app else return False);
      whenM c (usbd_app_event os cfg) })" for a :: int and r
    by (intro wp_rules talk keeps_usbd_app_event)
  have server: "valid P (do {
      alt \<leftarrow> gets usb_alt_mode;
      server \<leftarrow> gets usbd_server_fd;
      c \<leftarrow> (if alt = 0 then fd_isset os r server else return False);
      whenM c (usbd_accept_event os k);
      app \<leftarrow> gets usbd_app_fd;
      a \<leftarrow> (if alt = 0 \<and> app \<ge> 0 then fd_isset os r app else return False);
      whenM a (usbd_app_event os cfg) }) (\<lambda>_. P)" for r
  proof (rule valid_gets, rule keeps_bind [OF keeps_gets])
    fix alt server
    show "valid (\<lambda>s. P s \<and> usb_alt_mode s = alt) (do {
        c \<leftarrow> (if alt = 0 then fd_isset os r server else return False);
        whenM c (usbd_accept_event os k);
        app \<leftarrow> gets usbd_app_fd;
        a \<leftarrow> (if alt = 0 \<and> app \<ge> 0 then fd_isset os r app else return False);
        whenM a (usbd_app_event os cfg) }) (\<lambda>_. P)"
      by (subst bind_assoc [symmetric]) (rule valid_bind [OF accepts tail])
  qed
  have change: "keeps P (whenM u (do {
      c \<leftarrow> process_usb_uevent_message os ue;
      whenM c (usbd_handle_cable_status_change os cfg) }))" for u ue
    by (intro wp_rules uevent keeps_usbd_handle_cable_status_change)
  have event: "keeps P (whenM d (usbd_device_event os cfg))" for d
    by (intro wp_rules device)
  show ?thesis unfolding usbd_step_def
    by (intro keeps_bind [OF keeps_gets] keeps_bind [OF call] keeps_bind [OF keeps_fd_isset]
        keeps_bind [OF change] keeps_bind [OF event] server) simp
qed

lemma keeps_usbd_loop: "keeps P (usbd_loop os cfg k n)"
proof (induction n)
  case (Suc n)
  then show ?case unfolding usbd_loop.simps by (intro wp_rules keeps_usbd_step)
qed (simp add: wp_rules)

lemma keeps_usbd_boot: "keeps P (usbd_boot os cfg)"
  unfolding usbd_boot_def
  by (intro wp_rules keeps_cdrom_smart_version_mount keeps_cdrom_read_version_key
      keeps_usbd_factory_mode keeps_usbd_enumerate_default_mode)

theorem always: "P (exec (usbd_main os cfg k n) init_usbd)"
proof -
  have "keeps P (whenM b (do { usbd_boot os cfg; usbd_loop os cfg k n }))" for b
    by (intro wp_rules keeps_usbd_boot keeps_usbd_loop)
  with start show ?thesis unfolding usbd_main_def exec_bind by (rule validD [rotated])
qed

end

text \<open>
  A property that survives an overrun: the messages from outside may be anything. The watched
  set changes when a client is taken in.
\<close>

locale usbd_tolerant = usbd_switching +
  fixes k :: nat
  assumes overrun: "keeps P undefined_behaviour"
    and var_first: "P s \<Longrightarrow> P (s\<lparr>pcSwitchbuf := x, adbEnablebuf := y\<rparr>)"
    and var_tetherbuf: "P s \<Longrightarrow> P (s\<lparr>tetheringEnablebuf := x\<rparr>)"
    and take_in: "0 \<le> fd \<Longrightarrow> valid (\<lambda>s. P s \<and> usb_alt_mode s = 0)
      (do { usbd_save_socket_fd fd; set_maxfd }) (\<lambda>_. P)"
    and opened: "P (exec (usbd_open os cfg) init_usbd)"
begin

lemma keeps_scsi_event: "keeps P (scsi_event os b)"
  unfolding scsi_event_def Let_def by (intro wp_rules overrun talk)

lemma keeps_process_usb_uevent_message: "keeps P (process_usb_uevent_message os fd)"
  unfolding process_usb_uevent_message_def uevent_dispatch_def
  by (intro wp_rules call talk keeps_scsi_event keeps_switch_event) simp

lemma keeps_usbd_device_event: "keeps P (usbd_device_event os cfg)"
  unfolding usbd_device_event_def
  by (intro wp_rules call overrun keeps_modify var_first var_tetherbuf keeps_usbd_factory_event
      keeps_usbd_driver_message) simp

lemma keeps_after_accept:
  "keeps P (do {
     en_flag \<leftarrow> usbd_get_adb_property os;
     usbd_send_adb_status os fd en_flag;
     cable \<leftarrow> gets usbd_curr_cable_status;
     whenM (cable \<noteq> MOTO_ACCY_TYPE_EMU_CABLE_FACTORY)
       (do { usbd_notify_current_status os fd; return () });
     usbd_get_flashdrive_status os k;
     return () })"
  unfolding usbd_send_adb_status_def by (intro wp_rules talk)

lemma keeps_usbd_accept_event:
  "valid (\<lambda>s. P s \<and> usb_alt_mode s = 0) (usbd_accept_event os k) (\<lambda>_. P)"
proof -
  have acc: "keeps (\<lambda>s. P s \<and> usb_alt_mode s = 0) (syscall os (Accept fd))" for fd
    by (intro valid_conj call keeps_syscall) simp_all
  have got: "valid (\<lambda>s. P s \<and> usb_alt_mode s = 0) (do {
      usbd_save_socket_fd fd;
      set_maxfd;
      en_flag \<leftarrow> usbd_get_adb_property os;
      usbd_send_adb_status os fd en_flag;
      cable \<leftarrow> gets usbd_curr_cable_status;
      whenM (cable \<noteq> MOTO_ACCY_TYPE_EMU_CABLE_FACTORY)
        (do { usbd_notify_current_status os fd; return () });
      usbd_get_flashdrive_status os k;
      return () }) (\<lambda>_. P)" if "0 \<le> fd" for fd
    by (subst bind_assoc [symmetric]) (rule valid_bind [OF take_in [OF that] keeps_after_accept])
  show ?thesis unfolding usbd_accept_event_def whenM_def [of "_ \<ge> _"]
    by (intro keeps_bind [OF keeps_gets] keeps_bind [OF acc] valid_if got) (auto simp: valid_def)
qed

end

sublocale usbd_tolerant \<subseteq> usbd_invariant
  using keeps_process_usb_uevent_message keeps_usbd_device_event keeps_usbd_accept_event opened
  by unfold_locales

end
