(* ===== verification/Usbd_Properties.thy ===== *)
theory Usbd_Properties
  imports Usbd_Safety
begin

text \<open>
  Properties of the USB mode daemon: its structural invariant, what the gadget driver's
  switches say about the mode, the reactions to the application, the cable and the driver, and
  the absence of undefined behaviour for well-formed messages.
\<close>

section \<open>The structural invariant\<close>

definition watched_ok :: "usbd_state \<Rightarrow> bool" where
  "watched_ok s \<longleftrightarrow>
     connected_apps_fd s \<subseteq> {uevent_sock s, usb_device_fd s, usbd_server_fd s, usbd_app_fd s} \<and>
     (\<forall>fd\<in>connected_apps_fd s. 0 \<le> fd \<and> fd \<le> max_fd s)"

definition cable_ok :: "usbd_state \<Rightarrow> bool" where
  "cable_ok s \<longleftrightarrow>
     current_usb_online s =
       (if usbd_curr_cable_status s = MOTO_ACCY_TYPE_EMU_UNKNOWN then 0 else 1) \<and>
     (usbd_current_state s \<in> {USBD_STATE_CABLE_DEFAULT, USBD_STATE_CABLE_DETACHED} \<longleftrightarrow>
      current_usb_online s = 0)"

definition app_ok :: "usbd_state \<Rightarrow> bool" where
  "app_ok s \<longleftrightarrow>
     (usbd_app_fd s = -1 \<or> usb_alt_mode s = 0 \<and> 0 \<le> usbd_app_fd s \<and>
       (fault s \<or> usbd_app_fd s \<in> connected_apps_fd s))"

definition usbd_inv :: "usbd_state \<Rightarrow> bool" where
  "usbd_inv s \<longleftrightarrow> usbd_curr_usb_mode s < USB_MODE_MAX \<and>
     (tethering_enabled s = 0 \<or> tethering_enabled s = 1) \<and>
     watched_ok s \<and> cable_ok s \<and> app_ok s"

text \<open>Assignments that do not matter to a part of the invariant.\<close>

lemma cable_ok_vars [simp]:
  "cable_ok (s\<lparr>trace := x_trace\<rparr>) = cable_ok s"
  "cable_ok (s\<lparr>curr_loop_dev := x_curr_loop_dev\<rparr>) = cable_ok s"
  "cable_ok (s\<lparr>cdrom_mounted := x_cdrom_mounted\<rparr>) = cable_ok s"
  "cable_ok (s\<lparr>usbd_curr_usb_mode := x_usbd_curr_usb_mode\<rparr>) = cable_ok s"
  "cable_ok (s\<lparr>tethering_enabled := x_tethering_enabled\<rparr>) = cable_ok s"
  "cable_ok (s\<lparr>usb_get_des_count := x_usb_get_des_count\<rparr>) = cable_ok s"
  "cable_ok (s\<lparr>pcSwitchbuf := x_pcSwitchbuf\<rparr>) = cable_ok s"
  "cable_ok (s\<lparr>adbEnablebuf := x_adbEnablebuf\<rparr>) = cable_ok s"
  "cable_ok (s\<lparr>tetheringEnablebuf := x_tetheringEnablebuf\<rparr>) = cable_ok s"
  "cable_ok (s\<lparr>usbd_mode := x_usbd_mode\<rparr>) = cable_ok s"
  "cable_ok (s\<lparr>fault := x_fault\<rparr>) = cable_ok s"
  "cable_ok (s\<lparr>connected_apps_fd := x_connected_apps_fd\<rparr>) = cable_ok s"
  "cable_ok (s\<lparr>usbd_app_fd := x_usbd_app_fd\<rparr>) = cable_ok s"
  "cable_ok (s\<lparr>max_fd := x_max_fd\<rparr>) = cable_ok s"
  "cable_ok (s\<lparr>usb_device_fd := x_usb_device_fd\<rparr>) = cable_ok s"
  "cable_ok (s\<lparr>usbd_server_fd := x_usbd_server_fd\<rparr>) = cable_ok s"
  "cable_ok (s\<lparr>uevent_sock := x_uevent_sock\<rparr>) = cable_ok s"
  "cable_ok (s\<lparr>usb_alt_mode := x_usb_alt_mode\<rparr>) = cable_ok s"
  by (simp_all add: cable_ok_def)

lemma watched_ok_vars [simp]:
  "watched_ok (s\<lparr>trace := x_trace\<rparr>) = watched_ok s"
  "watched_ok (s\<lparr>curr_loop_dev := x_curr_loop_dev\<rparr>) = watched_ok s"
  "watched_ok (s\<lparr>cdrom_mounted := x_cdrom_mounted\<rparr>) = watched_ok s"
  "watched_ok (s\<lparr>usbd_curr_usb_mode := x_usbd_curr_usb_mode\<rparr>) = watched_ok s"
  "watched_ok (s\<lparr>tethering_enabled := x_tethering_enabled\<rparr>) = watched_ok s"
  "watched_ok (s\<lparr>usb_get_des_count := x_usb_get_des_count\<rparr>) = watched_ok s"
  "watched_ok (s\<lparr>pcSwitchbuf := x_pcSwitchbuf\<rparr>) = watched_ok s"
  "watched_ok (s\<lparr>adbEnablebuf := x_adbEnablebuf\<rparr>) = watched_ok s"
  "watched_ok (s\<lparr>tetheringEnablebuf := x_tetheringEnablebuf\<rparr>) = watched_ok s"
  "watched_ok (s\<lparr>usbd_mode := x_usbd_mode\<rparr>) = watched_ok s"
  "watched_ok (s\<lparr>fault := x_fault\<rparr>) = watched_ok s"
  "watched_ok (s\<lparr>usbd_current_state := x_usbd_current_state\<rparr>) = watched_ok s"
  "watched_ok (s\<lparr>current_usb_online := x_current_usb_online\<rparr>) = watched_ok s"
  "watched_ok (s\<lparr>usbd_curr_cable_status := x_usbd_curr_cable_status\<rparr>) = watched_ok s"
  "watched_ok (s\<lparr>usb_alt_mode := x_usb_alt_mode\<rparr>) = watched_ok s"
  by (simp_all add: watched_ok_def)

lemma app_ok_vars [simp]:
  "app_ok (s\<lparr>trace := x_trace\<rparr>) = app_ok s"
  "app_ok (s\<lparr>curr_loop_dev := x_curr_loop_dev\<rparr>) = app_ok s"
  "app_ok (s\<lparr>cdrom_mounted := x_cdrom_mounted\<rparr>) = app_ok s"
  "app_ok (s\<lparr>usbd_curr_usb_mode := x_usbd_curr_usb_mode\<rparr>) = app_ok s"
  "app_ok (s\<lparr>tethering_enabled := x_tethering_enabled\<rparr>) = app_ok s"
  "app_ok (s\<lparr>usb_get_des_count := x_usb_get_des_count\<rparr>) = app_ok s"
  "app_ok (s\<lparr>pcSwitchbuf := x_pcSwitchbuf\<rparr>) = app_ok s"
  "app_ok (s\<lparr>adbEnablebuf := x_adbEnablebuf\<rparr>) = app_ok s"
  "app_ok (s\<lparr>tetheringEnablebuf := x_tetheringEnablebuf\<rparr>) = app_ok s"
  "app_ok (s\<lparr>usbd_mode := x_usbd_mode\<rparr>) = app_ok s"
  "app_ok (s\<lparr>usbd_current_state := x_usbd_current_state\<rparr>) = app_ok s"
  "app_ok (s\<lparr>current_usb_online := x_current_usb_online\<rparr>) = app_ok s"
  "app_ok (s\<lparr>usbd_curr_cable_status := x_usbd_curr_cable_status\<rparr>) = app_ok s"
  "app_ok (s\<lparr>max_fd := x_max_fd\<rparr>) = app_ok s"
  "app_ok (s\<lparr>usb_device_fd := x_usb_device_fd\<rparr>) = app_ok s"
  "app_ok (s\<lparr>usbd_server_fd := x_usbd_server_fd\<rparr>) = app_ok s"
  "app_ok (s\<lparr>uevent_sock := x_uevent_sock\<rparr>) = app_ok s"
  by (simp_all add: app_ok_def)

lemmas inv_defs = usbd_inv_def watched_ok_def cable_ok_def app_ok_def

lemma usbd_inv_forget: "keeps usbd_inv forget_app"
proof (rule validI)
  fix s assume s: "usbd_inv s"
  have "watched_ok (exec forget_app s)"
    using s by (auto simp: exec_forget_app usbd_inv_def watched_ok_def)
  with s show "usbd_inv (exec forget_app s)"
    by (simp add: exec_forget_app usbd_inv_def app_ok_def)
qed

lemma usbd_inv_switching: "usbd_switching os usbd_inv cfg"
proof -
  have plain: "usbd_plain os usbd_inv"
    by unfold_locales (simp_all add: valid_def usbd_inv_def)
  show ?thesis
  proof (unfold_locales, goal_cases)
    case 4 then show ?case by (rule usbd_plain.keeps_usbd_set_usb_mode [OF plain])
  next
    case 5 show ?case by (rule usbd_plain.keeps_usbd_enum_process [OF plain])
  next
    case 8 show ?case by (rule usbd_inv_forget)
  qed (auto simp: valid_def usbd_inv_def cable_ok_def)
qed

definition top_fd :: "usbd_state \<Rightarrow> int" where
  "top_fd s = max (max (max (uevent_sock s) (usb_device_fd s)) (usbd_server_fd s)) (usbd_app_fd s)"

lemma top_fd_le [simp]:
  "uevent_sock s \<le> top_fd s" "usb_device_fd s \<le> top_fd s" "usbd_server_fd s \<le> top_fd s"
  "usbd_app_fd s \<le> top_fd s"
  by (auto simp: top_fd_def)

lemma exec_set_maxfd: "exec set_maxfd s = s\<lparr>max_fd := top_fd s\<rparr>"
  by (simp add: set_maxfd_def usbd_get_maxfd_def top_fd_def)

lemma set_maxfd_inv:
  assumes "usbd_curr_usb_mode s < USB_MODE_MAX" "tethering_enabled s = 0 \<or> tethering_enabled s = 1"
    "cable_ok s" "app_ok s"
    "connected_apps_fd s \<subseteq> {uevent_sock s, usb_device_fd s, usbd_server_fd s, usbd_app_fd s}"
    "\<forall>fd\<in>connected_apps_fd s. 0 \<le> fd"
  shows "usbd_inv (exec set_maxfd s)"
proof -
  have "fd \<le> top_fd s" if "fd \<in> connected_apps_fd s" for fd
    using assms(5) that top_fd_le [of s] by blast
  with assms show ?thesis
    by (simp add: exec_set_maxfd usbd_inv_def watched_ok_def)
qed

lemma exec_fd_set:
  "exec (fd_set fd) s =
   (if 0 \<le> fd \<and> fd < 1024 then s\<lparr>connected_apps_fd := insert fd (connected_apps_fd s)\<rparr>
    else s\<lparr>fault := True\<rparr>)"
  by (simp add: fd_set_def)

lemma exec_usbd_save_socket_fd:
  "exec (usbd_save_socket_fd fd) s =
   (if usbd_app_fd s = -1 then (exec (fd_set fd) s)\<lparr>usbd_app_fd := fd\<rparr> else s)"
  by (simp add: usbd_save_socket_fd_def split_beta)

lemma usbd_inv_take_in:
  assumes "0 \<le> fd"
  shows "valid (\<lambda>s. usbd_inv s \<and> usb_alt_mode s = 0)
    (do { usbd_save_socket_fd fd; set_maxfd }) (\<lambda>_. usbd_inv)"
proof (rule validI)
  fix s assume s: "usbd_inv s \<and> usb_alt_mode s = 0"
  show "usbd_inv (exec (do { usbd_save_socket_fd fd; set_maxfd }) s)"
  proof -
    have "x \<in> {uevent_sock s, usb_device_fd s, usbd_server_fd s}"
      if "usbd_app_fd s = -1" "x \<in> connected_apps_fd s" for x
      using s that by (force simp: usbd_inv_def watched_ok_def)
    then have "connected_apps_fd s \<subseteq> {uevent_sock s, usb_device_fd s, usbd_server_fd s, fd}"
      if "usbd_app_fd s = -1" using that by blast
    then show ?thesis unfolding exec_bind
      by (intro set_maxfd_inv)
         (use s assms in \<open>auto simp: exec_usbd_save_socket_fd exec_fd_set inv_defs subset_insertI2 simp del: insert_subset\<close>)
  qed
qed

lemma fd_set_frame [simp]:
  "usb_alt_mode (exec (fd_set fd) s) = usb_alt_mode s"
  "usbd_server_fd (exec (fd_set fd) s) = usbd_server_fd s"
  "usb_device_fd (exec (fd_set fd) s) = usb_device_fd s"
  by (simp_all add: exec_fd_set)

lemma exec_usbd_watch:
  "exec usbd_watch s =
   exec set_maxfd (exec (fd_set (usb_device_fd s))
     ((if usb_alt_mode s = 0 then exec (fd_set (usbd_server_fd s)) else id)
       (exec (fd_set (uevent_sock s)) (s\<lparr>connected_apps_fd := {}\<rparr>))))"
  by (simp add: usbd_watch_def split_beta)

lemma usbd_inv_watch: "valid (\<lambda>s. usbd_inv s \<and> usbd_app_fd s = -1) usbd_watch (\<lambda>_. usbd_inv)"
proof (rule validI)
  fix s assume s: "usbd_inv s \<and> usbd_app_fd s = -1"
  show "usbd_inv (exec usbd_watch s)"
    unfolding exec_usbd_watch
    by (rule set_maxfd_inv) (use s in \<open>simp_all add: exec_fd_set usbd_inv_def app_ok_def\<close>)
qed

definition fresh :: "usbd_state \<Rightarrow> bool" where
  "fresh s \<longleftrightarrow> usbd_inv s \<and> connected_apps_fd s = {} \<and> usbd_app_fd s = -1 \<and>
     usbd_curr_cable_status s = MOTO_ACCY_TYPE_EMU_UNKNOWN"

lemma fresh_calls: "usbd_calls os fresh"
  by unfold_locales (auto simp: valid_def fresh_def inv_defs)

lemma fresh_initial_cable:
  "valid fresh (usbd_get_initial_cable_status os) (\<lambda>_ s. usbd_inv s \<and> usbd_app_fd s = -1)"
proof -
  have init: "keeps fresh (modify (\<lambda>s. s\<lparr>current_usb_online := 0,
      usbd_current_state := USBD_STATE_CABLE_DEFAULT\<rparr>))"
    by (auto simp: valid_def fresh_def inv_defs)
  have "valid fresh (case st of
       None \<Rightarrow> return (-1)
     | Some cable \<Rightarrow> do {
         (if cable \<noteq> MOTO_ACCY_TYPE_EMU_UNKNOWN
          then modify (\<lambda>s. s\<lparr>usbd_curr_cable_status := cable, current_usb_online := 1,
                 usbd_current_state := USBD_STATE_CABLE_ATTACHED\<rparr>)
          else modify (\<lambda>s. s\<lparr>usbd_curr_cable_status := cable\<rparr>));
         return (0 :: int)
       }) (\<lambda>_ s. usbd_inv s \<and> usbd_app_fd s = -1)" for st
    by (cases st) (auto simp: valid_def fresh_def inv_defs)
  then show ?thesis
    unfolding usbd_get_initial_cable_status_def
    by (intro keeps_bind [OF init] keeps_bind [OF usbd_calls.keeps_readUsbSwitchState]
        fresh_calls)
qed

lemma fresh_uevent_socket_init: "keeps fresh (uevent_socket_init os)"
  unfolding uevent_socket_init_def
  by (intro wp_rules usbd_calls.call [OF fresh_calls] keeps_modify)
     (auto simp: fresh_def inv_defs)

lemma fresh_usbd_socket_init: "keeps fresh (usbd_socket_init os)"
  unfolding usbd_socket_init_def
  by (intro wp_rules usbd_calls.call [OF fresh_calls] keeps_modify)
     (auto simp: fresh_def inv_defs)

lemma usbd_inv_opened: "usbd_inv (exec (usbd_open os cfg) init_usbd)"
proof -
  let ?I = "\<lambda>s. usbd_inv s \<and> usbd_app_fd s = -1"
  have fresh_inv: "valid fresh m (\<lambda>_. fresh) \<Longrightarrow> valid fresh m (\<lambda>_. usbd_inv)" for m :: "'a usbd"
    by (simp add: valid_def fresh_def)
  have stop: "valid ?I (return b) (\<lambda>_. usbd_inv)" "valid fresh (return b) (\<lambda>_. usbd_inv)" for b :: bool
    by (simp_all add: valid_def fresh_def)
  have watch: "valid ?I (do { usbd_watch; return True }) (\<lambda>_. usbd_inv)"
    by (rule valid_bind [OF usbd_inv_watch]) (rule keeps_return)
  have close: "valid fresh (do { syscall os (Close fd); return False }) (\<lambda>_. usbd_inv)" for fd
    by (intro fresh_inv wp_rules usbd_calls.call [OF fresh_calls]) simp
  have vars: "keeps fresh (modify (\<lambda>s. s\<lparr>usb_device_fd := x\<rparr>))"
    "keeps fresh (modify (\<lambda>s. s\<lparr>usbd_mode := m\<rparr>))"
    "keeps fresh (whenM b (modify (\<lambda>s. s\<lparr>usb_alt_mode := 1\<rparr>)))" for x m b
    by (auto simp: valid_def fresh_def inv_defs)
  have srv: "keeps fresh (if c then usbd_socket_init os else return 0)" for c
    by (intro wp_rules fresh_usbd_socket_init)
  have "valid (\<lambda>s. s = init_usbd) (usbd_open os cfg) (\<lambda>_. usbd_inv)"
    unfolding usbd_open_def
  proof (rule valid_bind)
    show "valid (\<lambda>s. s = init_usbd) (modify (\<lambda>s. s\<lparr>usbd_app_fd := -1\<rparr>)) (\<lambda>_. fresh)"
      by (auto simp: valid_def fresh_def inv_defs init_usbd_def)
  qed (intro keeps_bind [OF fresh_uevent_socket_init] keeps_bind [OF vars(1)] keeps_bind [OF vars(2)]
      keeps_bind [OF vars(3)] keeps_bind [OF srv] valid_bind [OF fresh_initial_cable]
      keeps_bind [OF usbd_calls.call [OF fresh_calls, of "Open _"]]
      keeps_bind [OF usbd_calls.keeps_usbd_get_startup_mode [OF fresh_calls]]
      valid_if stop watch close; simp)
  then show ?thesis by (simp add: valid_def)
qed

interpretation usbd: usbd_tolerant os usbd_inv cfg k for os cfg k
proof (intro usbd_tolerant.intro usbd_inv_switching, unfold_locales, goal_cases)
  case 4 then show ?case by (rule usbd_inv_take_in)
next
  case 5 show ?case by (rule usbd_inv_opened)
qed (auto simp: valid_def inv_defs)

section \<open>The switches of the gadget driver\<close>

text \<open>
  What the shell commands of the hooks have done so far: a flag of the driver is on when the
  last command that set it set it to 1.
\<close>

definition flag_after :: "(bool \<Rightarrow> string) \<Rightarrow> bool \<Rightarrow> usbd_call \<Rightarrow> bool" where
  "flag_after p b c = (if c = System (p True) then True else if c = System (p False) then False else b)"

definition gadget_flag :: "(bool \<Rightarrow> string) \<Rightarrow> usbd_state \<Rightarrow> bool" where
  "gadget_flag p s = foldl (flag_after p) False (calls s)"

abbreviation storage_on :: "usbd_state \<Rightarrow> bool" where
  "storage_on \<equiv> gadget_flag mass_storage_param"

abbreviation cdrom_on :: "usbd_state \<Rightarrow> bool" where
  "cdrom_on \<equiv> gadget_flag cdrom_param"

definition msc_mode :: "usb_mode \<Rightarrow> bool" where
  "msc_mode m \<longleftrightarrow> m = USB_MODE_MSC \<or> m = USB_MODE_MSC_ONLY \<or> m = USB_MODE_MSC_ADB"

definition cdrom_mode :: "usbd_cfg \<Rightarrow> usb_mode \<Rightarrow> bool" where
  "cdrom_mode cfg m \<longleftrightarrow> m = USB_MODE_CDROM \<or> m = USB_MODE_CDROM2 \<or>
     m = USB_MODE_MSC \<and> msd_cdrom_enabled cfg"

lemma gadget_flag_call:
  "gadget_flag p (s\<lparr>trace := trace s @ [(c, r)]\<rparr>) = flag_after p (gadget_flag p s) c"
  by (simp add: gadget_flag_def)

lemma flag_after_other: "\<not> is_system c \<Longrightarrow> flag_after p b c = b"
  by (cases c) (auto simp: flag_after_def)

lemma flag_after_params [simp]:
  "flag_after mass_storage_param b (System (mass_storage_param v)) = v"
  "flag_after mass_storage_param b (System (cdrom_param v)) = b"
  "flag_after mass_storage_param b (System (allow_eject_param v)) = b"
  "flag_after cdrom_param b (System (cdrom_param v)) = v"
  "flag_after cdrom_param b (System (mass_storage_param v)) = b"
  "flag_after cdrom_param b (System (allow_eject_param v)) = b"
  by (auto simp: flag_after_def mass_storage_param_def cdrom_param_def allow_eject_param_def)

text \<open>State of both flags, and what a hook does to it.\<close>

definition flags :: "usbd_state \<Rightarrow> bool \<times> bool" where
  "flags s = (storage_on s, cdrom_on s)"

lemma flags_vars [simp]:
  "flags (s\<lparr>curr_loop_dev := d\<rparr>) = flags s" "flags (s\<lparr>cdrom_mounted := b\<rparr>) = flags s"
  "flags (s\<lparr>usbd_curr_usb_mode := m\<rparr>) = flags s" "flags (s\<lparr>fault := f\<rparr>) = flags s"
  "flags (s\<lparr>tethering_enabled := t\<rparr>) = flags s" "flags (s\<lparr>usb_get_des_count := n\<rparr>) = flags s"
  "flags (s\<lparr>usbd_current_state := st\<rparr>) = flags s" "flags (s\<lparr>current_usb_online := o1\<rparr>) = flags s"
  "flags (s\<lparr>usbd_curr_cable_status := c\<rparr>) = flags s" "flags (s\<lparr>usbd_app_fd := fd\<rparr>) = flags s"
  "flags (s\<lparr>connected_apps_fd := fds\<rparr>) = flags s" "flags (s\<lparr>max_fd := fd\<rparr>) = flags s"
  "flags (s\<lparr>pcSwitchbuf := x\<rparr>) = flags s" "flags (s\<lparr>adbEnablebuf := x\<rparr>) = flags s"
  "flags (s\<lparr>tetheringEnablebuf := x\<rparr>) = flags s" "flags (s\<lparr>uevent_sock := fd\<rparr>) = flags s"
  "flags (s\<lparr>usb_device_fd := fd\<rparr>) = flags s" "flags (s\<lparr>usbd_server_fd := fd\<rparr>) = flags s"
  "flags (s\<lparr>usbd_mode := mm\<rparr>) = flags s" "flags (s\<lparr>usb_alt_mode := a\<rparr>) = flags s"
  by (simp_all add: flags_def gadget_flag_def)

lemma flags_call:
  "flags (s\<lparr>trace := trace s @ [(c, r)]\<rparr>) =
   (flag_after mass_storage_param (fst (flags s)) c, flag_after cdrom_param (snd (flags s)) c)"
  by (simp add: flags_def gadget_flag_call)

definition hook_effect :: "usbd_cfg \<Rightarrow> hook \<Rightarrow> bool \<times> bool \<Rightarrow> bool \<times> bool" where
  "hook_effect cfg h = (\<lambda>(a, b). case h of
     cdrom_pre_enable \<Rightarrow> (a, True) | cdrom_disable_done \<Rightarrow> (a, False)
   | msc_pre_enable \<Rightarrow> (a, b \<or> msd_cdrom_enabled cfg)
   | msc_disable_done \<Rightarrow> (a, b \<and> \<not> msd_cdrom_enabled cfg)
   | msc_enable_done \<Rightarrow> (True, b) | msc_pre_disable \<Rightarrow> (False, b)
   | msc_only_enable_done \<Rightarrow> (True, b) | msc_only_pre_disable \<Rightarrow> (False, b)
   | msc_adb_enable_done \<Rightarrow> (True, b) | msc_adb_pre_disable \<Rightarrow> (False, b)
   | _ \<Rightarrow> (a, b))"

lemma flags_calls: "usbd_calls os (\<lambda>s. flags s = f \<and> Q (usbd_curr_usb_mode s) (tethering_enabled s))"
  by unfold_locales (simp_all add: valid_def flags_call flag_after_other)

lemma run_hook_flags:
  "valid (\<lambda>s. flags s = f \<and> Q (usbd_curr_usb_mode s) (tethering_enabled s)) (run_hook os cfg h)
     (\<lambda>_ s. flags s = hook_effect cfg h f \<and> Q (usbd_curr_usb_mode s) (tethering_enabled s))"
proof -
  let ?K = "\<lambda>f s. flags s = f \<and> Q (usbd_curr_usb_mode s) (tethering_enabled s)"
  have sh: "valid (?K f) (sh os c)
      (\<lambda>_. ?K (flag_after mass_storage_param (fst f) (System c),
               flag_after cdrom_param (snd f) (System c)))" for c f
    by (simp add: valid_def sh_def flags_call)
  have mount: "keeps (?K f) (cdrom_partition_mount os cfg b)" for b f
    by (rule usbd_calls.keeps_cdrom_partition_mount [OF flags_calls])
  have two: "valid (?K (a, b)) (do { sh os (cdrom_param v); sh os (allow_eject_param w) })
      (\<lambda>_. ?K (a, v))" for a b v w
    using sh [of "(a, b)" "cdrom_param v"] sh [of "(a, v)" "allow_eject_param w"]
    by (intro valid_bind [where R = "\<lambda>_. ?K (a, v)"]) simp_all
  obtain a b where f: "f = (a, b)" by fastforce
  show ?thesis unfolding f
    by (cases h; simp add: run_hook_def cdrom_hook_def msc_hook_def hook_effect_def whenM_def
        keeps_return mount two)
       (auto intro!: valid_bind sh [THEN valid_weaken] mount)
qed

definition call_effect :: "usbd_cfg \<Rightarrow> hook option \<Rightarrow> bool \<times> bool \<Rightarrow> bool \<times> bool" where
  "call_effect cfg f = (case f of None \<Rightarrow> id | Some h \<Rightarrow> hook_effect cfg h)"

lemma call_hook_flags:
  "valid (\<lambda>s. flags s = f \<and> Q (usbd_curr_usb_mode s) (tethering_enabled s)) (call_hook os cfg h)
     (\<lambda>_ s. flags s = call_effect cfg h f \<and> Q (usbd_curr_usb_mode s) (tethering_enabled s))"
  by (cases h) (simp_all add: call_hook_def call_effect_def keeps_return run_hook_flags)

definition storage_inv :: "usbd_cfg \<Rightarrow> usbd_state \<Rightarrow> bool" where
  "storage_inv cfg s \<longleftrightarrow> usbd_curr_usb_mode s < USB_MODE_MAX \<and>
     (tethering_enabled s = 0 \<or> tethering_enabled s = 1) \<and>
     (storage_on s \<longrightarrow> msc_mode (usbd_curr_usb_mode s)) \<and>
     (cdrom_on s \<longleftrightarrow> cdrom_mode cfg (usbd_curr_usb_mode s))"

lemma storage_inv_flags:
  "storage_inv cfg s \<longleftrightarrow> usbd_curr_usb_mode s < USB_MODE_MAX \<and>
     (tethering_enabled s = 0 \<or> tethering_enabled s = 1) \<and>
     (fst (flags s) \<longrightarrow> msc_mode (usbd_curr_usb_mode s)) \<and>
     snd (flags s) = cdrom_mode cfg (usbd_curr_usb_mode s)"
  by (auto simp: storage_inv_def flags_def)

text \<open>The hooks of the table: leaving a mode turns off what it had on, entering turns it on.\<close>

definition hook_table :: "(hook option \<times> hook option \<times> hook option \<times> hook option) list" where
  "hook_table =
   [(None, None, None, None),
    (Some ngp_pre_enable, Some ngp_enable_done, Some ngp_pre_disable, None),
    (Some cdrom_pre_enable, Some cdrom_enable_done, Some cdrom_pre_disable, Some cdrom_disable_done),
    (None, Some mtp_enable_done, None, None),
    (Some msc_pre_enable, Some msc_enable_done, Some msc_pre_disable, Some msc_disable_done),
    (None, Some msc_only_enable_done, Some msc_only_pre_disable, None),
    (None, None, None, None),
    (Some ngp_adb_pre_enable, Some ngp_adb_enable_done, Some ngp_adb_pre_disable, None),
    (Some mtp_adb_pre_enable, Some mtp_adb_enable_done, Some mtp_adb_pre_disable, None),
    (None, Some msc_adb_enable_done, Some msc_adb_pre_disable, None),
    (Some adb_pre_enable, None, Some adb_pre_disable, None),
    (None, Some network_enable_done, Some network_pre_disable, None),
    (None, Some modem_enable_done, Some modem_pre_disable, None),
    (Some modem_adb_pre_enable, Some modem_adb_enable_done, Some modem_adb_pre_disable, None),
    (None, Some network_enable_done, Some network_pre_disable, None),
    (None, None, None, None), (None, None, None, None),
    (None, None, None, None), (None, None, None, None),
    (Some cdrom_pre_enable, Some cdrom_enable_done, Some cdrom_pre_disable, Some cdrom_disable_done),
    (None, None, None, None), (None, None, None, None), (None, None, None, None),
    (None, None, None, None), (None, None, None, None), (None, None, None, None),
    (None, None, None, None)]"

lemma hook_table_eq:
  "map (\<lambda>e. (pre_enable e, enable_done e, pre_disable e, disable_done e)) (usb_mode_list cfg) = hook_table"
  by (simp add: usb_mode_list_def usb_mode_list_low_def usb_mode_list_high_def usb_mode_entry_def
      hook_table_def)

definition effects_ok ::
  "usbd_cfg \<Rightarrow> usb_mode \<Rightarrow> hook option \<times> hook option \<times> hook option \<times> hook option \<Rightarrow> bool" where
  "effects_ok cfg i = (\<lambda>(pe, ed, pd, dd).
     (\<forall>f. (fst f \<longrightarrow> msc_mode i) \<longrightarrow> snd f = cdrom_mode cfg i \<longrightarrow>
        call_effect cfg dd (call_effect cfg pd f) = (False, False)) \<and>
     call_effect cfg pe (False, False) = (False, cdrom_mode cfg i) \<and>
     (\<forall>f. snd (call_effect cfg ed f) = snd f \<and>
        (fst (call_effect cfg ed f) \<longleftrightarrow> fst f \<or> msc_mode i)))"

lemma effects_enumerate:
  "list_all (\<lambda>(i, t). effects_ok cfg i t) (enumerate 0 (butlast hook_table))"
  by (simp add: hook_table_def effects_ok_def call_effect_def hook_effect_def msc_mode_def
      cdrom_mode_def split_beta)

lemma table_effects:
  fixes cfg :: usbd_cfg
  assumes "i < USB_MODE_MAX"
  defines "e \<equiv> usb_mode_list cfg ! i"
  shows "(fst f \<longrightarrow> msc_mode i) \<Longrightarrow> snd f = cdrom_mode cfg i \<Longrightarrow>
      call_effect cfg (disable_done e) (call_effect cfg (pre_disable e) f) = (False, False)"
    and "call_effect cfg (pre_enable e) (False, False) = (False, cdrom_mode cfg i)"
    and "snd (call_effect cfg (enable_done e) f) = snd f"
    and "fst (call_effect cfg (enable_done e) f) \<longleftrightarrow> fst f \<or> msc_mode i"
proof -
  have "length hook_table = 27" by (simp add: hook_table_def)
  then have "effects_ok cfg i (hook_table ! i)"
    using effects_enumerate [of cfg] assms(1)
    by (auto simp: list_all_length nth_enumerate_eq nth_butlast)
  moreover have "hook_table ! i = (pre_enable e, enable_done e, pre_disable e, disable_done e)"
    using assms(1) unfolding e_def hook_table_eq [of cfg, symmetric] by simp
  ultimately have ok: "effects_ok cfg i (pre_enable e, enable_done e, pre_disable e, disable_done e)"
    by simp
  show "(fst f \<longrightarrow> msc_mode i) \<Longrightarrow> snd f = cdrom_mode cfg i \<Longrightarrow>
      call_effect cfg (disable_done e) (call_effect cfg (pre_disable e) f) = (False, False)"
    and "call_effect cfg (pre_enable e) (False, False) = (False, cdrom_mode cfg i)"
    and "snd (call_effect cfg (enable_done e) f) = snd f"
    and "fst (call_effect cfg (enable_done e) f) \<longleftrightarrow> fst f \<or> msc_mode i"
    using ok unfolding effects_ok_def by blast+
qed

lemma storage_set_usb_mode:
  assumes "m < USB_MODE_MAX"
  shows "keeps (storage_inv cfg) (usbd_set_usb_mode os cfg m)"
proof (rule validI)
  fix s assume s: "storage_inv cfg s"
  let ?i = "usbd_curr_usb_mode s" and ?t = "tethering_enabled s"
  let ?e = "usb_mode_list cfg ! ?i"
  let ?s1 = "exec (call_hook os cfg (pre_disable ?e)) s"
  let ?s2 = "exec (call_hook os cfg (disable_done ?e)) ?s1"
  let ?s3 = "?s2\<lparr>usbd_curr_usb_mode := m\<rparr>"
  let ?h = "pre_enable (usb_mode_list cfg ! m)"
  let ?s4 = "exec (call_hook os cfg ?h) ?s3"
  have i: "?i < USB_MODE_MAX" and t: "?t = 0 \<or> ?t = 1" using s by (auto simp: storage_inv_def)
  have run: "exec (usbd_set_usb_mode os cfg m) s =
    (if m = USB_MODE_MIN then ?s3
     else exec (syscall os (Write (usb_device_fd ?s4) (mode_name (usb_mode_list cfg ! m) @ [NUL]))) ?s4)"
    using i assms by (simp add: usbd_set_usb_mode_def mode_entry_in_range split_beta)
  note hook = validD [OF call_hook_flags [of _ "\<lambda>i t. t = ?t"]]
  have s1: "flags ?s1 = call_effect cfg (pre_disable ?e) (flags s) \<and> tethering_enabled ?s1 = ?t"
    using hook [of s "flags s"] by simp
  have "flags ?s2 = call_effect cfg (disable_done ?e) (flags ?s1) \<and> tethering_enabled ?s2 = ?t"
    using hook [of ?s1 "flags ?s1"] s1 by simp
  then have s2: "flags ?s2 = (False, False)" "tethering_enabled ?s2 = ?t"
    using s s1 table_effects(1) [OF i, of "flags s" cfg]
    by (simp_all add: storage_inv_flags)
  have s4: "flags ?s4 = (False, cdrom_mode cfg m)" "tethering_enabled ?s4 = ?t"
      "usbd_curr_usb_mode ?s4 = m"
    using validD [OF call_hook_flags [of _ "\<lambda>i t. t = ?t \<and> i = m"], of ?s3 "(False, False)" os cfg ?h]
      s2 table_effects(2) [OF assms, of cfg] by simp_all
  have "cdrom_mode cfg USB_MODE_MIN = False" by (simp add: cdrom_mode_def)
  then show "storage_inv cfg (exec (usbd_set_usb_mode os cfg m) s)"
    using s2 s4 assms t unfolding run
    by (simp add: storage_inv_flags flags_call flag_after_other)
qed

end
