(* ===== verification/Usbd_Theorems.thy ===== *)
theory Usbd_Theorems
  imports Usbd_Properties "HOL-Library.Sublist"
begin

text \<open>
  Theorems on the USB mode daemon: the structural invariant and the state of the gadget
  driver's functions in every run, the answers to the application, the treatment of messages
  from user space, and the round trip of the driver's messages.
\<close>

section \<open>The driver's functions in every run\<close>

lemma storage_enum_process: "keeps (storage_inv cfg) (usbd_enum_process os cfg fd)"
proof (rule validI)
  fix s assume s: "storage_inv cfg s"
  let ?i = "usbd_curr_usb_mode s"
  let ?e = "usb_mode_list cfg ! ?i"
  let ?s1 = "exec (call_hook os cfg (enable_done ?e)) s"
  have i: "?i < USB_MODE_MAX" using s by (simp add: storage_inv_def)
  have "flags ?s1 = call_effect cfg (enable_done ?e) (flags s) \<and>
      tethering_enabled ?s1 = tethering_enabled s \<and> usbd_curr_usb_mode ?s1 = ?i"
    using validD [OF call_hook_flags [of _ "\<lambda>i t. t = tethering_enabled s \<and> i = ?i"], of s] by simp
  then have s1: "storage_inv cfg ?s1"
    using s table_effects(3,4) [OF i, of cfg "flags s"] by (simp add: storage_inv_flags)
  have tell: "keeps (storage_inv cfg) (case d of
      Some msg \<Rightarrow> if fd \<ge> 0 then do { rc \<leftarrow> send os fd msg; return (if rc < 0 then -1 else 0) }
        else return 0
    | None \<Rightarrow> return (0 :: int))" for d
    by (cases d) (auto simp: valid_def storage_inv_flags send_def flags_call flag_after_other)
  show "storage_inv cfg (exec (usbd_enum_process os cfg fd) s)"
    using validD [OF tell s1] i
    by (simp add: usbd_enum_process_def mode_entry_in_range split_beta)
qed

lemma storage_switching: "usbd_switching os (storage_inv cfg) cfg"
proof (unfold_locales, goal_cases)
  case 4 then show ?case by (rule storage_set_usb_mode)
next
  case 5 show ?case by (rule storage_enum_process)
qed (auto simp: valid_def storage_inv_flags exec_forget_app flags_call flag_after_other)

lemma storage_fd_set: "keeps (storage_inv cfg) (fd_set fd)"
  by (simp add: valid_def exec_fd_set storage_inv_flags)

lemma storage_opened: "storage_inv cfg (exec (usbd_open os cfg) init_usbd)"
proof -
  have calls: "usbd_calls os (storage_inv cfg)"
    by unfold_locales (auto simp: valid_def storage_inv_flags flags_call flag_after_other)
  have "storage_inv cfg init_usbd"
    by (simp add: storage_inv_def init_usbd_def gadget_flag_def cdrom_mode_def)
  moreover have "keeps (storage_inv cfg) (usbd_open os cfg)"
    unfolding usbd_open_def uevent_socket_init_def usbd_socket_init_def
      usbd_get_initial_cable_status_def usbd_watch_def set_maxfd_def usbd_get_maxfd_def
    by (intro wp_rules usbd_calls.call [OF calls] usbd_calls.talk [OF calls] keeps_modify
        storage_fd_set) (simp_all add: storage_inv_flags)
  ultimately show ?thesis by (rule validD [rotated])
qed

interpretation gadget: usbd_tolerant os "storage_inv cfg" cfg k for os cfg k
proof (intro usbd_tolerant.intro storage_switching, unfold_locales, goal_cases)
  case 4
  then show ?case
    by (simp add: valid_def storage_inv_flags exec_usbd_save_socket_fd exec_set_maxfd exec_fd_set
        split_beta)
next
  case 5 show ?case by (rule storage_opened)
qed (auto simp: valid_def storage_inv_flags)

text \<open>
  C1: in every run of the daemon, whatever the kernel, the driver, the application and the property
  service answer: the mode stays within the table, \<open>current_usb_online\<close> and the notified state
  agree with the cable, every watched descriptor is one of the four the daemon knows and lies
  below the bound given to \<open>select\<close>, and the application's descriptor is watched (unless
  undefined behaviour was met before) and never present in an alternate mode.
\<close>

theorem usbd_main_consistent: "usbd_inv (exec (usbd_main os cfg k n) init_usbd)"
  by (rule usbd.always)

text \<open>
  C2: in every run of the daemon the phone's storage is exported to the PC (the last shell command
  on the mass-storage function enabled it) only in one of the three mass-storage modes, and the
  CD-ROM function of the driver is on exactly in the modes that offer the CD-ROM.
\<close>

theorem storage_only_in_msc_mode:
  "let s = exec (usbd_main os cfg k n) init_usbd in
   usbd_curr_usb_mode s \<in> (if storage_on s then Collect msc_mode else {..<USB_MODE_MAX}) \<and>
   cdrom_on s = cdrom_mode cfg (usbd_curr_usb_mode s)"
  using gadget.always [of cfg os k n] by (simp add: storage_inv_def Let_def)

section \<open>Requests of the application\<close>

lemma mode_reqs:
  "sorted_wrt (\<lambda>a b. a = None \<or> a \<noteq> b) (map mode_req (usb_mode_list cfg))"
  by (simp add: usb_mode_list_def usb_mode_list_low_def usb_mode_list_high_def usb_mode_entry_def)

lemma find_request:
  assumes "i < USB_MODE_MAX" "mode_req (usb_mode_list cfg ! i) = Some r"
  shows "find_mode cfg (\<lambda>e. mode_req e = Some r) = Some i"
proof -
  have "mode_req (usb_mode_list cfg ! j) \<noteq> Some r" if "j < i" for j
    using sorted_wrt_nth_less [OF mode_reqs that, of cfg] assms that by auto
  then show ?thesis using assms by (simp add: find_mode_def first_index_Some)
qed

definition good_writes :: "usbd_call os \<Rightarrow> bool" where
  "good_writes os \<longleftrightarrow> (\<forall>h fd m. 0 \<le> ret_val (os h (Write fd m)))"

text \<open>What a mode switch touches: the history, the mode and the bookkeeping of the CD-ROM.\<close>

definition rest_of where
  "rest_of s = (fault s, usbd_current_state s, connected_apps_fd s, usbd_server_fd s,
     usb_device_fd s, uevent_sock s, usbd_app_fd s, max_fd s, usb_get_des_count s,
     current_usb_online s, usbd_mode s, usb_alt_mode s, tethering_enabled s,
     usbd_curr_cable_status s, pcSwitchbuf s, adbEnablebuf s, tetheringEnablebuf s)"

definition touched :: "usbd_state \<Rightarrow> usb_mode \<Rightarrow> usbd_state \<Rightarrow> bool" where
  "touched s i t \<longleftrightarrow> prefix (trace s) (trace t) \<and> usbd_curr_usb_mode t = i \<and> rest_of t = rest_of s"

lemma touched_call: "touched s i t \<Longrightarrow> touched s i (t\<lparr>trace := trace t @ [x]\<rparr>)"
  by (simp add: touched_def rest_of_def)

lemma touched_vars:
  "touched s i t \<Longrightarrow> touched s i (t\<lparr>curr_loop_dev := d\<rparr>)"
  "touched s i t \<Longrightarrow> touched s i (t\<lparr>cdrom_mounted := b\<rparr>)"
  "touched s i t \<Longrightarrow> touched s j (t\<lparr>usbd_curr_usb_mode := j\<rparr>)"
  by (simp_all add: touched_def rest_of_def)

lemma touched_calls: "usbd_calls os (touched s i)"
  by unfold_locales (simp_all add: valid_def touched_call touched_vars)

lemma touched_hook: "keeps (touched s i) (call_hook os cfg h)"
proof -
  have sys: "keeps (touched s i) (sh os c)" for c by (simp add: valid_def sh_def touched_call)
  have "keeps (touched s i) (run_hook os cfg g)" for g
    unfolding run_hook_def cdrom_hook_def msc_hook_def
    by (cases g; simp; intro wp_rules sys usbd_calls.keeps_cdrom_partition_mount [OF touched_calls])
  then show ?thesis unfolding call_hook_def by (intro wp_rules)
qed

lemma touched_refl: "touched s (usbd_curr_usb_mode s) s"
  by (simp add: touched_def)

lemma set_usb_mode_touched:
  assumes "m < USB_MODE_MAX" "usbd_curr_usb_mode s < USB_MODE_MAX"
  shows "touched s m (exec (usbd_set_usb_mode os cfg m) s)"
proof -
  let ?e = "usb_mode_list cfg ! usbd_curr_usb_mode s"
  have "valid (touched s (usbd_curr_usb_mode s)) (do {
      call_hook os cfg (pre_disable ?e);
      call_hook os cfg (disable_done ?e);
      modify (\<lambda>s. s\<lparr>usbd_curr_usb_mode := m\<rparr>) }) (\<lambda>_. touched s m)"
    by (intro wp_rules touched_hook) (simp add: valid_def touched_vars(3))
  moreover have "keeps (touched s m) (if m = USB_MODE_MIN then return 0
      else mode_entry cfg m (\<lambda>e. do {
       call_hook os cfg (pre_enable e);
       dev \<leftarrow> gets usb_device_fd;
       syscall os (Write dev (mode_name e @ [NUL]));
       return (0 :: int) }) 0)"
    unfolding mode_entry_in_range [OF assms(1)]
    by (intro wp_rules touched_hook usbd_calls.call [OF touched_calls]) simp
  ultimately have "valid (touched s (usbd_curr_usb_mode s)) (do {
      do { call_hook os cfg (pre_disable ?e);
        call_hook os cfg (disable_done ?e);
        modify (\<lambda>s. s\<lparr>usbd_curr_usb_mode := m\<rparr>) };
      if m = USB_MODE_MIN then return 0
      else mode_entry cfg m (\<lambda>e. do {
       call_hook os cfg (pre_enable e);
       dev \<leftarrow> gets usb_device_fd;
       syscall os (Write dev (mode_name e @ [NUL]));
       return (0 :: int) }) 0 }) (\<lambda>_. touched s m)"
    by (rule valid_bind)
  from validD [OF this touched_refl]
  show ?thesis by (simp add: usbd_set_usb_mode_def mode_entry_in_range [OF assms(2)] split_beta)
qed

lemma touched_frame:
  assumes "touched s i t"
  shows "usbd_curr_usb_mode t = i" "usbd_app_fd t = usbd_app_fd s" "fault t = fault s"
    "connected_apps_fd t = connected_apps_fd s" "current_usb_online t = current_usb_online s"
    "usbd_curr_cable_status t = usbd_curr_cable_status s" "prefix (trace s) (trace t)"
  using assms by (simp_all add: touched_def rest_of_def)

lemma mode_reqs_ok:
  assumes "i < USB_MODE_MAX" "mode_req (usb_mode_list cfg ! i) = Some r"
  shows "nul_free r" "length r < SOCKET_BUFFER_SIZE"
proof -
  have "list_all (\<lambda>e. case mode_req e of None \<Rightarrow> True
      | Some r \<Rightarrow> nul_free r \<and> length r < SOCKET_BUFFER_SIZE) (usb_mode_list cfg)"
    by (simp add: usb_mode_list_def usb_mode_list_low_def usb_mode_list_high_def
        usb_mode_entry_def nul_free_def)
  moreover have "usb_mode_list cfg ! i \<in> set (usb_mode_list cfg)"
    using assms(1) by (intro nth_mem) simp
  ultimately show "nul_free r" "length r < SOCKET_BUFFER_SIZE"
    using assms(2) by (fastforce simp: list_all_iff)+
qed

lemma run_socket_event_request:
  assumes "0 < i" "i < USB_MODE_MAX" "mode_req (usb_mode_list cfg ! i) = Some r"
    and "os (trace s) (Read fd SOCKET_BUFFER_SIZE) = data_result (r @ [NUL])"
    and "usbd_curr_cable_status s \<noteq> MOTO_ACCY_TYPE_EMU_CABLE_FACTORY"
  shows "run_state (usbd_socket_event os cfg fd) s =
    run_state (usbd_mode_request os cfg fd i) (exec (syscall os (Read fd SOCKET_BUFFER_SIZE)) s)"
proof -
  note r = mode_reqs_ok [OF assms(2,3)]
  have "min SOCKET_BUFFER_SIZE (nat (1 + int (length r))) = Suc (length r)"
    using r(2) by linarith
  then have "cstr (take (min SOCKET_BUFFER_SIZE (nat (1 + int (length r)))) (r @ [NUL])) = r"
    using r(1) by simp
  then show ?thesis
    using assms(1,5) find_request [OF assms(2,3)]
    by (simp add: assms(4) usbd_socket_event_def Let_def del: take_append)
qed

lemma socket_event_mode:
  assumes "i < USB_MODE_MAX" "usbd_curr_usb_mode s < USB_MODE_MAX" "current_usb_online s \<noteq> 0"
    and "good_writes os"
  shows "0 \<le> eval_in (usbd_mode_request os cfg fd i) s"
    and "touched s i (exec (usbd_mode_request os cfg fd i) s)"
    and "\<And>ok. resp_ok (usb_mode_list cfg ! i) = Some ok \<Longrightarrow>
      Write fd (ok @ [NUL]) \<in> set (calls (exec (usbd_mode_request os cfg fd i) s))"
proof -
  let ?e = "usb_mode_list cfg ! i"
  let ?m = "case resp_ok ?e of None \<Rightarrow> return 0 | Some msg \<Rightarrow> send os fd msg"
  let ?s1 = "exec ?m s"
  let ?t = "exec (usbd_mode_request os cfg fd i) s"
  have w: "\<not> ret_val (os h (Write f msg)) < 0" for h f msg
    using assms(4) by (simp add: good_writes_def not_less)
  have ok: "\<not> eval_in ?m s < 0" and s1: "touched s (usbd_curr_usb_mode s) ?s1"
    using w by (auto simp: send_def split: option.splits intro: touched_call touched_refl)
  have told: "Write fd (msg @ [NUL]) \<in> set (calls ?s1)" if "resp_ok ?e = Some msg" for msg
    using that by (simp add: send_def)
  note f1 = touched_frame [OF s1]
  have run: "0 \<le> eval_in (usbd_mode_request os cfg fd i) s \<and> touched ?s1 i ?t"
  proof (cases "usbd_curr_usb_mode s = i")
    case False
    then show ?thesis
      using ok f1 assms set_usb_mode_touched [of i ?s1 os cfg]
      by (simp add: usbd_mode_request_def mode_entry_in_range split_beta)
  next
    case True
    then show ?thesis
      using ok f1 assms(1) w
      by (auto simp: usbd_mode_request_def mode_entry_in_range split_beta send_def touched_def
          rest_of_def prefix_def split: option.splits)
  qed
  then show "0 \<le> eval_in (usbd_mode_request os cfg fd i) s" by simp
  show "touched s i ?t" using run s1 by (auto simp: touched_def)
  show "Write fd (ok @ [NUL]) \<in> set (calls ?t)" if "resp_ok ?e = Some ok" for ok
    using told [OF that] run by (auto simp: touched_def prefix_def)
qed

text \<open>
  C22: an application that asks for a mode while a USB cable is plugged in gets the confirmation of
  that mode, stays connected, and the daemon is in the mode afterwards.
\<close>

theorem app_request_honoured:
  assumes "0 < i" "i < USB_MODE_MAX" "mode_req (usb_mode_list cfg ! i) = Some r"
    and "resp_ok (usb_mode_list cfg ! i) = Some ok"
    and "usbd_inv s" "usbd_curr_cable_status s = MOTO_ACCY_TYPE_EMU_CABLE_USB"
    and "os (trace s) (Read (usbd_app_fd s) SOCKET_BUFFER_SIZE) = data_result (r @ [NUL])"
    and "good_writes os"
  shows "let t = exec (usbd_app_event os cfg) s in
    usbd_curr_usb_mode t = i \<and> usbd_app_fd t = usbd_app_fd s \<and> fault t = fault s \<and>
    Write (usbd_app_fd s) (ok @ [NUL]) \<in> set (calls t)"
proof -
  let ?fd = "usbd_app_fd s"
  let ?s1 = "exec (syscall os (Read ?fd SOCKET_BUFFER_SIZE)) s"
  have s1: "usbd_curr_usb_mode ?s1 < USB_MODE_MAX" "current_usb_online ?s1 \<noteq> 0"
    "usbd_app_fd ?s1 = ?fd" "fault ?s1 = fault s"
    using assms(5,6) by (simp_all add: usbd_inv_def cable_ok_def)
  note req = socket_event_mode [OF assms(2) s1(1,2) assms(8), where cfg = cfg and fd = ?fd]
  have "exec (usbd_app_event os cfg) s = exec (usbd_mode_request os cfg ?fd i) ?s1"
    using req(1) run_socket_event_request [of i cfg r os s ?fd] assms
    by (simp add: usbd_app_event_def split_beta)
  then show ?thesis
    using req(3) [OF assms(4)] touched_frame [OF req(2)] s1 by (simp add: Let_def)
qed

definition phone_cfg :: usbd_cfg where
  "phone_cfg = \<lparr>msd_cdrom_enabled = False, at_relay = False, usbd_tablet_mode = False,
     cdromio_devnode = ''/sys/devices/platform/usb_mass_storage/lun0/file'',
     cdrom_block_device = ''/dev/block/cdrom''\<rparr>"

definition plugged_in :: usbd_state where
  "plugged_in = init_usbd\<lparr>usbd_curr_cable_status := MOTO_ACCY_TYPE_EMU_CABLE_USB,
     current_usb_online := 1, usbd_current_state := USBD_STATE_CABLE_ATTACHED,
     usbd_app_fd := 5, connected_apps_fd := {5}, max_fd := 5\<rparr>"

lemma plugged_in_inv: "usbd_inv plugged_in"
  by (simp add: plugged_in_def init_usbd_def inv_defs)

definition asks_for :: "string \<Rightarrow> usbd_call os" where
  "asks_for r h c = (case c of Read _ _ \<Rightarrow> data_result (r @ [NUL]) | _ \<Rightarrow> result 0)"

theorem app_request_honoured_witness:
  "usbd_curr_usb_mode (exec (usbd_app_event (asks_for ''usb_mode_msc'') phone_cfg) plugged_in)
   = USB_MODE_MSC"
proof -
  have "mode_req (usb_mode_list phone_cfg ! 4) = Some ''usb_mode_msc''"
    "resp_ok (usb_mode_list phone_cfg ! 4) = Some ''usb_mode_msc:ok''"
    by (simp_all add: usb_mode_list_def usb_mode_list_low_def usb_mode_entry_def)
  from app_request_honoured [OF _ _ this plugged_in_inv, of "asks_for ''usb_mode_msc''"]
  show ?thesis by (simp add: plugged_in_def asks_for_def good_writes_def Let_def)
qed

text \<open>
  While a factory cable is plugged in, a message of the application is read and has no other
  effect.
\<close>

lemma factory_ignores_app:
  assumes "usbd_curr_cable_status s = MOTO_ACCY_TYPE_EMU_CABLE_FACTORY"
    and "0 < ret_val (os (trace s) (Read (usbd_app_fd s) SOCKET_BUFFER_SIZE))"
  shows "exec (usbd_app_event os cfg) s = exec (syscall os (Read (usbd_app_fd s) SOCKET_BUFFER_SIZE)) s"
  using assms by (simp add: usbd_app_event_def usbd_socket_event_def Let_def)

text \<open>
  When the application hangs up or its socket fails, the daemon forgets it: its descriptor is no
  longer watched, the invariant holds, and the next client is taken in.
\<close>

lemma app_hangup_forgets:
  assumes "usbd_inv s" "ret_val (os (trace s) (Read (usbd_app_fd s) SOCKET_BUFFER_SIZE)) \<le> 0"
  shows "let t = exec (usbd_app_event os cfg) s in
    usbd_app_fd t = -1 \<and> usbd_app_fd s \<notin> connected_apps_fd t \<and> usbd_inv t \<and>
    usbd_app_fd (exec (usbd_save_socket_fd fd) t) = fd"
proof -
  let ?t = "exec (usbd_app_event os cfg) s"
  have "usbd_app_fd ?t = -1 \<and> usbd_app_fd s \<notin> connected_apps_fd ?t"
    using assms(2)
    by (auto simp: usbd_app_event_def usbd_socket_event_def exec_forget_app split_beta Let_def)
  moreover have "usbd_inv ?t"
    using validD [OF usbd.keeps_usbd_app_event assms(1)] .
  ultimately show ?thesis by (simp add: exec_usbd_save_socket_fd Let_def)
qed

text \<open>
  When the property service gives no answer for \<open>persist.service.adb.enable\<close>, the default mode
  of every alternate start mode is the one with ADB (the error value -1 passes for true), while
  a switch request of the PC is dropped on the same error.
\<close>

lemma adb_error_opens_adb:
  assumes "ret_val (os (trace s) (Property_get ''persist.service.adb.enable'' ''0'')) = 0"
    and "usbd_curr_usb_mode s < USB_MODE_MAX"
    and "usbd_mode s \<in> {MOTO_MODE_TYPE_DEBUG, MOTO_MODE_TYPE_BPTOOLS, MOTO_MODE_TYPE_TABLET}"
  shows "usbd_curr_usb_mode (exec (usbd_enumerate_default_mode os cfg) s) \<in>
      {USB_MODE_MSC_ADB, USB_MODE_BPTOOLS_ETH_ADB, USB_MODE_TABLET_NETWORK_MTP_ADB} \<and>
    usbd_curr_usb_mode (exec (usb_req_mode_switch os cfg tag) s) = usbd_curr_usb_mode s"
proof
  have m: "usbd_curr_usb_mode (exec (usbd_set_usb_mode os cfg m) t) = m"
    if "m < USB_MODE_MAX" "usbd_curr_usb_mode t < USB_MODE_MAX" for m t
    using set_usb_mode_touched [OF that, of os cfg] touched_frame(1) by blast
  show "usbd_curr_usb_mode (exec (usbd_enumerate_default_mode os cfg) s) \<in>
      {USB_MODE_MSC_ADB, USB_MODE_BPTOOLS_ETH_ADB, USB_MODE_TABLET_NETWORK_MTP_ADB}"
    using assms
    by (auto simp: usbd_enumerate_default_mode_def usbd_get_adb_property_def property_get_def
        split_beta m)
  show "usbd_curr_usb_mode (exec (usb_req_mode_switch os cfg tag) s) = usbd_curr_usb_mode s"
    using assms(1)
    by (simp add: usb_req_mode_switch_def usbd_get_adb_property_def property_get_def split_beta)
qed

definition no_properties :: "usbd_call os" where
  "no_properties h c = result 0"

lemma adb_error_opens_adb_witness:
  "usbd_curr_usb_mode (exec (usbd_enumerate_default_mode no_properties phone_cfg)
     (init_usbd\<lparr>usbd_mode := MOTO_MODE_TYPE_DEBUG\<rparr>)) \<in>
   {USB_MODE_MSC_ADB, USB_MODE_BPTOOLS_ETH_ADB, USB_MODE_TABLET_NETWORK_MTP_ADB}"
  using adb_error_opens_adb [of no_properties "init_usbd\<lparr>usbd_mode := MOTO_MODE_TYPE_DEBUG\<rparr>" phone_cfg]
  by (simp add: no_properties_def init_usbd_def)

lemma factory_ignores_app_witness:
  "exec (usbd_app_event (asks_for ''usb_mode_msc'') phone_cfg)
     (plugged_in\<lparr>usbd_curr_cable_status := MOTO_ACCY_TYPE_EMU_CABLE_FACTORY\<rparr>) =
   exec (syscall (asks_for ''usb_mode_msc'') (Read 5 SOCKET_BUFFER_SIZE))
     (plugged_in\<lparr>usbd_curr_cable_status := MOTO_ACCY_TYPE_EMU_CABLE_FACTORY\<rparr>)"
  using factory_ignores_app [of "plugged_in\<lparr>usbd_curr_cable_status := MOTO_ACCY_TYPE_EMU_CABLE_FACTORY\<rparr>"
      "asks_for ''usb_mode_msc''" phone_cfg]
  by (simp add: plugged_in_def asks_for_def)

lemma app_hangup_forgets_witness:
  "usbd_app_fd (exec (usbd_app_event no_properties phone_cfg) plugged_in) = -1"
  using app_hangup_forgets [OF plugged_in_inv, of no_properties phone_cfg 0]
  by (simp add: no_properties_def Let_def)

lemma kernel_message_user:
  assumes "(\<forall>h. ret_val (os h (Msg_field ''nl_pid'')) \<noteq> 0) \<or> (\<forall>h. ret_val (os h (Msg_field ''uid'')) \<noteq> 0)"
  shows "\<not> eval_in (kernel_message os) s"
  using assms by (auto simp: kernel_message_def)

lemma quiet_kernel_message: "quiet (kernel_message os)"
  unfolding kernel_message_def by (intro quiet_rules)

text \<open>
  C23: a uevent whose sender is not the kernel (a netlink port) or not root changes nothing.
\<close>

theorem untrusted_uevent_ignored:
  assumes "(\<forall>h. ret_val (os h (Msg_field ''nl_pid'')) \<noteq> 0) \<or> (\<forall>h. ret_val (os h (Msg_field ''uid'')) \<noteq> 0)"
  shows "\<not> eval_in (process_usb_uevent_message os fd) s \<and>
    (\<exists>h. exec (process_usb_uevent_message os fd) s = s\<lparr>trace := trace s @ h\<rparr>)"
proof -
  let ?r = "os (trace s) (Recvmsg fd USBD_UEVENT_MSG_LEN)"
  let ?s = "s\<lparr>trace := trace s @ [(Recvmsg fd USBD_UEVENT_MSG_LEN, ?r)]\<rparr>"
  obtain h where "exec (kernel_message os) ?s = ?s\<lparr>trace := trace ?s @ h\<rparr>"
    by (rule quietE [OF quiet_kernel_message])
  then have "exec (kernel_message os) ?s =
      s\<lparr>trace := trace s @ ((Recvmsg fd USBD_UEVENT_MSG_LEN, ?r) # h)\<rparr>"
    by simp
  with kernel_message_user [OF assms, of ?s] show ?thesis
    by (auto simp: process_usb_uevent_message_def split_beta Let_def)
qed

theorem untrusted_uevent_ignored_witness:
  "\<not> eval_in (process_usb_uevent_message (\<lambda>h c. case c of Msg_field f \<Rightarrow> result 1000
     | _ \<Rightarrow> data_result (''change@/devices/virtual/switch/usb_connected'' @ [NUL])) 3) plugged_in"
  by (rule conjunct1 [OF untrusted_uevent_ignored]) simp

section \<open>Messages of the driver\<close>

definition field :: "nat \<Rightarrow> string \<Rightarrow> bool" where
  "field cap f \<longleftrightarrow> f \<noteq> [] \<and> length f < cap \<and> nul_free f \<and> CHR '':'' \<notin> set f"

definition driver_message :: "string \<Rightarrow> string \<Rightarrow> string \<Rightarrow> string \<Rightarrow> string" where
  "driver_message pc adb tether enum = pc @ '':'' @ adb @ '':'' @ tether @ '':'' @ enum"

lemma fill_short: "length d < n \<Longrightarrow> \<exists>k. fill n d = d @ NUL # replicate k NUL"
  by (rule exI [of _ "n - length d - 1"])
     (simp add: fill_def min_def replicate_Suc [symmetric] Suc_diff_Suc del: replicate_Suc)

lemma takeWhile_field:
  "CHR '':'' \<notin> set f \<Longrightarrow> rest = [] \<or> hd rest = CHR '':'' \<Longrightarrow>
   takeWhile (\<lambda>c. c \<noteq> CHR '':'') (f @ rest) = f"
  by (cases rest) (auto simp: takeWhile_append takeWhile_eq_all_conv)

lemma scan_at_field:
  assumes "field cap f" "nul_free rest" "rest = [] \<or> hd rest = CHR '':''"
    and "length pre + length f + length rest < 90"
  shows "scan_at cap (fill 90 (pre @ f @ rest)) (length pre) old = Some f"
proof -
  obtain k where "fill 90 (pre @ f @ rest) = (pre @ f @ rest) @ NUL # replicate k NUL"
    using fill_short [of "pre @ f @ rest" 90] assms(4) by auto
  moreover have "nul_free (f @ rest)" using assms(1,2) by (simp add: field_def)
  then have "cstr (f @ rest @ NUL # replicate k NUL) = f @ rest"
    using cstr_append_nul [of "f @ rest" "replicate k NUL"] by simp
  ultimately show ?thesis
    using assms takeWhile_field [of f rest]
    by (auto simp: scan_at_def devbuf_at_def sscanf_field_def field_def Let_def)
qed

lemma enubuf_of_message:
  assumes "nul_free (pre @ enum)" "length (pre @ enum) < 90" "length pre = used + 3"
  shows "enubuf_of (fill 90 (pre @ enum)) used = enum"
proof -
  obtain k where f: "fill 90 (pre @ enum) = (pre @ enum) @ NUL # replicate k NUL"
    using fill_short [of "pre @ enum" 90] assms(2) by auto
  have "cstr ((pre @ enum) @ NUL # replicate k NUL) = pre @ enum"
    by (rule cstr_append_nul [OF assms(1)])
  moreover have "cstr (enum @ [NUL]) = enum" using assms(1) by simp
  ultimately show ?thesis
    using assms(3) by (simp add: enubuf_of_def f Let_def nat_add_distrib)
qed

text \<open>The four fields of a well-formed message, as \<open>main\<close> scans them.\<close>

lemma message_scans:
  assumes "field 50 pc" "field 20 adb" "field 20 tether" "nul_free enum"
    and "length (driver_message pc adb tether enum) < 90"
  defines "buf \<equiv> fill 90 (driver_message pc adb tether enum)"
  shows "scan_at 50 buf 0 old = Some pc"
    and "scan_at 20 buf (Suc (length pc)) old = Some adb"
    and "scan_at 20 buf (Suc (Suc (length pc + length adb))) old = Some tether"
    and "enubuf_of buf (length pc + length adb + length tether) = enum"
proof -
  have nf: "nul_free pc" "nul_free adb" "nul_free tether" using assms(1-3) by (auto simp: field_def)
  show "scan_at 50 buf 0 old = Some pc"
    using scan_at_field [OF assms(1), of "'':'' @ adb @ '':'' @ tether @ '':'' @ enum" "[]"]
      assms(4,5) nf by (simp add: buf_def driver_message_def nul_free_def)
  show "scan_at 20 buf (Suc (length pc)) old = Some adb"
    using scan_at_field [OF assms(2), of "'':'' @ tether @ '':'' @ enum" "pc @ '':''"]
      assms(4,5) nf by (simp add: buf_def driver_message_def nul_free_def)
  show "scan_at 20 buf (Suc (Suc (length pc + length adb))) old = Some tether"
    using scan_at_field [OF assms(3), of "'':'' @ enum" "pc @ '':'' @ adb @ '':''"]
      assms(4,5) by (simp add: buf_def driver_message_def nul_free_def)
  show "enubuf_of buf (length pc + length adb + length tether) = enum"
    using enubuf_of_message [of "pc @ '':'' @ adb @ '':'' @ tether @ '':''" enum] assms(4,5) nf
    by (simp add: buf_def driver_message_def nul_free_def add.assoc)
qed

lemma message_whole:
  assumes "length (driver_message pc adb tether enum) < 90"
  shows "take (min 89 (length (driver_message pc adb tether enum))) (driver_message pc adb tether enum)
      = driver_message pc adb tether enum"
    and "driver_message pc adb tether enum \<noteq> []"
  using assms by (auto simp: driver_message_def)

text \<open>
  A message \<open>mode:adb:tethering:enumeration\<close> of the driver whose fields fit their buffers is
  handled as exactly these four fields.
\<close>

lemma driver_message_parsed:
  assumes "field 50 pc" "field 20 adb" "field 20 tether" "nul_free enum"
    and "length (driver_message pc adb tether enum) < 90"
    and "usbd_curr_cable_status s \<noteq> MOTO_ACCY_TYPE_EMU_CABLE_FACTORY"
    and "os (trace s) (Read (usb_device_fd s) 89) = data_result (driver_message pc adb tether enum)"
  shows "exec (usbd_device_event os cfg) s =
    exec (usbd_driver_message os cfg pc adb tether enum)
      ((exec (syscall os (Read (usb_device_fd s) 89)) s)
        \<lparr>pcSwitchbuf := Some pc, adbEnablebuf := Some adb, tetheringEnablebuf := Some tether\<rparr>)"
  using assms(6) message_scans [OF assms(1-5)] message_whole [OF assms(5)]
  by (simp add: usbd_device_event_def assms(7) Let_def)

lemma driver_message_parsed_witness:
  "usbd_current_state (exec (usbd_device_event (\<lambda>h c. case c of
       Read _ _ \<Rightarrow> data_result (driver_message ''none'' ''adb_enable'' ''none'' ''enumerated'')
     | _ \<Rightarrow> result 1) phone_cfg) plugged_in) = USBD_STATE_ENUMERATED"
proof -
  have f: "field 50 ''none''" "field 20 ''adb_enable''" "field 20 ''none''" "nul_free ''enumerated''"
    "length (driver_message ''none'' ''adb_enable'' ''none'' ''enumerated'') < 90"
    by (simp_all add: field_def nul_free_def driver_message_def)
  show ?thesis
    by (subst driver_message_parsed [OF f])
       (simp_all add: plugged_in_def init_usbd_def usbd_driver_message_def usbd_forward_status_def
         usbd_send_adb_status_def send_def usbd_enum_event_def usbd_enum_process_def
         mode_entry_def call_hook_def usb_mode_list_def usb_mode_list_low_def usb_mode_entry_def
         strncmp_eq_def split_beta)
qed

end
