(* ===== verification/Usbd_Robust.thy ===== *)
theory Usbd_Robust
  imports Usbd_Theorems
begin

text \<open>
  The USB mode daemon with a well-behaved kernel and driver: no run reaches undefined behaviour;
  the loop device of the CD-ROM image, the version message and the alternate modes.
\<close>

section \<open>Well-formed messages never break the daemon\<close>





























section \<open>Loop devices\<close>

text \<open>
  A kernel on which the loop devices below \<open>j\<close> are bound, \<open>j\<close> is free (its status is \<open>ENXIO\<close>)
  and device \<open>i\<close> opens as descriptor \<open>10 + i\<close>; the image opens and binds.
\<close>

definition loops_bound :: "nat \<Rightarrow> usbd_call os \<Rightarrow> bool" where
  "loops_bound j os \<longleftrightarrow>
     (\<forall>h i. i \<le> j \<longrightarrow> (let m = os h (Mknod (loop_path i) 25008 (loop_dev i)) in
          0 \<le> ret_val m \<or> ret_errno m = EEXIST) \<and>
        os h (Open (loop_path i)) = result (10 + int i) \<and>
        os h (Ioctl (10 + int i) ''LOOP_GET_STATUS'' 0) = (if i < j then result 0 else failure ENXIO) \<and>
        0 \<le> ret_val (os h (Open CDROM_FILE)) \<and>
        (\<forall>f. 0 \<le> ret_val (os h (Ioctl (10 + int i) ''LOOP_SET_FD'' f))))"

lemma run_loop_search_bound:
  assumes "loops_bound j os" "i < j"
  shows "run_state (loop_search os (Suc k) i) s = run_state (loop_search os k (Suc i))
    (s\<lparr>trace := trace s @
      [(Mknod (loop_path i) 25008 (loop_dev i), os (trace s) (Mknod (loop_path i) 25008 (loop_dev i))),
       (Open (loop_path i), result (10 + int i)),
       (Ioctl (10 + int i) ''LOOP_GET_STATUS'' 0, result 0),
       (Close (10 + int i), os (trace s @
         [(Mknod (loop_path i) 25008 (loop_dev i), os (trace s) (Mknod (loop_path i) 25008 (loop_dev i))),
          (Open (loop_path i), result (10 + int i)),
          (Ioctl (10 + int i) ''LOOP_GET_STATUS'' 0, result 0)]) (Close (10 + int i)))]\<rparr>)"
  using assms by (auto simp: loops_bound_def Let_def not_less [symmetric])

lemma run_loop_search_free:
  assumes "loops_bound j os"
  shows "\<exists>h. run_state (loop_search os (Suc k) j) s =
    (Some (10 + int j, j), s\<lparr>trace := trace s @ h\<rparr>)"
  using assms by (auto simp: loops_bound_def Let_def not_less [symmetric])

lemma loop_search_finds:
  assumes "loops_bound j os"
  shows "i \<le> j \<Longrightarrow> j < i + k \<Longrightarrow> \<exists>h. run_state (loop_search os k i) s =
      (Some (10 + int j, j), s\<lparr>trace := trace s @ h\<rparr>) \<and>
    (\<forall>m. i \<le> m \<longrightarrow> m < j \<longrightarrow> Close (10 + int m) \<in> set (map fst h))"
proof (induction k arbitrary: i s)
  case (Suc k)
  show ?case
  proof (cases "i = j")
    case True
    then show ?thesis using run_loop_search_free [OF assms, of k s] by fastforce
  next
    case False
    with Suc.prems have i: "i < j" "Suc i \<le> j" "j < Suc i + k" by auto
    note run = run_loop_search_bound [OF assms i(1), of k s]
    let ?t = "s\<lparr>trace := trace s @
      [(Mknod (loop_path i) 25008 (loop_dev i), os (trace s) (Mknod (loop_path i) 25008 (loop_dev i))),
       (Open (loop_path i), result (10 + int i)),
       (Ioctl (10 + int i) ''LOOP_GET_STATUS'' 0, result 0),
       (Close (10 + int i), os (trace s @
         [(Mknod (loop_path i) 25008 (loop_dev i), os (trace s) (Mknod (loop_path i) 25008 (loop_dev i))),
          (Open (loop_path i), result (10 + int i)),
          (Ioctl (10 + int i) ''LOOP_GET_STATUS'' 0, result 0)]) (Close (10 + int i)))]\<rparr>"
    obtain h where h: "run_state (loop_search os k (Suc i)) ?t =
        (Some (10 + int j, j), ?t\<lparr>trace := trace ?t @ h\<rparr>)"
      "\<forall>m. Suc i \<le> m \<longrightarrow> m < j \<longrightarrow> Close (10 + int m) \<in> set (map fst h)"
      using Suc.IH [OF i(2,3)] by blast
    let ?h = "drop (length (trace s)) (trace ?t) @ h"
    have "Close (10 + int m) \<in> set (map fst ?h)" if "i \<le> m" "m < j" for m
      using h(2) that by (cases "m = i") auto
    moreover have "run_state (loop_search os (Suc k) i) s =
        (Some (10 + int j, j), s\<lparr>trace := trace s @ ?h\<rparr>)"
      unfolding run h(1) by simp
    ultimately show ?thesis by blast
  qed
qed simp

lemma length_show_nat: "n < 10000 \<Longrightarrow> length (show_nat n) \<le> 4"
proof -
  assume "n < 10000"
  then have "n div 10 < 1000" "n div 10 div 10 < 100" "n div 10 div 10 div 10 < 10" by auto
  then show ?thesis
    by (simp add: show_nat.simps [of n] show_nat.simps [of "n div 10"]
        show_nat.simps [of "n div 10 div 10"] show_nat.simps [of "n div 10 div 10 div 10"])
qed

text \<open>
  \<open>loop_create\<close> binds the image to the first free loop device: it returns 0, leaves the path of
  that device in \<open>curr_loop_dev\<close>, and closes every device it has opened on the way.
\<close>

lemma loop_create_first_free:
  assumes "loops_bound j os" "j < LOOP_MAX"
  shows "let t = exec (loop_create os CDROM_FILE) s in
    eval_in (loop_create os CDROM_FILE) s = 0 \<and> curr_loop_dev t = loop_path j \<and>
    (\<exists>f. Ioctl (10 + int j) ''LOOP_SET_FD'' f \<in> set (calls t)) \<and>
    (\<forall>m\<le>j. Close (10 + int m) \<in> set (calls t))"
proof -
  obtain h where h: "run_state (loop_search os LOOP_MAX 0) s =
      (Some (10 + int j, j), s\<lparr>trace := trace s @ h\<rparr>)"
    "\<forall>m. m < j \<longrightarrow> Close (10 + int m) \<in> set (map fst h)"
    using loop_search_finds [OF assms(1), of 0 LOOP_MAX s] assms(2) by auto
  have path: "length (loop_path j) \<le> LOOP_DEV_PATH_LEN - 1"
    using length_show_nat [of j] assms(2) by (simp add: loop_path_def)
  have ok: "\<not> ret_val (os h' (Open CDROM_FILE)) < 0"
    "\<not> ret_val (os h' (Ioctl (10 + int j) ''LOOP_SET_FD'' f)) < 0" for h' f
    using assms(1) unfolding loops_bound_def not_less by blast+
  show ?thesis
    using h(2) ok path unfolding loop_create_def
    by (auto simp: h(1) Let_def image_iff le_less)
qed


definition one_loop :: "usbd_call os" where
  "one_loop h c = (case c of
     Open p \<Rightarrow> result (if p = loop_path 0 then 10 else 11)
   | Ioctl fd cmd _ \<Rightarrow> (if fd = 11 \<and> cmd = ''LOOP_GET_STATUS'' then failure ENXIO else result 0)
   | _ \<Rightarrow> result 0)"

lemma loops_bound_one: "loops_bound 1 one_loop"
proof -
  have "loop_path 1 \<noteq> loop_path 0"
    by (simp add: loop_path_def show_nat.simps digit_char_def)
  then show ?thesis
    by (auto simp: loops_bound_def one_loop_def Let_def le_Suc_eq numeral_eq_Suc)
qed

lemma loop_create_first_free_witness:
  "curr_loop_dev (exec (loop_create one_loop CDROM_FILE) init_usbd) = loop_path 1"
  using loop_create_first_free [OF loops_bound_one] by (simp add: Let_def)

section \<open>The version message\<close>

definition version_message_ok :: "usbd_call \<Rightarrow> bool" where
  "version_message_ok c \<longleftrightarrow>
     (case c of Write _ m \<Rightarrow> length m \<le> MAX_VERSION_SIZE \<and> prefix version_prefix m \<and> last m = NUL
      | _ \<Rightarrow> True)"

lemma length_version_prefix: "length version_prefix = 22"
  by (simp add: version_prefix_def)

lemma version_message_write:
  "n \<le> 232 \<Longrightarrow> version_message_ok (Write fd (version_prefix @ fill n d @ [NUL]))"
  by (simp add: version_message_ok_def fill_def length_version_prefix)

lemma version_message_other [simp]:
  "version_message_ok (Fopen p)" "version_message_ok (Ftell f)" "version_message_ok (Fread f n)"
  "version_message_ok (Fclose f)"
  by (simp_all add: version_message_ok_def)

text \<open>
  Whatever the version file holds and however long it is, the message that reports it to the
  driver fits its buffer of 255 bytes, starts with the key word and ends with a NUL.
\<close>

lemma version_message_bounded:
  "list_all version_message_ok
     (drop (length (trace s)) (calls (exec (cdrom_read_version_key os) s)))"
  by (simp add: cdrom_read_version_key_def Let_def length_version_prefix version_message_write)

section \<open>Alternate modes\<close>

text \<open>
  In the BP-tools and tablet modes the driver's ADB and tethering reports select the mode of the
  table: BP tools with RNDIS when tethering and with ADB when ADB is on; a tablet without ADB
  goes to the CD-ROM mode whether it tethers or not.
\<close>

lemma alt_mode_set_selects:
  assumes "m \<in> {MOTO_MODE_TYPE_BPTOOLS, MOTO_MODE_TYPE_TABLET}"
    and "usbd_curr_usb_mode s < USB_MODE_MAX"
  shows "usbd_curr_usb_mode (exec (usbd_alt_mode_set os cfg m
      (if adb then ''adb_enable'' else ''adb_disable'')
      (if tether then ''tethering_enable'' else ''tethering_disable'')) s) =
    (if m = MOTO_MODE_TYPE_BPTOOLS then
       (if tether then if adb then USB_MODE_RNDIS_BPTOOLS_ETH_ADB else USB_MODE_RNDIS_BPTOOLS_ETH
        else if adb then USB_MODE_BPTOOLS_ETH_ADB else USB_MODE_BPTOOLS_ETH)
     else if adb then if tether then USB_MODE_RNDIS_ADB else USB_MODE_TABLET_NETWORK_MTP_ADB
     else USB_MODE_CDROM)"
proof -
  have set: "usbd_curr_usb_mode (exec (usbd_set_usb_mode os cfg m) t) = m"
    if "m < USB_MODE_MAX" "usbd_curr_usb_mode t < USB_MODE_MAX" for m t
    using set_usb_mode_touched [OF that, of os cfg] touched_frame(1) by blast
  show ?thesis using assms
    by (cases adb; cases tether)
       (auto simp: usbd_alt_mode_set_def switch_flag_def alt_mode_apply_def alt_mode_lookup_def
         usb_alt_mode_tlb_def split_beta set Let_def)
qed

lemma alt_mode_set_selects_witness:
  "usbd_curr_usb_mode (exec (usbd_alt_mode_set no_properties phone_cfg MOTO_MODE_TYPE_BPTOOLS
     ''adb_enable'' ''tethering_disable'') init_usbd) = USB_MODE_BPTOOLS_ETH_ADB"
  using alt_mode_set_selects [of MOTO_MODE_TYPE_BPTOOLS init_usbd no_properties phone_cfg True False]
  by (simp add: init_usbd_def)

end
