(* ===== verification/Boot_Mode.thy ===== *)
theory Boot_Mode
  imports Prelude
begin

text \<open>
  The boot mode check (\<open>src/mot_boot_mode/mot_boot_mode.c\<close>), run once by \<open>init\<close>: it reads the
  boot loader's report in \<open>/proc/bootinfo\<close>, the property \<open>ro.bootmode\<close> and the flag file of the
  charge-only program, and sets the properties that decide which services start.
\<close>

section \<open>Model\<close>

datatype boot_call =
    BOpen string | BRead int nat | BClose int | BFtruncate int
  | BProperty_get string string | BProperty_set string string

text \<open>\<open>mode[20]\<close> is the one global.\<close>

record boot_state = "boot_call io_state" +
  mode_buf :: string

type_synonym 'a boot = "(boot_state, 'a) state"

definition init_boot :: boot_state where
  "init_boot = \<lparr>trace = [], fault = False, mode_buf = replicate 20 NUL\<rparr>"

abbreviation "MOTO_PU_REASON_CHARGE_ONLY \<equiv> ''0x00000100''"
abbreviation "MOTO_PU_REASON_CPCAP_RESET \<equiv> ''0x00040000''"
abbreviation "MOTO_PU_REASON_KPANIC \<equiv> ''0x00020000''"
abbreviation "MOTO_PU_REASON_WDRESET \<equiv> ''0x00008000''"
abbreviation "MOTO_CID_RECOVER_BOOT \<equiv> ''0x01''"
abbreviation "COM_FS_PATH \<equiv> ''/data/chargeonlymode''"
abbreviation "COM_MAX_MODE_LENGTH \<equiv> 20 :: nat"

text \<open>
  The loop that copies a word into \<open>bootreason[32]\<close>: \<open>b\<close> is what it holds so far. It stops at
  the end, at white space, or when 31 characters are in.
\<close>

fun copy_word :: "string \<Rightarrow> string \<Rightarrow> string" where
  "copy_word b [] = b"
| "copy_word b (c # x) =
     (if isspace c then b
      else if length (b @ [c]) = 31 then b @ [c] else copy_word (b @ [c]) x)"

definition bootinfo_value :: "string \<Rightarrow> string \<Rightarrow> string" where
  "bootinfo_value field data =
     (case strstr data field of
        None \<Rightarrow> []
      | Some pwrup_rsn \<Rightarrow>
          (case strstr pwrup_rsn '': '' of None \<Rightarrow> [] | Some x \<Rightarrow> copy_word [] (drop 2 x)))"

definition check_bootinfo :: "boot_call os \<Rightarrow> string \<Rightarrow> string \<Rightarrow> bool boot" where
  "check_bootinfo os field value = do {
     fd \<leftarrow> syscall os (BOpen ''/proc/bootinfo'');
     if ret_val fd < 0 then return False
     else do {
       n \<leftarrow> syscall os (BRead (ret_val fd) 1023);
       syscall os (BClose (ret_val fd));
       if ret_val n < 0 then return False
       else return (bootinfo_value field
              (cstr (take (min 1023 (nat (ret_val n))) (ret_data n))) = value)
     }
   }"

definition boot_property :: "boot_call os \<Rightarrow> string \<Rightarrow> string \<Rightarrow> string boot" where
  "boot_property os key dflt = do {
     r \<leftarrow> syscall os (BProperty_get key dflt);
     return (cstr (ret_data r))
   }"

text \<open>C's \<open>||\<close> and \<open>&&\<close> on functions with effects.\<close>

definition orelse :: "bool boot \<Rightarrow> bool boot \<Rightarrow> bool boot" where
  "orelse a b = do { x \<leftarrow> a; if x then return True else b }"

definition andalso :: "bool boot \<Rightarrow> bool boot \<Rightarrow> bool boot" where
  "andalso a b = do { x \<leftarrow> a; if x then b else return False }"

definition check_abnormal_reboot :: "boot_call os \<Rightarrow> bool boot" where
  "check_abnormal_reboot os = do {
     abnormal_boot \<leftarrow> boot_property os ''ro.bootmode'' ''unknown'';
     if strncmp_eq abnormal_boot ''kpanic'' 6 \<or> strncmp_eq abnormal_boot ''wdreset'' 7 \<or>
        strncmp_eq abnormal_boot ''wdcpcap'' 7
     then return True
     else orelse (check_bootinfo os ''POWERUPREASON'' MOTO_PU_REASON_KPANIC)
       (orelse (check_bootinfo os ''POWERUPREASON'' MOTO_PU_REASON_WDRESET)
         (check_bootinfo os ''POWERUPREASON'' MOTO_PU_REASON_CPCAP_RESET))
   }"

text \<open>Every branch returns before the \<open>ftruncate\<close> and the \<open>close\<close> at the end of the function.\<close>

definition check_com_reset :: "boot_call os \<Rightarrow> bool boot" where
  "check_com_reset os = do {
     fd \<leftarrow> syscall os (BOpen COM_FS_PATH);
     if ret_val fd < 0 then return False
     else do {
       r \<leftarrow> syscall os (BRead (ret_val fd) COM_MAX_MODE_LENGTH);
       if ret_val r \<le> 0 then return False
       else do {
         let d = take (min COM_MAX_MODE_LENGTH (nat (ret_val r))) (ret_data r);
         modify (\<lambda>s. s\<lparr>mode_buf := d @ drop (length d) (mode_buf s)\<rparr>);
         m \<leftarrow> gets mode_buf;
         return (strncmp_eq (cstr m) ''charging'' 8)
       }
     }
   }"

definition boot_reason_charge_only :: "boot_call os \<Rightarrow> bool boot" where
  "boot_reason_charge_only os = do {
     powerup_reason \<leftarrow> boot_property os ''ro.bootmode'' ''unknown'';
     if strncmp_eq powerup_reason ''charger'' 7 then return True
     else orelse (check_bootinfo os ''POWERUPREASON'' MOTO_PU_REASON_CHARGE_ONLY)
       (andalso (check_abnormal_reboot os) (check_com_reset os))
   }"

definition check_cid_recover_boot :: "boot_call os \<Rightarrow> bool boot" where
  "check_cid_recover_boot os = do {
     cid_recover_boot \<leftarrow> boot_property os ''ro.bootmode'' ''unknown'';
     if strncmp_eq cid_recover_boot ''cidtcmd'' 7 then return True
     else check_bootinfo os (CHR 0x0A # ''CID_RECOVER_BOOT'') MOTO_CID_RECOVER_BOOT
   }"

definition check_data_12m :: "bool boot" where
  "check_data_12m = return False"

definition property_set :: "boot_call os \<Rightarrow> string \<Rightarrow> string \<Rightarrow> unit boot" where
  "property_set os key v = do { syscall os (BProperty_set key v); return () }"

definition mot_boot_main :: "boot_call os \<Rightarrow> int boot" where
  "mot_boot_main os = do {
     recover \<leftarrow> check_cid_recover_boot os;
     if recover then do {
       property_set os ''tcmd.cid.recover.boot'' ''1'';
       property_set os ''tcmd.suspend'' ''1'';
       return 0
     } else do {
       charge_only \<leftarrow> boot_reason_charge_only os;
       if charge_only then do {
         property_set os ''sys.chargeonly.mode'' ''1'';
         return 0
       } else do {
         m12 \<leftarrow> check_data_12m;
         if m12 then do {
           property_set os ''tcmd.12m.test'' ''1'';
           property_set os ''tcmd.suspend'' ''1'';
           return 0
         } else do {
           property_set os ''tcmd.suspend'' ''0'';
           return 0
         }
       }
     }
   }"

section \<open>The report of the boot loader\<close>

lemma copy_word_eq: "length b < 31 \<Longrightarrow> copy_word b x = take 31 (b @ takeWhile (\<lambda>c. \<not> isspace c) x)"
  by (induction b x rule: copy_word.induct) (auto simp: Suc_le_eq less_Suc_eq)

lemma length_copy_word: "length (copy_word [] x) \<le> 31"
  by (simp add: copy_word_eq)

lemma strstr_at:
  assumes "\<forall>i<length pre. \<not> starts_with p (drop i (pre @ p @ rest))"
  shows "strstr (pre @ p @ rest) p = Some (p @ rest)"
  using assms
proof (induction pre)
  case Nil
  have "starts_with p (p @ rest)" by simp
  then show ?case by (cases "p @ rest") (auto simp del: starts_with.simps)
next
  case (Cons c pre)
  have "\<not> starts_with p (c # pre @ p @ rest)" using Cons.prems by (auto dest: spec [of _ 0])
  moreover have "\<forall>i<length pre. \<not> starts_with p (drop i (pre @ p @ rest))"
    using Cons.prems by (auto dest: spec [of _ "Suc _"])
  ultimately show ?case using Cons.IH by (simp del: starts_with.simps)
qed

text \<open>
  The report is read back: a line \<open>FIELD : value\<close>, the first that mentions the field, with a
  value of at most 31 characters without white space, compares equal to exactly that value.
\<close>

lemma bootinfo_roundtrip:
  assumes "\<forall>i<length pre. \<not> starts_with field
      (drop i (pre @ field @ '' : '' @ v @ [CHR 0x0A] @ rest))"
    and "length v \<le> 31" "\<forall>c\<in>set v. \<not> isspace c" "CHR '':'' \<notin> set field"
  shows "bootinfo_value field (pre @ field @ '' : '' @ v @ [CHR 0x0A] @ rest) = v"
proof -
  let ?tail = "'' : '' @ v @ [CHR 0x0A] @ rest"
  have "strstr (pre @ field @ ?tail) field = Some (field @ ?tail)"
    by (rule strstr_at [OF assms(1)])
  moreover have "strstr ((field @ '' '') @ '': '' @ v @ [CHR 0x0A] @ rest) '': ''
      = Some ('': '' @ v @ [CHR 0x0A] @ rest)"
  proof (rule strstr_at, intro allI impI)
    fix i assume i: "i < length (field @ '' '')"
    let ?s = "drop i ((field @ '' '') @ '': '' @ v @ [CHR 0x0A] @ rest)"
    have "hd ?s = (field @ '' '') ! i" using i by (simp add: hd_drop_conv_nth nth_append)
    moreover have "(field @ '' '') ! i \<in> set (field @ '' '')" using i by (rule nth_mem)
    ultimately have "hd ?s \<noteq> CHR '':''" using assms(4) by auto
    then show "\<not> starts_with '': '' ?s" by (cases ?s) auto
  qed
  moreover have "copy_word [] (v @ [CHR 0x0A] @ rest) = v"
  proof -
    have "takeWhile (\<lambda>c. \<not> isspace c) (v @ [CHR 0x0A] @ rest) = v"
      using assms(3) by (simp add: isspace_def)
    then show ?thesis using assms(2) copy_word_eq [of "[]"] by simp
  qed
  ultimately show ?thesis by (simp add: bootinfo_value_def)
qed

lemma bootinfo_roundtrip_witness:
  "bootinfo_value ''POWERUPREASON''
     (''BATTERY : 1'' @ [CHR 0x0A] @ ''POWERUPREASON'' @ '' : '' @ ''0x00000100'' @ [CHR 0x0A] @ [])
   = ''0x00000100''"
proof -
  have "\<forall>i<length (''BATTERY : 1'' @ [CHR 0x0A]). \<not> starts_with ''POWERUPREASON''
      (drop i ((''BATTERY : 1'' @ [CHR 0x0A]) @ ''POWERUPREASON'' @ '' : '' @ ''0x00000100''
        @ [CHR 0x0A] @ []))"
    by code_simp
  from bootinfo_roundtrip [OF this] show ?thesis by (simp add: isspace_def)
qed

section \<open>The decision\<close>

definition settings :: "boot_call list \<Rightarrow> (string \<times> string) list" where
  "settings cs = concat (map (\<lambda>c. case c of BProperty_set k v \<Rightarrow> [(k, v)] | _ \<Rightarrow> []) cs)"

lemma settings_simps [simp]:
  "settings [] = []" "settings (xs @ ys) = settings xs @ settings ys"
  "settings (BProperty_set k v # cs) = (k, v) # settings cs"
  "settings (BOpen p # cs) = settings cs" "settings (BRead fd n # cs) = settings cs"
  "settings (BClose fd # cs) = settings cs" "settings (BFtruncate fd # cs) = settings cs"
  "settings (BProperty_get k d # cs) = settings cs"
  by (simp_all add: settings_def)











text \<open>
  After a crash (\<open>ro.bootmode\<close> reports a kernel panic) the phone goes back to charge-only mode
  exactly when the flag file of that mode starts with \<open>charging\<close>; the file is left open and
  untouched, for the truncation at the end of the function is never reached.
\<close>

lemma crash_returns_to_charging:
  assumes "\<And>h. os h (BProperty_get ''ro.bootmode'' ''unknown'') = data_result ''kpanic''"
    and "\<And>h. os h (BOpen ''/proc/bootinfo'') = failure 2"
    and "\<And>h. os h (BOpen COM_FS_PATH) = result 3"
    and "\<And>h. os h (BRead 3 COM_MAX_MODE_LENGTH) = data_result d"
    and "length d \<le> 20" "d \<noteq> []" "nul_free d"
  shows "let t = exec (mot_boot_main os) init_boot in
    ((''sys.chargeonly.mode'', ''1'') \<in> set (settings (calls t)) \<longleftrightarrow> starts_with ''charging'' d) \<and>
    BFtruncate 3 \<notin> set (calls t) \<and> BClose 3 \<notin> set (calls t)"
proof -
  have d: "take (min 20 (length d)) d = d" using assms(5) by simp
  have buf: "cstr (d @ replicate (20 - length d) NUL) = d" using assms(7) by simp
  have charging: "strncmp_eq d ''charging'' 8 \<longleftrightarrow> starts_with ''charging'' d"
    using strncmp_eq_prefix [of "''charging''" d] by (simp add: nul_free_def numeral_eq_Suc)
  have "\<not> strncmp_eq ''kpanic'' ''cidtcmd'' 7" "\<not> strncmp_eq ''kpanic'' ''charger'' 7"
    "strncmp_eq ''kpanic'' ''kpanic'' 6" "cstr ''kpanic'' = ''kpanic''"
    by (simp_all add: strncmp_eq_def nul_free_def)
  then show ?thesis
    using assms(6) d buf charging
    by (auto simp: mot_boot_main_def check_cid_recover_boot_def boot_reason_charge_only_def
        check_abnormal_reboot_def check_bootinfo_def check_com_reset_def boot_property_def
        orelse_def andalso_def property_set_def check_data_12m_def init_boot_def assms(1-4) Let_def
        simp del: starts_with.simps)
qed

definition panicked :: "boot_call os" where
  "panicked h c = (case c of
     BProperty_get _ _ \<Rightarrow> data_result ''kpanic''
   | BOpen p \<Rightarrow> (if p = COM_FS_PATH then result 3 else failure 2)
   | BRead _ _ \<Rightarrow> data_result ''charging''
   | _ \<Rightarrow> result 0)"

lemma crash_returns_to_charging_witness:
  "(''sys.chargeonly.mode'', ''1'') \<in> set (settings (calls (exec (mot_boot_main panicked) init_boot)))"
  using crash_returns_to_charging [of panicked "''charging''"]
  by (simp add: panicked_def nul_free_def Let_def)

end
