(* ===== verification/Power_Hal.thy ===== *)
theory Power_Hal
  imports Prelude
begin

text \<open>
  The power HAL (\<open>src/libpower/power.c\<close>): it reads the CPU frequencies once, tunes the
  \<open>interactive\<close> governor, lowers the maximum frequency while the screen is off and passes boost
  hints on to the kernel. The mutex is recorded by its lock and unlock calls.
\<close>

section \<open>Model\<close>

datatype power_call =
    POpen string | PRead int nat | PWrite int string | PClose int | PLock | PUnlock

datatype power_hint_t =
    POWER_HINT_INTERACTION | POWER_HINT_CPU_BOOST | POWER_HINT_LAUNCH_BOOST
  | POWER_HINT_VSYNC | POWER_HINT_OTHER

abbreviation "CPUFREQ_INTERACTIVE \<equiv> ''/sys/devices/system/cpu/cpufreq/interactive/''"
abbreviation "CPUFREQ_CPU0 \<equiv> ''/sys/devices/system/cpu/cpu0/cpufreq/''"
abbreviation "BOOSTPULSE_PATH \<equiv> ''/sys/devices/system/cpu/cpufreq/interactive/boostpulse''"
abbreviation "NOTIFY_ON_MIGRATE \<equiv> ''/dev/cpuctl/cpu.notify_on_migrate''"
abbreviation "MAX_FREQ_NUMBER \<equiv> 12 :: nat"
abbreviation "NOM_FREQ_INDEX \<equiv> 3 :: nat"

text \<open>The file's statics and \<open>struct omap_power_module\<close>; \<open>None\<close> is the null pointer.\<close>

record power_state = "power_call io_state" +
  freq_list :: "string list"
  max_freq :: "string option"
  nom_freq :: "string option"
  boostpulse_fd :: int
  boostpulse_warned :: bool
  inited :: bool

type_synonym 'a power = "(power_state, 'a) state"

definition init_power :: power_state where
  "init_power = \<lparr>trace = [], fault = False, freq_list = [], max_freq = None, nom_freq = None,
     boostpulse_fd = -1, boostpulse_warned = False, inited = False\<rparr>"

definition blanks :: "char list" where
  "blanks = [CHR '' '', CHR 0x09, CHR 0x0D, CHR 0x0A]"

definition str_to_tokens :: "string \<Rightarrow> nat \<Rightarrow> string list" where
  "str_to_tokens str max_token_idx = take max_token_idx (strtok_all blanks str)"

definition sysfs_write :: "power_call os \<Rightarrow> string \<Rightarrow> string \<Rightarrow> unit power" where
  "sysfs_write os path s = do {
     fd \<leftarrow> syscall os (POpen path);
     if ret_val fd < 0 then return ()
     else do {
       syscall os (PWrite (ret_val fd) s);
       syscall os (PClose (ret_val fd));
       return ()
     }
   }"

definition sysfs_read :: "power_call os \<Rightarrow> string \<Rightarrow> nat \<Rightarrow> (int \<times> string) power" where
  "sysfs_read os path s_size = do {
     fd \<leftarrow> syscall os (POpen path);
     if ret_val fd < 0 then return (ret_val fd, [])
     else do {
       r \<leftarrow> syscall os (PRead (ret_val fd) (s_size - 1));
       syscall os (PClose (ret_val fd));
       return (ret_val r, cstr (take (min (s_size - 1) (nat (ret_val r))) (ret_data r)))
     }
   }"

text \<open>The entry of the frequency list that becomes the nominal frequency, counted from one.\<close>

definition nominal_index :: "nat \<Rightarrow> nat" where
  "nominal_index freq_num =
     (if freq_num \<ge> 6 then freq_num - freq_num div 3
      else if NOM_FREQ_INDEX > freq_num then freq_num else NOM_FREQ_INDEX)"

definition omap_power_init :: "power_call os \<Rightarrow> unit power" where
  "omap_power_init os = do {
     (len, freq_buf) \<leftarrow> sysfs_read os (CPUFREQ_CPU0 @ ''scaling_available_frequencies'')
       (MAX_FREQ_NUMBER * 10);
     if len \<le> 0 then return ()
     else do {
       let freqs = str_to_tokens freq_buf MAX_FREQ_NUMBER;
       modify (\<lambda>s. s\<lparr>freq_list := freqs\<rparr>);
       if freqs = [] then return ()
       else do {
         let nom = freqs ! (nominal_index (length freqs) - 1);
         modify (\<lambda>s. s\<lparr>max_freq := Some (freqs ! (length freqs - 1)), nom_freq := Some nom\<rparr>);
         sysfs_write os (CPUFREQ_INTERACTIVE @ ''timer_rate'') ''30000'';
         sysfs_write os (CPUFREQ_INTERACTIVE @ ''min_sample_time'') ''60000'';
         sysfs_write os (CPUFREQ_INTERACTIVE @ ''hispeed_freq'') nom;
         sysfs_write os (CPUFREQ_INTERACTIVE @ ''go_hispeed_load'') ''99'';
         sysfs_write os (CPUFREQ_INTERACTIVE @ ''above_hispeed_delay'') ''30000'';
         modify (\<lambda>s. s\<lparr>inited := True\<rparr>)
       }
     }
   }"

definition boostpulse_open :: "power_call os \<Rightarrow> int power" where
  "boostpulse_open os = do {
     syscall os PLock;
     fd \<leftarrow> gets boostpulse_fd;
     whenM (fd < 0) (do {
       r \<leftarrow> syscall os (POpen BOOSTPULSE_PATH);
       modify (\<lambda>s. s\<lparr>boostpulse_fd := ret_val r, boostpulse_warned := (ret_val r < 0)\<rparr>)
     });
     syscall os PUnlock;
     gets boostpulse_fd
   }"

text \<open>A null frequency would make \<open>strlen\<close> read through the null pointer.\<close>

definition write_freq :: "power_call os \<Rightarrow> string \<Rightarrow> string option \<Rightarrow> unit power" where
  "write_freq os path f = (case f of None \<Rightarrow> undefined_behaviour | Some s \<Rightarrow> sysfs_write os path s)"

definition omap_power_set_interactive :: "power_call os \<Rightarrow> bool \<Rightarrow> unit power" where
  "omap_power_set_interactive os on = do {
     ok \<leftarrow> gets inited;
     if \<not> ok then return ()
     else do {
       f \<leftarrow> gets (if on then max_freq else nom_freq);
       write_freq os (CPUFREQ_CPU0 @ ''scaling_max_freq'') f;
       sysfs_write os NOTIFY_ON_MIGRATE (if on then ''1'' else ''0'')
     }
   }"

definition omap_power_hint :: "power_call os \<Rightarrow> power_hint_t \<Rightarrow> int option \<Rightarrow> unit power" where
  "omap_power_hint os hint data = do {
     ok \<leftarrow> gets inited;
     if \<not> ok then return ()
     else if hint \<in> {POWER_HINT_INTERACTION, POWER_HINT_CPU_BOOST, POWER_HINT_LAUNCH_BOOST} then do {
       fd \<leftarrow> boostpulse_open os;
       whenM (fd \<ge> 0) (do {
         let duration = (case data of None \<Rightarrow> 1 | Some d \<Rightarrow> d);
         len \<leftarrow> syscall os (PWrite fd (snprintf 80 (show_int duration)));
         whenM (ret_val len < 0) (do {
           syscall os PLock;
           syscall os (PClose fd);
           modify (\<lambda>s. s\<lparr>boostpulse_fd := -1, boostpulse_warned := False\<rparr>);
           syscall os PUnlock;
           return ()
         })
       })
     }
     else return ()
   }"

datatype power_request = Init | Interactive bool | Hint power_hint_t "int option"

primrec serve :: "power_call os \<Rightarrow> power_request \<Rightarrow> unit power" where
  "serve os Init = omap_power_init os"
| "serve os (Interactive on) = omap_power_set_interactive os on"
| "serve os (Hint h d) = omap_power_hint os h d"

fun serve_all :: "power_call os \<Rightarrow> power_request list \<Rightarrow> unit power" where
  "serve_all os [] = return ()"
| "serve_all os (r # rs) = do { serve os r; serve_all os rs }"

section \<open>The frequency table\<close>




lemma sysfs_write_calls:
  assumes "\<And>h p. 0 \<le> ret_val (os h (POpen p))"
  shows "\<exists>fd r. calls (exec (sysfs_write os p v) s) = calls s @ [POpen p, PWrite fd v, r]"
  using assms by (auto simp: sysfs_write_def not_less [symmetric])



section \<open>Any sequence of requests\<close>

text \<open>The lock is held between a \<open>PLock\<close> and the next \<open>PUnlock\<close>.\<close>

fun held :: "nat \<Rightarrow> power_call list \<Rightarrow> nat option" where
  "held n [] = Some n"
| "held n (c # cs) =
     (case c of
        PLock \<Rightarrow> (if n = 0 then held 1 cs else None)
      | PUnlock \<Rightarrow> (if n = 1 then held 0 cs else None)
      | _ \<Rightarrow> held n cs)"

definition power_inv :: "power_state \<Rightarrow> bool" where
  "power_inv s \<longleftrightarrow> \<not> fault s \<and> held 0 (calls s) = Some 0 \<and>
     (inited s \<longrightarrow> max_freq s \<noteq> None \<and> nom_freq s \<noteq> None)"

lemma held_append: "held n (xs @ ys) = Option.bind (held n xs) (\<lambda>m. held m ys)"
  by (induction n xs rule: held.induct) (auto split: power_call.split)

lemma power_call_inv:
  "c \<noteq> PLock \<Longrightarrow> c \<noteq> PUnlock \<Longrightarrow> keeps power_inv (syscall os c)"
  by (cases c) (simp_all add: valid_def power_inv_def held_append)

lemma power_inv_sysfs_write: "keeps power_inv (sysfs_write os p v)"
  unfolding sysfs_write_def by (intro wp_rules power_call_inv) simp_all

lemma power_inv_init: "keeps power_inv (omap_power_init os)"
proof -
  let ?I = "\<lambda>s. power_inv s \<and> max_freq s \<noteq> None \<and> nom_freq s \<noteq> None"
  have w: "keeps ?I (sysfs_write os p v)" for p v
    unfolding sysfs_write_def by (intro wp_rules valid_conj power_call_inv) (auto simp: valid_def)
  have set: "valid power_inv (modify (\<lambda>s. s\<lparr>max_freq := Some m, nom_freq := Some n\<rparr>)) (\<lambda>_. ?I)"
    for m n by (simp add: valid_def power_inv_def)
  have fin: "valid ?I (modify (\<lambda>s. s\<lparr>inited := True\<rparr>)) (\<lambda>_. power_inv)"
    by (simp add: valid_def power_inv_def)
  have freqs: "keeps power_inv (modify (\<lambda>s. s\<lparr>freq_list := fs\<rparr>))" for fs
    by (simp add: valid_def power_inv_def)
  have read: "keeps power_inv (sysfs_read os p n)" for p n
    unfolding sysfs_read_def by (intro wp_rules power_call_inv) simp_all
  show ?thesis unfolding omap_power_init_def
    by (intro keeps_bind [OF read] valid_case_prod valid_if keeps_return valid_let
        keeps_bind [OF freqs] valid_bind [OF set] keeps_bind [OF w] fin)
qed

lemma power_inv_interactive: "keeps power_inv (omap_power_set_interactive os on)"
proof (rule validI)
  fix s assume s: "power_inv s"
  show "power_inv (exec (omap_power_set_interactive os on) s)"
  proof (cases "inited s")
    case True
    with s obtain f where f: "(if on then max_freq else nom_freq) s = Some f"
      by (cases on) (auto simp: power_inv_def)
    show ?thesis
      using validD [OF power_inv_sysfs_write validD [OF power_inv_sysfs_write s]] True f
      by (simp add: omap_power_set_interactive_def write_freq_def split_beta)
  qed (use s in \<open>simp add: omap_power_set_interactive_def\<close>)
qed

lemma power_inv_hint: "keeps power_inv (omap_power_hint os h d)"
  by (auto simp: valid_def power_inv_def omap_power_hint_def boostpulse_open_def held_append Let_def)

text \<open>
  After any sequence of requests of the framework the HAL has not read through a null
  frequency, and it has never taken its lock twice nor kept it.
\<close>

lemma power_requests_safe:
  "\<not> fault (exec (serve_all os rs) init_power) \<and>
   held 0 (calls (exec (serve_all os rs) init_power)) = Some 0"
proof -
  have one: "keeps power_inv (serve os r)" for r
    by (cases r) (simp_all add: power_inv_init power_inv_interactive power_inv_hint)
  have "keeps power_inv (serve_all os rs)"
    by (induction rs) (simp_all only: serve_all.simps keeps_return keeps_bind [OF one])
  moreover have "power_inv init_power" by (simp add: power_inv_def init_power_def)
  ultimately show ?thesis by (auto simp: valid_def power_inv_def)
qed

text \<open>
  A boost whose write fails gives the descriptor up, so that the next boost opens the file
  again and sends its duration there.
\<close>

lemma boost_recovers:
  assumes "inited s" "boostpulse_fd s = 7"
    and "os (trace s @ [(PLock, os (trace s) PLock),
           (PUnlock, os (trace s @ [(PLock, os (trace s) PLock)]) PUnlock)]) (PWrite 7 ''1'') = failure 9"
    and "\<And>h. os h (POpen BOOSTPULSE_PATH) = result 8" "\<And>h m. os h (PWrite 8 m) = result 1"
  shows "let t = exec (omap_power_hint os POWER_HINT_INTERACTION None) s;
             u = exec (omap_power_hint os POWER_HINT_LAUNCH_BOOST (Some d)) t
    in PClose 7 \<in> set (calls t) \<and> boostpulse_fd t = -1 \<and>
       boostpulse_fd u = 8 \<and> last (calls u) = PWrite 8 (snprintf 80 (show_int d))"
proof -
  have one: "snprintf 80 (show_int 1) = ''1''"
    by (simp add: snprintf_def show_int_def show_nat.simps digit_char_def) code_simp
  show ?thesis
    using assms by (simp add: omap_power_hint_def boostpulse_open_def Let_def one)
qed

lemma boost_recovers_witness:
  "boostpulse_fd (exec (omap_power_hint (\<lambda>h c. case c of PWrite fd _ \<Rightarrow> (if fd = 7 then failure 9 else result 1)
     | _ \<Rightarrow> result 8) POWER_HINT_INTERACTION None)
     (init_power\<lparr>inited := True, boostpulse_fd := 7\<rparr>)) = -1"
  using boost_recovers [of "init_power\<lparr>inited := True, boostpulse_fd := 7\<rparr>"
      "\<lambda>h c. case c of PWrite fd _ \<Rightarrow> (if fd = 7 then failure 9 else result 1) | _ \<Rightarrow> result 8" 5]
  by (simp add: Let_def)

end
