(* ===== verification/Motoril.thy ===== *)
theory Motoril
  imports Prelude
begin

text \<open>
  The radio helper: the root daemon \<open>src/motorild/motorild.c\<close>, its client
  \<open>src/motorild/motorilc.c\<close> and the message they exchange (\<open>src/motorild/motoril.h\<close>), a C
  structure of 132 bytes sent as it lies in the memory of a little-endian machine.

  \<open>motorild_serve\<close> is one iteration of the daemon's endless loop. \<open>fork\<close>, \<open>execl\<close> and \<open>waitpid\<close>
  are one call, \<open>Run\<close>, that answers the exit status of the command.
\<close>

section \<open>The message\<close>

datatype motoril_cmd = MOTORIL_CMD_ROUTE | MOTORIL_CMD_RING

record motoril_call =
  cmd :: nat
  dev :: string
  gw :: string

definition cmd_code :: "motoril_cmd \<Rightarrow> nat" where
  "cmd_code c = (case c of MOTORIL_CMD_ROUTE \<Rightarrow> 0 | MOTORIL_CMD_RING \<Rightarrow> 1)"

abbreviation "CALL_SIZE \<equiv> 132 :: nat"

definition le32 :: "nat \<Rightarrow> string" where
  "le32 n = [char_of n, char_of (n div 256), char_of (n div 65536), char_of (n div 16777216)]"

definition of_le32 :: "string \<Rightarrow> nat" where
  "of_le32 b = of_char (b ! 0) + 256 * of_char (b ! 1) + 65536 * of_char (b ! 2) +
     16777216 * of_char (b ! 3)"

definition pad64 :: "string \<Rightarrow> string" where
  "pad64 s = take 64 (s @ replicate 64 NUL)"

definition call_bytes :: "motoril_call \<Rightarrow> string" where
  "call_bytes c = le32 (cmd c) @ pad64 (dev c) @ pad64 (gw c)"

text \<open>
  How the daemon reads the structure: the two fields are C strings, which end at the first NUL
  from their start on. \<open>None\<close>: there is none before the end of the structure.
\<close>

definition string_in :: "string \<Rightarrow> nat \<Rightarrow> string option" where
  "string_in b off = (if NUL \<in> set (drop off b) then Some (cstr (drop off b)) else None)"

definition call_of :: "string \<Rightarrow> motoril_call option" where
  "call_of b = (case (string_in b 4, string_in b 68) of
     (Some d, Some g) \<Rightarrow> Some \<lparr>cmd = of_le32 b, dev = d, gw = g\<rparr>
   | _ \<Rightarrow> None)"

section \<open>The daemon\<close>

datatype ril_call =
    ROpen string | RRead int nat | RWrite int string | RClose int
  | RAccept int | RListen int | RControl_socket | RConnect | Run "string list"
  | RPutchars string

type_synonym 'a ril = "(ril_call io_state, 'a) state"

definition set_gw :: "ril_call os \<Rightarrow> string \<Rightarrow> string \<Rightarrow> int ril" where
  "set_gw os iface gateway = do {
     r \<leftarrow> syscall os (Run [''/system/bin/ip'', ''route'', ''add'', gateway, ''dev'', iface]);
     return (ret_val r)
   }"

definition write_file :: "ril_call os \<Rightarrow> string \<Rightarrow> string \<Rightarrow> unit ril" where
  "write_file os path s = do {
     fd \<leftarrow> syscall os (ROpen path);
     whenM (ret_val fd \<noteq> -1) (do {
       syscall os (RWrite (ret_val fd) s);
       syscall os (RClose (ret_val fd));
       return ()
     })
   }"

abbreviation "FREQUENCIES_PATH \<equiv> ''/sys/devices/system/cpu/cpu0/cpufreq/scaling_available_frequencies''"
abbreviation "MAXFREQ_PATH \<equiv> ''/sys/devices/system/cpu/cpu0/cpufreq/scaling_max_freq''"
abbreviation "CPU1_ONLINE_PATH \<equiv> ''/sys/devices/system/cpu/cpu1/online''"
abbreviation "RIL_BOOSTPULSE_PATH \<equiv> ''/sys/devices/system/cpu/cpufreq/interactive/boostpulse''"

text \<open>
  The last token of the frequency table, the maximum. \<open>strtok\<close> reads on behind a buffer that
  is full and has no NUL.
\<close>

definition ring_max_freq :: "ril_call os \<Rightarrow> string option ril" where
  "ring_max_freq os = do {
     fd \<leftarrow> syscall os (ROpen FREQUENCIES_PATH);
     if ret_val fd = -1 then return None
     else do {
       r \<leftarrow> syscall os (RRead (ret_val fd) 1024);
       let data = take (min 1024 (nat (ret_val r))) (ret_data r);
       whenM (length data = 1024 \<and> NUL \<notin> set data) undefined_behaviour;
       syscall os (RClose (ret_val fd));
       let toks = strtok_all [CHR '' '', CHR 0x0D, CHR 0x0A] (cstr data);
       return (if toks = [] then None else Some (last toks))
     }
   }"

definition ring_cpu1 :: "ril_call os \<Rightarrow> unit ril" where
  "ring_cpu1 os = do {
     fd \<leftarrow> syscall os (ROpen CPU1_ONLINE_PATH);
     whenM (ret_val fd \<noteq> -1) (do {
       r \<leftarrow> syscall os (RRead (ret_val fd) 1024);
       whenM (ret_val r > 0 \<and> take 1 (ret_data r) \<noteq> ''1'')
         (do { syscall os (RWrite (ret_val fd) ''1''); return () });
       syscall os (RClose (ret_val fd));
       return ()
     })
   }"

definition ring :: "ril_call os \<Rightarrow> int ril" where
  "ring os = do {
     max_freq \<leftarrow> ring_max_freq os;
     (case max_freq of None \<Rightarrow> return () | Some f \<Rightarrow> write_file os MAXFREQ_PATH f);
     write_file os RIL_BOOSTPULSE_PATH ''1'';
     ring_cpu1 os;
     return 0
   }"

text \<open>
  The loop that reads the message: \<open>b\<close> holds the \<open>pos\<close> bytes read so far. Every round reads at
  least one byte, so \<open>CALL_SIZE\<close> rounds are enough.
\<close>

primrec read_call :: "ril_call os \<Rightarrow> int \<Rightarrow> nat \<Rightarrow> string \<Rightarrow> string ril" where
  "read_call os client 0 b = return b"
| "read_call os client (Suc k) b = do {
     r \<leftarrow> syscall os (RRead client (CALL_SIZE - length b));
     if ret_val r \<le> 0 then return b
     else do {
       let n = min (CALL_SIZE - length b) (nat (ret_val r));
       let b' = b @ take n (ret_data r @ replicate n NUL);
       if length b' < CALL_SIZE then read_call os client k b' else return b'
     }
   }"

definition dispatch :: "ril_call os \<Rightarrow> string \<Rightarrow> int ril" where
  "dispatch os b =
     (if of_le32 b = cmd_code MOTORIL_CMD_ROUTE then
        (case call_of b of
           None \<Rightarrow> do { undefined_behaviour; return 1 }
         | Some c \<Rightarrow> set_gw os (dev c) (gw c))
      else if of_le32 b = cmd_code MOTORIL_CMD_RING then ring os
      else return 1)"

definition motorild_serve :: "ril_call os \<Rightarrow> int \<Rightarrow> unit ril" where
  "motorild_serve os fd = do {
     c \<leftarrow> syscall os (RAccept fd);
     if ret_val c = -1 then return ()
     else do {
       b \<leftarrow> read_call os (ret_val c) CALL_SIZE [];
       if length b < CALL_SIZE then do { syscall os (RClose (ret_val c)); return () }
       else do {
         ret \<leftarrow> dispatch os b;
         syscall os (RWrite (ret_val c) (if ret = 0 then ''OK'' else ''KO''));
         syscall os (RClose (ret_val c));
         return ()
       }
     }
   }"

primrec motorild_loop :: "ril_call os \<Rightarrow> int \<Rightarrow> nat \<Rightarrow> unit ril" where
  "motorild_loop os fd 0 = return ()"
| "motorild_loop os fd (Suc n) = do { motorild_serve os fd; motorild_loop os fd n }"

definition motorild_main :: "ril_call os \<Rightarrow> nat \<Rightarrow> unit ril" where
  "motorild_main os n = do {
     fd \<leftarrow> syscall os RControl_socket;
     syscall os (RListen (ret_val fd));
     motorild_loop os (ret_val fd) n
   }"

section \<open>The client\<close>

text \<open>\<open>strncpy(d, s, 63)\<close> into a cleared field of 64 bytes.\<close>

definition request :: "string list \<Rightarrow> motoril_call option" where
  "request argv =
     (case argv of
        [_, a] \<Rightarrow> if a = ''ring'' then Some \<lparr>cmd = cmd_code MOTORIL_CMD_RING, dev = [], gw = []\<rparr> else None
      | [_, a, b] \<Rightarrow> Some \<lparr>cmd = cmd_code MOTORIL_CMD_ROUTE, dev = take 63 a, gw = take 63 b\<rparr>
      | _ \<Rightarrow> None)"

text \<open>
  Writing the whole message; a write may take a part of it. \<open>k\<close> bounds the rounds (a kernel that
  takes nothing forever would keep the loop running). The result is what is left to write.
\<close>

primrec send_all :: "ril_call os \<Rightarrow> int \<Rightarrow> nat \<Rightarrow> string \<Rightarrow> string option ril" where
  "send_all os fd 0 m = return (Some m)"
| "send_all os fd (Suc k) m =
     (if m = [] then return (Some [])
      else do {
        r \<leftarrow> syscall os (RWrite fd m);
        if ret_val r < 0 then return None else send_all os fd k (drop (nat (ret_val r)) m)
      })"

primrec receive_all :: "ril_call os \<Rightarrow> int \<Rightarrow> nat \<Rightarrow> string \<Rightarrow> string option ril" where
  "receive_all os fd 0 b = return (Some b)"
| "receive_all os fd (Suc k) b = do {
     r \<leftarrow> syscall os (RRead fd (256 - length b));
     if ret_val r = 0 then return (Some b)
     else if ret_val r < 0 then return None
     else receive_all os fd k (b @ take (min (256 - length b) (nat (ret_val r))) (ret_data r))
   }"

definition motorilc_main :: "ril_call os \<Rightarrow> nat \<Rightarrow> string list \<Rightarrow> int ril" where
  "motorilc_main os k argv =
     (case request argv of
        None \<Rightarrow> return 1
      | Some c \<Rightarrow> do {
          fd \<leftarrow> syscall os RConnect;
          if ret_val fd < 0 then return 1
          else do {
            w \<leftarrow> send_all os (ret_val fd) k (call_bytes c);
            case w of
              None \<Rightarrow> return 1
            | Some _ \<Rightarrow> do {
                b \<leftarrow> receive_all os (ret_val fd) k [];
                case b of
                  None \<Rightarrow> return 1
                | Some out \<Rightarrow> do { syscall os (RPutchars (out @ [CHR 0x0A])); return 0 }
              }
          }
        })"

section \<open>The wire format\<close>


definition sendable :: "motoril_call \<Rightarrow> bool" where
  "sendable c \<longleftrightarrow> cmd c < 2 ^ 32 \<and> length (dev c) < 64 \<and> length (gw c) < 64 \<and>
     nul_free (dev c) \<and> nul_free (gw c)"


lemma length_pad64 [simp]: "length (pad64 s) = 64"
  by (simp add: pad64_def)

lemma le32_roundtrip:
  assumes "n < 2 ^ 32"
  shows "of_le32 (le32 n @ r) = n"
proof -
  let ?a = "n div 256" let ?b = "?a div 256" let ?c = "?b div 256"
  have eqs: "n div 65536 = ?b" "n div 16777216 = ?c"
    by (simp_all add: div_mult2_eq [symmetric])
  have "?c < 256" using assms by (simp add: div_mult2_eq [symmetric])
  then have "?c mod 256 = ?c" by simp
  moreover have "n = n mod 256 + 256 * ?a" "?a = ?a mod 256 + 256 * ?b" "?b = ?b mod 256 + 256 * ?c"
    by simp_all
  ultimately have "n mod 256 + 256 * (?a mod 256) + 65536 * (?b mod 256) + 16777216 * (?c mod 256) = n"
    by linarith
  then show ?thesis by (simp add: of_le32_def le32_def eqs)
qed

lemma length_call_bytes [simp]: "length (call_bytes c) = CALL_SIZE"
  by (simp add: call_bytes_def le32_def)



section \<open>A message arrives whole\<close>






lemma request_sendable:
  assumes "request argv = Some c" "\<forall>a\<in>set argv. nul_free a"
  shows "sendable c"
proof -
  have "nul_free (take n a)" if "nul_free a" for n a
    using that by (auto simp: nul_free_def dest: in_set_takeD)
  with assms show ?thesis
    by (auto simp: request_def sendable_def cmd_code_def split: list.splits if_splits)
       (auto simp: nul_free_def)
qed





text \<open>
  The daemon trusts its clients to end both names with a NUL: a route message whose gateway
  field is filled to the last byte makes it read behind the structure.
\<close>

lemma unterminated_gateway_overruns:
  assumes "length b = CALL_SIZE" "of_le32 b = cmd_code MOTORIL_CMD_ROUTE" "NUL \<notin> set (drop 68 b)"
  shows "fault (exec (dispatch os b) s)"
  using assms by (simp add: dispatch_def call_of_def string_in_def split: option.splits)

lemma unterminated_gateway_overruns_witness:
  "fault (exec (dispatch (\<lambda>h c. result 0) (le32 0 @ replicate 128 (CHR ''a'')))
     \<lparr>trace = [], fault = False\<rparr>)"
  by (rule unterminated_gateway_overruns)
     (simp_all add: le32_roundtrip cmd_code_def, simp_all add: le32_def)

section \<open>The client sends the whole message\<close>

text \<open>The bytes the kernel has taken: of each write the part it reports.\<close>

definition accepted :: "ril_call hist \<Rightarrow> string" where
  "accepted h = concat (map (\<lambda>(c, r). case c of RWrite _ m \<Rightarrow> take (nat (ret_val r)) m | _ \<Rightarrow> []) h)"

text \<open>
  As long as every write takes at least one byte, the client's loop ends within as many rounds
  as the message has bytes, and what the kernel has taken is the message, each byte once and in
  order.
\<close>

lemma client_sends_all:
  assumes "\<And>h m. m \<noteq> [] \<Longrightarrow> 0 < ret_val (os h (RWrite fd m))"
  shows "length m \<le> k \<Longrightarrow>
    eval_in (send_all os fd k m) s = Some [] \<and>
    accepted (trace (exec (send_all os fd k m) s)) = accepted (trace s) @ m"
proof (induction k arbitrary: m s)
  case (Suc k)
  show ?case
  proof (cases "m = []")
    case False
    let ?r = "os (trace s) (RWrite fd m)"
    let ?s = "exec (syscall os (RWrite fd m)) s"
    let ?m = "drop (nat (ret_val ?r)) m"
    have pos: "0 < ret_val ?r" using assms False by blast
    then have "length ?m \<le> k" using Suc.prems False by (cases m) auto
    from Suc.IH [OF this, of ?s] show ?thesis
      using False pos by (simp add: accepted_def)
  qed simp
qed simp

lemma client_sends_all_witness:
  "accepted (trace (exec (send_all (\<lambda>h c. result 1) 4 132
     (call_bytes \<lparr>cmd = 1, dev = [], gw = []\<rparr>)) \<lparr>trace = [], fault = False\<rparr>))
   = call_bytes \<lparr>cmd = 1, dev = [], gw = []\<rparr>"
  using client_sends_all [of "\<lambda>h c. result 1" 4 "call_bytes \<lparr>cmd = 1, dev = [], gw = []\<rparr>" 132
      "\<lparr>trace = [], fault = False\<rparr>"]
  by (simp add: accepted_def)

end
