(* ===== verification/Wrigley.thy ===== *)
theory Wrigley
  imports Prelude
begin

text \<open>
  The rule keeper (\<open>src/wrigleyd/wrigleyd.c\<close>): it adds the routing rule with preference 9999 and
  puts it back whenever the kernel reports its deletion. The netlink library (libnl) delivers
  the messages; a message is its header's length and type and the bytes behind the header, as
  the library hands them out. \<open>None\<close> is the null pointer.
\<close>

section \<open>Model\<close>



abbreviation "RTM_NEWRULE \<equiv> 32 :: nat"
abbreviation "RTM_DELRULE \<equiv> 33 :: nat"








section \<open>The rule comes back\<close>









end
