(* ===== verification/Aplogd_Files.thy ===== *)
theory Aplogd_Files
  imports Prelude
begin

text \<open>
  The log collector \<open>aplogd\<close>, first part: its globals (\<open>src/aplogd/aplogd.h\<close>, \<open>aplogd.c\<close>,
  \<open>log_io.h\<close>, \<open>log_io.c\<close>), the output files and their rotation (\<open>log_io.c\<close>) and the directory
  utilities (\<open>aplogd_util.c\<close>).

  \<^item> A stream's RAM buffer is the text between \<open>input_buf_base\<close> and \<open>input_buf\<close>; \<open>input_buf_base\<close>
    says whether the pointer is set.
  \<^item> \<open>unsigned int\<close> counters are 32-bit words.
  \<^item> Directory listings are read entry by entry; \<open>k\<close> bounds the number of entries a listing may
    have and the nesting of directories, so that the walks are functions.
  \<^item> \<open>exit\<close> is recorded in \<open>exited\<close>, which also says that a loop has not ended within the bound
    on its rounds; the code that calls a function that may exit looks at it.
\<close>

section \<open>Types and state\<close>

datatype aplogd_call =
    Open string | OpenCreate string | Read int nat | Write int string | Close int
  | Access string bool | Mkdir string | Rename string string | Unlink string | Rmdir string
  | Stat string | Lstat string | Statfs string | Chmod string
  | Opendir string | Readdir int | Closedir int
  | System string | Time | Socket_local_client string
  | Log_len int | Process_entry nat nat string | Should_print string | Format_line string
  | Poll "int list" int | Revents nat | Signal_seen | Signal int
  | Log_format_new | Log_format string | Set_print_format int | Open_tag_map string
  | Malloc | Free | Remove string | Getenv string | Property_get string string
  | Getuid | Prctl string | Setgroups "string list" | Setgid string | Setuid string | Capset string

datatype STORAGE_T = STORAGE_USERDATA | STORAGE_EXTERNAL | STORAGE_SECONDARY

record log_io_struct =
  input_fd :: int
  output_fd :: int
  collect_flag :: bool
  input_buf :: string
  input_buf_base :: bool

record pollfd =
  poll_fd :: int
  events :: "16 word"
  revents :: "16 word"

abbreviation "MAX_PATH_LEN \<equiv> 255 :: nat"
abbreviation "APLOGD_INPUT_EVENTS_POLL_INDEX \<equiv> 2 :: nat"
abbreviation "APLOGD_INPUT_KERNEL_POLL_INDEX \<equiv> 4 :: nat"
abbreviation "APLOGD_INPUT_LAST \<equiv> 4 :: nat"
abbreviation "APLOGD_VOLD_STATUS_POLL_INDEX \<equiv> 5 :: nat"
abbreviation "APLOGD_MAX_IO_FDS \<equiv> 6 :: nat"
abbreviation "CONFIG_LOGFILE_MAX_VALUE_USERDATA \<equiv> 10485760 :: int"
abbreviation "CONFIG_LOGFILE_MAX_VALUE_EXTERNAL \<equiv> 52428800 :: int"
abbreviation "DEFAULT_USR_CFG_MAX_DIR_COUNT \<equiv> 10 :: int"
abbreviation "SZ_1G \<equiv> 1073741824 :: int"
abbreviation "APLOGD_OLD_FILE_EXT \<equiv> ''backup''"
abbreviation "LONG_MAX \<equiv> 2147483647 :: int"

record aplogd_state = "aplogd_call io_state" +
  aplogd_io_array :: "log_io_struct list"
  aplogd_io_fd :: "pollfd list"
  aplogd_poll_timeout :: int
  aplogd_bytes_lost :: "32 word"
  unwritten_bytes :: "32 word"
  total_write_size :: "32 word"
  aplogd_logfile_max :: "32 word"
  g_current_storage :: STORAGE_T
  g_storage_path :: "STORAGE_T \<Rightarrow> string option"
  g_output_path :: "STORAGE_T \<Rightarrow> string option"
  usr_cfg_collect :: string
  usr_cfg_format :: string
  usr_cfg_size :: "32 word"
  usr_cfg_backup :: "32 word"
  usr_cfg_seq :: bool
  usr_cfg_ext :: bool
  backup_n :: nat
  backup_flag :: "STORAGE_T set"
  config_finish :: bool
  exited :: bool

type_synonym 'a aplogd = "(aplogd_state, 'a) state"

definition output_filename :: "nat \<Rightarrow> string" where
  "output_filename i =
     [''log.main.txt'', ''log.radio.txt'', ''log.events.txt'', ''log.system.txt'', ''log.kernel.txt''] ! i"

definition streams :: "nat list" where
  "streams = [0, 1, 2, 3, 4]"

text \<open>A C string argument that may be the null pointer, as the library prints it.\<close>

definition path_text :: "string option \<Rightarrow> string" where
  "path_text p = (case p of None \<Rightarrow> ''(null)'' | Some s \<Rightarrow> s)"

definition join_path :: "string \<Rightarrow> string \<Rightarrow> string" where
  "join_path dir file = snprintf MAX_PATH_LEN (dir @ ''/'' @ file)"

primrec for_each :: "('a \<Rightarrow> unit aplogd) \<Rightarrow> 'a list \<Rightarrow> unit aplogd" where
  "for_each f [] = return ()"
| "for_each f (x # xs) = do { f x; for_each f xs }"

definition set_io :: "nat \<Rightarrow> (log_io_struct \<Rightarrow> log_io_struct) \<Rightarrow> unit aplogd" where
  "set_io i f = modify (\<lambda>s. s\<lparr>aplogd_io_array := (aplogd_io_array s)[i := f (aplogd_io_array s ! i)]\<rparr>)"

text \<open>What follows a call that may have exited happens only when it has not.\<close>

definition alive :: "'a \<Rightarrow> 'a aplogd \<Rightarrow> 'a aplogd" where
  "alive d m = do { gone \<leftarrow> gets exited; if gone then return d else m }"

section \<open>Output files\<close>

definition aplogd_close_output :: "aplogd_call os \<Rightarrow> unit aplogd" where
  "aplogd_close_output os = for_each (\<lambda>i. do {
     fd \<leftarrow> gets (\<lambda>s. output_fd (aplogd_io_array s ! i));
     whenM (fd > 0) (do { syscall os (Close fd); return () });
     set_io i (\<lambda>e. e\<lparr>output_fd := -1\<rparr>)
   }) streams"

primrec open_outputs :: "aplogd_call os \<Rightarrow> string \<Rightarrow> nat list \<Rightarrow> int \<Rightarrow> int aplogd" where
  "open_outputs os pathname [] ret = return ret"
| "open_outputs os pathname (i # is) ret = do {
     fd \<leftarrow> syscall os (OpenCreate (join_path pathname (output_filename i)));
     set_io i (\<lambda>e. e\<lparr>output_fd := ret_val fd\<rparr>);
     open_outputs os pathname is (if ret_val fd < 0 then -1 else ret)
   }"

text \<open>\<open>sprintf(pathname, "%s", \<dots>)\<close> into 255 bytes has no bound.\<close>

definition aplogd_output_setup :: "aplogd_call os \<Rightarrow> STORAGE_T \<Rightarrow> int aplogd" where
  "aplogd_output_setup os storage = do {
     p \<leftarrow> gets (\<lambda>s. g_output_path s storage);
     let pathname = path_text p;
     if length pathname \<ge> MAX_PATH_LEN then do { undefined_behaviour; return (-1) }
     else do {
       a \<leftarrow> syscall os (Access pathname False);
       whenM (ret_val a \<noteq> 0) (do { syscall os (Mkdir pathname); return () });
       w \<leftarrow> syscall os (Access pathname True);
       if ret_val w \<noteq> 0 then return (ret_val w)
       else open_outputs os pathname streams 0
     }
   }"

section \<open>Directory utilities\<close>

text \<open>\<open>strcpy(cmd + 8, src)\<close> into \<open>cmd[264]\<close>; every caller passes a path below 255 characters.\<close>

definition aplogd_util_gzip :: "aplogd_call os \<Rightarrow> string \<Rightarrow> int aplogd" where
  "aplogd_util_gzip os src = do {
     whenM (length src \<ge> 256) undefined_behaviour;
     r \<leftarrow> syscall os (System (''gzip -5 '' @ src));
     syscall os (Chmod (snprintf MAX_PATH_LEN (src @ ''.gz'')));
     return (ret_val r)
   }"

definition dot_entry :: "string \<Rightarrow> bool" where
  "dot_entry d \<longleftrightarrow> d = ''.'' \<or> d = ''..''"

text \<open>The entries \<open>readdir\<close> delivers until the null pointer (answer 0).\<close>

primrec read_entries :: "aplogd_call os \<Rightarrow> nat \<Rightarrow> int \<Rightarrow> (string \<Rightarrow> 'r \<Rightarrow> ('r + 'r) aplogd) \<Rightarrow> 'r \<Rightarrow> 'r aplogd" where
  "read_entries os 0 dp body r = return r"
| "read_entries os (Suc k) dp body r = do {
     e \<leftarrow> syscall os (Readdir dp);
     if ret_val e = 0 then return r
     else do {
       x \<leftarrow> body (cstr (ret_data e)) r;
       (case x of Inl stop \<Rightarrow> return stop | Inr go \<Rightarrow> read_entries os k dp body go)
     }
   }"

definition aplogd_util_move :: "aplogd_call os \<Rightarrow> nat \<Rightarrow> string \<Rightarrow> string \<Rightarrow> string \<Rightarrow> int aplogd" where
  "aplogd_util_move os k src dst pstr = do {
     dp \<leftarrow> syscall os (Opendir src);
     if ret_val dp = 0 then return (-1)
     else do {
       ret \<leftarrow> read_entries os k (ret_val dp) (\<lambda>d_name ret.
         if dot_entry d_name \<or> strstr d_name pstr = None then return (Inr ret)
         else do {
           r \<leftarrow> syscall os (Rename (join_path src d_name) (join_path dst d_name));
           if ret_val r < 0 then do {
             syscall os (Unlink (join_path src d_name));
             return (Inr (-1))
           } else return (Inr ret)
         }) 0;
       syscall os (Closedir (ret_val dp));
       return ret
     }
   }"

text \<open>
  \<open>aplogd_remove_dir\<close> descends into subdirectories; the answer's \<open>ret_aux\<close> of \<open>lstat\<close> and \<open>stat\<close>
  tells a directory (1) from a file. \<open>deep\<close> bounds the nesting.
\<close>

primrec aplogd_remove_dir :: "aplogd_call os \<Rightarrow> nat \<Rightarrow> nat \<Rightarrow> string \<Rightarrow> int aplogd" where
  "aplogd_remove_dir os k 0 dir = return (-1)"
| "aplogd_remove_dir os k (Suc deep) dir = do {
     dp \<leftarrow> syscall os (Opendir dir);
     if ret_val dp = 0 then return (-1)
     else do {
       failed \<leftarrow> read_entries os k (ret_val dp) (\<lambda>d_name _.
         if dot_entry d_name then return (Inr False)
         else do {
           let file_name = join_path dir d_name;
           st \<leftarrow> syscall os (Lstat file_name);
           if ret_val st = -1 then do { syscall os (Closedir (ret_val dp)); return (Inl True) }
           else do {
             (if ret_aux st = 1 then do { aplogd_remove_dir os k deep file_name; return () }
              else do { syscall os (Unlink file_name); return () });
             return (Inr False)
           }
         }) False;
       if failed then return (-1)
       else do {
         syscall os (Closedir (ret_val dp));
         syscall os (Rmdir dir);
         return 0
       }
     }
   }"

text \<open>\<open>filter_numstr\<close>: the first run of digits; \<open>f_head\<close> says whether it has begun.\<close>

fun filter_numstr :: "bool \<Rightarrow> string \<Rightarrow> string" where
  "filter_numstr f_head [] = []"
| "filter_numstr f_head (c # s) =
     (if isdigit c then c # filter_numstr True s
      else if f_head then [] else filter_numstr False s)"

record scan_result =
  scan_count :: int
  scan_oldest :: string
  scan_t_num :: int
  scan_max :: int
  scan_failed :: bool

text \<open>One look through the directory: the number of backup folders, the oldest, the newest number.\<close>

definition scan_backups :: "aplogd_call os \<Rightarrow> nat \<Rightarrow> string \<Rightarrow> int \<Rightarrow> int \<Rightarrow> scan_result aplogd" where
  "scan_backups os k dir dp newest = read_entries os k dp (\<lambda>d_name r.
     if dot_entry d_name \<or> strstr d_name ''No.'' = None then return (Inr r)
     else do {
       let path = join_path dir d_name;
       st \<leftarrow> syscall os (Stat path);
       if ret_val st = -1 then do {
         syscall os (Closedir dp);
         return (Inl (r\<lparr>scan_failed := True\<rparr>))
       } else if ret_aux st = 1 then do {
         let dir_num = strtol (filter_numstr False d_name);
         return (Inr (r\<lparr>scan_count := scan_count r + 1,
           scan_oldest := (if dir_num < scan_t_num r then path else scan_oldest r),
           scan_t_num := (if dir_num < scan_t_num r then dir_num else scan_t_num r),
           scan_max := (if dir_num > scan_max r then dir_num else scan_max r)\<rparr>))
       } else return (Inr r)
     }) \<lparr>scan_count = 0, scan_oldest = [], scan_t_num = LONG_MAX, scan_max = newest, scan_failed = False\<rparr>"

text \<open>\<open>None\<close>: the loop is still running after \<open>rounds\<close> rounds.\<close>

primrec aplogd_util_cleardir ::
  "aplogd_call os \<Rightarrow> nat \<Rightarrow> nat \<Rightarrow> string \<Rightarrow> int \<Rightarrow> int \<Rightarrow> int option aplogd" where
  "aplogd_util_cleardir os k 0 dir max_count newest = return None"
| "aplogd_util_cleardir os k (Suc rounds) dir max_count newest = do {
     dp \<leftarrow> syscall os (Opendir dir);
     if ret_val dp = 0 then return (Some (-1))
     else do {
       r \<leftarrow> scan_backups os k dir (ret_val dp) newest;
       if scan_failed r then return (Some (-1))
       else do {
         syscall os (Closedir (ret_val dp));
         let full = (scan_count r > max_count - 1 \<and> scan_oldest r \<noteq> []);
         rm \<leftarrow> (if full then aplogd_remove_dir os k k (scan_oldest r) else return 0);
         if full \<and> rm = -1 then return (Some (-1))
         else if (if full then scan_count r - 1 else scan_count r) > max_count - 1
         then aplogd_util_cleardir os k rounds dir max_count (scan_max r)
         else return (Some (scan_max r))
       }
     }
   }"

text \<open>The copy loop of \<open>aplogd_move_logs\<close>, at most \<open>k\<close> pieces of 4095 bytes.\<close>

primrec copy_pieces :: "aplogd_call os \<Rightarrow> nat \<Rightarrow> int \<Rightarrow> int \<Rightarrow> unit aplogd" where
  "copy_pieces os 0 sfd dfd = return ()"
| "copy_pieces os (Suc k) sfd dfd = do {
     r \<leftarrow> syscall os (Read sfd 4095);
     if ret_val r > 0 then do {
       syscall os (Write dfd (take (min 4095 (nat (ret_val r))) (ret_data r)));
       copy_pieces os k sfd dfd
     } else return ()
   }"

definition aplogd_move_logs :: "aplogd_call os \<Rightarrow> nat \<Rightarrow> STORAGE_T \<Rightarrow> STORAGE_T \<Rightarrow> unit aplogd" where
  "aplogd_move_logs os k old_storage new_storage = do {
     old_path \<leftarrow> gets (\<lambda>s. g_output_path s old_storage);
     new_path \<leftarrow> gets (\<lambda>s. g_output_path s new_storage);
     case (old_path, new_path) of
       (Some op, Some np) \<Rightarrow> for_each (\<lambda>i. do {
         let src = join_path op (output_filename i);
         sfd \<leftarrow> syscall os (Open src);
         if ret_val sfd < 0 then return ()
         else do {
           dfd \<leftarrow> syscall os (OpenCreate (join_path np (output_filename i)));
           if ret_val dfd < 0 then return ()
           else do {
             copy_pieces os k (ret_val sfd) (ret_val dfd);
             syscall os (Close (ret_val sfd));
             syscall os (Close (ret_val dfd));
             syscall os (Unlink src);
             return ()
           }
         }
       }) streams
     | _ \<Rightarrow> return ()
   }"

section \<open>Configuration values\<close>

definition aplogd_get_filesize :: "32 word \<Rightarrow> STORAGE_T \<Rightarrow> 32 word" where
  "aplogd_get_filesize cfg_size storage =
     (if storage = STORAGE_USERDATA then word_of_int CONFIG_LOGFILE_MAX_VALUE_USERDATA
      else let size = sint cfg_size in
        if size \<le> 0 \<or> size > 1000 then word_of_int CONFIG_LOGFILE_MAX_VALUE_EXTERNAL
        else word_of_int (size * 1024 * 1024))"

definition aplogd_calc_storage_pref :: "STORAGE_T aplogd" where
  "aplogd_calc_storage_pref = do {
     ext \<leftarrow> gets usr_cfg_ext;
     return (if \<not> ext then STORAGE_USERDATA else STORAGE_SECONDARY)
   }"

definition aplogd_is_collected :: "string \<Rightarrow> char \<Rightarrow> bool" where
  "aplogd_is_collected collect stream \<longleftrightarrow> strchr collect stream \<noteq> None"

section \<open>Rotation\<close>

definition backup_name :: "string \<Rightarrow> nat \<Rightarrow> nat \<Rightarrow> string" where
  "backup_name cur_path i index = snprintf MAX_PATH_LEN
     (cur_path @ ''/'' @ APLOGD_OLD_FILE_EXT @ ''.'' @ show_nat i @ ''.'' @ output_filename index @ ''.gz'')"

primrec shift_backups :: "aplogd_call os \<Rightarrow> string \<Rightarrow> nat \<Rightarrow> nat \<Rightarrow> int \<Rightarrow> int aplogd" where
  "shift_backups os cur_path index 0 ret = return ret"
| "shift_backups os cur_path index (Suc i) ret = do {
     r \<leftarrow> syscall os (Rename (backup_name cur_path i index) (backup_name cur_path (Suc i) index));
     if ret_val r < 0 then do {
       syscall os (Unlink (backup_name cur_path i index));
       shift_backups os cur_path index i (-1)
     } else shift_backups os cur_path index i ret
   }"

text \<open>
  The \<open>if (stat(\<dots>))\<close> of the source is true when \<open>stat\<close> fails and then subtracts a size that was
  never filled in.
\<close>

definition aplogd_io_file_backup :: "aplogd_call os \<Rightarrow> nat \<Rightarrow> STORAGE_T \<Rightarrow> int aplogd" where
  "aplogd_io_file_backup os index storage = do {
     p \<leftarrow> gets (\<lambda>s. g_output_path s storage);
     let cur_path = snprintf MAX_PATH_LEN (path_text p);
     n \<leftarrow> gets backup_n;
     shifted \<leftarrow> shift_backups os cur_path index n 0;
     modify (\<lambda>s. s\<lparr>backup_n := n + 1\<rparr>);
     let file_name = join_path cur_path (output_filename index);
     let bak_name = snprintf MAX_PATH_LEN
       (cur_path @ ''/'' @ APLOGD_OLD_FILE_EXT @ ''.0.'' @ output_filename index);
     a \<leftarrow> syscall os (Access bak_name False);
     whenM (ret_val a = 0) (do { syscall os (Unlink bak_name); return () });
     r \<leftarrow> syscall os (Rename file_name bak_name);
     whenM (ret_val r < 0) (do { syscall os (Unlink file_name); return () });
     st \<leftarrow> syscall os (Stat bak_name);
     whenM (ret_val st \<noteq> 0) undefined_behaviour;
     aplogd_util_gzip os bak_name;
     return (if ret_val r < 0 then -1 else shifted)
   }"

primrec backup_streams :: "aplogd_call os \<Rightarrow> STORAGE_T \<Rightarrow> nat list \<Rightarrow> int \<Rightarrow> int aplogd" where
  "backup_streams os storage [] ret = return ret"
| "backup_streams os storage (i # is) ret = do {
     r \<leftarrow> aplogd_io_file_backup os i storage;
     backup_streams os storage is (ret + r)
   }"

definition aplogd_io_backupall :: "aplogd_call os \<Rightarrow> STORAGE_T \<Rightarrow> int aplogd" where
  "aplogd_io_backupall os storage = backup_streams os storage streams 0"

section \<open>Saving the logs of the last boot\<close>

text \<open>The files that exist are compressed; the number of missing ones is returned.\<close>

primrec gzip_existing :: "aplogd_call os \<Rightarrow> string \<Rightarrow> nat list \<Rightarrow> nat \<Rightarrow> nat aplogd" where
  "gzip_existing os dir [] missing = return missing"
| "gzip_existing os dir (i # is) missing = do {
     let file_name = join_path dir (output_filename i);
     a \<leftarrow> syscall os (Access file_name False);
     if ret_val a \<noteq> 0 then gzip_existing os dir is (missing + 1)
     else do { aplogd_util_gzip os file_name; gzip_existing os dir is missing }
   }"

text \<open>The name of the backup folder; \<open>Time\<close> answers the formatted local time (0: no time).\<close>

definition backup_dir :: "aplogd_call os \<Rightarrow> string \<Rightarrow> int \<Rightarrow> string aplogd" where
  "backup_dir os path num = do {
     tm \<leftarrow> syscall os Time;
     return (snprintf MAX_PATH_LEN
       (if num \<noteq> -1 \<and> ret_val tm \<noteq> 0
        then path @ ''/No.'' @ show_int ((num + 1) mod LONG_MAX) @ ''_'' @ cstr (ret_data tm)
        else path @ ''/last''))
   }"

text \<open>\<open>statfs\<close> answers the free bytes in \<open>ret_aux\<close>.\<close>

definition save_external :: "aplogd_call os \<Rightarrow> nat \<Rightarrow> STORAGE_T \<Rightarrow> string \<Rightarrow> unit aplogd" where
  "save_external os k storage path = do {
     fs \<leftarrow> syscall os (Statfs path);
     whenM (ret_val fs \<noteq> -1 \<and> ret_aux fs < SZ_1G)
       (modify (\<lambda>s. s\<lparr>usr_cfg_backup := word_of_int DEFAULT_USR_CFG_MAX_DIR_COUNT\<rparr>));
     limit \<leftarrow> gets usr_cfg_backup;
     num \<leftarrow> aplogd_util_cleardir os k k path (sint limit) 0;
     case num of
       None \<Rightarrow> modify (\<lambda>s. s\<lparr>exited := True\<rparr>)
     | Some num \<Rightarrow> do {
         bak_dir \<leftarrow> backup_dir os path num;
         missing \<leftarrow> gzip_existing os path streams 0;
         modify (\<lambda>s. s\<lparr>backup_flag := insert storage (backup_flag s)\<rparr>);
         if missing = APLOGD_INPUT_LAST + 1 then return ()
         else do {
           syscall os (Mkdir bak_dir);
           aplogd_util_move os k path bak_dir ''.gz'';
           return ()
         }
       }
   }"

definition save_userdata :: "aplogd_call os \<Rightarrow> nat \<Rightarrow> string \<Rightarrow> unit aplogd" where
  "save_userdata os k path = do {
     let bak_dir = snprintf MAX_PATH_LEN (path @ ''/last'');
     syscall os (Mkdir bak_dir);
     for_each (\<lambda>i. do { aplogd_util_gzip os (join_path path (output_filename i)); return () }) streams;
     num \<leftarrow> aplogd_util_cleardir os k k bak_dir 1 0;
     case num of
       None \<Rightarrow> modify (\<lambda>s. s\<lparr>exited := True\<rparr>)
     | Some _ \<Rightarrow> do { aplogd_util_move os k path bak_dir ''.gz''; return () }
   }"

definition aplogd_log_save :: "aplogd_call os \<Rightarrow> nat \<Rightarrow> STORAGE_T \<Rightarrow> unit aplogd" where
  "aplogd_log_save os k storage = do {
     saved \<leftarrow> gets backup_flag;
     p \<leftarrow> gets (\<lambda>s. g_output_path s storage);
     if storage \<in> saved then return ()
     else if storage = STORAGE_USERDATA then save_userdata os k (path_text p)
     else case p of
       None \<Rightarrow> return ()
     | Some path \<Rightarrow> do {
         a \<leftarrow> syscall os (Access path False);
         if ret_val a \<noteq> 0 then return () else save_external os k storage path
       }
   }"

end
