(* ===== verification/Aplogd_Buffer.thy ===== *)
theory Aplogd_Buffer
  imports Aplogd_Files
begin

text \<open>
  The RAM buffers of the log collector (\<open>src/aplogd/rambuf.c\<close>) and the code that fills them
  (\<open>LogfilterAndBuffering\<close> of \<open>log_io.c\<close>). The formatter of the system's log library is the call
  \<open>Format_line\<close>, its filter \<open>Should_print\<close>.
\<close>

section \<open>Model\<close>

abbreviation "aplogd_ram_buff_size \<equiv> 8192 :: nat"
abbreviation "ENOSPC \<equiv> 28 :: int"
abbreviation "EBADF \<equiv> 9 :: int"

definition aplogd_rambuf_init :: "aplogd_call os \<Rightarrow> int aplogd" where
  "aplogd_rambuf_init os = do {
     p \<leftarrow> syscall os Malloc;
     if ret_val p = 0 then do { modify (\<lambda>s. s\<lparr>exited := True\<rparr>); return (-1) }
     else do {
       for_each (\<lambda>i. set_io i (\<lambda>e. e\<lparr>input_buf_base := True, input_buf := []\<rparr>)) streams;
       return 0
     }
   }"

definition aplogd_rambuf_destroy :: "aplogd_call os \<Rightarrow> unit aplogd" where
  "aplogd_rambuf_destroy os = do {
     for_each (\<lambda>i. set_io i (\<lambda>e. e\<lparr>input_buf_base := False\<rparr>)) [0..<APLOGD_MAX_IO_FDS];
     syscall os Free;
     return ()
   }"

definition aplogd_rambuf_bytes_filled :: "nat \<Rightarrow> int aplogd" where
  "aplogd_rambuf_bytes_filled index = gets (\<lambda>s. int (length (input_buf (aplogd_io_array s ! index))))"

definition aplogd_rambuf_space :: "nat \<Rightarrow> int aplogd" where
  "aplogd_rambuf_space index = do {
     temp_filled \<leftarrow> aplogd_rambuf_bytes_filled index;
     return (if temp_filled < 0 \<or> temp_filled > int aplogd_ram_buff_size then -1
             else int aplogd_ram_buff_size - temp_filled)
   }"

text \<open>
  The write loop: every \<open>write\<close> starts at the base of the buffer again, with the bytes still
  needed. \<open>k\<close> bounds the rounds (a \<open>write\<close> that takes nothing keeps the loop running); the result
  is false when a write failed.
\<close>

primrec write_out :: "aplogd_call os \<Rightarrow> nat \<Rightarrow> nat \<Rightarrow> string \<Rightarrow> nat \<Rightarrow> bool aplogd" where
  "write_out os 0 index buf need_written = do { modify (\<lambda>s. s\<lparr>exited := True\<rparr>); return False }"
| "write_out os (Suc k) index buf need_written =
     (if need_written = 0 then return True
      else do {
        fd \<leftarrow> gets (\<lambda>s. output_fd (aplogd_io_array s ! index));
        r \<leftarrow> syscall os (Write fd (take need_written buf));
        if ret_val r < 0 then do {
          whenM (ret_errno r = ENOSPC) (aplogd_close_output os);
          whenM (ret_errno r = EBADF) (set_io index (\<lambda>e. e\<lparr>output_fd := -1\<rparr>));
          return False
        } else do {
          modify (\<lambda>s. s\<lparr>total_write_size := total_write_size s + word_of_int (ret_val r)\<rparr>);
          write_out os k index buf (need_written - nat (ret_val r))
        }
      })"

definition rotate_if_full :: "aplogd_call os \<Rightarrow> unit aplogd" where
  "rotate_if_full os = do {
     total \<leftarrow> gets total_write_size;
     limit \<leftarrow> gets aplogd_logfile_max;
     whenM (total \<ge> limit) (do {
       st \<leftarrow> gets g_current_storage;
       aplogd_close_output os;
       aplogd_io_backupall os st;
       aplogd_output_setup os st;
       modify (\<lambda>s. s\<lparr>total_write_size := 0\<rparr>)
     })
   }"

definition aplogd_rambuf_output :: "aplogd_call os \<Rightarrow> nat \<Rightarrow> int aplogd" where
  "aplogd_rambuf_output os index = do {
     need_written \<leftarrow> aplogd_rambuf_bytes_filled index;
     e \<leftarrow> gets (\<lambda>s. aplogd_io_array s ! index);
     if \<not> input_buf_base e \<or> \<not> need_written > 0 then return (-1)
     else if output_fd e < 0 then do {
       set_io index (\<lambda>e. e\<lparr>input_buf := []\<rparr>);
       return (-1)
     } else do {
       ok \<leftarrow> write_out os (Suc aplogd_ram_buff_size) index (input_buf e) (nat need_written);
       if \<not> ok then return (-1)
       else do {
         set_io index (\<lambda>e. e\<lparr>input_buf := []\<rparr>);
         rotate_if_full os;
         return 0
       }
     }
   }"

definition aplogd_rambuf_outputall :: "aplogd_call os \<Rightarrow> unit aplogd" where
  "aplogd_rambuf_outputall os =
     for_each (\<lambda>i. alive () (do { aplogd_rambuf_output os i; return () })) streams"

text \<open>
  \<open>LogfilterAndBuffering\<close> on the entry \<open>entry\<close>. \<open>aplogd_rambuf_space\<close> is compared as an unsigned
  number: its error value -1 passes for plenty of space, and the copy then runs over the buffer.
\<close>

definition buffer_append :: "nat \<Rightarrow> string \<Rightarrow> unit aplogd" where
  "buffer_append index text = do {
     set_io index (\<lambda>e. e\<lparr>input_buf := input_buf e @ text\<rparr>);
     filled \<leftarrow> aplogd_rambuf_bytes_filled index;
     base \<leftarrow> gets (\<lambda>s. input_buf_base (aplogd_io_array s ! index));
     whenM (filled > int aplogd_ram_buff_size \<or> \<not> base) undefined_behaviour
   }"

definition LogfilterAndBuffering :: "aplogd_call os \<Rightarrow> string \<Rightarrow> nat \<Rightarrow> int aplogd" where
  "LogfilterAndBuffering os entry index = do {
     p \<leftarrow> syscall os (Should_print entry);
     if ret_val p = 0 then return 0
     else do {
       f \<leftarrow> syscall os (Format_line entry);
       if ret_val f = 0 then return (-1)
       else do {
         let text = ret_data f;
         len \<leftarrow> aplogd_rambuf_space index;
         if len mod 2 ^ 32 > int (length text) then do {
           buffer_append index text;
           return (int (length text))
         } else do {
           modify (\<lambda>s. s\<lparr>aplogd_bytes_lost := aplogd_bytes_lost s + word_of_int (int (length text))\<rparr>);
           return (-1)
         }
       }
     }
   }"

section \<open>A bounded buffer\<close>

text \<open>
  The interface of the buffers to their clients: appending what fits keeps the bound and the
  order, taking out yields what was put in.
\<close>

locale log_buffer =
  fixes bound :: nat and inv :: "'s \<Rightarrow> bool" and content :: "'s \<Rightarrow> string"
    and put :: "string \<Rightarrow> 's \<Rightarrow> 's" and clear :: "'s \<Rightarrow> 's" and room :: "'s \<Rightarrow> nat"
  assumes content_put: "inv s \<Longrightarrow> length t < room s \<Longrightarrow> content (put t s) = content s @ t"
    and inv_put: "inv s \<Longrightarrow> length t < room s \<Longrightarrow> inv (put t s)"
    and content_clear: "inv s \<Longrightarrow> content (clear s) = []"
    and inv_clear: "inv s \<Longrightarrow> inv (clear s)"
    and room_content: "inv s \<Longrightarrow> room s + length (content s) = bound"
begin

lemma bounded: "inv s \<Longrightarrow> length (content s) \<le> bound"
  using room_content [of s] by simp

text \<open>Lines that fit together end up in the buffer one behind the other.\<close>

lemma put_all_content:
  "inv s \<Longrightarrow> length (concat ts) < room s \<Longrightarrow>
   content (fold put ts s) = content s @ concat ts \<and> inv (fold put ts s)"
proof (induction ts arbitrary: s)
  case (Cons t ts)
  then have t: "length t < room s" by simp
  note c = content_put [OF Cons.prems(1) t] and b = inv_put [OF Cons.prems(1) t]
  have "length (concat ts) < room (put t s)"
    using room_content [OF b] room_content [OF Cons.prems(1)] Cons.prems(2) c by simp
  then show ?case using Cons.IH [OF b] c by simp
qed simp

lemma refill: "inv s \<Longrightarrow> length (concat ts) < bound \<Longrightarrow> content (fold put ts (clear s)) = concat ts"
  using put_all_content [of "clear s" ts] room_content [of "clear s"] content_clear inv_clear by simp

end

text \<open>The buffer of stream \<open>i\<close> of the collector.\<close>

definition buf_of :: "nat \<Rightarrow> aplogd_state \<Rightarrow> string" where
  "buf_of i s = input_buf (aplogd_io_array s ! i)"

definition buf_room :: "nat \<Rightarrow> aplogd_state \<Rightarrow> nat" where
  "buf_room i s = nat (eval_in (aplogd_rambuf_space i) s)"

text \<open>
  The invariant of the collector's arrays: they have their full length, and every stream's
  buffer exists and is not overrun.
\<close>

definition arrays_ok :: "aplogd_state \<Rightarrow> bool" where
  "arrays_ok s \<longleftrightarrow> length (aplogd_io_array s) = APLOGD_MAX_IO_FDS \<and>
     length (aplogd_io_fd s) = APLOGD_MAX_IO_FDS \<and>
     (\<forall>i\<in>set streams. input_buf_base (aplogd_io_array s ! i) \<and>
        length (input_buf (aplogd_io_array s ! i)) \<le> aplogd_ram_buff_size) \<and> \<not> fault s"

lemma set_streams: "i \<in> set streams \<longleftrightarrow> i \<le> APLOGD_INPUT_LAST"
  by (auto simp: streams_def)

lemma arrays_okD:
  assumes "arrays_ok s" "i \<le> APLOGD_INPUT_LAST"
  shows "i < length (aplogd_io_array s)" "input_buf_base (aplogd_io_array s ! i)"
    "length (input_buf (aplogd_io_array s ! i)) \<le> aplogd_ram_buff_size"
  using assms by (simp_all add: arrays_ok_def set_streams)

lemma exec_set_io [simp]:
  "exec (set_io i f) s = s\<lparr>aplogd_io_array := (aplogd_io_array s)[i := f (aplogd_io_array s ! i)]\<rparr>"
  by (simp add: set_io_def)

lemma eval_space:
  assumes "arrays_ok s" "i \<le> APLOGD_INPUT_LAST"
  shows "eval_in (aplogd_rambuf_space i) s = int (aplogd_ram_buff_size - length (buf_of i s))"
  using arrays_okD(3) [OF assms]
  by (simp add: aplogd_rambuf_space_def aplogd_rambuf_bytes_filled_def buf_of_def)

lemma exec_buffer_append:
  assumes "arrays_ok s" "i \<le> APLOGD_INPUT_LAST" "length t < buf_room i s"
  shows "exec (buffer_append i t) s = exec (set_io i (\<lambda>e. e\<lparr>input_buf := input_buf e @ t\<rparr>)) s"
    and "arrays_ok (exec (buffer_append i t) s)"
proof -
  have i: "i < length (aplogd_io_array s)" using assms(1,2) by (simp add: arrays_ok_def)
  have len: "length (input_buf (aplogd_io_array s ! i)) + length t \<le> aplogd_ram_buff_size"
    using assms(3) eval_space [OF assms(1,2)] arrays_okD(3) [OF assms(1,2)]
    by (simp add: buf_room_def buf_of_def)
  show eq: "exec (buffer_append i t) s = exec (set_io i (\<lambda>e. e\<lparr>input_buf := input_buf e @ t\<rparr>)) s"
    using arrays_okD(2) [OF assms(1,2)] i len
    by (simp add: buffer_append_def aplogd_rambuf_bytes_filled_def set_io_def)
  show "arrays_ok (exec (buffer_append i t) s)"
    unfolding eq using assms(1) i len
    by (auto simp: arrays_ok_def nth_list_update)
qed

lemma stream_buffer:
  assumes "i \<le> APLOGD_INPUT_LAST"
  shows "log_buffer aplogd_ram_buff_size arrays_ok (buf_of i)
    (\<lambda>t s. exec (buffer_append i t) s) (\<lambda>s. exec (set_io i (\<lambda>e. e\<lparr>input_buf := []\<rparr>)) s) (buf_room i)"
proof (unfold_locales, goal_cases)
  case (1 s t)
  then have "i < length (aplogd_io_array s)" using assms by (simp add: arrays_ok_def)
  then show ?case using exec_buffer_append(1) [OF 1(1) assms 1(2)] by (simp add: buf_of_def)
next
  case (2 s t)
  then show ?case using exec_buffer_append(2) assms by blast
next
  case (3 s)
  then show ?case using assms by (simp add: buf_of_def arrays_ok_def)
next
  case (4 s)
  then show ?case using assms by (auto simp: arrays_ok_def nth_list_update)
next
  case (5 s)
  then have "length (buf_of i s) \<le> aplogd_ram_buff_size"
    using assms by (simp add: arrays_ok_def buf_of_def set_streams)
  then show ?case using eval_space [OF 5 assms] by (simp add: buf_room_def)
qed

interpretation main_log: log_buffer aplogd_ram_buff_size arrays_ok "buf_of 0"
  "\<lambda>t s. exec (buffer_append 0 t) s" "\<lambda>s. exec (set_io 0 (\<lambda>e. e\<lparr>input_buf := []\<rparr>)) s" "buf_room 0"
  by (rule stream_buffer) simp

section \<open>Lines go through the buffer\<close>

lemma buf_room_eq:
  assumes "arrays_ok s" "i \<le> APLOGD_INPUT_LAST"
  shows "buf_room i s = aplogd_ram_buff_size - length (buf_of i s)"
  using eval_space [OF assms] by (simp add: buf_room_def)

lemma arrays_ok_vars [simp]:
  "arrays_ok (s\<lparr>trace := h\<rparr>) = arrays_ok s" "arrays_ok (s\<lparr>aplogd_bytes_lost := w\<rparr>) = arrays_ok s"
  "arrays_ok (s\<lparr>total_write_size := w\<rparr>) = arrays_ok s" "arrays_ok (s\<lparr>unwritten_bytes := w\<rparr>) = arrays_ok s"
  "arrays_ok (s\<lparr>aplogd_poll_timeout := t\<rparr>) = arrays_ok s" "arrays_ok (s\<lparr>exited := b\<rparr>) = arrays_ok s"
  "arrays_ok (s\<lparr>g_current_storage := st\<rparr>) = arrays_ok s" "arrays_ok (s\<lparr>aplogd_logfile_max := w\<rparr>) = arrays_ok s"
  "arrays_ok (s\<lparr>backup_n := n\<rparr>) = arrays_ok s" "arrays_ok (s\<lparr>backup_flag := f\<rparr>) = arrays_ok s"
  "arrays_ok (s\<lparr>usr_cfg_backup := w\<rparr>) = arrays_ok s" "arrays_ok (s\<lparr>config_finish := b\<rparr>) = arrays_ok s"
  by (simp_all add: arrays_ok_def)

lemma buf_of_vars [simp]:
  "buf_of i (s\<lparr>trace := h\<rparr>) = buf_of i s" "buf_of i (s\<lparr>aplogd_bytes_lost := w\<rparr>) = buf_of i s"
  by (simp_all add: buf_of_def)

text \<open>
  A log line that passes the filter is appended to its stream's buffer when it fits and is
  counted as lost when it does not; in no case is the buffer overrun.
\<close>

lemma log_line_buffered:
  assumes "arrays_ok s" "i \<le> APLOGD_INPUT_LAST"
    and "\<And>h. ret_val (os h (Should_print e)) = 1" "\<And>h. os h (Format_line e) = data_result text" "text \<noteq> []"
  shows "let t = exec (LogfilterAndBuffering os e i) s in
    arrays_ok t \<and>
    (if length (buf_of i s) + length text < aplogd_ram_buff_size
     then buf_of i t = buf_of i s @ text \<and> aplogd_bytes_lost t = aplogd_bytes_lost s \<and>
       eval_in (LogfilterAndBuffering os e i) s = int (length text)
     else buf_of i t = buf_of i s \<and>
       aplogd_bytes_lost t = aplogd_bytes_lost s + word_of_int (int (length text)) \<and>
       eval_in (LogfilterAndBuffering os e i) s = -1)"
proof -
  obtain h where h: "run_state (LogfilterAndBuffering os e i) s = run_state (do {
      len \<leftarrow> aplogd_rambuf_space i;
      if len mod 2 ^ 32 > int (length text) then do {
        buffer_append i text; return (int (length text)) }
      else do {
        modify (\<lambda>s. s\<lparr>aplogd_bytes_lost := aplogd_bytes_lost s + word_of_int (int (length text))\<rparr>);
        return (-1) } }) (s\<lparr>trace := h\<rparr>)"
    using assms(3-5) by (simp add: LogfilterAndBuffering_def)
  let ?s = "s\<lparr>trace := h\<rparr>"
  have ok: "arrays_ok ?s" using assms(1) by simp
  note space = eval_space [OF ok assms(2)]
  have quiet: "exec (aplogd_rambuf_space i) ?s = ?s"
    by (simp add: aplogd_rambuf_space_def aplogd_rambuf_bytes_filled_def)
  have le: "length (buf_of i s) \<le> aplogd_ram_buff_size"
    using arrays_okD(3) [OF assms(1,2)] by (simp add: buf_of_def)
  show ?thesis
  proof (cases "length (buf_of i s) + length text < aplogd_ram_buff_size")
    case True
    then have fits: "length text < buf_room i ?s" using buf_room_eq [OF ok assms(2)] by simp
    have cond: "int (aplogd_ram_buff_size - length (buf_of i s)) mod 2 ^ 32 > int (length text)"
      using True by (subst mod_pos_pos_trivial) auto
    have lost: "aplogd_bytes_lost (exec (buffer_append i text) ?s) = aplogd_bytes_lost s"
      using exec_buffer_append(1) [OF ok assms(2) fits] by simp
    have put: "buf_of i (exec (buffer_append i text) ?s) = buf_of i s @ text"
      using log_buffer.content_put [OF stream_buffer [OF assms(2)] ok fits] by simp
    show ?thesis
      unfolding h using True cond put lost exec_buffer_append(2) [OF ok assms(2) fits]
      by (simp add: split_beta quiet space Let_def)
  next
    case False
    then have "\<not> int (aplogd_ram_buff_size - length (buf_of i s)) mod 2 ^ 32 > int (length text)"
      using le by (subst mod_pos_pos_trivial) auto
    then show ?thesis unfolding h using False ok by (simp add: split_beta quiet space Let_def)
  qed
qed

definition idle_io :: log_io_struct where
  "idle_io = \<lparr>input_fd = -1, output_fd = -1, collect_flag = False, input_buf = [], input_buf_base = False\<rparr>"

definition init_aplogd :: aplogd_state where
  "init_aplogd = \<lparr>trace = [], fault = False, aplogd_io_array = replicate 6 idle_io,
     aplogd_io_fd = replicate 6 \<lparr>poll_fd = -1, events = 0, revents = 0\<rparr>,
     aplogd_poll_timeout = -1, aplogd_bytes_lost = 0, unwritten_bytes = 0, total_write_size = 0,
     aplogd_logfile_max = word_of_int CONFIG_LOGFILE_MAX_VALUE_USERDATA,
     g_current_storage = STORAGE_USERDATA, g_storage_path = (\<lambda>_. None), g_output_path = (\<lambda>_. None),
     usr_cfg_collect = ''mrsek'', usr_cfg_format = ''threadtime'', usr_cfg_size = 50,
     usr_cfg_backup = word_of_int DEFAULT_USR_CFG_MAX_DIR_COUNT, usr_cfg_seq = True,
     usr_cfg_ext = True, backup_n = 0, backup_flag = {}, config_finish = False, exited = False\<rparr>"

definition one_line :: "aplogd_call os" where
  "one_line h c = (case c of Should_print _ \<Rightarrow> result 1 | Malloc \<Rightarrow> result 1 | Format_line _ \<Rightarrow> data_result ''line'' | _ \<Rightarrow> result 0)"

lemma arrays_ok_started: "arrays_ok (exec (aplogd_rambuf_init one_line) init_aplogd)"
  by (simp add: arrays_ok_def aplogd_rambuf_init_def init_aplogd_def streams_def one_line_def split_beta
      idle_io_def numeral_eq_Suc)

lemma log_line_buffered_witness:
  "buf_of 0 (exec (LogfilterAndBuffering one_line ''e'' 0) (exec (aplogd_rambuf_init one_line) init_aplogd)) = ''line''"
proof -
  have "buf_of 0 (exec (aplogd_rambuf_init one_line) init_aplogd) = []"
    by (simp add: buf_of_def aplogd_rambuf_init_def init_aplogd_def streams_def one_line_def split_beta
        idle_io_def numeral_eq_Suc)
  moreover have "ret_val (one_line h (Should_print ''e'')) = 1"
    "one_line h (Format_line ''e'') = data_result ''line''" for h
    by (simp_all add: one_line_def)
  ultimately show ?thesis
    using log_line_buffered [OF arrays_ok_started, of 0 one_line "''e''" "''line''"]
    by (simp add: Let_def)
qed

section \<open>Writing a buffer out\<close>

text \<open>The bytes the files have received: of every write the part that was taken.\<close>

definition received :: "int \<Rightarrow> aplogd_call hist \<Rightarrow> string" where
  "received fd h = concat (map (\<lambda>(c, r). case c of
     Write f m \<Rightarrow> if f = fd then take (nat (ret_val r)) m else [] | _ \<Rightarrow> []) h)"

lemma received_append [simp]: "received fd (h @ h') = received fd h @ received fd h'"
  by (simp add: received_def)

lemma write_out_full:
  assumes "\<And>h m. os h (Write fd m) = result (int (length m))"
    and "output_fd (aplogd_io_array s ! i) = fd" "0 < n" "n \<le> length buf"
  shows "run_state (write_out os (Suc (Suc k)) i buf n) s =
    (True, s\<lparr>trace := trace s @ [(Write fd (take n buf), result (int n))],
             total_write_size := total_write_size s + word_of_int (int n)\<rparr>)"
  using assms by (simp add: min_absorb2)

lemma write_out_short:
  assumes "os (trace s) (Write fd buf) = result (int j)"
    and "\<And>h m. h \<noteq> trace s \<Longrightarrow> os h (Write fd m) = result (int (length m))"
    and "output_fd (aplogd_io_array s ! i) = fd" "0 < j" "j < length buf"
  shows "run_state (write_out os (Suc (Suc (Suc k))) i buf (length buf)) s =
    (True, s\<lparr>trace := trace s @ [(Write fd buf, result (int j)),
               (Write fd (take (length buf - j) buf), result (int (length buf - j)))],
             total_write_size := total_write_size s + word_of_int (int (length buf))\<rparr>)"
proof -
  have "word_of_int (int j) + word_of_int (int (length buf - j)) = (word_of_int (int (length buf)) :: 32 word)"
    using assms(5) by (simp add: of_nat_diff flip: wi_hom_add)
  then show ?thesis using assms by (auto simp: min_absorb2 add.assoc)
qed

lemma output_after_write:
  assumes "input_buf_base (aplogd_io_array s ! i)" "buf_of i s \<noteq> []"
    and "0 \<le> output_fd (aplogd_io_array s ! i)"
    and "run_state (write_out os (Suc aplogd_ram_buff_size) i (buf_of i s) (length (buf_of i s))) s = (True, t)"
    and "total_write_size t < aplogd_logfile_max t"
  shows "run_state (aplogd_rambuf_output os i) s = (0, exec (set_io i (\<lambda>e. e\<lparr>input_buf := []\<rparr>)) t)"
proof -
  have "\<not> aplogd_logfile_max t \<le> total_write_size t" using assms(5) by (simp only: not_le)
  then show ?thesis using assms(1-4)
    by (simp add: aplogd_rambuf_output_def aplogd_rambuf_bytes_filled_def split_beta rotate_if_full_def
        set_io_def del: write_out.simps flip: buf_of_def)
qed

text \<open>
  A buffer that is written out by one full write reaches its file byte for byte, is empty
  afterwards, and is counted in the size of the files.
\<close>

lemma buffer_written_whole:
  assumes "arrays_ok s" "i \<le> APLOGD_INPUT_LAST" "buf_of i s \<noteq> []"
    and "output_fd (aplogd_io_array s ! i) = fd" "0 \<le> fd"
    and "\<And>h m. os h (Write fd m) = result (int (length m))"
    and "total_write_size s + word_of_int (int (length (buf_of i s))) < aplogd_logfile_max s"
  shows "let t = exec (aplogd_rambuf_output os i) s in
    eval_in (aplogd_rambuf_output os i) s = 0 \<and>
    received fd (trace t) = received fd (trace s) @ buf_of i s \<and> buf_of i t = [] \<and>
    total_write_size t = total_write_size s + word_of_int (int (length (buf_of i s))) \<and> arrays_ok t"
proof -
  let ?b = "buf_of i s"
  let ?t = "s\<lparr>trace := trace s @ [(Write fd ?b, result (int (length ?b)))],
      total_write_size := total_write_size s + word_of_int (int (length ?b))\<rparr>"
  have k: "Suc aplogd_ram_buff_size = Suc (Suc 8191)" by simp
  have w: "run_state (write_out os (Suc aplogd_ram_buff_size) i ?b (length ?b)) s = (True, ?t)"
    unfolding k using write_out_full [OF assms(6) assms(4), where n = "length ?b" and buf = ?b and k = 8191]
      assms(3) by (simp del: write_out.simps)
  have clear: "arrays_ok (exec (set_io i (\<lambda>e. e\<lparr>input_buf := []\<rparr>)) ?t)"
    using log_buffer.inv_clear [OF stream_buffer [OF assms(2)], of ?t] assms(1) by simp
  have out: "run_state (aplogd_rambuf_output os i) s = (0, exec (set_io i (\<lambda>e. e\<lparr>input_buf := []\<rparr>)) ?t)"
    using output_after_write [OF arrays_okD(2) [OF assms(1,2)] assms(3) _ w] assms(4,5,7) by simp
  show ?thesis
    using arrays_okD(1) [OF assms(1,2)] clear by (simp add: out Let_def received_def buf_of_def)
qed

definition disk :: "aplogd_call os" where
  "disk h c = (case c of Write f m \<Rightarrow> result (int (length m)) | _ \<Rightarrow> result 0)"

definition one_buffered :: aplogd_state where
  "one_buffered = init_aplogd\<lparr>aplogd_io_array := replicate 6 (idle_io\<lparr>input_buf := ''abcd'',
     input_buf_base := True, output_fd := 7\<rparr>)\<rparr>"

lemma one_buffered_ok: "arrays_ok one_buffered" "buf_of 0 one_buffered = ''abcd''"
  "output_fd (aplogd_io_array one_buffered ! 0) = 7" "trace one_buffered = []"
  "total_write_size one_buffered + word_of_int (int (length ''abcd'')) < aplogd_logfile_max one_buffered"
  by (auto simp: arrays_ok_def one_buffered_def init_aplogd_def idle_io_def buf_of_def set_streams word_less_def)

lemma buffer_written_whole_witness:
  "received 7 (trace (exec (aplogd_rambuf_output disk 0) one_buffered)) = ''abcd''"
proof -
  have "disk h (Write 7 m) = result (int (length m))" for h m by (simp add: disk_def)
  then show ?thesis
    using buffer_written_whole [of one_buffered 0 7 disk] one_buffered_ok
    by (simp add: Let_def received_def)
qed

text \<open>
  A write that takes only the first \<open>j\<close> of the \<open>n\<close> bytes is continued from the start of the
  buffer instead of from byte \<open>j\<close>: the file gets the first \<open>n - j\<close> bytes twice or in the wrong
  place, and the end of the buffer is lost although it is cleared.
\<close>

lemma short_write_corrupts:
  assumes "arrays_ok s" "i \<le> APLOGD_INPUT_LAST" "0 < j" "j < length (buf_of i s)"
    and "output_fd (aplogd_io_array s ! i) = fd" "0 \<le> fd"
    and "os (trace s) (Write fd (buf_of i s)) = result (int j)"
    and "\<And>h m. h \<noteq> trace s \<Longrightarrow> os h (Write fd m) = result (int (length m))"
    and "total_write_size s + word_of_int (int (length (buf_of i s))) < aplogd_logfile_max s"
  shows "let t = exec (aplogd_rambuf_output os i) s; b = buf_of i s in
    eval_in (aplogd_rambuf_output os i) s = 0 \<and> buf_of i t = [] \<and>
    received fd (trace t) = received fd (trace s) @ take j b @ take (length b - j) b"
proof -
  let ?b = "buf_of i s"
  let ?t = "s\<lparr>trace := trace s @ [(Write fd ?b, result (int j)),
               (Write fd (take (length ?b - j) ?b), result (int (length ?b - j)))],
             total_write_size := total_write_size s + word_of_int (int (length ?b))\<rparr>"
  have k: "Suc aplogd_ram_buff_size = Suc (Suc (Suc 8190))" by simp
  have w: "run_state (write_out os (Suc aplogd_ram_buff_size) i ?b (length ?b)) s = (True, ?t)"
    unfolding k by (rule write_out_short) (use assms in auto)
  have "?b \<noteq> []" using assms(4) by auto
  then have out: "run_state (aplogd_rambuf_output os i) s = (0, exec (set_io i (\<lambda>e. e\<lparr>input_buf := []\<rparr>)) ?t)"
    using output_after_write [OF arrays_okD(2) [OF assms(1,2)] _ _ w] assms(5,6,9) by simp
  show ?thesis
    using arrays_okD(1) [OF assms(1,2)] by (simp add: out Let_def received_def) (simp add: buf_of_def)
qed

definition half_disk :: "aplogd_call os" where
  "half_disk h c = (case c of Write f m \<Rightarrow> result (if h = [] then 1 else int (length m)) | _ \<Rightarrow> result 0)"

lemma short_write_corrupts_witness:
  "received 7 (trace (exec (aplogd_rambuf_output half_disk 0) one_buffered)) = ''aabc''"
proof -
  have "half_disk [] (Write 7 ''abcd'') = result (int 1)"
    "h \<noteq> [] \<Longrightarrow> half_disk h (Write 7 m) = result (int (length m))" for h m
    by (simp_all add: half_disk_def)
  then show ?thesis
    using short_write_corrupts [of one_buffered 0 1 7 half_disk] one_buffered_ok
    by (simp add: Let_def received_def)
qed

end
