(* ===== verification/Aplogd_Io.thy ===== *)
theory Aplogd_Io
  imports Aplogd_Buffer
begin

text \<open>
  The core of the log collector, \<open>src/aplogd/log_io.c\<close>: opening the inputs, reading the kernel's log
  devices and the messages of the volume daemon, switching between the storages, and the poll loop.

  \<^item> The layout of a logger entry is the kernel's (\<open>log/logger.h\<close>, not part of the repository): the
    record \<open>logger_abi\<close> holds the size of the largest entry, the offset of the message and how its
    length field is read.
  \<^item> \<open>Signal_seen\<close> is the atomic look at \<open>config_changed\<close>, which the signal handler sets; \<open>SIGTERM\<close> ends
    the process between two steps and is covered by runs of fewer rounds.
  \<^item> \<open>k\<close> bounds the rounds of the reading loops and of the poll loop (\<open>rounds\<close>): a device that always has
    another entry keeps them running.
\<close>

unbundle bit_operations_syntax

section \<open>Inputs\<close>

abbreviation "aplogd_output_buffering \<equiv> 4096 :: 32 word"
abbreviation "POLLIN \<equiv> 1 :: 16 word"
abbreviation "POLLERR \<equiv> 8 :: 16 word"
abbreviation "POLLHUP \<equiv> 16 :: 16 word"
abbreviation "EINTR \<equiv> 4 :: int"
abbreviation "EAGAIN \<equiv> 11 :: int"

definition input_filename :: "nat \<Rightarrow> string" where
  "input_filename i =
     [''/dev/log/main'', ''/dev/log/radio'', ''/dev/log/events'', ''/dev/log/system'', ''/proc/kmsg''] ! i"

definition set_poll :: "nat \<Rightarrow> (pollfd \<Rightarrow> pollfd) \<Rightarrow> unit aplogd" where
  "set_poll i f = modify (\<lambda>s. s\<lparr>aplogd_io_fd := (aplogd_io_fd s)[i := f (aplogd_io_fd s ! i)]\<rparr>)"

definition aplogd_io_fd_setup :: "aplogd_call os \<Rightarrow> string \<Rightarrow> int aplogd" where
  "aplogd_io_fd_setup os pathname = do {
     fd \<leftarrow> syscall os (Open pathname);
     return (if ret_val fd < 0 then -1 else ret_val fd)
   }"

definition aplogd_io_add_poll_fd :: "int \<Rightarrow> 16 word \<Rightarrow> nat \<Rightarrow> unit aplogd" where
  "aplogd_io_add_poll_fd fd ev index = set_poll index (\<lambda>_. \<lparr>poll_fd = fd, events = ev, revents = 0\<rparr>)"

definition aplogd_io_remove_poll_fd :: "nat \<Rightarrow> unit aplogd" where
  "aplogd_io_remove_poll_fd num =
     whenM (num < APLOGD_MAX_IO_FDS) (set_poll num (\<lambda>_. \<lparr>poll_fd = -1, events = 0, revents = 0\<rparr>))"

definition aplogd_io_add_poll_flag :: "nat \<Rightarrow> 16 word \<Rightarrow> unit aplogd" where
  "aplogd_io_add_poll_flag index flags = set_poll index (\<lambda>p. p\<lparr>events := events p OR flags\<rparr>)"

definition aplogd_io_remove_poll_flag :: "nat \<Rightarrow> 16 word \<Rightarrow> unit aplogd" where
  "aplogd_io_remove_poll_flag index flags = set_poll index (\<lambda>p. p\<lparr>events := events p AND NOT flags\<rparr>)"

text \<open>The array's \<open>collect_flag\<close> is left alone, the RAM buffers' pointers become null.\<close>

definition aplogd_io_array_init :: "unit aplogd" where
  "aplogd_io_array_init = for_each (\<lambda>i. do {
     set_poll i (\<lambda>_. \<lparr>poll_fd = -1, events = 0, revents = 0\<rparr>);
     set_io i (\<lambda>e. e\<lparr>input_fd := -1, output_fd := -1, input_buf := [], input_buf_base := False\<rparr>)
   }) [0..<APLOGD_MAX_IO_FDS]"

definition open_vold :: "aplogd_call os \<Rightarrow> unit aplogd" where
  "open_vold os = do {
     fd \<leftarrow> syscall os (Socket_local_client ''vold'');
     set_io APLOGD_VOLD_STATUS_POLL_INDEX (\<lambda>e. e\<lparr>input_fd := ret_val fd\<rparr>);
     whenM (ret_val fd \<ge> 0) (aplogd_io_add_poll_fd (ret_val fd) POLLIN APLOGD_VOLD_STATUS_POLL_INDEX)
   }"

primrec open_inputs :: "aplogd_call os \<Rightarrow> nat list \<Rightarrow> int \<Rightarrow> int aplogd" where
  "open_inputs os [] ret = return ret"
| "open_inputs os (i # is) ret = do {
     e \<leftarrow> gets (\<lambda>s. aplogd_io_array s ! i);
     if collect_flag e \<and> input_fd e < 0 then do {
       fd \<leftarrow> aplogd_io_fd_setup os (input_filename i);
       set_io i (\<lambda>e. e\<lparr>input_fd := fd\<rparr>);
       if fd \<ge> 0 then do { aplogd_io_add_poll_fd fd POLLIN i; open_inputs os is ret }
       else open_inputs os is (-1)
     } else open_inputs os is ret
   }"

definition aplogd_input_setup :: "aplogd_call os \<Rightarrow> int aplogd" where
  "aplogd_input_setup os = do {
     ret \<leftarrow> open_inputs os streams 0;
     open_vold os;
     return ret
   }"

definition aplogd_io_cleanup :: "aplogd_call os \<Rightarrow> unit aplogd" where
  "aplogd_io_cleanup os = for_each (\<lambda>i. do {
     set_poll i (\<lambda>_. \<lparr>poll_fd = -1, events = 0, revents = 0\<rparr>);
     e \<leftarrow> gets (\<lambda>s. aplogd_io_array s ! i);
     whenM (input_fd e \<ge> 0) (do { syscall os (Close (input_fd e)); return () });
     set_io i (\<lambda>e. e\<lparr>input_fd := -1\<rparr>);
     whenM (output_fd e \<noteq> 0) (do { syscall os (Close (output_fd e)); return () });
     set_io i (\<lambda>e. e\<lparr>output_fd := -1\<rparr>)
   }) (rev [0..<APLOGD_MAX_IO_FDS])"

section \<open>Storages\<close>

definition switch_storage :: "aplogd_call os \<Rightarrow> STORAGE_T \<Rightarrow> STORAGE_T \<Rightarrow> STORAGE_T aplogd" where
  "switch_storage os old_storage new_storage = do {
     size \<leftarrow> gets usr_cfg_size;
     modify (\<lambda>s. s\<lparr>aplogd_logfile_max := aplogd_get_filesize size new_storage\<rparr>);
     aplogd_close_output os;
     r \<leftarrow> aplogd_output_setup os new_storage;
     if r < 0 then do { aplogd_output_setup os old_storage; return old_storage }
     else return new_storage
   }"

definition is_vold_msg_for :: "string option \<Rightarrow> string \<Rightarrow> bool" where
  "is_vold_msg_for path vold_msg =
     (case path of
        None \<Rightarrow> False
      | Some p \<Rightarrow> (case strstr vold_msg p of
            None \<Rightarrow> False
          | Some msg_path \<Rightarrow> (case strchr msg_path (CHR '' '') of
                None \<Rightarrow> False
              | Some space_loc \<Rightarrow> length p = length msg_path - length space_loc)))"

definition is_trans_to_mounted :: "string option \<Rightarrow> string \<Rightarrow> bool" where
  "is_trans_to_mounted path vold_msg \<longleftrightarrow> is_vold_msg_for path vold_msg \<and>
     strstr vold_msg ''state changed from 3 (Checking) to 4 (Mounted)'' \<noteq> None"

definition is_trans_to_unmounted :: "string option \<Rightarrow> string \<Rightarrow> bool" where
  "is_trans_to_unmounted path vold_msg \<longleftrightarrow> is_vold_msg_for path vold_msg \<and>
     strstr vold_msg ''state changed from 4 (Mounted) to 5 (Unmounting)'' \<noteq> None"

definition is_bad_removal :: "string option \<Rightarrow> string \<Rightarrow> bool" where
  "is_bad_removal path vold_msg \<longleftrightarrow> is_vold_msg_for path vold_msg \<and> strstr vold_msg ''bad removal'' \<noteq> None"

definition is_storage_writable :: "aplogd_call os \<Rightarrow> STORAGE_T \<Rightarrow> bool aplogd" where
  "is_storage_writable os storage = do {
     p \<leftarrow> gets (\<lambda>s. g_storage_path s storage);
     case p of
       None \<Rightarrow> return False
     | Some path \<Rightarrow> do { a \<leftarrow> syscall os (Access path True); return (ret_val a = 0) }
   }"

definition set_storage :: "STORAGE_T aplogd \<Rightarrow> unit aplogd" where
  "set_storage m = do { st \<leftarrow> m; modify (\<lambda>s. s\<lparr>g_current_storage := st\<rparr>) }"

section \<open>Reading\<close>

record logger_abi =
  entry_max :: nat
  msg_at :: nat
  entry_len :: "string \<Rightarrow> nat"

text \<open>What every read line does with the write-out threshold and the poll timeout.\<close>

definition account :: "aplogd_call os \<Rightarrow> int \<Rightarrow> unit aplogd" where
  "account os ret = do {
     modify (\<lambda>s. s\<lparr>unwritten_bytes := unwritten_bytes s + word_of_int ret\<rparr>);
     n \<leftarrow> gets unwritten_bytes;
     if n \<ge> aplogd_output_buffering then do {
       aplogd_rambuf_outputall os;
       modify (\<lambda>s. s\<lparr>unwritten_bytes := 0, aplogd_poll_timeout := -1\<rparr>)
     } else modify (\<lambda>s. s\<lparr>aplogd_poll_timeout := 60000\<rparr>)
   }"

primrec read_logger :: "aplogd_call os \<Rightarrow> logger_abi \<Rightarrow> nat \<Rightarrow> int \<Rightarrow> nat \<Rightarrow> int \<Rightarrow> unit aplogd" where
  "read_logger os abi 0 my_fd poll_num readable = modify (\<lambda>s. s\<lparr>exited := True\<rparr>)"
| "read_logger os abi (Suc k) my_fd poll_num readable =
     (if readable \<le> 0 then return ()
      else do {
        r \<leftarrow> syscall os (Read my_fd (entry_max abi));
        if ret_val r < 0 then
          (if ret_errno r = EINTR then read_logger os abi k my_fd poll_num readable
           else if ret_errno r = EAGAIN then return ()
           else modify (\<lambda>s. s\<lparr>exited := True\<rparr>))
        else if ret_val r = 0 then modify (\<lambda>s. s\<lparr>exited := True\<rparr>)
        else do {
          let buf = take (min (entry_max abi) (nat (ret_val r))) (ret_data r);
          let len = (if entry_len abi buf \<ge> entry_max abi then entry_max abi - 1 else entry_len abi buf);
          whenM (msg_at abi + len > entry_max abi) undefined_behaviour;
          p \<leftarrow> syscall os (Process_entry poll_num len buf);
          if ret_val p < 0 then return ()
          else do {
            ret \<leftarrow> LogfilterAndBuffering os (ret_data p) poll_num;
            if ret < 0 then return ()
            else do {
              account os ret;
              alive () (read_logger os abi k my_fd poll_num (readable - ret))
            }
          }
        }
      })"

primrec read_kernel :: "aplogd_call os \<Rightarrow> nat \<Rightarrow> int \<Rightarrow> nat \<Rightarrow> unit aplogd" where
  "read_kernel os 0 my_fd poll_num = modify (\<lambda>s. s\<lparr>exited := True\<rparr>)"
| "read_kernel os (Suc k) my_fd poll_num = do {
     r \<leftarrow> syscall os (Read my_fd 255);
     if ret_val r > 0 then do {
       len \<leftarrow> aplogd_rambuf_space poll_num;
       if len > 0 \<and> len \<ge> ret_val r \<and> ret_val r \<le> 255 then do {
         buffer_append poll_num (take (nat (ret_val r)) (ret_data r));
         account os (ret_val r);
         alive () (read_kernel os k my_fd poll_num)
       } else return ()
     } else return ()
   }"

text \<open>
  The buffer for a message of the volume daemon is not cleared: a read that fails, or a message
  without a NUL, leaves bytes in it that nobody has written.
\<close>

definition read_vold :: "aplogd_call os \<Rightarrow> string aplogd" where
  "read_vold os = do {
     sock_fd \<leftarrow> gets (\<lambda>s. input_fd (aplogd_io_array s ! APLOGD_VOLD_STATUS_POLL_INDEX));
     r \<leftarrow> syscall os (Read sock_fd 4096);
     let buf = take (min 4096 (nat (ret_val r))) (ret_data r);
     let buf = (if length buf = 4096 then buf[4095 := NUL] else buf);
     whenM (NUL \<notin> set buf) undefined_behaviour;
     return (cstr buf)
   }"

definition secondary_mounted :: "aplogd_call os \<Rightarrow> nat \<Rightarrow> unit aplogd" where
  "secondary_mounted os k = do {
     aplogd_log_save os k STORAGE_SECONDARY;
     alive () (do {
       pref \<leftarrow> aplogd_calc_storage_pref;
       whenM (pref = STORAGE_SECONDARY) (do {
         seq \<leftarrow> gets usr_cfg_seq;
         cur \<leftarrow> gets g_current_storage;
         whenM seq (aplogd_move_logs os k cur STORAGE_SECONDARY);
         set_storage (switch_storage os cur STORAGE_SECONDARY)
       })
     })
   }"

definition secondary_gone :: "aplogd_call os \<Rightarrow> unit aplogd" where
  "secondary_gone os = do {
     cur \<leftarrow> gets g_current_storage;
     whenM (cur = STORAGE_SECONDARY) (do {
       set_storage (switch_storage os STORAGE_SECONDARY STORAGE_EXTERNAL);
       now \<leftarrow> gets g_current_storage;
       whenM (now = STORAGE_SECONDARY) (set_storage (switch_storage os STORAGE_SECONDARY STORAGE_USERDATA))
     })
   }"

definition external_mounted :: "aplogd_call os \<Rightarrow> nat \<Rightarrow> unit aplogd" where
  "external_mounted os k = do {
     aplogd_log_save os k STORAGE_EXTERNAL;
     alive () (do {
       pref \<leftarrow> aplogd_calc_storage_pref;
       cur \<leftarrow> gets g_current_storage;
       whenM (pref \<noteq> STORAGE_USERDATA \<and> cur = STORAGE_USERDATA) (do {
         seq \<leftarrow> gets usr_cfg_seq;
         whenM seq (aplogd_move_logs os k STORAGE_USERDATA STORAGE_EXTERNAL);
         set_storage (switch_storage os cur STORAGE_EXTERNAL)
       })
     })
   }"

definition external_gone :: "aplogd_call os \<Rightarrow> unit aplogd" where
  "external_gone os = do {
     cur \<leftarrow> gets g_current_storage;
     whenM (cur = STORAGE_EXTERNAL) (set_storage (switch_storage os STORAGE_EXTERNAL STORAGE_USERDATA))
   }"

definition vold_message :: "aplogd_call os \<Rightarrow> nat \<Rightarrow> unit aplogd" where
  "vold_message os k = do {
     buf \<leftarrow> read_vold os;
     sec \<leftarrow> gets (\<lambda>s. g_storage_path s STORAGE_SECONDARY);
     ext \<leftarrow> gets (\<lambda>s. g_storage_path s STORAGE_EXTERNAL);
     whenM (is_trans_to_mounted sec buf) (secondary_mounted os k);
     alive () (whenM (is_trans_to_unmounted sec buf \<or> is_bad_removal sec buf) (secondary_gone os));
     alive () (whenM (is_trans_to_mounted ext buf) (external_mounted os k));
     alive () (whenM (is_trans_to_unmounted ext buf \<or> is_bad_removal ext buf) (external_gone os))
   }"

definition aplogd_io_read_data :: "aplogd_call os \<Rightarrow> logger_abi \<Rightarrow> nat \<Rightarrow> nat \<Rightarrow> unit aplogd" where
  "aplogd_io_read_data os abi k poll_num = do {
     my_fd \<leftarrow> gets (\<lambda>s. poll_fd (aplogd_io_fd s ! poll_num));
     if poll_num < APLOGD_INPUT_KERNEL_POLL_INDEX then do {
       n \<leftarrow> syscall os (Log_len my_fd);
       read_logger os abi k my_fd poll_num (ret_val n)
     } else if poll_num = APLOGD_INPUT_KERNEL_POLL_INDEX then read_kernel os k my_fd poll_num
     else vold_message os k
   }"

section \<open>The poll loop\<close>

definition aplogd_io_handle_pollerr :: "aplogd_call os \<Rightarrow> nat \<Rightarrow> unit aplogd" where
  "aplogd_io_handle_pollerr os offset = do {
     temp_fd \<leftarrow> gets (\<lambda>s. poll_fd (aplogd_io_fd s ! offset));
     syscall os (Close temp_fd);
     aplogd_io_remove_poll_fd offset
   }"

text \<open>The result says whether the descriptor was removed from the list.\<close>

definition aplogd_io_handle_poll :: "aplogd_call os \<Rightarrow> logger_abi \<Rightarrow> nat \<Rightarrow> nat \<Rightarrow> bool aplogd" where
  "aplogd_io_handle_poll os abi k poll_offset = do {
     ev \<leftarrow> gets (\<lambda>s. revents (aplogd_io_fd s ! poll_offset));
     whenM (ev AND POLLIN \<noteq> 0) (do {
       aplogd_io_read_data os abi k poll_offset;
       set_poll poll_offset (\<lambda>p. p\<lparr>revents := revents p AND NOT POLLIN\<rparr>)
     });
     alive False (do {
       ev \<leftarrow> gets (\<lambda>s. revents (aplogd_io_fd s ! poll_offset));
       if ev AND POLLERR \<noteq> 0 \<or> ev AND POLLHUP \<noteq> 0 then do {
         aplogd_io_handle_pollerr os poll_offset;
         set_poll poll_offset (\<lambda>p. p\<lparr>revents := revents p AND NOT POLLERR AND NOT POLLHUP\<rparr>);
         return True
       } else return False
     })
   }"

function dispatch_events :: "aplogd_call os \<Rightarrow> logger_abi \<Rightarrow> nat \<Rightarrow> nat \<Rightarrow> nat \<Rightarrow> unit aplogd" where
  "dispatch_events os abi k i poll_ret =
     (if poll_ret = 0 \<or> i \<ge> APLOGD_MAX_IO_FDS then return ()
      else do {
        ev \<leftarrow> gets (\<lambda>s. revents (aplogd_io_fd s ! i));
        if ev \<noteq> 0 then do {
          removed \<leftarrow> aplogd_io_handle_poll os abi k i;
          alive () (if removed then dispatch_events os abi k i (poll_ret - 1)
                    else dispatch_events os abi k (i + 1) (poll_ret - 1))
        } else dispatch_events os abi k (i + 1) poll_ret
      })"

  by pat_completeness auto

termination by (relation "measure (\<lambda>(os, abi, k, i, poll_ret). poll_ret + (APLOGD_MAX_IO_FDS - i))") auto

declare dispatch_events.simps [simp del]

text \<open>\<open>poll\<close> fills in the returned events; those of a negative descriptor are 0.\<close>

definition poll_events :: "aplogd_call os \<Rightarrow> int aplogd" where
  "poll_events os = do {
     fds \<leftarrow> gets (\<lambda>s. map poll_fd (aplogd_io_fd s));
     timeout \<leftarrow> gets aplogd_poll_timeout;
     r \<leftarrow> syscall os (Poll fds timeout);
     whenM (ret_val r \<ge> 0) (for_each (\<lambda>i. do {
       ev \<leftarrow> syscall os (Revents i);
       set_poll i (\<lambda>p. p\<lparr>revents := if poll_fd p < 0 then 0 else word_of_int (ret_val ev)\<rparr>)
     }) [0..<APLOGD_MAX_IO_FDS]);
     return (ret_val r)
   }"

section \<open>Configuration and start\<close>

text \<open>\<open>setLogFormat\<close> and \<open>aplogd_config_load\<close> of \<open>aplogd.c\<close>; \<open>FORMAT_OFF\<close> is 0.\<close>

definition setLogFormat :: "aplogd_call os \<Rightarrow> string \<Rightarrow> int aplogd" where
  "setLogFormat os formatString = do {
     syscall os Log_format_new;
     format \<leftarrow> syscall os (Log_format formatString);
     if ret_val format = 0 then return (-1)
     else do { syscall os (Set_print_format (ret_val format)); return 0 }
   }"

definition aplogd_config_load :: "aplogd_call os \<Rightarrow> unit aplogd" where
  "aplogd_config_load os = do {
     collect \<leftarrow> gets usr_cfg_collect;
     for_each (\<lambda>(i, c). set_io i (\<lambda>e. e\<lparr>collect_flag := aplogd_is_collected collect c\<rparr>))
       (zip streams ''mresk'');
     fmt \<leftarrow> gets usr_cfg_format;
     setLogFormat os fmt;
     set_io APLOGD_VOLD_STATUS_POLL_INDEX (\<lambda>e. e\<lparr>collect_flag := True\<rparr>);
     set_storage aplogd_calc_storage_pref;
     size \<leftarrow> gets usr_cfg_size;
     modify (\<lambda>s. s\<lparr>aplogd_logfile_max := aplogd_get_filesize size (g_current_storage s)\<rparr>)
   }"

definition boot_secondary :: "aplogd_call os \<Rightarrow> nat \<Rightarrow> unit aplogd" where
  "boot_secondary os k = do {
     w \<leftarrow> is_storage_writable os STORAGE_SECONDARY;
     if \<not> w then modify (\<lambda>s. s\<lparr>g_current_storage := STORAGE_EXTERNAL\<rparr>)
     else do {
       aplogd_log_save os k STORAGE_SECONDARY;
       alive () (do {
         r \<leftarrow> aplogd_output_setup os STORAGE_SECONDARY;
         whenM (r \<noteq> 0) (modify (\<lambda>s. s\<lparr>g_current_storage := STORAGE_EXTERNAL\<rparr>))
       })
     }
   }"

definition boot_external :: "aplogd_call os \<Rightarrow> nat \<Rightarrow> unit aplogd" where
  "boot_external os k = do {
     aplogd_log_save os k STORAGE_EXTERNAL;
     alive () (do {
       r \<leftarrow> aplogd_output_setup os STORAGE_EXTERNAL;
       whenM (r \<noteq> 0) (modify (\<lambda>s. s\<lparr>g_current_storage := STORAGE_USERDATA\<rparr>))
     })
   }"

definition aplogd_io_boot_finish :: "aplogd_call os \<Rightarrow> nat \<Rightarrow> int aplogd" where
  "aplogd_io_boot_finish os k = do {
     finished \<leftarrow> gets config_finish;
     whenM (\<not> finished) (do {
       aplogd_config_load os;
       modify (\<lambda>s. s\<lparr>config_finish := True\<rparr>)
     });
     cur \<leftarrow> gets g_current_storage;
     whenM (cur = STORAGE_SECONDARY) (boot_secondary os k);
     alive (-1) (do {
       cur \<leftarrow> gets g_current_storage;
       whenM (cur = STORAGE_EXTERNAL) (boot_external os k);
       alive (-1) (do {
         cur \<leftarrow> gets g_current_storage;
         out \<leftarrow> (if cur = STORAGE_USERDATA then aplogd_output_setup os STORAGE_USERDATA else return 0);
         inp \<leftarrow> aplogd_input_setup os;
         return (if out \<noteq> 0 \<or> inp \<noteq> 0 then -1 else 0)
       })
     })
   }"

definition reload_config :: "aplogd_call os \<Rightarrow> unit aplogd" where
  "reload_config os = do {
     ret \<leftarrow> aplogd_calc_storage_pref;
     cur \<leftarrow> gets g_current_storage;
     whenM (cur \<noteq> ret) (set_storage (switch_storage os cur ret));
     aplogd_config_load os;
     for_each (\<lambda>i. do {
       e \<leftarrow> gets (\<lambda>s. aplogd_io_array s ! i);
       if \<not> collect_flag e then aplogd_io_remove_poll_fd i
       else whenM (input_fd e \<ge> 0) (aplogd_io_add_poll_fd (input_fd e) POLLIN i)
     }) streams
   }"

definition log_io_step :: "aplogd_call os \<Rightarrow> logger_abi \<Rightarrow> nat \<Rightarrow> unit aplogd" where
  "log_io_step os abi k = do {
     changed \<leftarrow> syscall os Signal_seen;
     whenM (ret_val changed = 1) (reload_config os);
     poll_ret \<leftarrow> poll_events os;
     (if poll_ret = 0 then do {
        aplogd_rambuf_outputall os;
        modify (\<lambda>s. s\<lparr>aplogd_poll_timeout := -1, unwritten_bytes := 0\<rparr>)
      } else dispatch_events os abi k 0 (nat poll_ret));
     alive () (do {
       fd \<leftarrow> gets (\<lambda>s. input_fd (aplogd_io_array s ! APLOGD_VOLD_STATUS_POLL_INDEX));
       whenM (fd < 0) (open_vold os)
     })
   }"

primrec log_io_loop :: "aplogd_call os \<Rightarrow> logger_abi \<Rightarrow> nat \<Rightarrow> nat \<Rightarrow> unit aplogd" where
  "log_io_loop os abi k 0 = return ()"
| "log_io_loop os abi k (Suc rounds) = do {
     log_io_step os abi k;
     alive () (log_io_loop os abi k rounds)
   }"

definition aplogd_log_io :: "aplogd_call os \<Rightarrow> logger_abi \<Rightarrow> nat \<Rightarrow> nat \<Rightarrow> unit aplogd" where
  "aplogd_log_io os abi k rounds = do {
     aplogd_log_save os k STORAGE_SECONDARY;
     alive () (do {
       aplogd_log_save os k STORAGE_USERDATA;
       alive () (do {
         r \<leftarrow> aplogd_io_boot_finish os k;
         alive () (if r < 0 then aplogd_io_cleanup os else log_io_loop os abi k rounds)
       })
     })
   }"

end
