(* ===== verification/Aplogd_Config.thy ===== *)
theory Aplogd_Config
  imports Aplogd_Io
begin

text \<open>
  The start of the log collector, \<open>src/aplogd/aplogd.c\<close>: the files an earlier version left behind, dropping
  root, the storages of the environment, the options of the command line or of the property, and \<open>main\<close>.

  \<open>getopt_long\<close> is the C library's: options and their arguments in the order of the command line, other
  words skipped, \<open>--\<close> ends. The table of long options has no terminating entry; a word that is not exactly
  a long option makes the library read behind the table, which is \<open>Past_table\<close>.
\<close>

section \<open>Before root is dropped\<close>

abbreviation "FILENAME_MAX \<equiv> 4096 :: nat"

definition aplogd_erase_dir_contents :: "aplogd_call os \<Rightarrow> nat \<Rightarrow> string \<Rightarrow> unit aplogd" where
  "aplogd_erase_dir_contents os k dir_path = do {
     dir \<leftarrow> syscall os (Opendir dir_path);
     if ret_val dir = 0 then return ()
     else do {
       read_entries os k (ret_val dir) (\<lambda>d_name _.
         if dot_entry d_name then return (Inr ())
         else do {
           syscall os (Remove (snprintf FILENAME_MAX (dir_path @ ''/'' @ d_name)));
           return (Inr ())
         }) ();
       syscall os (Closedir (ret_val dir));
       return ()
     }
   }"

text \<open>\<open>ret_aux\<close> of this \<open>stat\<close> is the owner.\<close>

definition aplogd_erase_legacy_files :: "aplogd_call os \<Rightarrow> nat \<Rightarrow> unit aplogd" where
  "aplogd_erase_legacy_files os k = do {
     st \<leftarrow> syscall os (Stat ''/data/logger/aplogd.db'');
     whenM (ret_val st = 0 \<and> ret_aux st = 0) (do {
       aplogd_erase_dir_contents os k ''/data/logger/last'';
       aplogd_erase_dir_contents os k ''/data/logger''
     })
   }"

text \<open>A call whose failure makes the program exit.\<close>

definition must_succeed :: "aplogd_call os \<Rightarrow> aplogd_call \<Rightarrow> unit aplogd" where
  "must_succeed os c = do {
     r \<leftarrow> syscall os c;
     whenM (ret_val r = -1) (modify (\<lambda>s. s\<lparr>exited := True\<rparr>))
   }"

definition aplogd_drop_root :: "aplogd_call os \<Rightarrow> unit aplogd" where
  "aplogd_drop_root os = do {
     uid \<leftarrow> syscall os Getuid;
     whenM (ret_val uid = 0) (do {
       syscall os (Prctl ''PR_SET_KEEPCAPS'');
       for_each (\<lambda>c. alive () (must_succeed os c))
         [Setgroups [''AID_SYSTEM'', ''AID_SDCARD_RW'', ''AID_MOUNT''], Setgid ''AID_LOG'', Setuid ''AID_LOG'',
          Capset ''CAP_SYS_ADMIN'']
     })
   }"

section \<open>Options\<close>

datatype opt = Opt char string | Bad_option | Past_table

definition longopts :: "(string \<times> bool \<times> char) list" where
  "longopts =
     [(''collect'', True, CHR ''c''), (''format'', True, CHR ''f''), (''size'', True, CHR ''s''),
      (''backup'', True, CHR ''b''), (''seq'', False, CHR ''q''), (''sdcard'', False, CHR ''x''),
      (''ext'', False, CHR ''x''), (''help'', False, CHR ''h'')]"

fun short_opts :: "string \<Rightarrow> string list \<Rightarrow> opt list \<times> string list" where
  "short_opts [] rest = ([], rest)"
| "short_opts (c # cs) rest =
     (if c \<in> set ''qxh'' then (let (os, r) = short_opts cs rest in (Opt c [] # os, r))
      else if c \<in> set ''cfsb'' then
        (if cs \<noteq> [] then ([Opt c cs], rest)
         else case rest of [] \<Rightarrow> ([Bad_option], []) | a # r \<Rightarrow> ([Opt c a], r))
      else (let (os, r) = short_opts cs rest in (Bad_option # os, r)))"

definition long_opt :: "string \<Rightarrow> string list \<Rightarrow> opt \<times> string list" where
  "long_opt w rest =
     (let name = takeWhile (\<lambda>c. c \<noteq> CHR ''='') w; val = dropWhile (\<lambda>c. c \<noteq> CHR ''='') w in
      case map_of longopts name of
        None \<Rightarrow> (Past_table, rest)
      | Some (False, c) \<Rightarrow> (if val = [] then Opt c [] else Bad_option, rest)
      | Some (True, c) \<Rightarrow>
          if val \<noteq> [] then (Opt c (tl val), rest)
          else case rest of [] \<Rightarrow> (Bad_option, []) | a # r \<Rightarrow> (Opt c a, r))"

lemma short_opts_shrinks: "length (snd (short_opts cs rest)) \<le> length rest"
  by (induction cs rest rule: short_opts.induct) (auto simp: Let_def split: list.splits prod.splits)

lemma long_opt_shrinks: "length (snd (long_opt w rest)) \<le> length rest"
  by (auto simp: long_opt_def Let_def split: option.splits list.splits bool.splits)

function getopt_long :: "string list \<Rightarrow> opt list" where
  "getopt_long [] = []"
| "getopt_long (w # rest) =
     (if w = ''--'' then []
      else if starts_with ''--'' w then (let (o', r) = long_opt (drop 2 w) rest in o' # getopt_long r)
      else if starts_with ''-'' w \<and> w \<noteq> ''-'' then (let (os, r) = short_opts (tl w) rest in os @ getopt_long r)
      else getopt_long rest)"
  by pat_completeness auto

termination
proof (relation "measure length", goal_cases)
  case (2 w rest p o' r)
  then have "r = snd (long_opt (drop 2 w) rest)" by (metis snd_conv)
  then show ?case using long_opt_shrinks [of "drop 2 w" rest] by (simp add: less_Suc_eq_le)
next
  case (3 w rest p os r)
  then have "r = snd (short_opts (tl w) rest)" by (metis snd_conv)
  then show ?case using short_opts_shrinks [of "tl w" rest] by (simp add: less_Suc_eq_le)
qed simp_all

declare getopt_long.simps [simp del]

text \<open>\<open>if (0 >= usr_cfg_size)\<close> on an unsigned number: only 0 gets the default.\<close>

definition apply_option :: "opt \<Rightarrow> unit aplogd" where
  "apply_option opt =
     (case opt of
        Past_table \<Rightarrow> undefined_behaviour
      | Bad_option \<Rightarrow> modify (\<lambda>s. s\<lparr>exited := True\<rparr>)
      | Opt c optarg \<Rightarrow>
          if c = CHR ''c'' then modify (\<lambda>s. s\<lparr>usr_cfg_collect := optarg\<rparr>)
          else if c = CHR ''f'' then modify (\<lambda>s. s\<lparr>usr_cfg_format := optarg\<rparr>)
          else if c = CHR ''s'' then
            (let n = word_of_int (atoi optarg) in modify (\<lambda>s. s\<lparr>usr_cfg_size := if 0 \<ge> n then 50 else n\<rparr>))
          else if c = CHR ''b'' then
            (let n = word_of_int (atoi optarg) in
             modify (\<lambda>s. s\<lparr>usr_cfg_backup := if 0 \<ge> n then word_of_int DEFAULT_USR_CFG_MAX_DIR_COUNT else n\<rparr>))
          else if c = CHR ''q'' then modify (\<lambda>s. s\<lparr>usr_cfg_seq := True\<rparr>)
          else if c = CHR ''x'' then modify (\<lambda>s. s\<lparr>usr_cfg_ext := True\<rparr>)
          else modify (\<lambda>s. s\<lparr>exited := True\<rparr>))"

definition parse_usr_cfg :: "string list \<Rightarrow> unit aplogd" where
  "parse_usr_cfg argv = do {
     modify (\<lambda>s. s\<lparr>usr_cfg_seq := False, usr_cfg_ext := False\<rparr>);
     for_each (\<lambda>opt. alive () (apply_option opt)) (getopt_long (tl argv))
   }"

abbreviation "MAX_ARGC \<equiv> 12 :: nat"

definition build_argv :: "aplogd_call os \<Rightarrow> string \<Rightarrow> string list aplogd" where
  "build_argv os args = do {
     p \<leftarrow> syscall os Malloc;
     whenM (ret_val p = 0) (modify (\<lambda>s. s\<lparr>exited := True\<rparr>));
     return (''aplogd'' # take (MAX_ARGC - 1) (strtok_all '' ,'' args))
   }"

abbreviation "USR_CFG_PROP \<equiv> ''persist.log.aplogd.config''"

definition aplogd_load_usr_cfg :: "aplogd_call os \<Rightarrow> string list \<Rightarrow> unit aplogd" where
  "aplogd_load_usr_cfg os argv =
     (if 1 < length argv then parse_usr_cfg argv
      else do {
        r \<leftarrow> syscall os (Property_get USR_CFG_PROP []);
        let cfg_prop = cstr (ret_data r);
        if cfg_prop = [] then return ()
        else do {
          new_argv \<leftarrow> build_argv os cfg_prop;
          alive () (do {
            parse_usr_cfg new_argv;
            alive () (do { syscall os Free; return () })
          })
        }
      })"

section \<open>Storages of the environment\<close>

text \<open>\<open>getenv\<close> and the copy of its value; the null pointer is 0.\<close>

definition getenv :: "aplogd_call os \<Rightarrow> string \<Rightarrow> string option aplogd" where
  "getenv os name = do {
     r \<leftarrow> syscall os (Getenv name);
     if ret_val r = 0 then return None
     else do {
       m \<leftarrow> syscall os Malloc;
       return (if ret_val m = 0 then None else Some (cstr (ret_data r)))
     }
   }"

definition set_path :: "STORAGE_T \<Rightarrow> string option \<Rightarrow> unit aplogd" where
  "set_path storage p =
     whenM (p \<noteq> None) (modify (\<lambda>s. s\<lparr>g_storage_path := (g_storage_path s)(storage := p)\<rparr>))"

definition aplogd_init_storage_refs :: "aplogd_call os \<Rightarrow> unit aplogd" where
  "aplogd_init_storage_refs os = do {
     set_path STORAGE_USERDATA (Some ''/data'');
     ext_path \<leftarrow> getenv os ''EXTERNAL_STORAGE'';
     set_path STORAGE_EXTERNAL ext_path;
     sec_paths \<leftarrow> getenv os ''SECONDARY_STORAGE'';
     set_path STORAGE_SECONDARY (map_option (takeWhile (\<lambda>c. c \<noteq> CHR '':'')) sec_paths);
     for_each (\<lambda>i. do {
       p \<leftarrow> gets (\<lambda>s. g_storage_path s i);
       case p of
         None \<Rightarrow> return ()
       | Some path \<Rightarrow> do {
           m \<leftarrow> syscall os Malloc;
           whenM (ret_val m = 0) undefined_behaviour;
           modify (\<lambda>s. s\<lparr>g_output_path := (g_output_path s)(i \<mapsto> path @ ''/logger'')\<rparr>)
         }
     }) [STORAGE_USERDATA, STORAGE_EXTERNAL, STORAGE_SECONDARY]
   }"

text \<open>\<open>signal\<close> answers \<open>SIG_ERR\<close> with -1. \<open>SIGUSR1\<close> is 10, \<open>SIGTERM\<close> 15.\<close>

definition aplogd_start :: "aplogd_call os \<Rightarrow> logger_abi \<Rightarrow> nat \<Rightarrow> nat \<Rightarrow> unit aplogd" where
  "aplogd_start os abi k rounds = do {
     aplogd_io_array_init;
     syscall os (Open_tag_map ''EVENT_TAG_MAP_FILE'');
     usr1 \<leftarrow> syscall os (Signal 10);
     if ret_val usr1 = -1 then return ()
     else do {
       sigterm \<leftarrow> syscall os (Signal 15);
       if ret_val sigterm = -1 then return ()
       else do {
         aplogd_rambuf_init os;
         alive () (aplogd_log_io os abi k rounds)
       }
     }
   }"

definition aplogd_main :: "aplogd_call os \<Rightarrow> logger_abi \<Rightarrow> nat \<Rightarrow> nat \<Rightarrow> string list \<Rightarrow> unit aplogd" where
  "aplogd_main os abi k rounds argv = do {
     aplogd_erase_legacy_files os k;
     aplogd_drop_root os;
     alive () (do {
       aplogd_init_storage_refs os;
       aplogd_load_usr_cfg os argv;
       alive () (aplogd_start os abi k rounds)
     })
   }"

end
