(* ===== verification/Aplogd_Options.thy ===== *)
theory Aplogd_Options
  imports Aplogd_Config
begin

text \<open>
  The options of the log collector: the text of its property means what it says, and a negative number of
  backups makes the program hang.
\<close>

section \<open>A configuration and its text\<close>

record config =
  cfg_collect :: string
  cfg_format :: string
  cfg_size :: nat
  cfg_backup :: nat
  cfg_ext :: bool
  cfg_seq :: bool

definition config_text :: "config \<Rightarrow> string" where
  "config_text c = ''--collect '' @ cfg_collect c @ '',--format '' @ cfg_format c @
     '',--size '' @ show_nat (cfg_size c) @ '',--backup '' @ show_nat (cfg_backup c) @
     (if cfg_ext c then '',--ext'' else []) @ (if cfg_seq c then '',--seq'' else [])"

definition word_ok :: "string \<Rightarrow> bool" where
  "word_ok w \<longleftrightarrow> w \<noteq> [] \<and> set w \<inter> set ('' ,'' @ [NUL]) = {}"

definition number_ok :: "nat \<Rightarrow> bool" where
  "number_ok n \<longleftrightarrow> 0 < n \<and> n < 2 ^ 31"

definition config_ok :: "config \<Rightarrow> bool" where
  "config_ok c \<longleftrightarrow> word_ok (cfg_collect c) \<and> word_ok (cfg_format c) \<and> number_ok (cfg_size c) \<and> number_ok (cfg_backup c)"

definition config_words :: "config \<Rightarrow> string list" where
  "config_words c = [''--collect'', cfg_collect c, ''--format'', cfg_format c, ''--size'', show_nat (cfg_size c),
     ''--backup'', show_nat (cfg_backup c)] @ (if cfg_ext c then [''--ext''] else []) @ (if cfg_seq c then [''--seq''] else [])"

lemma word_ok_show_nat: "word_ok (show_nat n)"
  using show_nat_not_empty [of n] show_nat_digits [of n] isdigit_plain by (auto simp: word_ok_def)

lemma strtok_word:
  assumes "word_ok w"
  shows "d \<in> {CHR '' '', CHR '',''} \<Longrightarrow> strtok_go '' ,'' [] (w @ d # s) = w # strtok_go '' ,'' [] s"
    and "strtok_go '' ,'' [] w = [w]"
  using assms strtok_go_token [of w "'' ,''" "[]" "d # s"] strtok_go_token [of w "'' ,''" "[]" "[]"]
  by (auto simp: word_ok_def)

lemma config_tokens:
  assumes "config_ok c"
  shows "strtok_all '' ,'' (config_text c) = config_words c" "nul_free (config_text c)"
proof -
  have "word_ok (cfg_collect c)" "word_ok (cfg_format c)" using assms by (simp_all add: config_ok_def)
  then show "strtok_all '' ,'' (config_text c) = config_words c"
    unfolding strtok_all_def config_text_def config_words_def
    using word_ok_show_nat by (simp add: strtok_word)
  show "nul_free (config_text c)"
    using assms word_ok_show_nat [of "cfg_size c"] word_ok_show_nat [of "cfg_backup c"]
    by (auto simp: config_text_def config_ok_def nul_free_def word_ok_def)
qed

lemma config_options:
  "getopt_long (config_words c) = [Opt (CHR ''c'') (cfg_collect c), Opt (CHR ''f'') (cfg_format c),
     Opt (CHR ''s'') (show_nat (cfg_size c)), Opt (CHR ''b'') (show_nat (cfg_backup c))] @
     (if cfg_ext c then [Opt (CHR ''x'') []] else []) @ (if cfg_seq c then [Opt (CHR ''q'') []] else [])"
  by (simp add: config_words_def getopt_long.simps long_opt_def longopts_def)

lemma option_number:
  assumes "number_ok n"
  shows "atoi (show_nat n) = int n" "unat (word_of_int (int n) :: 32 word) = n"
    "\<not> (word_of_int (int n) :: 32 word) \<le> 0"
proof -
  show "atoi (show_nat n) = int n" using assms by (simp add: number_ok_def atoi_show_nat)
  have "unat (word_of_nat n :: 32 word) = n" using assms by (simp add: number_ok_def unsigned_of_nat take_bit_nat_eq_self)
  then show "unat (word_of_int (int n) :: 32 word) = n" by simp
  then have "(word_of_int (int n) :: 32 word) \<noteq> 0" using assms by (auto simp: number_ok_def)
  then show "\<not> (word_of_int (int n) :: 32 word) \<le> 0" by simp
qed

lemma config_parsed:
  assumes "config_ok c" "\<not> exited s"
  shows "exec (parse_usr_cfg (x # config_words c)) s = s\<lparr>usr_cfg_collect := cfg_collect c, usr_cfg_format := cfg_format c,
    usr_cfg_size := word_of_int (int (cfg_size c)), usr_cfg_backup := word_of_int (int (cfg_backup c)),
    usr_cfg_seq := cfg_seq c, usr_cfg_ext := cfg_ext c\<rparr>"
proof -
  have n: "number_ok (cfg_size c)" "number_ok (cfg_backup c)" using assms(1) by (simp_all add: config_ok_def)
  show ?thesis
    using assms(2) option_number [OF n(1)] option_number [OF n(2)]
    by (simp add: parse_usr_cfg_def config_options apply_option_def alive_def split_beta)
qed

text \<open>
  C31: a configuration written as text (streams, format, size, backups, the two switches) into the property
  \<open>persist.log.aplogd.config\<close> is loaded as exactly this configuration when the command line has no options.
\<close>

theorem config_roundtrip:
  assumes "config_ok c" "\<not> exited s" "length argv \<le> 1"
    and "\<And>h. os h (Property_get USR_CFG_PROP []) = data_result (config_text c @ [NUL])"
    and "\<And>h. ret_val (os h Malloc) \<noteq> 0"
  shows "let t = exec (aplogd_load_usr_cfg os argv) s in
    usr_cfg_collect t = cfg_collect c \<and> usr_cfg_format t = cfg_format c \<and>
    unat (usr_cfg_size t) = cfg_size c \<and> unat (usr_cfg_backup t) = cfg_backup c \<and>
    usr_cfg_seq t = cfg_seq c \<and> usr_cfg_ext t = cfg_ext c \<and> \<not> exited t"
proof -
  have tokens: "take (MAX_ARGC - 1) (strtok_all '' ,'' (cstr (config_text c @ [NUL]))) = config_words c"
    using config_tokens [OF assms(1)] by (simp add: config_words_def)
  have given: "cstr (config_text c @ [NUL]) \<noteq> []"
  proof -
    have "config_text c \<noteq> []" by (simp add: config_text_def)
    then show ?thesis using config_tokens(2) [OF assms(1)] by simp
  qed
  let ?s = "s\<lparr>trace := trace s @ [(Property_get USR_CFG_PROP [], data_result (config_text c @ [NUL])),
    (Malloc, os (trace s @ [(Property_get USR_CFG_PROP [], data_result (config_text c @ [NUL]))]) Malloc)]\<rparr>"
  have parsed: "exec (parse_usr_cfg (''aplogd'' # config_words c)) ?s = ?s\<lparr>usr_cfg_collect := cfg_collect c,
      usr_cfg_format := cfg_format c, usr_cfg_size := word_of_int (int (cfg_size c)),
      usr_cfg_backup := word_of_int (int (cfg_backup c)), usr_cfg_seq := cfg_seq c, usr_cfg_ext := cfg_ext c\<rparr>"
    by (rule config_parsed [OF assms(1)]) (simp add: assms(2))
  have n: "number_ok (cfg_size c)" "number_ok (cfg_backup c)" using assms(1) by (simp_all add: config_ok_def)
  obtain h where run: "exec (aplogd_load_usr_cfg os argv) s = (exec (parse_usr_cfg (''aplogd'' # config_words c)) ?s)\<lparr>trace := h\<rparr>"
    using assms(2,3,5) given parsed tokens
    by (simp add: aplogd_load_usr_cfg_def assms(4) build_argv_def alive_def Let_def split_beta)
  show ?thesis
    unfolding run parsed Let_def using assms(2) option_number(2) [OF n(1)] option_number(2) [OF n(2)] by simp
qed

definition sample_config :: config where
  "sample_config = \<lparr>cfg_collect = ''mrk'', cfg_format = ''threadtime'', cfg_size = 50, cfg_backup = 15,
     cfg_ext = True, cfg_seq = False\<rparr>"

definition property_phone :: "aplogd_call os" where
  "property_phone h c = (case c of Malloc \<Rightarrow> result 1
     | Property_get p d \<Rightarrow> data_result (config_text sample_config @ [NUL]) | _ \<Rightarrow> result 0)"

theorem config_roundtrip_witness:
  "usr_cfg_collect (exec (aplogd_load_usr_cfg property_phone [''aplogd'']) init_aplogd) = ''mrk'' \<and>
   unat (usr_cfg_backup (exec (aplogd_load_usr_cfg property_phone [''aplogd'']) init_aplogd)) = 15 \<and>
   \<not> usr_cfg_seq (exec (aplogd_load_usr_cfg property_phone [''aplogd'']) init_aplogd)"
proof -
  have "config_ok sample_config" "\<not> exited init_aplogd"
    by (simp_all add: config_ok_def sample_config_def word_ok_def number_ok_def init_aplogd_def)
  then show ?thesis
    using config_roundtrip [of sample_config init_aplogd "[''aplogd'']" property_phone]
    by (simp add: property_phone_def Let_def) (simp add: sample_config_def)
qed

section \<open>A negative number of backups\<close>

text \<open>
  \<open>parse_usr_cfg\<close> replaces only the number 0 by the default, because the variable is unsigned;
  \<open>aplogd_util_cleardir\<close> takes the number as a signed one.
\<close>

lemma negative_option:
  assumes "0 < n" "n < 2 ^ 31"
  shows "sint (usr_cfg_backup (exec (apply_option (Opt (CHR ''b'') (CHR ''-'' # show_nat n))) s)) = - int n"
proof -
  have "atoi (CHR ''-'' # show_nat n) = - int n"
    using assms by (simp add: strtol_def isspace_def digits_val_show_nat clamp32_def)
  moreover have "sint (word_of_int (- int n) :: 32 word) = - int n"
    using to_int32_id [of "- int n"] assms by (simp add: to_int32_def)
  moreover from this have "(word_of_int (- int n) :: 32 word) \<noteq> 0" using assms(1) by (metis neg_0_equal_iff_equal of_nat_eq_0_iff less_irrefl sint_0)
  ultimately show ?thesis by (simp add: apply_option_def)
qed

lemma cleardir_spins:
  assumes "\<And>h d. ret_val (os h (Opendir d)) \<noteq> 0" "\<And>h d. ret_val (os h (Readdir d)) = 0" "lim \<le> 0"
  shows "eval_in (aplogd_util_cleardir os (Suc k) rounds dir lim newest) s = None"
proof (induction rounds arbitrary: newest s)
  case (Suc rounds)
  then show ?case using assms by (simp add: scan_backups_def Let_def split_beta)
qed simp

text \<open>
  C32: with the option \<open>-b\<close> and a negative number the collector hangs while it saves the old logs: in a
  folder without backups the loop of \<open>aplogd_util_cleardir\<close> is still running after any number of rounds.
\<close>

theorem negative_backup_hangs:
  assumes "0 < n" "n < 2 ^ 31"
    and "\<And>h d. ret_val (os h (Opendir d)) \<noteq> 0" "\<And>h d. ret_val (os h (Readdir d)) = 0"
  shows "let lim = sint (usr_cfg_backup (exec (apply_option (Opt (CHR ''b'') (CHR ''-'' # show_nat n))) s)) in
    eval_in (aplogd_util_cleardir os (Suc k) rounds dir lim 0) s = None"
  using cleardir_spins [OF assms(3,4)] negative_option [OF assms(1,2)] by (simp add: Let_def)

definition empty_folder :: "aplogd_call os" where
  "empty_folder h c = (case c of Opendir d \<Rightarrow> result 5 | _ \<Rightarrow> result 0)"

theorem negative_backup_hangs_witness:
  "eval_in (aplogd_util_cleardir empty_folder 9 1000 ''/data/logger''
     (sint (usr_cfg_backup (exec (apply_option (Opt (CHR ''b'') ''-5'')) init_aplogd))) 0) init_aplogd = None"
proof -
  have "show_nat 5 = ''5''" by code_simp
  then show ?thesis
    using negative_backup_hangs [of 5 empty_folder init_aplogd 8 1000 "''/data/logger''"]
    by (simp add: empty_folder_def Let_def)
qed

end
