(* ===== verification/Aplogd_Safety.thy ===== *)
theory Aplogd_Safety
  imports Aplogd_Config "HOL-Library.Sublist"
begin

text \<open>
  What holds in every run of the log collector: its RAM buffers are never overrun, it reads no memory it
  must not read when kernel and libraries behave as documented, and it gives root up before it does
  anything but clean up.
\<close>

section \<open>The invariant\<close>

text \<open>
  \<open>sound good s\<close>: the arrays have their length and the buffers their bound. With \<open>good\<close> the program has
  also run into no undefined behaviour, and the output paths fit the buffers they are copied to.
\<close>

definition sound :: "bool \<Rightarrow> aplogd_state \<Rightarrow> bool" where
  "sound good s \<longleftrightarrow> length (aplogd_io_array s) = APLOGD_MAX_IO_FDS \<and>
     length (aplogd_io_fd s) = APLOGD_MAX_IO_FDS \<and>
     (\<forall>i<APLOGD_MAX_IO_FDS. length (input_buf (aplogd_io_array s ! i)) \<le> aplogd_ram_buff_size) \<and>
     (good \<longrightarrow> \<not> fault s \<and> (\<forall>st p. g_output_path s st = Some p \<longrightarrow> length p < MAX_PATH_LEN))"

text \<open>\<open>ready\<close>: the RAM buffers exist too.\<close>

definition ready :: "bool \<Rightarrow> aplogd_state \<Rightarrow> bool" where
  "ready good s \<longleftrightarrow> sound good s \<and> (\<forall>i\<in>set streams. input_buf_base (aplogd_io_array s ! i))"

lemma sound_vars [simp]:
  "sound good (s\<lparr>trace := h\<rparr>) = sound good s" "sound good (s\<lparr>aplogd_bytes_lost := w\<rparr>) = sound good s"
  "sound good (s\<lparr>total_write_size := w\<rparr>) = sound good s" "sound good (s\<lparr>unwritten_bytes := w\<rparr>) = sound good s"
  "sound good (s\<lparr>aplogd_poll_timeout := t\<rparr>) = sound good s" "sound good (s\<lparr>exited := b\<rparr>) = sound good s"
  "sound good (s\<lparr>g_current_storage := st\<rparr>) = sound good s" "sound good (s\<lparr>aplogd_logfile_max := w\<rparr>) = sound good s"
  "sound good (s\<lparr>backup_n := n\<rparr>) = sound good s" "sound good (s\<lparr>backup_flag := f\<rparr>) = sound good s"
  "sound good (s\<lparr>usr_cfg_backup := w\<rparr>) = sound good s" "sound good (s\<lparr>config_finish := b\<rparr>) = sound good s"
  "sound good (s\<lparr>usr_cfg_size := w\<rparr>) = sound good s" "sound good (s\<lparr>usr_cfg_collect := x\<rparr>) = sound good s"
  "sound good (s\<lparr>usr_cfg_format := x\<rparr>) = sound good s" "sound good (s\<lparr>usr_cfg_seq := b\<rparr>) = sound good s"
  "sound good (s\<lparr>usr_cfg_ext := b\<rparr>) = sound good s" "sound good (s\<lparr>g_storage_path := g\<rparr>) = sound good s"
  by (simp_all add: sound_def)

lemma ready_vars [simp]:
  "ready good (s\<lparr>trace := h\<rparr>) = ready good s" "ready good (s\<lparr>aplogd_bytes_lost := w\<rparr>) = ready good s"
  "ready good (s\<lparr>total_write_size := w\<rparr>) = ready good s" "ready good (s\<lparr>unwritten_bytes := w\<rparr>) = ready good s"
  "ready good (s\<lparr>aplogd_poll_timeout := t\<rparr>) = ready good s" "ready good (s\<lparr>exited := b\<rparr>) = ready good s"
  "ready good (s\<lparr>g_current_storage := st\<rparr>) = ready good s" "ready good (s\<lparr>aplogd_logfile_max := w\<rparr>) = ready good s"
  "ready good (s\<lparr>backup_n := n\<rparr>) = ready good s" "ready good (s\<lparr>backup_flag := f\<rparr>) = ready good s"
  "ready good (s\<lparr>usr_cfg_backup := w\<rparr>) = ready good s" "ready good (s\<lparr>config_finish := b\<rparr>) = ready good s"
  by (simp_all add: ready_def)

lemma sound_fd [simp]: "sound good s \<Longrightarrow> sound good (s\<lparr>aplogd_io_fd := (aplogd_io_fd s)[i := p]\<rparr>)"
  by (simp add: sound_def)

lemma sound_fault [simp]: "\<not> good \<Longrightarrow> sound good s \<Longrightarrow> sound good (s\<lparr>fault := b\<rparr>)"
  by (simp add: sound_def)

lemma sound_io:
  assumes "sound good s" "length (input_buf (aplogd_io_array s ! i)) \<le> aplogd_ram_buff_size \<Longrightarrow>
    length (input_buf e) \<le> aplogd_ram_buff_size"
  shows "sound good (s\<lparr>aplogd_io_array := (aplogd_io_array s)[i := e]\<rparr>)"
  using assms by (cases "i < APLOGD_MAX_IO_FDS") (auto simp: sound_def nth_list_update)

lemma ready_io:
  assumes "ready good s" "length (input_buf (aplogd_io_array s ! i)) \<le> aplogd_ram_buff_size \<Longrightarrow>
    length (input_buf e) \<le> aplogd_ram_buff_size" "input_buf_base e = input_buf_base (aplogd_io_array s ! i)"
  shows "ready good (s\<lparr>aplogd_io_array := (aplogd_io_array s)[i := e]\<rparr>)"
proof -
  have len: "length (aplogd_io_array s) = 6" using assms(1) by (simp add: ready_def sound_def)
  show ?thesis
    unfolding ready_def using assms sound_io [of good s i e] len
    by (cases "i < 6") (auto simp: ready_def nth_list_update list_update_beyond)
qed

lemma ready_fault [simp]: "\<not> good \<Longrightarrow> ready good s \<Longrightarrow> ready good (s\<lparr>fault := b\<rparr>)"
  by (simp add: ready_def)

definition rotated_file_exists :: "aplogd_call os \<Rightarrow> bool" where
  "rotated_file_exists os \<longleftrightarrow> (\<forall>h dir i. ret_val (os h (Stat (snprintf MAX_PATH_LEN
     (dir @ ''/'' @ APLOGD_OLD_FILE_EXT @ ''.0.'' @ output_filename i)))) = 0)"

definition entries_fit :: "logger_abi \<Rightarrow> bool" where
  "entries_fit abi \<longleftrightarrow> 0 < msg_at abi \<and> (\<forall>b. msg_at abi + entry_len abi b \<le> entry_max abi)"

definition vold_terminates :: "aplogd_call os \<Rightarrow> bool" where
  "vold_terminates os \<longleftrightarrow> (\<forall>h fd. let r = os h (Read fd 4096) in
     NUL \<in> set (take (nat (ret_val r)) (take 4095 (ret_data r))) \<or> 4096 \<le> length (take (nat (ret_val r)) (ret_data r)))"

text \<open>
  The contract the collector's code is checked against: an invariant that every call keeps and that
  depends on nothing but the history and \<open>ready\<close>.
\<close>

locale collector_inv =
  fixes os :: "aplogd_call os" and abi :: logger_abi and good :: bool and P :: "aplogd_state \<Rightarrow> bool"
  assumes environment: "good \<Longrightarrow> rotated_file_exists os \<and> entries_fit abi \<and> vold_terminates os"
    and is_ready: "P s \<Longrightarrow> ready good s"
    and call: "keeps P (syscall os c)"
    and frame: "P s \<Longrightarrow> trace t = trace s \<Longrightarrow> ready good t \<Longrightarrow> P t"
begin

lemma keeps_update:
  assumes "\<And>s. trace (f s) = trace s" "\<And>s. P s \<Longrightarrow> ready good (f s)"
  shows "keeps P (modify f)"
  using assms frame by (auto simp: valid_def)

lemma keeps_ub: "(good \<Longrightarrow> \<not> b) \<Longrightarrow> keeps P (whenM b undefined_behaviour)"
  unfolding undefined_behaviour_def whenM_def
  by (cases b; cases good) (auto intro!: wp_rules keeps_update ready_fault dest: is_ready)

lemma keeps_set_poll [wp_rules]: "keeps P (set_poll i f)"
  unfolding set_poll_def by (rule keeps_update) (auto simp: ready_def dest: is_ready)

lemma keeps_set_io:
  assumes "\<And>e. input_buf_base (f e) = input_buf_base e"
    and "\<And>e. length (input_buf e) \<le> aplogd_ram_buff_size \<Longrightarrow> length (input_buf (f e)) \<le> aplogd_ram_buff_size"
  shows "keeps P (set_io i f)"
  unfolding set_io_def using assms by (intro keeps_update ready_io is_ready) auto

lemma keeps_alive [wp_rules]: "keeps P m \<Longrightarrow> keeps P (alive d m)"
  unfolding alive_def by (intro wp_rules)

lemma keeps_for_each [wp_rules]: "(\<And>x. x \<in> set xs \<Longrightarrow> keeps P (f x)) \<Longrightarrow> keeps P (for_each f xs)"
  by (induction xs) (auto intro!: wp_rules)

lemma keeps_read_entries [wp_rules]:
  "(\<And>d r. keeps P (body d r)) \<Longrightarrow> keeps P (read_entries os k dp body r)"
proof (induction k arbitrary: r)
  case (Suc k)
  then show ?case by (auto intro!: wp_rules call split: sum.splits)
qed (auto intro: wp_rules)

lemmas parts = call keeps_set_io keeps_update keeps_ub

lemma keeps_close_output [wp_rules]: "keeps P (aplogd_close_output os)"
  unfolding aplogd_close_output_def by (intro wp_rules parts) simp_all

lemma keeps_open_outputs [wp_rules]: "keeps P (open_outputs os path is ret)"
  by (induction "is" arbitrary: ret) (auto intro!: wp_rules parts)

lemmas keeps_call_bind = valid_call_bind [OF call]

lemma keeps_output_setup [wp_rules]: "keeps P (aplogd_output_setup os storage)"
  unfolding aplogd_output_setup_def Let_def
proof (rule valid_gets_bind)
  fix s assume "P s"
  then have short: "good \<Longrightarrow> length (path_text (g_output_path s storage)) < MAX_PATH_LEN"
    using is_ready [of s] by (auto simp: ready_def sound_def path_text_def split: option.split)
  have ub: "keeps P (whenM True undefined_behaviour)" if "\<not> good" by (rule keeps_ub) (use that in simp)
  show "keeps P (if MAX_PATH_LEN \<le> length (path_text (g_output_path s storage))
      then undefined_behaviour \<bind> (\<lambda>_. return (- 1))
      else syscall os (Access (path_text (g_output_path s storage)) False) \<bind>
           (\<lambda>a. whenM (ret_val a \<noteq> 0) (syscall os (Mkdir (path_text (g_output_path s storage))) \<bind> (\<lambda>_. return ())) \<bind>
           (\<lambda>_. syscall os (Access (path_text (g_output_path s storage)) True) \<bind>
           (\<lambda>w. if ret_val w \<noteq> 0 then return (ret_val w)
                 else open_outputs os (path_text (g_output_path s storage)) streams 0))))"
    using short ub by (intro wp_rules parts) (auto simp: whenM_def)
qed

lemma keeps_gzip [wp_rules]: "length src < 256 \<Longrightarrow> keeps P (aplogd_util_gzip os src)"
  unfolding aplogd_util_gzip_def by (intro wp_rules parts) simp

lemma short_path [simp]: "length (snprintf n s) < m \<longleftrightarrow> min (n - 1) (length s) < m"
  by (auto simp: snprintf_def)

lemma short_join [simp]: "length (join_path a b) < 256"
  by (simp add: join_path_def)

lemma keeps_util_move [wp_rules]: "keeps P (aplogd_util_move os k src dst pstr)"
  unfolding aplogd_util_move_def by (intro wp_rules parts)

lemma keeps_remove_dir [wp_rules]: "keeps P (aplogd_remove_dir os k deep dir)"
  by (induction deep arbitrary: dir) (auto simp: Let_def intro!: wp_rules parts)

lemma keeps_scan_backups [wp_rules]: "keeps P (scan_backups os k dir dp newest)"
  unfolding scan_backups_def by (intro wp_rules parts)

lemma keeps_cleardir [wp_rules]: "keeps P (aplogd_util_cleardir os k rounds dir lim newest)"
  by (induction rounds arbitrary: newest) (auto simp: Let_def intro!: wp_rules parts)

lemma keeps_copy_pieces [wp_rules]: "keeps P (copy_pieces os k sfd dfd)"
  by (induction k) (auto intro!: wp_rules parts)

lemma keeps_move_logs [wp_rules]: "keeps P (aplogd_move_logs os k a b)"
  unfolding aplogd_move_logs_def by (intro wp_rules parts)

lemma keeps_shift_backups [wp_rules]: "keeps P (shift_backups os path index n ret)"
  by (induction n arbitrary: ret) (auto intro!: wp_rules parts)

lemma keeps_stat_rotated:
  assumes "\<And>st. valid P (K st) Q"
  shows "valid P (syscall os (Stat (snprintf MAX_PATH_LEN (dir @ ''/'' @ APLOGD_OLD_FILE_EXT @ ''.0.'' @ output_filename i)))
    \<bind> (\<lambda>st. whenM (ret_val st \<noteq> 0) undefined_behaviour \<bind> (\<lambda>_. K st))) Q"
  using environment assms by (intro keeps_call_bind keeps_bind keeps_ub) (simp_all add: rotated_file_exists_def)

lemma keeps_file_backup [wp_rules]: "keeps P (aplogd_io_file_backup os index storage)"
  unfolding aplogd_io_file_backup_def Let_def
  by (rule keeps_stat_rotated wp_rules parts | simp add: is_ready)+

lemma keeps_backup_streams [wp_rules]: "keeps P (backup_streams os storage is ret)"
  by (induction "is" arbitrary: ret) (auto intro!: wp_rules)

lemma keeps_backupall [wp_rules]: "keeps P (aplogd_io_backupall os storage)"
  unfolding aplogd_io_backupall_def by (intro wp_rules)

lemma keeps_gzip_existing [wp_rules]: "keeps P (gzip_existing os dir is missing)"
  by (induction "is" arbitrary: missing) (auto simp: Let_def intro!: wp_rules parts)

lemma keeps_log_save [wp_rules]: "keeps P (aplogd_log_save os k storage)"
  unfolding aplogd_log_save_def save_userdata_def save_external_def backup_dir_def
  by (intro wp_rules parts) (simp_all add: is_ready)

lemma keeps_write_out [wp_rules]: "keeps P (write_out os k index buf n)"
  by (induction k arbitrary: n) (auto intro!: wp_rules parts simp: is_ready)

lemma keeps_rambuf_output [wp_rules]: "keeps P (aplogd_rambuf_output os index)"
  unfolding aplogd_rambuf_output_def aplogd_rambuf_bytes_filled_def rotate_if_full_def
  by (intro wp_rules parts) (simp_all add: is_ready)

lemma keeps_outputall [wp_rules]: "keeps P (aplogd_rambuf_outputall os)"
  unfolding aplogd_rambuf_outputall_def by (intro wp_rules)

text \<open>Appending: the space was looked at before.\<close>

lemma append_ready:
  assumes "P s" "i \<le> APLOGD_INPUT_LAST" "length (buf_of i s) + length text \<le> aplogd_ram_buff_size"
  shows "P (exec (buffer_append i text) s)"
proof -
  have r: "ready good s" by (rule is_ready [OF assms(1)])
  have len: "i < length (aplogd_io_array s)" "input_buf_base (aplogd_io_array s ! i)"
    using r assms(2) by (auto simp: ready_def sound_def set_streams)
  have eq: "exec (buffer_append i text) s = s\<lparr>aplogd_io_array :=
      (aplogd_io_array s)[i := (aplogd_io_array s ! i)\<lparr>input_buf := buf_of i s @ text\<rparr>]\<rparr>"
    using len assms(3) by (simp add: buffer_append_def set_io_def aplogd_rambuf_bytes_filled_def buf_of_def)
  show ?thesis
    unfolding eq by (rule frame [OF assms(1)]) (use assms(3) in \<open>auto intro!: ready_io r\<close>)
qed

lemma space_eq:
  assumes "P s" "i \<le> APLOGD_INPUT_LAST"
  shows "run_state (aplogd_rambuf_space i) s = (int (aplogd_ram_buff_size - length (buf_of i s)), s)"
    and "length (buf_of i s) \<le> aplogd_ram_buff_size"
proof -
  show le: "length (buf_of i s) \<le> aplogd_ram_buff_size"
    using is_ready [OF assms(1)] assms(2) by (simp add: ready_def sound_def buf_of_def)
  show "run_state (aplogd_rambuf_space i) s = (int (aplogd_ram_buff_size - length (buf_of i s)), s)"
    using le by (simp add: aplogd_rambuf_space_def aplogd_rambuf_bytes_filled_def buf_of_def)
qed

lemma keeps_append:
  assumes "i \<le> APLOGD_INPUT_LAST" "\<And>len. c len \<Longrightarrow> 0 \<le> len \<Longrightarrow> len \<le> int aplogd_ram_buff_size \<Longrightarrow> int (length text) \<le> len"
    and "valid P m Q" "\<And>len. valid P (n len) Q"
  shows "valid P (aplogd_rambuf_space i \<bind> (\<lambda>len. if c len then buffer_append i text \<bind> (\<lambda>_. m) else n len)) Q"
proof (rule validI)
  fix s assume "P s"
  note space = space_eq [OF this assms(1)]
  let ?len = "int (aplogd_ram_buff_size - length (buf_of i s))"
  show "Q (eval_in (aplogd_rambuf_space i \<bind> (\<lambda>len. if c len then buffer_append i text \<bind> (\<lambda>_. m) else n len)) s)
      (exec (aplogd_rambuf_space i \<bind> (\<lambda>len. if c len then buffer_append i text \<bind> (\<lambda>_. m) else n len)) s)"
  proof (cases "c ?len")
    case True
    then have "int (length text) \<le> ?len" by (rule assms(2)) simp_all
    then have "P (exec (buffer_append i text) s)" using append_ready [OF \<open>P s\<close> assms(1)] space(2) by simp
    from validD [OF assms(3) this] show ?thesis using space(1) True by (simp add: split_beta)
  next
    case False
    then show ?thesis using space(1) validD [OF assms(4) \<open>P s\<close>] by (simp add: split_beta)
  qed
qed

lemma keeps_buffering [wp_rules]:
  "i \<le> APLOGD_INPUT_LAST \<Longrightarrow> keeps P (LogfilterAndBuffering os entry i)"
  unfolding LogfilterAndBuffering_def Let_def
  by (rule keeps_append wp_rules parts | simp add: is_ready)+

lemma keeps_account [wp_rules]: "keeps P (account os ret)"
  unfolding account_def by (intro wp_rules parts) (simp_all add: is_ready)

section \<open>The collector keeps the invariant\<close>

text \<open>The entry of the logger fits its buffer with the terminating zero.\<close>

lemma entry_fits:
  assumes good
  shows "\<not> msg_at abi + (if entry_len abi b \<ge> entry_max abi then entry_max abi - 1 else entry_len abi b) > entry_max abi"
proof -
  have "0 < msg_at abi" "msg_at abi + entry_len abi b \<le> entry_max abi"
    using environment [OF assms] by (auto simp: entries_fit_def)
  then show ?thesis by simp
qed

lemma keeps_read_logger [wp_rules]:
  "poll_num \<le> APLOGD_INPUT_LAST \<Longrightarrow> keeps P (read_logger os abi k fd poll_num readable)"
proof (induction k arbitrary: readable)
  case (Suc k)
  then show ?case
    unfolding read_logger.simps Let_def
    by (intro wp_rules parts) (use entry_fits in \<open>simp_all add: is_ready\<close>)
qed (auto intro!: keeps_update simp: is_ready)

lemma keeps_read_kernel [wp_rules]:
  "poll_num \<le> APLOGD_INPUT_LAST \<Longrightarrow> keeps P (read_kernel os k fd poll_num)"
proof (induction k)
  case (Suc k)
  show ?case
    unfolding read_kernel.simps
    by (rule keeps_append Suc wp_rules parts | simp; fail | auto simp: min_def)+
qed (auto intro!: keeps_update simp: is_ready)

lemma keeps_read_vold [wp_rules]: "keeps P (read_vold os)"
  unfolding read_vold_def Let_def
proof (rule keeps_bind [OF keeps_gets], rule keeps_call_bind,
    rule keeps_bind [OF keeps_ub keeps_return])
  fix fd h
  let ?r = "os h (Read fd 4096)"
  let ?buf = "take (min 4096 (nat (ret_val ?r))) (ret_data ?r)"
  assume good
  then have either: "NUL \<in> set (take (nat (ret_val ?r)) (take 4095 (ret_data ?r))) \<or>
      4096 \<le> length (take (nat (ret_val ?r)) (ret_data ?r))"
    using environment by (simp add: vold_terminates_def Let_def)
  show "\<not> NUL \<notin> set (if length ?buf = 4096 then ?buf[4095 := NUL] else ?buf)"
  proof (cases "length ?buf = 4096")
    case True
    then show ?thesis using set_update_memI [of 4095 ?buf NUL] by simp
  next
    case False
    moreover have "set (take (nat (ret_val ?r)) (take 4095 (ret_data ?r))) \<subseteq> set ?buf"
      unfolding take_take by (rule set_take_subset_set_take) simp
    ultimately show ?thesis using either by auto
  qed
qed

lemma keeps_switch_storage [wp_rules]: "keeps P (switch_storage os a b)"
  unfolding switch_storage_def by (intro wp_rules parts) (simp_all add: is_ready)

lemma keeps_set_storage [wp_rules]: "keeps P m \<Longrightarrow> keeps P (set_storage m)"
  unfolding set_storage_def by (intro wp_rules parts) (simp_all add: is_ready)

lemma keeps_storage_pref [wp_rules]: "keeps P aplogd_calc_storage_pref"
  unfolding aplogd_calc_storage_pref_def by (intro wp_rules)

lemma keeps_vold_message [wp_rules]: "keeps P (vold_message os k)"
  unfolding vold_message_def secondary_mounted_def secondary_gone_def external_mounted_def external_gone_def
  by (intro wp_rules)

lemma keeps_read_data [wp_rules]: "keeps P (aplogd_io_read_data os abi k poll_num)"
  unfolding aplogd_io_read_data_def by (intro wp_rules parts) simp_all

lemma keeps_handle_poll [wp_rules]: "keeps P (aplogd_io_handle_poll os abi k i)"
  unfolding aplogd_io_handle_poll_def aplogd_io_handle_pollerr_def aplogd_io_remove_poll_fd_def
  by (intro wp_rules parts)

lemma keeps_dispatch [wp_rules]: "keeps P (dispatch_events os abi k i n)"
proof (induction n arbitrary: i rule: less_induct)
  case (less n)
  note IH = this
  show ?case
  proof (induction "APLOGD_MAX_IO_FDS - i" arbitrary: i)
    case 0
    then show ?case by (subst dispatch_events.simps) (simp add: keeps_return)
  next
    case (Suc d)
    then show ?case
      by (subst dispatch_events.simps) (intro wp_rules IH Suc.hyps(1); simp)
  qed
qed

lemma keeps_poll_events [wp_rules]: "keeps P (poll_events os)"
  unfolding poll_events_def by (intro wp_rules parts)

lemma keeps_open_vold [wp_rules]: "keeps P (open_vold os)"
  unfolding open_vold_def aplogd_io_add_poll_fd_def by (intro wp_rules parts) simp_all

lemma keeps_open_inputs [wp_rules]: "keeps P (open_inputs os is ret)"
  unfolding aplogd_io_add_poll_fd_def
  by (induction "is" arbitrary: ret)
    (auto simp: aplogd_io_fd_setup_def aplogd_io_add_poll_fd_def intro!: wp_rules parts)

lemma keeps_config_load [wp_rules]: "keeps P (aplogd_config_load os)"
  unfolding aplogd_config_load_def setLogFormat_def
  by (intro wp_rules parts) (simp_all add: is_ready)

lemma keeps_boot_finish [wp_rules]: "keeps P (aplogd_io_boot_finish os k)"
  unfolding aplogd_io_boot_finish_def boot_secondary_def boot_external_def aplogd_input_setup_def
    is_storage_writable_def
  by (intro wp_rules parts) (simp_all add: is_ready)

lemma keeps_step [wp_rules]: "keeps P (log_io_step os abi k)"
  unfolding log_io_step_def reload_config_def aplogd_io_add_poll_fd_def aplogd_io_remove_poll_fd_def
  by (intro wp_rules parts) (simp_all add: is_ready)

lemma keeps_loop [wp_rules]: "keeps P (log_io_loop os abi k rounds)"
  by (induction rounds) (auto intro!: wp_rules)

lemma keeps_cleanup [wp_rules]: "keeps P (aplogd_io_cleanup os)"
  unfolding aplogd_io_cleanup_def by (intro wp_rules parts) simp_all

lemma keeps_log_io: "keeps P (aplogd_log_io os abi k rounds)"
  unfolding aplogd_log_io_def by (intro wp_rules)

end

section \<open>From the start\<close>

text \<open>Before the buffers exist: \<open>sound\<close>, and the storage paths leave room for the folder.\<close>

definition starting :: "bool \<Rightarrow> aplogd_state \<Rightarrow> bool" where
  "starting good s \<longleftrightarrow> sound good s \<and>
     (good \<longrightarrow> (\<forall>st p. g_storage_path s st = Some p \<longrightarrow> length p < MAX_PATH_LEN - 7))"

lemma starting_call [wp_rules]: "keeps (starting good) (syscall os c)"
  by (rule keeps_syscall) (simp add: starting_def)

lemma starting_exit [wp_rules]: "keeps (starting good) (modify (\<lambda>s. s\<lparr>exited := True\<rparr>))"
  by (rule keeps_modify) (simp add: starting_def)

lemma starting_alive [wp_rules]: "keeps (starting good) m \<Longrightarrow> keeps (starting good) (alive d m)"
  unfolding alive_def by (intro wp_rules)

lemma starting_for_each [wp_rules]:
  "(\<And>x. x \<in> set xs \<Longrightarrow> keeps (starting good) (f x)) \<Longrightarrow> keeps (starting good) (for_each f xs)"
  by (induction xs) (auto intro!: wp_rules)

lemma starting_read_entries [wp_rules]:
  "(\<And>d r. keeps (starting good) (body d r)) \<Longrightarrow> keeps (starting good) (read_entries os k dp body r)"
  by (induction k arbitrary: r) (auto intro!: wp_rules split: sum.splits)

lemma starting_erase: "keeps (starting good) (aplogd_erase_legacy_files os k)"
  unfolding aplogd_erase_legacy_files_def aplogd_erase_dir_contents_def by (intro wp_rules)

lemma starting_drop_root: "keeps (starting good) (aplogd_drop_root os)"
  unfolding aplogd_drop_root_def must_succeed_def by (intro wp_rules)

definition paths_fit :: "aplogd_call os \<Rightarrow> bool" where
  "paths_fit os \<longleftrightarrow> (\<forall>h v. length (cstr (ret_data (os h (Getenv v)))) < MAX_PATH_LEN - 7)"

lemma starting_set_path:
  "(good \<Longrightarrow> \<forall>x. p = Some x \<longrightarrow> length x < MAX_PATH_LEN - 7) \<Longrightarrow> keeps (starting good) (set_path st p)"
  unfolding set_path_def by (intro wp_rules keeps_modify) (auto simp: starting_def)

lemma starting_getenv:
  assumes "good \<Longrightarrow> paths_fit os"
    and "\<And>p. (good \<Longrightarrow> \<forall>x. p = Some x \<longrightarrow> length x < MAX_PATH_LEN - 7) \<Longrightarrow> valid (starting good) (g p) Q"
  shows "valid (starting good) (getenv os v \<bind> g) Q"
proof (rule valid_bind)
  let ?short = "\<lambda>p :: string option. good \<longrightarrow> (\<forall>x. p = Some x \<longrightarrow> length x < MAX_PATH_LEN - 7)"
  show "valid (starting good) (getenv os v) (\<lambda>p s. starting good s \<and> ?short p)"
    using assms(1) by (auto simp: getenv_def valid_def starting_def paths_fit_def)
  show "valid (\<lambda>s. starting good s \<and> ?short p) (g p) Q" for p
    using assms(2) [of p] by (auto simp: valid_def)
qed

lemma starting_output_path:
  assumes "good \<Longrightarrow> \<forall>h. ret_val (os h Malloc) \<noteq> 0" "good \<Longrightarrow> length path < MAX_PATH_LEN - 7"
  shows "keeps (starting good) (do {
     m \<leftarrow> syscall os Malloc;
     whenM (ret_val m = 0) undefined_behaviour;
     modify (\<lambda>s. s\<lparr>g_output_path := (g_output_path s)(i \<mapsto> path @ ''/logger'')\<rparr>) })"
proof (rule valid_call_bind [OF starting_call], rule keeps_bind)
  show "keeps (starting good) (whenM (ret_val (os h Malloc) = 0) undefined_behaviour)" for h
    using assms(1) unfolding undefined_behaviour_def
    by (intro keeps_whenM keeps_modify) (auto simp: starting_def sound_def)
  show "keeps (starting good) (modify (\<lambda>s. s\<lparr>g_output_path := (g_output_path s)(i \<mapsto> path @ ''/logger'')\<rparr>))"
    by (rule keeps_modify) (use assms(2) in \<open>auto simp: starting_def sound_def\<close>)
qed

lemma starting_storage_refs:
  assumes "good \<Longrightarrow> paths_fit os" "good \<Longrightarrow> \<forall>h. ret_val (os h Malloc) \<noteq> 0"
  shows "keeps (starting good) (aplogd_init_storage_refs os)"
proof -
  have cut: "length (takeWhile c x) < n" if "length x < n" for c n and x :: string
    using length_takeWhile_le [of c x] that by (rule le_less_trans)
  have short: "keeps (starting good) (set_path st (map_option (takeWhile c) p))"
    if "good \<Longrightarrow> \<forall>x. p = Some x \<longrightarrow> length x < MAX_PATH_LEN - 7" for st c p
    using that cut by (intro starting_set_path) auto
  have loop: "keeps (starting good) (for_each (\<lambda>i. do {
       p \<leftarrow> gets (\<lambda>s. g_storage_path s i);
       case p of
         None \<Rightarrow> return ()
       | Some path \<Rightarrow> do {
           m \<leftarrow> syscall os Malloc;
           whenM (ret_val m = 0) undefined_behaviour;
           modify (\<lambda>s. s\<lparr>g_output_path := (g_output_path s)(i \<mapsto> path @ ''/logger'')\<rparr>)
         } }) xs)" for xs
    by (intro starting_for_each valid_gets_bind valid_case_option keeps_return
        starting_output_path [of good os, OF assms(2)]) (auto simp: starting_def)
  show ?thesis
    unfolding aplogd_init_storage_refs_def
    by (rule keeps_bind [OF starting_set_path], simp, rule starting_getenv [of good os, OF assms(1)], assumption,
        rule keeps_bind [OF starting_set_path], blast, rule starting_getenv [of good os, OF assms(1)], assumption,
        rule keeps_bind [OF short], blast, rule loop)
qed

definition options_known :: "aplogd_call os \<Rightarrow> string list \<Rightarrow> bool" where
  "options_known os argv \<longleftrightarrow> Past_table \<notin> set (getopt_long (tl argv)) \<and>
     (\<forall>h. Past_table \<notin> set (getopt_long (take (MAX_ARGC - 1)
        (strtok_all '' ,'' (cstr (ret_data (os h (Property_get USR_CFG_PROP []))))))))"

lemma starting_parse:
  assumes "good \<Longrightarrow> Past_table \<notin> set (getopt_long (tl argv))"
  shows "keeps (starting good) (parse_usr_cfg argv)"
proof -
  have "keeps (starting good) (apply_option opt)" if "opt \<in> set (getopt_long (tl argv))" for opt
    unfolding apply_option_def undefined_behaviour_def Let_def using assms that
    by (cases opt) (auto intro!: wp_rules keeps_modify simp: starting_def sound_def)
  then show ?thesis
    unfolding parse_usr_cfg_def by (intro wp_rules keeps_modify) (auto simp: starting_def)
qed

lemma starting_load:
  assumes "good \<Longrightarrow> options_known os argv"
  shows "keeps (starting good) (aplogd_load_usr_cfg os argv)"
proof -
  have line: "keeps (starting good) (parse_usr_cfg argv)"
    using assms unfolding options_known_def by (intro starting_parse) blast
  have from_prop: "keeps (starting good) (parse_usr_cfg (x # take (MAX_ARGC - 1)
      (strtok_all '' ,'' (cstr (ret_data (os h (Property_get USR_CFG_PROP [])))))))" for h x
    using assms unfolding options_known_def by (intro starting_parse) simp
  show ?thesis
    unfolding aplogd_load_usr_cfg_def Let_def build_argv_def State_Monad.bind_assoc State_Monad.bind_left_identity
    by (rule valid_if, rule line, rule valid_call_bind [OF starting_call], rule valid_if, rule keeps_return)
      (intro wp_rules from_prop)
qed

lemma starting_array_init: "keeps (starting good) aplogd_io_array_init"
  unfolding aplogd_io_array_init_def set_poll_def set_io_def
  by (intro wp_rules keeps_modify) (auto simp: starting_def intro!: sound_io)

lemma starting_rambuf_init: "keeps (starting good) (aplogd_rambuf_init os)"
  unfolding aplogd_rambuf_init_def set_io_def
  by (intro wp_rules keeps_modify) (auto simp: starting_def intro!: sound_io)

lemma rambuf_init_ready:
  assumes "starting good s" "\<not> exited (exec (aplogd_rambuf_init os) s)"
  shows "ready good (exec (aplogd_rambuf_init os) s)"
proof -
  have "length (aplogd_io_array s) = 6" using assms(1) by (simp add: starting_def sound_def)
  then have "\<forall>i\<in>set streams. input_buf_base (aplogd_io_array (exec (aplogd_rambuf_init os) s) ! i)"
    using assms(2) by (cases "ret_val (os (trace s) Malloc) = 0") (simp_all add: aplogd_rambuf_init_def streams_def split_beta)
  moreover have "starting good (exec (aplogd_rambuf_init os) s)"
    using validD [OF starting_rambuf_init assms(1)] .
  ultimately show ?thesis by (simp add: ready_def starting_def)
qed

section \<open>Every run of the collector\<close>



interpretation history: collector_inv os abi False "\<lambda>s. ready False s \<and> prefix h (trace s)"
  for os abi h
  by unfold_locales (auto simp: valid_def)

lemma run_alive: "run_state (alive d m) s = (if exited s then (d, s) else run_state m s)"
  by (simp add: alive_def)


lemma valid_alive: "valid P m Q \<Longrightarrow> (\<And>s. P s \<Longrightarrow> Q d s) \<Longrightarrow> valid P (alive d m) Q"
  by (simp add: valid_def run_alive)

lemma valid_return: "(\<And>s. P s \<Longrightarrow> Q x s) \<Longrightarrow> valid P (return x) Q"
  by (simp add: valid_def)



lemma init_starting: "starting good init_aplogd"
  by (simp add: starting_def sound_def init_aplogd_def idle_io_def)






section \<open>Root is given up first\<close>

fun erases :: "aplogd_call \<Rightarrow> bool" where
  "erases (Stat p) = True"
| "erases (Opendir p) = True"
| "erases (Readdir d) = True"
| "erases (Closedir d) = True"
| "erases (Remove p) = True"
| "erases _ = False"

text \<open>\<open>talks C m\<close>: \<open>m\<close> makes calls of the kind \<open>C\<close> only.\<close>

definition talks :: "(aplogd_call \<Rightarrow> bool) \<Rightarrow> 'a aplogd \<Rightarrow> bool" where
  "talks C m \<longleftrightarrow> (\<forall>s. \<exists>h. trace (exec m s) = trace s @ h \<and> list_all (C \<circ> fst) h)"

lemma talks_syscall: "C c \<Longrightarrow> talks C (syscall os c)"
  by (auto simp: talks_def)

lemma talks_return: "talks C (return x)"
  by (simp add: talks_def)

lemma talks_bind:
  assumes "talks C m" "\<And>x. talks C (f x)"
  shows "talks C (m \<bind> f)"
  unfolding talks_def
proof
  fix s
  obtain h where h: "trace (exec m s) = trace s @ h" "list_all (C \<circ> fst) h"
    using assms(1) by (auto simp: talks_def)
  obtain h' where "trace (exec (f (eval_in m s)) (exec m s)) = trace (exec m s) @ h'" "list_all (C \<circ> fst) h'"
    using assms(2) unfolding talks_def by blast
  then show "\<exists>h. trace (exec (m \<bind> f) s) = trace s @ h \<and> list_all (C \<circ> fst) h"
    using h by (intro exI [of _ "h @ h'"]) (simp add: split_beta)
qed

lemma talks_if: "talks C m \<Longrightarrow> talks C n \<Longrightarrow> talks C (if b then m else n)"
  by simp

lemma talks_whenM: "talks C m \<Longrightarrow> talks C (whenM b m)"
  by (simp add: whenM_def talks_return)

lemma talks_read_entries:
  "(\<And>d. C (Readdir d)) \<Longrightarrow> (\<And>d r. talks C (body d r)) \<Longrightarrow> talks C (read_entries os k dp body r)"
  by (induction k arbitrary: r)
    (auto intro!: talks_bind talks_syscall talks_return split: sum.splits)

lemma erase_talks: "talks erases (aplogd_erase_legacy_files os k)"
  unfolding aplogd_erase_legacy_files_def aplogd_erase_dir_contents_def
  by (intro talks_whenM talks_bind talks_syscall talks_if talks_return talks_read_entries) simp_all

definition drop_calls :: "aplogd_call list" where
  "drop_calls = [Getuid, Prctl ''PR_SET_KEEPCAPS'', Setgroups [''AID_SYSTEM'', ''AID_SDCARD_RW'', ''AID_MOUNT''],
     Setgid ''AID_LOG'', Setuid ''AID_LOG'', Capset ''CAP_SYS_ADMIN'']"

definition dropped :: "aplogd_call hist \<Rightarrow> bool" where
  "dropped d \<longleftrightarrow> map fst d = [Getuid] \<and> list_all (\<lambda>(c, r). ret_val r \<noteq> 0) d \<or>
     map fst d = drop_calls \<and> list_all (\<lambda>(c, r). ret_val r \<noteq> -1) (drop 2 d)"

lemma must_succeed_chain:
  "\<exists>d. trace (exec (for_each (\<lambda>c. alive () (must_succeed os c)) cs) s) = trace s @ d \<and>
    prefix (map fst d) cs \<and>
    (exited (exec (for_each (\<lambda>c. alive () (must_succeed os c)) cs) s) \<or>
     map fst d = cs \<and> list_all (\<lambda>(c, r). ret_val r \<noteq> -1) d)"
proof (induction cs arbitrary: s)
  case (Cons c cs)
  let ?f = "\<lambda>c. alive () (must_succeed os c)"
  let ?t = "exec (?f c) s"
  obtain d where d: "trace (exec (for_each ?f cs) ?t) = trace ?t @ d" "prefix (map fst d) cs"
    "exited (exec (for_each ?f cs) ?t) \<or> map fst d = cs \<and> list_all (\<lambda>(c, r). ret_val r \<noteq> -1) d"
    using Cons.IH [of ?t] by blast
  have run: "exec (for_each ?f (c # cs)) s = exec (for_each ?f cs) ?t" by (simp add: split_beta)
  have gone: "exited u \<Longrightarrow> exec (for_each ?f xs) u = u" for u xs
    by (induction xs) (simp_all add: run_alive)
  show ?case
  proof (cases "exited ?t")
    case True
    then show ?thesis unfolding run gone [OF True]
      by (auto simp: run_alive must_succeed_def split_beta)
  next
    case False
    then have "\<not> exited s" "ret_val (os (trace s) c) \<noteq> -1" "trace ?t = trace s @ [(c, os (trace s) c)]"
      by (auto simp: run_alive must_succeed_def split_beta split: if_splits)
    then show ?thesis unfolding run using d by (intro exI [of _ "(c, os (trace s) c) # d"]) auto
  qed
qed simp

lemma drop_root_trace:
  "\<exists>d. trace (exec (aplogd_drop_root os) s) = trace s @ d \<and> prefix (map fst d) drop_calls \<and>
    (exited (exec (aplogd_drop_root os) s) \<or> dropped d)"
proof (cases "ret_val (os (trace s) Getuid) = 0")
  case True
  let ?p = "Prctl ''PR_SET_KEEPCAPS''"
  define t where "t = exec (syscall os ?p) (exec (syscall os Getuid) s)"
  obtain d where d: "trace (exec (for_each (\<lambda>c. alive () (must_succeed os c)) (drop 2 drop_calls)) t) = trace t @ d"
    "prefix (map fst d) (drop 2 drop_calls)" "exited (exec (for_each (\<lambda>c. alive () (must_succeed os c)) (drop 2 drop_calls)) t) \<or>
     map fst d = drop 2 drop_calls \<and> list_all (\<lambda>(c, r). ret_val r \<noteq> -1) d"
    using must_succeed_chain [of os "drop 2 drop_calls" t] by blast
  have run: "exec (aplogd_drop_root os) s = exec (for_each (\<lambda>c. alive () (must_succeed os c)) (drop 2 drop_calls)) t"
    using True by (simp add: aplogd_drop_root_def t_def drop_calls_def del: for_each.simps)
  obtain u v where "trace t = trace s @ [(Getuid, u), (?p, v)]" by (auto simp: t_def)
  then show ?thesis
    unfolding run using d by (intro exI [of _ "(Getuid, u) # (?p, v) # d"]) (auto simp: dropped_def drop_calls_def)
next
  case False
  then show ?thesis by (simp add: aplogd_drop_root_def dropped_def drop_calls_def)
qed

lemma talks_modify: "(\<And>s. trace (f s) = trace s) \<Longrightarrow> talks C (modify f)"
  by (simp add: talks_def)

lemma talks_gets: "talks C (gets f)"
  by (simp add: talks_def)

lemma talks_alive: "talks C m \<Longrightarrow> talks C (alive d m)"
  unfolding alive_def by (intro talks_bind talks_gets talks_if talks_return)

lemma talks_for_each: "(\<And>x. talks C (f x)) \<Longrightarrow> talks C (for_each f xs)"
  by (induction xs) (simp_all add: talks_bind talks_return)

lemma talks_case_option:
  "talks C m \<Longrightarrow> (\<And>y. talks C (f y)) \<Longrightarrow> talks C (case x of None \<Rightarrow> m | Some y \<Rightarrow> f y)"
  by (cases x) auto

lemmas talks_rules = talks_bind talks_syscall talks_return talks_if talks_whenM talks_modify talks_gets talks_alive
  talks_for_each talks_case_option

lemma talks_storage_refs: "talks (\<lambda>_. True) (aplogd_init_storage_refs os)"
  unfolding aplogd_init_storage_refs_def getenv_def set_path_def undefined_behaviour_def
  by (intro talks_rules TrueI) simp_all

lemma talks_apply_option: "talks C (apply_option opt)"
  by (cases opt) (auto simp: apply_option_def Let_def undefined_behaviour_def intro!: talks_rules)

lemma talks_load: "talks (\<lambda>_. True) (aplogd_load_usr_cfg os argv)"
  unfolding aplogd_load_usr_cfg_def build_argv_def parse_usr_cfg_def Let_def
  by (intro talks_rules talks_apply_option TrueI) simp_all

lemma talks_array_init: "talks C aplogd_io_array_init"
  unfolding aplogd_io_array_init_def set_poll_def set_io_def by (intro talks_rules) simp_all

lemma talks_rambuf_init: "talks (\<lambda>_. True) (aplogd_rambuf_init os)"
  unfolding aplogd_rambuf_init_def set_io_def by (intro talks_rules TrueI) simp_all

lemma talks_prefix: "talks C m \<Longrightarrow> keeps (\<lambda>s. prefix h (trace s)) m"
  unfolding talks_def valid_def by (metis prefix_append prefix_def)

text \<open>Nothing is taken back from the history.\<close>

lemma start_prefix: "keeps (\<lambda>s. starting False s \<and> prefix h (trace s)) m"
  if "keeps (starting False) m" "talks C m" for m :: "'a aplogd"
  using valid_conj [OF that(1) talks_prefix [OF that(2)]] .

lemma run_prefix: 
  "valid (\<lambda>s. starting False s \<and> prefix h (trace s)) (aplogd_start os abi k rounds) (\<lambda>_ s. prefix h (trace s))"
proof -
  let ?P = "\<lambda>s. starting False s \<and> prefix h (trace s)"
  note init = start_prefix [OF starting_rambuf_init talks_rambuf_init, of h os]
  have call: "keeps ?P (syscall os c)" for c
    by (rule start_prefix [OF starting_call talks_syscall]) (rule TrueI)
  have "valid ?P (aplogd_rambuf_init os)
      (\<lambda>_ s. prefix h (trace s) \<and> (\<not> exited s \<longrightarrow> ready False s))"
    using rambuf_init_ready validD [OF init] by (auto simp: valid_def)
  then have "valid ?P (aplogd_rambuf_init os \<bind> (\<lambda>_. alive () (aplogd_log_io os abi k rounds))) (\<lambda>_ s. prefix h (trace s))"
    by (rule valid_bind) (use history.keeps_log_io [of h os abi k rounds] in \<open>auto simp: valid_def run_alive\<close>)
  then show ?thesis
    unfolding aplogd_start_def
    by (intro keeps_bind [OF start_prefix [OF starting_array_init talks_array_init]] keeps_bind [OF call] valid_if valid_return) auto
qed

text \<open>
  C30: the collector gives root up before it does anything else. In every run the history is the erasure
  of old files (looking at them, listing and removing), then the calls that drop root, then the rest; and
  there is a rest only when the user was not root, or when the groups, the group, the user and the
  capabilities were all changed, in this order and without an error.
\<close>

theorem root_dropped_first:
  "\<exists>e d r. trace (exec (aplogd_main os abi k rounds argv) init_aplogd) = e @ d @ r \<and>
     list_all (erases \<circ> fst) e \<and> prefix (map fst d) drop_calls \<and> (r = [] \<or> dropped d)"
proof -
  define s1 where "s1 = exec (aplogd_erase_legacy_files os k) init_aplogd"
  define s2 where "s2 = exec (aplogd_drop_root os) s1"
  obtain e where e: "trace s1 = e" "list_all (erases \<circ> fst) e"
    using erase_talks unfolding talks_def s1_def by (metis append_Nil init_aplogd_def io_state.select_convs(1))
  obtain d where d: "trace s2 = e @ d" "prefix (map fst d) drop_calls" "exited s2 \<or> dropped d"
    using drop_root_trace [of os s1] e(1) unfolding s2_def by blast
  have start: "starting False s2"
    unfolding s1_def s2_def
    by (rule validD [OF starting_drop_root]) (rule validD [OF starting_erase init_starting])
  let ?rest = "do { aplogd_init_storage_refs os; aplogd_load_usr_cfg os argv; alive () (aplogd_start os abi k rounds) }"
  have main: "exec (aplogd_main os abi k rounds argv) init_aplogd = exec (alive () ?rest) s2"
    by (simp add: aplogd_main_def s1_def s2_def split_beta)
  have "valid (\<lambda>s. starting False s \<and> prefix (e @ d) (trace s)) ?rest (\<lambda>_ s. prefix (e @ d) (trace s))"
    by (intro keeps_bind [OF start_prefix [OF starting_storage_refs talks_storage_refs]]
        keeps_bind [OF start_prefix [OF starting_load talks_load]] valid_alive run_prefix) auto
  from validD [OF this, of s2] have "prefix (e @ d) (trace (exec ?rest s2))" using start d(1) by simp
  then obtain r where "trace (exec ?rest s2) = e @ d @ r" by (auto simp: prefix_def)
  then have rest: "\<not> exited s2 \<Longrightarrow> trace (exec (alive () ?rest) s2) = e @ d @ r" by (simp add: run_alive)
  show ?thesis
  proof (cases "exited s2")
    case True
    then show ?thesis unfolding main using e(2) d
      by (intro exI [of _ e] exI [of _ d] exI [of _ "[]"]) (simp add: run_alive)
  next
    case False
    then show ?thesis unfolding main using e(2) d rest by (intro exI [of _ e] exI [of _ d] exI [of _ r]) simp
  qed
qed

end
