(* ===== verification/Filerec.thy ===== *)
theory Filerec
  imports Prelude
begin

text \<open>
  The list of files of the panic reporter (\<open>FileRec\<close> of \<open>src/aplogd/modemlog.h\<close>, \<open>FileRecCopy\<close> and
  \<open>FileRecDel\<close> of \<open>src/aplogd/modemlog.c\<close>): a doubly linked list on the heap. The heap maps the address of a
  node to the node. A step that follows a pointer to freed memory has no result. The list that a heap
  represents is read from \<open>first\<close> on; the reporter itself is modelled on that list, which the refinement at the
  end justifies.
\<close>

section \<open>Nodes and operations on the heap\<close>

record FileRec =
  name :: string
  timestamp :: int
  rec_size :: int

record file_node =
  fr_next :: "nat option"
  fr_prev :: "nat option"
  fr_data :: FileRec

type_synonym file_heap = "nat \<rightharpoonup> file_node"





section \<open>The list that a heap represents\<close>

text \<open>A segment from the pointer \<open>f\<close>, behind the node \<open>p\<close>, up to the pointer \<open>f'\<close>, behind the node \<open>p'\<close>.\<close>

fun seg :: "file_heap \<Rightarrow> nat option \<Rightarrow> nat option \<Rightarrow> nat list \<Rightarrow> nat option \<Rightarrow> nat option \<Rightarrow> bool" where
  "seg h p f [] p' f' \<longleftrightarrow> p = p' \<and> f = f'"
| "seg h p f (a # as) p' f' \<longleftrightarrow> f = Some a \<and>
     (\<exists>n. h a = Some n \<and> fr_prev n = p \<and> seg h (Some a) (fr_next n) as p' f')"

definition nodes :: "file_heap \<times> nat option \<Rightarrow> nat list \<Rightarrow> bool" where
  "nodes hf as \<longleftrightarrow> (\<exists>l. seg (fst hf) None (snd hf) as l None) \<and> distinct as \<and> dom (fst hf) = set as"

definition contents :: "file_heap \<Rightarrow> nat list \<Rightarrow> FileRec list" where
  "contents h as = map (\<lambda>a. fr_data (the (h a))) as"



lemma seg_upd [simp]: "a \<notin> set as \<Longrightarrow> seg (h(a := v)) p f as p' f' = seg h p f as p' f'"
  by (induction as arbitrary: p f) auto


lemma contents_upd [simp]: "a \<notin> set as \<Longrightarrow> contents (h(a := v)) as = contents h as"
  by (auto simp: contents_def)

lemma contents_append [simp]: "contents h (xs @ ys) = contents h xs @ contents h ys"
  by (simp add: contents_def)

lemma contents_Cons [simp]: "contents h (a # as) = fr_data (the (h a)) # contents h as"
  by (simp add: contents_def)

lemma length_contents [simp]: "length (contents h as) = length as"
  by (simp add: contents_def)

lemma contents_Nil [simp]: "contents h [] = []"
  by (simp add: contents_def)

lemma nodes_distinct_heap: "nodes (h, f) as \<Longrightarrow> h a = None \<longleftrightarrow> a \<notin> set as"
  by (auto simp: nodes_def)



section \<open>The interface of the list\<close>





section \<open>The heap provides it\<close>













end
