(* ===== verification/Modemlog.thy ===== *)
theory Modemlog
  imports Filerec "HOL-Library.Multiset"
begin

text \<open>
  The panic reporter \<open>modemlog\<close> (\<open>src/aplogd/modemlog.c\<close>, \<open>modemlog.h\<close>): it runs once per boot, writes a report
  of the last kernel panic or watchdog reset and keeps the folder of reports below 100 kB.

  \<^item> A stream opened for reading is its remaining text and the end-of-file flag of the C library;
    \<open>Fopen_r\<close> answers the text of the file. Output is the call \<open>Fprintf\<close>.
  \<^item> A character array of the program is a list of optional characters, \<open>None\<close> for a byte that nobody has
    written; looking at one is undefined behaviour.
  \<^item> \<open>first\<close> is the list of records that the linked list represents; an index into it stands for a pointer.
  \<^item> \<open>mkstemp\<close> answers the name it made of its template; \<open>lstat\<close> and \<open>fstat\<close> answer the size in \<open>ret_aux\<close>, and
    \<open>St_mtime\<close> is the time that the same call fills in.
\<close>

section \<open>Types and state\<close>

datatype modem_call =
    Access string | Mkdir string | Chown string | Property_get string string | Property_set string string
  | Open string | Close int | Fstat int | Lstat string | Fopen_r string | Fdopen int | Fopen_w string
  | Mkstemp string | Fchown int | Fchmod int | Fprintf int string | Ftell int | Fflush int | Fclose int
  | St_mtime string | Opendir string | Readdir int | Closedir int | Malloc | Free | Unlink string

record modem_state = "modem_call io_state" +
  first :: "FileRec list"
  Report_Flag :: bool
  panic_report_config :: "8 word"
  stuck :: bool

type_synonym 'a modem = "(modem_state, 'a) state"

abbreviation "ENABLE_BOOTLOADER_WDT_REPORT \<equiv> 0x01 :: 8 word"
abbreviation "ENABLE_KERNEL_WDT_REPORT \<equiv> 0x02 :: 8 word"
abbreviation "ENABLE_KERNEL_PANIC_REPORT \<equiv> 0x04 :: 8 word"
abbreviation "ENABLE_POWERCUT_REPORT \<equiv> 0x08 :: 8 word"
abbreviation "LAST_KMSG_PATHNAME \<equiv> ''/proc/last_kmsg''"
abbreviation "WDRST_REPORT_SIZE \<equiv> 65536 :: int"
abbreviation "MAX_LOG_LEN \<equiv> 256 :: nat"
abbreviation "BACKLINES \<equiv> 10 :: nat"
abbreviation "MAXTOTALSIZE \<equiv> 102400 :: int"
abbreviation "FILENAMELEN \<equiv> 255 :: nat"
abbreviation "MODEMFILE \<equiv> ''/data/kernelpanics/wdog_ap_reset_boot_info_XXXXXX''"
abbreviation "KERNELDIR \<equiv> ''/data/kernelpanics''"
abbreviation "APANIC_STATE_FILE \<equiv> ''/data/dontpanic/apanic_console_statinfo''"
abbreviation "PERSIST_POWERCUTS \<equiv> ''persist.motorola.powercuts''"
abbreviation "ENOENT \<equiv> 2 :: int"

definition property_and_bit_position :: "(string \<times> 8 word) list" where
  "property_and_bit_position =
     [(''persist.dbg.btwdt.report'', ENABLE_BOOTLOADER_WDT_REPORT),
      (''persist.dbg.kwdt.report'', ENABLE_KERNEL_WDT_REPORT),
      (''persist.dbg.kpanic.report'', ENABLE_KERNEL_PANIC_REPORT),
      (''persist.dbg.pwrcut.report'', ENABLE_POWERCUT_REPORT)]"

unbundle bit_operations_syntax

section \<open>Streams and buffers of the C library\<close>

record stream =
  rest :: string
  feof :: bool

type_synonym cbuf = "char option list"

text \<open>What \<open>fgets\<close> takes: at most \<open>n\<close> characters, up to and with a newline.\<close>

fun take_line :: "nat \<Rightarrow> string \<Rightarrow> string" where
  "take_line 0 s = []"
| "take_line n [] = []"
| "take_line (Suc n) (c # s) = (if c = CHR 0x0A then [c] else c # take_line n s)"

text \<open>Bytes are written to the start of an array; what is behind stays.\<close>

definition overwrite :: "cbuf \<Rightarrow> string \<Rightarrow> cbuf" where
  "overwrite b s = map Some s @ drop (length s) b"

text \<open>
  \<open>fgets(b, MAX_LOG_LEN, f)\<close>: the flag is set when the end was met before the line was complete; at
  the end the array keeps its content.
\<close>

definition fgets :: "stream \<Rightarrow> cbuf \<Rightarrow> stream \<times> cbuf" where
  "fgets f b =
     (let line = take_line (MAX_LOG_LEN - 1) (rest f);
          complete = (length line = MAX_LOG_LEN - 1 \<or> line \<noteq> [] \<and> last line = CHR 0x0A) in
      (\<lparr>rest = drop (length line) (rest f), feof = feof f \<or> \<not> complete\<rparr>,
       if line = [] then b else overwrite b (line @ [NUL])))"

text \<open>The string at an offset of an array, or \<open>None\<close> when a byte is looked at that was never written.\<close>

fun cbuf_str :: "cbuf \<Rightarrow> string option" where
  "cbuf_str [] = None"
| "cbuf_str (None # b) = None"
| "cbuf_str (Some c # b) = (if c = NUL then Some [] else map_option ((#) c) (cbuf_str b))"

definition fresh :: cbuf where
  "fresh = replicate MAX_LOG_LEN None"

definition with_text :: "cbuf \<Rightarrow> nat \<Rightarrow> (string \<Rightarrow> 'a modem) \<Rightarrow> 'a \<Rightarrow> 'a modem" where
  "with_text b off f x =
     (case cbuf_str (drop off b) of
        Some s \<Rightarrow> f s
      | None \<Rightarrow> do { undefined_behaviour; return x })"

definition fputs :: "modem_call os \<Rightarrow> int \<Rightarrow> cbuf \<Rightarrow> nat \<Rightarrow> unit modem" where
  "fputs os out b off = with_text b off (\<lambda>s. do { syscall os (Fprintf out s); return () }) ()"

definition measure_stream :: "stream \<Rightarrow> nat" where
  "measure_stream f = length (rest f) + (if feof f then 0 else 1)"

lemma take_line_Nil [simp]: "take_line n [] = []"
  by (cases n) simp_all

lemma fgets_shrinks: "\<not> feof f \<Longrightarrow> measure_stream (fst (fgets f b)) < measure_stream f"
  by (cases "rest f") (auto simp: fgets_def Let_def measure_stream_def)

text \<open>\<open>while (!feof(in)) { fgets(buf, ...); fprintf(out, ... , buf); }\<close>, with what is printed behind a line.\<close>

function copy_lines :: "modem_call os \<Rightarrow> int \<Rightarrow> string \<Rightarrow> stream \<Rightarrow> cbuf \<Rightarrow> unit modem" where
  "copy_lines os out suffix f b =
     (if feof f then return ()
      else do {
        let g = fgets f b;
        with_text (snd g) 0 (\<lambda>s. do { syscall os (Fprintf out (s @ suffix)); return () }) ();
        copy_lines os out suffix (fst g) (snd g)
      })"
  by pat_completeness auto

termination
  by (relation "measure (\<lambda>(os, out, suffix, f, b). measure_stream f)") (auto simp: case_prod_beta fgets_shrinks)

declare copy_lines.simps [simp del]

section \<open>Watchdog reports\<close>

text \<open>The loop stops at the end of the file before it prints: an unfinished last line is dropped.\<close>

function kmsg_lines :: "modem_call os \<Rightarrow> int \<Rightarrow> stream \<Rightarrow> cbuf \<Rightarrow> unit modem" where
  "kmsg_lines os out f b =
     (let g = fgets f b in
      if feof f \<or> feof (fst g) then return ()
      else do { fputs os out (snd g) 0; kmsg_lines os out (fst g) (snd g) })"
  by pat_completeness auto

termination
  by (relation "measure (\<lambda>(os, out, f, b). measure_stream f)") (auto simp: case_prod_beta fgets_shrinks)

declare kmsg_lines.simps [simp del]

text \<open>The answer to \<open>lstat\<close> has the size in \<open>ret_aux\<close>.\<close>

definition append_last_kmsg :: "modem_call os \<Rightarrow> int \<Rightarrow> unit modem" where
  "append_last_kmsg os outfile = do {
     st \<leftarrow> syscall os (Lstat LAST_KMSG_PATHNAME);
     if ret_val st \<noteq> 0 then do {
       syscall os (Fprintf outfile
         (if ret_errno st = ENOENT then LAST_KMSG_PATHNAME @ '' does not exist.'' @ [CHR 0x0A]
          else LAST_KMSG_PATHNAME @ '' not accessible '' @ show_int (ret_errno st) @ ''.'' @ [CHR 0x0A]));
       return ()
     } else do {
       pos \<leftarrow> syscall os (Ftell outfile);
       let size = WDRST_REPORT_SIZE - ret_val pos;
       if size > 0 then do {
         inp \<leftarrow> syscall os (Fopen_r LAST_KMSG_PATHNAME);
         if ret_val inp \<noteq> 0 then do {
           let skip = (if ret_aux st > size then nat (ret_aux st - size) else 0);
           kmsg_lines os outfile \<lparr>rest = drop skip (ret_data inp), feof = False\<rparr> fresh;
           syscall os (Fclose (ret_val inp));
           return ()
         } else return ()
       } else return ()
     }
   }"

text \<open>The report of a watchdog reset: the line of the boot information, the rest of it, the kernel's log.\<close>

definition wdt_report :: "modem_call os \<Rightarrow> stream \<Rightarrow> cbuf \<Rightarrow> unit modem" where
  "wdt_report os f buf = do {
     modemfile \<leftarrow> syscall os (Mkstemp MODEMFILE);
     out \<leftarrow> syscall os (Fopen_w (cstr (ret_data modemfile)));
     whenM (ret_val out \<noteq> 0) (do {
       syscall os (Fchown (ret_val out));
       syscall os (Fchmod (ret_val out));
       syscall os (Fprintf (ret_val out) (''Type: SYSTEM_WDT_RESET'' @ [CHR 0x0A]));
       fputs os (ret_val out) buf 0;
       copy_lines os (ret_val out) [] f buf;
       append_last_kmsg os (ret_val out);
       syscall os (Fclose (ret_val out));
       return ()
     })
   }"

definition enabled :: "8 word \<Rightarrow> bool modem" where
  "enabled flag = gets (\<lambda>s. panic_report_config s AND flag \<noteq> 0)"

definition count_powercut :: "modem_call os \<Rightarrow> unit modem" where
  "count_powercut os = do {
     p \<leftarrow> syscall os (Property_get PERSIST_POWERCUTS ''0'');
     syscall os (Property_set PERSIST_POWERCUTS (show_int (to_int32 (atoi (cstr (ret_data p)) + 1))));
     return ()
   }"

function panic_lines :: "modem_call os \<Rightarrow> stream \<Rightarrow> cbuf \<Rightarrow> unit modem" where
  "panic_lines os f b =
     (if feof f then return ()
      else let g = fgets f b in
        with_text (snd g) 0 (\<lambda>buf.
          if strstr buf ''POWERUPREASON : 0x00008000'' \<noteq> None then do {
            on \<leftarrow> enabled ENABLE_BOOTLOADER_WDT_REPORT;
            whenM on (wdt_report os (fst g) (snd g))
          } else do {
            reported \<leftarrow> gets Report_Flag;
            if strstr buf ''POWERUPREASON : 0x00020000'' \<noteq> None \<and> \<not> reported then do {
              a \<leftarrow> syscall os (Access LAST_KMSG_PATHNAME);
              on \<leftarrow> enabled ENABLE_KERNEL_WDT_REPORT;
              whenM (ret_val a \<noteq> -1 \<or> on) (wdt_report os (fst g) (snd g))
            } else if strstr buf ''POWERUPREASON : 0x00000200'' \<noteq> None then do {
              on \<leftarrow> enabled ENABLE_POWERCUT_REPORT;
              whenM on (count_powercut os)
            } else panic_lines os (fst g) (snd g)
          }) ())"
  by pat_completeness auto

termination
  by (relation "measure (\<lambda>(os, f, b). measure_stream f)") (auto simp: case_prod_beta fgets_shrinks)

declare panic_lines.simps [simp del]

text \<open>\<open>fdopen\<close> answers the text of the descriptor.\<close>

definition writePanicData :: "modem_call os \<Rightarrow> int \<Rightarrow> unit modem" where
  "writePanicData os pufile = do {
     f \<leftarrow> syscall os (Fdopen pufile);
     whenM (ret_val f \<noteq> 0) (panic_lines os \<lparr>rest = ret_data f, feof = False\<rparr> fresh)
   }"

section \<open>The report of a kernel panic\<close>

text \<open>\<open>lastfew\<close> is a ring of ten buffers. The search stops at the line of the program counter or of the panic.\<close>

function find_panic ::
  "stream \<Rightarrow> cbuf list \<Rightarrow> nat \<Rightarrow> (stream \<times> cbuf list \<times> nat \<times> bool) modem" where
  "find_panic f lastfew oldline =
     (if feof f then return (f, lastfew, oldline, False)
      else let g = fgets f (lastfew ! oldline); few = lastfew[oldline := snd g] in
        with_text (snd g) 0 (\<lambda>line.
          if strstr line ''PC is at'' \<noteq> None then return (fst g, few, oldline, False)
          else if strstr line ''Kernel panic -'' \<noteq> None then return (fst g, few, oldline, True)
          else find_panic (fst g) few ((oldline + 1) mod BACKLINES))
        (fst g, few, oldline, False))"
  by pat_completeness auto

termination
  by (relation "measure (\<lambda>(f, few, n). measure_stream f)") (auto simp: case_prod_beta fgets_shrinks)

declare find_panic.simps [simp del]

primrec put_lines :: "modem_call os \<Rightarrow> int \<Rightarrow> cbuf list \<Rightarrow> nat list \<Rightarrow> unit modem" where
  "put_lines os out lastfew [] = return ()"
| "put_lines os out lastfew (i # is) = do { fputs os out (lastfew ! i) 18; put_lines os out lastfew is }"

primrec next_lines :: "modem_call os \<Rightarrow> int \<Rightarrow> nat \<Rightarrow> stream \<Rightarrow> cbuf \<Rightarrow> (stream \<times> cbuf) modem" where
  "next_lines os out 0 f b = return (f, b)"
| "next_lines os out (Suc n) f b =
     (if feof f then return (f, b)
      else do {
        let g = fgets f b;
        fputs os out (snd g) 18;
        next_lines os out n (fst g) (snd g)
      })"

definition has_any :: "string list \<Rightarrow> string \<Rightarrow> bool" where
  "has_any ws s \<longleftrightarrow> (\<exists>w\<in>set ws. strstr s w \<noteq> None)"

definition discard_marks :: "string list" where
  "discard_marks = [''PC: '', ''LR: '', ''IP: '', ''FP: '', ''Stack: '']"

definition keep_marks :: "string list" where
  "keep_marks = [''R0: '', ''R1: '', ''R2: '', ''R3: '', ''R4: '', ''R5: '', ''R6: '', ''R7: '', ''R8: '', ''R9: '',
     ''SP: '', ''Code: '', ''Backtrace:'', ''Kernel panic - '']"

definition next_discard :: "string \<Rightarrow> bool \<Rightarrow> bool" where
  "next_discard line Discard =
     (if has_any discard_marks line then True else if has_any keep_marks line then False else Discard)"

function filter_lines :: "modem_call os \<Rightarrow> int \<Rightarrow> stream \<Rightarrow> cbuf \<Rightarrow> bool \<Rightarrow> unit modem" where
  "filter_lines os out f b Discard =
     (if feof f then return ()
      else let g = fgets f b in
        with_text (snd g) 0 (\<lambda>line. do {
          let dis = next_discard line Discard;
          whenM (\<not> dis) (fputs os out (snd g) 18);
          filter_lines os out (fst g) (snd g) (dis \<or> strstr line ''Code:'' \<noteq> None)
        }) ())"
  by pat_completeness auto

termination
  by (relation "measure (\<lambda>(os, out, f, b, d). measure_stream f)") (auto simp: case_prod_beta fgets_shrinks)

declare filter_lines.simps [simp del]

definition info_file :: "modem_call os \<Rightarrow> int \<Rightarrow> string \<Rightarrow> string \<Rightarrow> unit modem" where
  "info_file os out path suffix = do {
     f \<leftarrow> syscall os (Fopen_r path);
     whenM (ret_val f \<noteq> 0) (do {
       copy_lines os out suffix \<lparr>rest = ret_data f, feof = False\<rparr> fresh;
       syscall os (Fclose (ret_val f));
       return ()
     })
   }"

definition bootinfo_lines :: "modem_call os \<Rightarrow> int \<Rightarrow> unit modem" where
  "bootinfo_lines os out = do {
     f \<leftarrow> syscall os (Fopen_r ''/proc/bootinfo'');
     whenM (ret_val f \<noteq> 0) (do {
       let g = fgets \<lparr>rest = ret_data f, feof = False\<rparr> fresh;
       fputs os out (snd g) 0;
       fputs os out (snd (fgets (fst g) (snd g))) 0;
       syscall os (Fclose (ret_val f));
       return ()
     })
   }"

definition report_body :: "modem_call os \<Rightarrow> int \<Rightarrow> stream \<Rightarrow> unit modem" where
  "report_body os out thefile = do {
     (f, lastfew, oldline, dumpall) \<leftarrow> find_panic thefile (replicate BACKLINES fresh) 0;
     (f, b) \<leftarrow> (if \<not> dumpall then do {
         put_lines os out lastfew (map (\<lambda>count. (oldline + count) mod BACKLINES) [1..<BACKLINES + 1]);
         next_lines os out 9 f (lastfew ! 0)
       } else return (f, lastfew ! 0));
     filter_lines os out f b False
   }"

definition readFile :: "modem_call os \<Rightarrow> string \<Rightarrow> int \<Rightarrow> unit modem" where
  "readFile os modemfile filefd = do {
     thefile \<leftarrow> syscall os (Fdopen filefd);
     out \<leftarrow> syscall os (Fopen_w modemfile);
     whenM (ret_val out \<noteq> 0) (do {
       let outfile = ret_val out;
       syscall os (Fchown outfile);
       syscall os (Fchmod outfile);
       syscall os (Fprintf outfile (''Type: SYSTEM_LAST_KMSG'' @ [CHR 0x0A]));
       info_file os outfile ''/proc/version'' [];
       info_file os outfile ''/proc/mot_version'' [CHR 0x0A];
       bootinfo_lines os outfile;
       whenM (ret_val thefile = 0) undefined_behaviour;
       report_body os outfile \<lparr>rest = ret_data thefile, feof = False\<rparr>;
       syscall os (Fflush outfile);
       syscall os (Fclose outfile);
       return ()
     })
   }"

section \<open>Keeping the folder small\<close>

definition FileRecCopy :: "modem_call os \<Rightarrow> string \<Rightarrow> int \<Rightarrow> int \<Rightarrow> unit modem" where
  "FileRecCopy os n t s = do {
     m \<leftarrow> syscall os Malloc;
     if ret_val m = 0 then return ()
     else do {
       nm \<leftarrow> syscall os Malloc;
       if ret_val nm = 0 then do { syscall os Free; return () }
       else modify (\<lambda>st. st\<lparr>first := \<lparr>name = n, timestamp = t, rec_size = s\<rparr> # first st\<rparr>)
     }
   }"

text \<open>Unlinking a record from the list; its index stands for the pointer.\<close>

definition FileRecDel :: "modem_call os \<Rightarrow> nat \<Rightarrow> unit modem" where
  "FileRecDel os i = do {
     modify (\<lambda>s. s\<lparr>first := take i (first s) @ drop (Suc i) (first s)\<rparr>);
     syscall os Free;
     syscall os Free;
     return ()
   }"

text \<open>The loop over the list: the first of the records with the smallest time.\<close>

fun oldest_from :: "FileRec list \<Rightarrow> nat \<Rightarrow> (nat \<times> FileRec) option \<Rightarrow> (nat \<times> FileRec) option" where
  "oldest_from [] i best = best"
| "oldest_from (r # rs) i best =
     oldest_from rs (Suc i)
       (case best of
          Some (j, o') \<Rightarrow> if timestamp o' > timestamp r then Some (i, r) else best
        | None \<Rightarrow> Some (i, r))"

text \<open>The fields of the answer to \<open>lstat\<close>: the size in \<open>ret_aux\<close>, the time in that of \<open>St_mtime\<close>.\<close>

primrec scan_dir :: "modem_call os \<Rightarrow> nat \<Rightarrow> string \<Rightarrow> int \<Rightarrow> int \<Rightarrow> int modem" where
  "scan_dir os 0 dirname dp totalsize = return totalsize"
| "scan_dir os (Suc k) dirname dp totalsize = do {
     e \<leftarrow> syscall os (Readdir dp);
     if ret_val e = 0 then return totalsize
     else if cstr (ret_data e) \<in> {''.'', ''..''} then scan_dir os k dirname dp totalsize
     else do {
       let fullpath = snprintf FILENAMELEN (dirname @ ''/'' @ cstr (ret_data e));
       st \<leftarrow> syscall os (Lstat fullpath);
       whenM (ret_val st \<noteq> 0) (do {
         syscall os (Fprintf 1 (''lstat failed for some odd reason!'' @ [CHR 0x0A]));
         undefined_behaviour
       });
       t \<leftarrow> syscall os (St_mtime fullpath);
       FileRecCopy os fullpath (ret_aux t) (to_int32 (ret_aux st));
       scan_dir os k dirname dp (to_int32 (totalsize + ret_aux st))
     }
   }"

text \<open>\<open>stuck\<close>: the list is empty and the loop goes on, for ever.\<close>

primrec prune :: "modem_call os \<Rightarrow> nat \<Rightarrow> int \<Rightarrow> unit modem" where
  "prune os 0 totalsize = modify (\<lambda>s. s\<lparr>stuck := True\<rparr>)"
| "prune os (Suc k) totalsize =
     (if totalsize \<le> MAXTOTALSIZE then return ()
      else do {
        fs \<leftarrow> gets first;
        case oldest_from fs 0 None of
          None \<Rightarrow> prune os k totalsize
        | Some (i, r) \<Rightarrow> do {
            syscall os (Unlink (name r));
            FileRecDel os i;
            prune os k (to_int32 (totalsize - rec_size r))
          }
      })"

primrec free_all :: "modem_call os \<Rightarrow> nat \<Rightarrow> unit modem" where
  "free_all os 0 = return ()"
| "free_all os (Suc n) = do { FileRecDel os 0; free_all os n }"

definition checkdir :: "modem_call os \<Rightarrow> nat \<Rightarrow> string \<Rightarrow> unit modem" where
  "checkdir os k dirname = do {
     dirptr \<leftarrow> syscall os (Opendir dirname);
     if ret_val dirptr = 0 then return ()
     else do {
       totalsize \<leftarrow> scan_dir os k dirname (ret_val dirptr) 0;
       n \<leftarrow> gets (length \<circ> first);
       prune os (Suc n) totalsize;
       hung \<leftarrow> gets stuck;
       if hung then return ()
       else do {
         n \<leftarrow> gets (length \<circ> first);
         free_all os n;
         syscall os (Closedir (ret_val dirptr));
         return ()
       }
     }
   }"

section \<open>The program\<close>

definition make_folder :: "modem_call os \<Rightarrow> string \<Rightarrow> unit modem" where
  "make_folder os dir = do {
     a \<leftarrow> syscall os (Access dir);
     whenM (ret_val a = -1) (do {
       syscall os (Mkdir dir);
       syscall os (Chown dir);
       return ()
     })
   }"

primrec read_switches :: "modem_call os \<Rightarrow> (string \<times> 8 word) list \<Rightarrow> unit modem" where
  "read_switches os [] = return ()"
| "read_switches os (pb # pbs) = do {
     v \<leftarrow> syscall os (Property_get (fst pb) ''1'');
     whenM (\<not> strncmp_eq (cstr (ret_data v)) ''0'' 1)
       (modify (\<lambda>s. s\<lparr>panic_report_config := panic_report_config s OR snd pb\<rparr>));
     read_switches os pbs
   }"

text \<open>\<open>%lX\<close>\<close>

definition hex_digit :: "nat \<Rightarrow> char" where
  "hex_digit d = (if d < 10 then digit_char d else char_of (55 + d))"

fun show_hex :: "nat \<Rightarrow> string" where
  "show_hex n = (if n < 16 then [hex_digit n] else show_hex (n div 16) @ [hex_digit (n mod 16)])"

declare show_hex.simps [simp del]

text \<open>
  \<open>fscanf("%llu\t%llu\n")\<close> of the state file: a number may have a sign, is read modulo \<open>2^64\<close> and stays at the
  largest value when it is too large. Numbers that are not there stay 0.
\<close>

definition scan_number :: "string \<Rightarrow> (nat \<times> string) option" where
  "scan_number s =
     (let t = dropWhile isspace s;
          minus = (t \<noteq> [] \<and> hd t = CHR ''-'');
          u = (if t \<noteq> [] \<and> hd t \<in> {CHR ''-'', CHR ''+''} then tl t else t);
          ds = takeWhile isdigit u;
          v = digits_val 0 ds in
      if ds = [] then None
      else Some (if 2 ^ 64 \<le> v then 2 ^ 64 - 1 else if minus then (2 ^ 64 - v) mod 2 ^ 64 else v, dropWhile isdigit u))"

definition scan_state :: "string \<Rightarrow> nat \<times> nat" where
  "scan_state s =
     (case scan_number s of
        None \<Rightarrow> (0, 0)
      | Some (a, s') \<Rightarrow> (case scan_number s' of None \<Rightarrow> (a, 0) | Some (b, _) \<Rightarrow> (a, b)))"

definition state_text :: "nat \<Rightarrow> nat \<Rightarrow> string" where
  "state_text sz time = show_nat sz @ [CHR 0x09] @ show_nat time @ [CHR 0x0A]"

definition save_state :: "modem_call os \<Rightarrow> nat \<Rightarrow> nat \<Rightarrow> unit modem" where
  "save_state os sz time = do {
     fp \<leftarrow> syscall os (Fopen_w APANIC_STATE_FILE);
     whenM (ret_val fp \<noteq> 0) (do {
       syscall os (Fprintf (ret_val fp) (state_text sz time));
       syscall os (Fchown (ret_val fp));
       syscall os (Fchmod (ret_val fp));
       syscall os (Fclose (ret_val fp));
       return ()
     })
   }"

definition load_state :: "modem_call os \<Rightarrow> (nat \<times> nat) modem" where
  "load_state os = do {
     fp \<leftarrow> syscall os (Fopen_r APANIC_STATE_FILE);
     if ret_val fp \<noteq> 0 then do {
       syscall os (Fclose (ret_val fp));
       return (scan_state (ret_data fp))
     } else return (0, 0)
   }"

definition report_panic :: "modem_call os \<Rightarrow> int \<Rightarrow> nat \<Rightarrow> bool modem" where
  "report_panic os f_apanic time = do {
     let modemfile = snprintf 44 (''/data/kernelpanics/ap_kernel_panic_'' @ show_hex (time mod 2 ^ 32));
     a \<leftarrow> syscall os (Access modemfile);
     if ret_val a = -1 then do {
       modify (\<lambda>s. s\<lparr>Report_Flag := True\<rparr>);
       on \<leftarrow> enabled ENABLE_KERNEL_PANIC_REPORT;
       whenM on (readFile os modemfile f_apanic);
       return on
     } else return False
   }"

text \<open>The handling of \<open>/data/dontpanic/apanic_console\<close>; the result says that the program ends here.\<close>

definition kernel_panic :: "modem_call os \<Rightarrow> int \<Rightarrow> bool modem" where
  "kernel_panic os f_apanic = do {
     (pb_size, pb_time) \<leftarrow> load_state os;
     st \<leftarrow> syscall os (Fstat f_apanic);
     if ret_val st \<noteq> 0 then return False
     else do {
       t \<leftarrow> syscall os (St_mtime ''/data/dontpanic/apanic_console'');
       let size = nat (ret_aux st mod 2 ^ 64);
       let time = nat (ret_aux t mod 2 ^ 64);
       if pb_size = size \<and> pb_time = time then return False
       else do {
         save_state os size time;
         report_panic os f_apanic time
       }
     }
   }"

definition modemlog_main :: "modem_call os \<Rightarrow> nat \<Rightarrow> int modem" where
  "modemlog_main os k = do {
     make_folder os KERNELDIR;
     make_folder os KERNELDIR;
     read_switches os property_and_bit_position;
     f_apanic \<leftarrow> syscall os (Open ''/data/dontpanic/apanic_console'');
     finished \<leftarrow> (if ret_val f_apanic \<noteq> -1 then do {
         r \<leftarrow> kernel_panic os (ret_val f_apanic);
         syscall os (Close (ret_val f_apanic));
         return r
       } else return False);
     if finished then return 0
     else do {
       file_powerup \<leftarrow> syscall os (Open ''/proc/bootinfo'');
       whenM (ret_val file_powerup \<noteq> -1) (writePanicData os (ret_val file_powerup));
       syscall os (Close (ret_val file_powerup));
       checkdir os k KERNELDIR;
       return 0
     }
   }"

section \<open>Properties of the pruning\<close>




fun unlinked :: "modem_call hist \<Rightarrow> string list" where
  "unlinked [] = []"
| "unlinked ((Unlink n, r) # h) = n # unlinked h"
| "unlinked (_ # h) = unlinked h"

lemma unlinked_append [simp]: "unlinked (h @ h') = unlinked h @ unlinked h'"
  by (induction h rule: unlinked.induct) simp_all





lemma to_int32_eqI: "x mod 2 ^ 32 = y mod 2 ^ 32 \<Longrightarrow> to_int32 x = to_int32 y"
  unfolding to_int32_def by (simp add: sint_sbintrunc' signed_take_bit_eq_iff_take_bit_eq take_bit_eq_mod)

lemma to_int32_mod: "to_int32 x mod 2 ^ 32 = x mod 2 ^ 32"
  unfolding to_int32_def using signed_take_bit_eq_iff_take_bit_eq [of 31 "signed_take_bit 31 x" x]
  by (simp add: sint_sbintrunc' take_bit_eq_mod)

lemma to_int32_add [simp]: "to_int32 (to_int32 x + y) = to_int32 (x + y)" "to_int32 (x + to_int32 y) = to_int32 (x + y)"
  by (rule to_int32_eqI; metis to_int32_mod mod_add_left_eq mod_add_right_eq)+








definition init_modem :: modem_state where
  "init_modem = \<lparr>trace = [], fault = False, first = [], Report_Flag = False, panic_report_config = 0, stuck = False\<rparr>"

definition two_reports :: "modem_call os" where
  "two_reports h c = (case c of
      Readdir d \<Rightarrow> (let n = length (filter (\<lambda>(c, r). c = Readdir d) h) in
        if n = 0 then data_result ''new'' else if n = 1 then data_result ''old'' else result 0)
    | Lstat p \<Rightarrow> (result 0)\<lparr>ret_aux := 60000\<rparr>
    | St_mtime p \<Rightarrow> (result 0)\<lparr>ret_aux := if p = ''/data/kernelpanics/old'' then 5 else 9\<rparr>
    | Opendir d \<Rightarrow> result 7 | Malloc \<Rightarrow> result 1 | _ \<Rightarrow> result 0)"


lemma two_reports_opendir: "ret_val (two_reports h (Opendir d)) = 7"
  by (simp add: two_reports_def)


section \<open>A panic is reported once\<close>

text \<open>The history only grows, and a fault stays.\<close>

definition since :: "modem_call list \<Rightarrow> bool \<Rightarrow> modem_state \<Rightarrow> bool" where
  "since cs b s \<longleftrightarrow> take (length cs) (calls s) = cs \<and> (b \<longrightarrow> fault s)"

lemma since_call: "keeps (since cs bad) (syscall os c)"
  by (auto simp: valid_def since_def dest: arg_cong [of _ _ length])

lemma since_ub: "keeps (since cs bad) undefined_behaviour"
  by (simp add: valid_def since_def)

lemmas since_rules = wp_rules since_call since_ub

lemma since_with_text: "(\<And>x. keeps (since cs bad) (f x)) \<Longrightarrow> keeps (since cs bad) (with_text b off f y)"
  unfolding with_text_def by (intro since_rules)

lemma since_fputs: "keeps (since cs bad) (fputs os out b off)"
  unfolding fputs_def by (intro since_rules since_with_text)



lemma since_filter_lines: "keeps (since cs bad) (filter_lines os out f b d)"
proof (induction os out f b d rule: filter_lines.induct)
  case (1 os out f b d)
  then show ?case by (subst filter_lines.simps) (intro since_rules since_with_text since_fputs; simp)
qed

lemma since_put_lines: "keeps (since cs bad) (put_lines os out few is)"
  by (induction "is") (auto intro!: since_rules since_fputs)

lemma since_next_lines: "keeps (since cs bad) (next_lines os out n f b)"
  by (induction n arbitrary: f b) (auto simp: Let_def intro!: since_rules since_fputs)












section \<open>What the reporter gets wrong\<close>

text \<open>Without memory no record is made.\<close>

definition listless :: "string list \<Rightarrow> bool \<Rightarrow> modem_state \<Rightarrow> bool" where
  "listless U b s \<longleftrightarrow> first s = [] \<and> unlinked (trace s) = U \<and> stuck s = b"

lemma listless_call: "unlinked [(c, ret)] = [] \<Longrightarrow> keeps (listless U b) (syscall os c)" for ret :: ret
  by (cases c) (auto simp: valid_def listless_def)

lemma listless_scan:
  assumes "\<And>h. ret_val (os h Malloc) = 0"
  shows "keeps (listless U b) (scan_dir os k dir dp n)"
proof (induction k arbitrary: n)
  case 0
  then show ?case by (simp add: valid_def)
next
  case (Suc k)
  have copy: "keeps (listless U b) (FileRecCopy os nm t z)" for nm t z
    using assms by (auto simp: valid_def FileRecCopy_def listless_def)
  have ub: "keeps (listless U b) (whenM c (do { syscall os (Fprintf 1 m); undefined_behaviour }))" for c m
    by (auto simp: valid_def listless_def)
  show ?case
    unfolding scan_dir.simps Let_def
    by (intro wp_rules Suc.IH copy ub) (auto intro: listless_call)
qed

text \<open>
  Without memory for the records of the listing \<open>checkdir\<close> does not return: the total counts files that the
  list does not hold, the list is empty, and the loop finds nothing to delete.
\<close>

lemma checkdir_hangs_without_memory:
  assumes "first s = []" "\<And>h. ret_val (os h Malloc) = 0" "\<And>h. ret_val (os h (Opendir dir)) = dp" "dp \<noteq> 0"
    and "eval_in (scan_dir os k dir dp 0) (exec (syscall os (Opendir dir)) s) > MAXTOTALSIZE"
  shows "stuck (exec (checkdir os k dir) s) \<and> unlinked (trace (exec (checkdir os k dir) s)) = unlinked (trace s)"
proof -
  have "listless (unlinked (trace s)) (stuck s) (exec (syscall os (Opendir dir)) s)"
    using assms(1) by (simp add: listless_def)
  from validD [OF listless_scan [of os, OF assms(2)] this, of k dir dp 0] assms(3-5)
  show ?thesis by (simp add: checkdir_def listless_def split_beta)
qed

definition no_memory :: "modem_call os" where
  "no_memory h c = (if c = Malloc then result 0 else two_reports h c)"

lemma checkdir_hangs_without_memory_witness:
  "stuck (exec (checkdir no_memory 3 KERNELDIR) init_modem) \<and>
   unlinked (trace (exec (checkdir no_memory 3 KERNELDIR) init_modem)) = []"
proof -
  have "eval_in (scan_dir no_memory 3 KERNELDIR 7 0) (exec (syscall no_memory (Opendir KERNELDIR)) init_modem) > MAXTOTALSIZE"
    by code_simp
  with checkdir_hangs_without_memory [of init_modem no_memory KERNELDIR 7 3]
  show ?thesis by (simp add: no_memory_def two_reports_opendir init_modem_def)
qed

lemma uninitialised_fault: "exec (fputs os out fresh 18) s = s\<lparr>fault := True\<rparr>"
  by (simp add: fputs_def with_text_def fresh_def numeral_eq_Suc)

lemma fputs_fault: "fault s \<Longrightarrow> fault (exec (fputs os out b off) s)"
  by (simp add: fputs_def with_text_def split: option.splits)

lemma put_lines_fault:
  "lastfew ! i = fresh \<Longrightarrow> i \<in> set is \<Longrightarrow> fault (exec (put_lines os out lastfew is) s)"
proof (induction "is" arbitrary: s)
  case (Cons j js)
  have keep: "fault u \<Longrightarrow> fault (exec (put_lines os out lastfew js) u)" for u
    using validD [OF since_put_lines [of "[]" True os out lastfew js], of u] by (simp add: since_def)
  show ?case
  proof (cases "i = j")
    case True
    then show ?thesis using Cons.prems by (simp add: uninitialised_fault split_beta keep)
  next
    case False
    then show ?thesis using Cons by (simp add: split_beta)
  qed
qed simp

lemma cbuf_str_line: "cbuf_str (map Some l @ Some NUL # r) = Some (cstr l)"
  by (induction l) (auto simp: cstr_def)

lemma fgets_line:
  assumes "take_line 255 (rest f) \<noteq> []"
  shows "cbuf_str (snd (fgets f b)) = Some (cstr (take_line 255 (rest f)))"
proof -
  have "snd (fgets f b) = map Some (take_line 255 (rest f)) @ Some NUL # drop (Suc (length (take_line 255 (rest f)))) b"
    using assms by (simp add: fgets_def overwrite_def Let_def)
  then show ?thesis by (simp add: cbuf_str_line)
qed

text \<open>
  The report of a panic shows memory that nobody has written when the line of the program counter comes
  among the first nine: \<open>readFile\<close> prints all ten buffers of its ring, however many lines it has read. Here
  the line is the first one.
\<close>

lemma early_pc_line_reads_uninitialised:
  assumes "strstr (cstr (take_line 255 panic)) ''PC is at'' \<noteq> None"
  shows "fault (exec (report_body os out \<lparr>rest = panic, feof = False\<rparr>) s)"
proof -
  let ?f = "\<lparr>rest = panic, feof = False\<rparr>" and ?few = "replicate BACKLINES fresh"
  let ?g = "fgets ?f fresh"
  let ?few' = "?few[0 := snd ?g]" and ?ring = "map (\<lambda>count. (0 + count) mod BACKLINES) [1..<BACKLINES + 1]"
  have "take_line 255 panic \<noteq> []" using assms by (auto simp: cstr_def)
  then have "cbuf_str (snd ?g) = Some (cstr (take_line 255 panic))" using fgets_line [of ?f] by simp
  then have found: "find_panic ?f ?few 0 = return (fst ?g, ?few', 0, False)"
    using assms by (subst find_panic.simps) (simp add: with_text_def Let_def)
  have faulty: "fault (exec (put_lines os out ?few' ?ring) s)"
    by (rule put_lines_fault [of _ 1]) (simp, simp add: upt_rec_numeral upt_conv_Cons)
  let ?rest = "next_lines os out 9 (fst ?g) (?few' ! 0) \<bind> (\<lambda>(f, b). filter_lines os out f b False)"
  have "keeps (since [] True) ?rest"
    by (intro since_rules since_next_lines since_filter_lines)
  then have keep: "fault u \<Longrightarrow> fault (exec ?rest u)" for u
    using validD [of "since [] True" ?rest "\<lambda>_. since [] True" u] by (simp add: since_def)
  have "exec (report_body os out ?f) s = exec ?rest (exec (put_lines os out ?few' ?ring) s)"
    unfolding report_body_def found by (simp add: split_beta)
  then show ?thesis using keep [OF faulty] by simp
qed

lemma early_pc_line_reads_uninitialised_witness:
  "fault (exec (report_body (\<lambda>h c. result 0) 5
     \<lparr>rest = ''<4>[   12.345678] PC is at panic+0x10'' @ [CHR 0x0A], feof = False\<rparr>) init_modem)"
  by (rule early_pc_line_reads_uninitialised) code_simp

end
