(* ===== verification/Filtertool.thy ===== *)
theory Filtertool
  imports Prelude
begin

text \<open>
  The tool behind \<open>logfilter-get\<close> and \<open>logfilter-set\<close> (\<open>src/aplogd/filtertool.c\<close>), which shows and sets the
  properties that filter the log. \<open>property_list\<close> calls a function for every property; its listing is a parameter, and what
  the tool does is the list of its effects. \<open>filter_string\<close> has 30 bytes: a tag that does not fit is undefined behaviour.
\<close>

datatype filter_effect = Printf string | Property_set string string | Overrun

record filter_state =
  filter_string :: string
  filter_value :: string
  effects :: "filter_effect list"

abbreviation "filter_prefix \<equiv> ''ap.log.filter.MOT_''"
abbreviation "FILTER_SIZE \<equiv> 30 :: nat"

definition emit :: "filter_effect \<Rightarrow> filter_state \<Rightarrow> filter_state" where
  "emit e s = s\<lparr>effects := effects s @ [e]\<rparr>"

definition sprintf_filter :: "string \<Rightarrow> filter_state \<Rightarrow> filter_state" where
  "sprintf_filter tag s =
     (let s' = s\<lparr>filter_string := filter_prefix @ tag\<rparr> in
      if length (filter_prefix @ tag) < FILTER_SIZE then s' else emit Overrun s')"

definition propget :: "string \<times> string \<Rightarrow> filter_state \<Rightarrow> filter_state" where
  "propget = (\<lambda>(key, val) s.
     if strncmp_eq key (filter_string s) (length (filter_string s))
     then emit (Printf (drop (length filter_prefix) key @ '':'' @ val @ [CHR 0x0A])) s else s)"

definition propset :: "string \<times> string \<Rightarrow> filter_state \<Rightarrow> filter_state" where
  "propset kv s = emit (Property_set (filter_string s) (filter_value s)) s"

definition property_list :: "(string \<times> string \<Rightarrow> filter_state \<Rightarrow> filter_state) \<Rightarrow> (string \<times> string) list \<Rightarrow> filter_state \<Rightarrow> filter_state" where
  "property_list f props s = fold f props s"

text \<open>A missing \<open>argv[0]\<close> is the empty string here.\<close>

definition filter_main :: "(string \<times> string) list \<Rightarrow> string list \<Rightarrow> filter_state \<Rightarrow> int \<times> filter_state" where
  "filter_main props argv s =
     (if argv = [] then (0, s)
      else if hd argv = ''logfilter-get'' then
        (if length argv = 1 then (0, property_list propget props (sprintf_filter [] s))
         else (0, fold (\<lambda>tag. property_list propget props \<circ> sprintf_filter tag) (tl argv) s))
      else if hd argv = ''logfilter-set'' then
        (if length argv < 3 then (0, emit (Printf (''logfilter-set <filter-tag> <filter-prio>'' @ [CHR 0x0A])) s)
         else (0, property_list propset props ((sprintf_filter (argv ! 1) s)\<lparr>filter_value := argv ! 2\<rparr>)))
      else (0, s))"

section \<open>Setting and getting\<close>

text \<open>The properties after the effects of a run, in the order of their names' first appearance.\<close>

fun store :: "string \<Rightarrow> string \<Rightarrow> (string \<times> string) list \<Rightarrow> (string \<times> string) list" where
  "store k v [] = [(k, v)]"
| "store k v ((k', v') # ps) = (if k = k' then (k, v) # ps else (k', v') # store k v ps)"

fun perform :: "filter_effect \<Rightarrow> (string \<times> string) list \<Rightarrow> (string \<times> string) list" where
  "perform (Property_set k v) ps = store k v ps"
| "perform _ ps = ps"

definition set_up :: "filter_state \<Rightarrow> (string \<times> string) list \<Rightarrow> (string \<times> string) list" where
  "set_up s = fold perform (effects s)"

lemma store_idem: "store k v (store k v ps) = store k v ps"
  by (induction ps) auto

lemma store_in: "(k, v) \<in> set (store k v ps)"
  by (induction ps) auto

lemma propset_fold:
  "fold propset ps s = s\<lparr>effects := effects s @ replicate (length ps) (Property_set (filter_string s) (filter_value s))\<rparr>"
  by (induction ps arbitrary: s) (simp_all add: propset_def emit_def)

lemma fold_store: "0 < n \<Longrightarrow> fold perform (replicate n (Property_set k v)) ps = store k v ps"
  by (induction n rule: nat_induct_non_zero) (simp_all add: store_idem replicate_append_same [symmetric] del: replicate_Suc
      flip: replicate_Suc)

lemma propget_fold:
  "effects (fold propget ps s) = effects s @
     map (\<lambda>(k, v). Printf (drop (length filter_prefix) k @ '':'' @ v @ [CHR 0x0A]))
       (filter (\<lambda>(k, v). strncmp_eq k (filter_string s) (length (filter_string s))) ps)"
  by (induction ps arbitrary: s) (auto simp: propget_def emit_def)

text \<open>
  What \<open>logfilter-set\<close> stores, \<open>logfilter-get\<close> shows: for a tag that fits into the 30 bytes of \<open>filter_string\<close>
  and a system that has properties at all, the priority is set and then printed under the tag, and nothing is overrun.
\<close>

lemma logfilter_set_then_get:
  assumes "props \<noteq> []" "length tag \<le> 11" "nul_free tag" "effects s = []" "effects s' = []"
    and "set_run = snd (filter_main props [''logfilter-set'', tag, prio] s)"
    and "get_run = snd (filter_main (set_up set_run props) [''logfilter-get'', tag] s')"
  shows "Printf (tag @ '':'' @ prio @ [CHR 0x0A]) \<in> set (effects get_run) \<and>
    Overrun \<notin> set (effects set_run) \<and> Overrun \<notin> set (effects get_run)"
proof -
  have fit: "effects (sprintf_filter tag u) = effects u" "filter_string (sprintf_filter tag u) = filter_prefix @ tag" for u
    using assms(2) by (simp_all add: sprintf_filter_def Let_def)
  have set_run: "effects set_run = replicate (length props) (Property_set (filter_prefix @ tag) prio)"
    unfolding assms(6) using assms(4) by (simp add: filter_main_def property_list_def propset_fold fit)
  then have "set_up set_run props = store (filter_prefix @ tag) prio props"
    unfolding set_up_def by (simp only: fold_store assms(1) length_greater_0_conv not_False_eq_True)
  then have "effects get_run = map (\<lambda>(k, v). Printf (drop (length filter_prefix) k @ '':'' @ v @ [CHR 0x0A]))
       (filter (\<lambda>(k, v). strncmp_eq k (filter_prefix @ tag) (length (filter_prefix @ tag))) (store (filter_prefix @ tag) prio props))"
    unfolding assms(7) using assms(5)
    by (simp add: filter_main_def property_list_def propget_fold fit comp_def del: append_Cons)
  moreover have "strncmp_eq (filter_prefix @ tag) (filter_prefix @ tag) n" for n by (simp add: strncmp_eq_def)
  ultimately show ?thesis
    using set_run store_in [of "filter_prefix @ tag" prio props] by (force simp del: append_Cons)
qed

end
