(* ===== verification/Md5.thy ===== *)
theory Md5
  imports Prelude "HOL-Library.Signed_Division"
begin

text \<open>
  The message digest of \<open>motobox\<close> (\<open>src/motobox/md5sum.c\<close>): the context \<open>MD5_CTX\<close>, the routines
  \<open>MD5Init\<close>, \<open>MD5Update\<close>, \<open>MD5Final\<close> and \<open>Transform\<close>, and the command \<open>md5sum\<close> around them.

  \<^item> \<open>UINT4\<close> is \<open>unsigned long\<close>, 32 bits on the phone's ARM processor: a 32-bit word. The four
    registers \<open>buf[4]\<close> are a tuple.
  \<^item> The four lines of \<open>Transform\<close> that update \<open>a\<close>, \<open>d\<close>, \<open>c\<close> and \<open>b\<close> in turn are one \<open>quad\<close>;
    its 64 lines are 16 quads.
  \<^item> \<open>md5\<close> is the one-shot specification: pad the whole message, cut it into blocks, compress block by
    block, where \<open>compress\<close> is one rotating step for each of the 64 entries of a schedule. The properties
    show that the streaming code computes it however the input is cut into pieces.
\<close>

unbundle bit_operations_syntax

section \<open>The compression function\<close>

type_synonym UINT4 = "32 word"
type_synonym octet = "8 word"
type_synonym registers = "UINT4 \<times> UINT4 \<times> UINT4 \<times> UINT4"

definition md_F :: "UINT4 \<Rightarrow> UINT4 \<Rightarrow> UINT4 \<Rightarrow> UINT4" where
  "md_F x y z = (x AND y) OR (NOT x AND z)"

definition md_G :: "UINT4 \<Rightarrow> UINT4 \<Rightarrow> UINT4 \<Rightarrow> UINT4" where
  "md_G x y z = (x AND z) OR (y AND NOT z)"

definition md_H :: "UINT4 \<Rightarrow> UINT4 \<Rightarrow> UINT4 \<Rightarrow> UINT4" where
  "md_H x y z = x XOR y XOR z"

definition md_I :: "UINT4 \<Rightarrow> UINT4 \<Rightarrow> UINT4 \<Rightarrow> UINT4" where
  "md_I x y z = y XOR (x OR NOT z)"

definition ROTATE_LEFT :: "UINT4 \<Rightarrow> nat \<Rightarrow> UINT4" where
  "ROTATE_LEFT x n = push_bit n x OR drop_bit (32 - n) x"

type_synonym round_op = "UINT4 \<Rightarrow> UINT4 \<Rightarrow> UINT4 \<Rightarrow> UINT4 \<Rightarrow> UINT4 \<Rightarrow> nat \<Rightarrow> UINT4 \<Rightarrow> UINT4"

definition FF :: round_op where
  "FF a b c d x s ac = ROTATE_LEFT (a + (md_F b c d + x + ac)) s + b"

definition GG :: round_op where
  "GG a b c d x s ac = ROTATE_LEFT (a + (md_G b c d + x + ac)) s + b"

definition HH :: round_op where
  "HH a b c d x s ac = ROTATE_LEFT (a + (md_H b c d + x + ac)) s + b"

definition II :: round_op where
  "II a b c d x s ac = ROTATE_LEFT (a + (md_I b c d + x + ac)) s + b"

text \<open>Four consecutive lines: each takes a word of the block, a rotation and a constant.\<close>

definition quad :: "round_op \<Rightarrow> (UINT4 \<times> nat \<times> UINT4) \<Rightarrow> (UINT4 \<times> nat \<times> UINT4) \<Rightarrow>
    (UINT4 \<times> nat \<times> UINT4) \<Rightarrow> (UINT4 \<times> nat \<times> UINT4) \<Rightarrow> registers \<Rightarrow> registers" where
  "quad f l1 l2 l3 l4 r =
     (case (r, l1, l2, l3, l4) of
        ((a, b, c, d), (x1, s1, k1), (x2, s2, k2), (x3, s3, k3), (x4, s4, k4)) \<Rightarrow>
          let a = f a b c d x1 s1 k1;
              d = f d a b c x2 s2 k2;
              c = f c d a b x3 s3 k3;
              b = f b c d a x4 s4 k4
          in (a, b, c, d))"

definition round1 :: "(nat \<Rightarrow> UINT4) \<Rightarrow> registers \<Rightarrow> registers" where
  "round1 w r =
     quad FF (w 12, 7, 1804603682) (w 13, 12, 4254626195) (w 14, 17, 2792965006) (w 15, 22, 1236535329)
    (quad FF (w 8, 7, 1770035416) (w 9, 12, 2336552879) (w 10, 17, 4294925233) (w 11, 22, 2304563134)
    (quad FF (w 4, 7, 4118548399) (w 5, 12, 1200080426) (w 6, 17, 2821735955) (w 7, 22, 4249261313)
    (quad FF (w 0, 7, 3614090360) (w 1, 12, 3905402710) (w 2, 17, 606105819) (w 3, 22, 3250441966) r)))"

definition round2 :: "(nat \<Rightarrow> UINT4) \<Rightarrow> registers \<Rightarrow> registers" where
  "round2 w r =
     quad GG (w 13, 5, 2850285829) (w 2, 9, 4243563512) (w 7, 14, 1735328473) (w 12, 20, 2368359562)
    (quad GG (w 9, 5, 568446438) (w 14, 9, 3275163606) (w 3, 14, 4107603335) (w 8, 20, 1163531501)
    (quad GG (w 5, 5, 3593408605) (w 10, 9, 38016083) (w 15, 14, 3634488961) (w 4, 20, 3889429448)
    (quad GG (w 1, 5, 4129170786) (w 6, 9, 3225465664) (w 11, 14, 643717713) (w 0, 20, 3921069994) r)))"

definition round3 :: "(nat \<Rightarrow> UINT4) \<Rightarrow> registers \<Rightarrow> registers" where
  "round3 w r =
     quad HH (w 9, 4, 3654602809) (w 12, 11, 3873151461) (w 15, 16, 530742520) (w 2, 23, 3299628645)
    (quad HH (w 13, 4, 681279174) (w 0, 11, 3936430074) (w 3, 16, 3572445317) (w 6, 23, 76029189)
    (quad HH (w 1, 4, 2763975236) (w 4, 11, 1272893353) (w 7, 16, 4139469664) (w 10, 23, 3200236656)
    (quad HH (w 5, 4, 4294588738) (w 8, 11, 2272392833) (w 11, 16, 1839030562) (w 14, 23, 4259657740) r)))"

definition round4 :: "(nat \<Rightarrow> UINT4) \<Rightarrow> registers \<Rightarrow> registers" where
  "round4 w r =
     quad II (w 4, 6, 4149444226) (w 11, 10, 3174756917) (w 2, 15, 718787259) (w 9, 21, 3951481745)
    (quad II (w 8, 6, 1873313359) (w 15, 10, 4264355552) (w 6, 15, 2734768916) (w 13, 21, 1309151649)
    (quad II (w 12, 6, 1700485571) (w 3, 10, 2399980690) (w 10, 15, 4293915773) (w 1, 21, 2240044497)
    (quad II (w 0, 6, 4096336452) (w 7, 10, 1126891415) (w 14, 15, 2878612391) (w 5, 21, 4237533241) r)))"

definition add_registers :: "registers \<Rightarrow> registers \<Rightarrow> registers" where
  "add_registers r q = (case (r, q) of ((a, b, c, d), (a', b', c', d')) \<Rightarrow> (a + a', b + b', c + c', d + d'))"

definition Transform :: "registers \<Rightarrow> UINT4 list \<Rightarrow> registers" where
  "Transform buf in_words =
     (let w = nth in_words in add_registers buf (round4 w (round3 w (round2 w (round1 w buf)))))"

section \<open>The streaming interface\<close>

record MD5_CTX =
  bits_lo :: UINT4
  bits_hi :: UINT4
  md_buf :: registers
  md_in :: "octet list"
  digest :: "octet list"

definition MD5Init :: "MD5_CTX \<Rightarrow> MD5_CTX" where
  "MD5Init c = c\<lparr>bits_lo := 0, bits_hi := 0,
     md_buf := (0x67452301, 0xefcdab89, 0x98badcfe, 0x10325476)\<rparr>"

definition in_word :: "octet list \<Rightarrow> nat \<Rightarrow> UINT4" where
  "in_word b i = push_bit 24 (ucast (b ! (4 * i + 3))) OR push_bit 16 (ucast (b ! (4 * i + 2))) OR
     push_bit 8 (ucast (b ! (4 * i + 1))) OR ucast (b ! (4 * i))"

primrec update_loop :: "octet list \<Rightarrow> nat \<Rightarrow> MD5_CTX \<Rightarrow> MD5_CTX" where
  "update_loop [] mdi c = c"
| "update_loop (x # xs) mdi c =
     (let c = c\<lparr>md_in := (md_in c)[mdi := x]\<rparr> in
      if mdi + 1 = 64
      then update_loop xs 0 (c\<lparr>md_buf := Transform (md_buf c) (map (in_word (md_in c)) [0..<16])\<rparr>)
      else update_loop xs (mdi + 1) c)"

definition buffered :: "MD5_CTX \<Rightarrow> nat" where
  "buffered c = unat (drop_bit 3 (bits_lo c) AND 0x3F)"

definition count_bits :: "UINT4 \<Rightarrow> MD5_CTX \<Rightarrow> MD5_CTX" where
  "count_bits inLen c =
     (let c = (if bits_lo c + push_bit 3 inLen < bits_lo c then c\<lparr>bits_hi := bits_hi c + 1\<rparr> else c)
      in c\<lparr>bits_lo := bits_lo c + push_bit 3 inLen, bits_hi := bits_hi c + drop_bit 29 inLen\<rparr>)"

definition MD5Update :: "MD5_CTX \<Rightarrow> octet list \<Rightarrow> UINT4 \<Rightarrow> MD5_CTX" where
  "MD5Update c inBuf inLen = update_loop (take (unat inLen) inBuf) (buffered c) (count_bits inLen c)"

definition PADDING :: "octet list" where
  "PADDING = 0x80 # replicate 63 0"

definition word_octets :: "UINT4 \<Rightarrow> octet list" where
  "word_octets x = [ucast (x AND 0xFF), ucast (drop_bit 8 x AND 0xFF), ucast (drop_bit 16 x AND 0xFF),
     ucast (drop_bit 24 x AND 0xFF)]"

definition register_octets :: "registers \<Rightarrow> octet list" where
  "register_octets r =
     (case r of (a, b, c, d) \<Rightarrow> word_octets a @ word_octets b @ word_octets c @ word_octets d)"

definition MD5Final :: "MD5_CTX \<Rightarrow> MD5_CTX" where
  "MD5Final c =
     (let in14 = bits_lo c;
          in15 = bits_hi c;
          mdi = buffered c;
          padLen = (if mdi < 56 then 56 - mdi else 120 - mdi);
          c = MD5Update c PADDING (of_nat padLen);
          c = c\<lparr>md_buf := Transform (md_buf c) (map (in_word (md_in c)) [0..<14] @ [in14, in15])\<rparr>
      in c\<lparr>digest := register_octets (md_buf c)\<rparr>)"

section \<open>The one-shot specification\<close>

definition md_fun :: "nat \<Rightarrow> UINT4 \<Rightarrow> UINT4 \<Rightarrow> UINT4 \<Rightarrow> UINT4" where
  "md_fun i = [md_F, md_G, md_H, md_I] ! (i div 16)"

definition md_index :: "nat \<Rightarrow> nat" where
  "md_index i = [i, 5 * i + 1, 3 * i + 5, 7 * i] ! (i div 16) mod 16"

definition md_shift :: "nat \<Rightarrow> nat" where
  "md_shift i = [[7, 12, 17, 22], [5, 9, 14, 20], [4, 11, 16, 23], [6, 10, 15, 21]] ! (i div 16) ! (i mod 4)"

definition md_table :: "UINT4 list" where
  "md_table =
    [3614090360, 3905402710, 606105819, 3250441966, 4118548399, 1200080426, 2821735955, 4249261313,
     1770035416, 2336552879, 4294925233, 2304563134, 1804603682, 4254626195, 2792965006, 1236535329,
     4129170786, 3225465664, 643717713, 3921069994, 3593408605, 38016083, 3634488961, 3889429448,
     568446438, 3275163606, 4107603335, 1163531501, 2850285829, 4243563512, 1735328473, 2368359562,
     4294588738, 2272392833, 1839030562, 4259657740, 2763975236, 1272893353, 4139469664, 3200236656,
     681279174, 3936430074, 3572445317, 76029189, 3654602809, 3873151461, 530742520, 3299628645,
     4096336452, 1126891415, 2878612391, 4237533241, 1700485571, 2399980690, 4293915773, 2240044497,
     1873313359, 4264355552, 2734768916, 1309151649, 4149444226, 3174756917, 718787259, 3951481745]"

type_synonym md_line = "(UINT4 \<Rightarrow> UINT4 \<Rightarrow> UINT4 \<Rightarrow> UINT4) \<times> nat \<times> nat \<times> UINT4"

definition schedule :: "md_line list" where
  "schedule = map (\<lambda>i. (md_fun i, md_index i, md_shift i, md_table ! i)) [0..<64]"

text \<open>One step: the registers rotate, so that the new value is always the second.\<close>

fun md_step :: "(nat \<Rightarrow> UINT4) \<Rightarrow> md_line \<Rightarrow> registers \<Rightarrow> registers" where
  "md_step w (f, k, s, t) (a, b, c, d) = (d, b + ROTATE_LEFT (a + f b c d + w k + t) s, b, c)"

definition compress :: "(nat \<Rightarrow> UINT4) \<Rightarrow> registers \<Rightarrow> registers" where
  "compress w r = add_registers r (fold (md_step w) schedule r)"

fun absorb :: "octet list \<Rightarrow> registers \<Rightarrow> registers" where
  "absorb m r = (if length m < 64 then r else absorb (drop 64 m) (compress (in_word (take 64 m)) r))"

declare absorb.simps [simp del]

definition pad_length :: "nat \<Rightarrow> nat" where
  "pad_length n = (if n mod 64 < 56 then 56 - n mod 64 else 120 - n mod 64)"

definition pad :: "octet list \<Rightarrow> octet list" where
  "pad m = m @ 0x80 # replicate (pad_length (length m) - 1) 0 @
     word_octets (of_nat (8 * length m)) @ word_octets (of_nat (8 * length m div 2 ^ 32))"

definition initial :: registers where
  "initial = (0x67452301, 0xefcdab89, 0x98badcfe, 0x10325476)"

definition md5 :: "octet list \<Rightarrow> octet list" where
  "md5 m = register_octets (absorb (pad m) initial)"

section \<open>Transform refines the specification\<close>

lemma four_steps:
  "fold (md_step w) ((md_F, i1, s1, k1) # (md_F, i2, s2, k2) # (md_F, i3, s3, k3) # (md_F, i4, s4, k4) # ls) r =
   fold (md_step w) ls (quad FF (w i1, s1, k1) (w i2, s2, k2) (w i3, s3, k3) (w i4, s4, k4) r)"
  "fold (md_step w) ((md_G, i1, s1, k1) # (md_G, i2, s2, k2) # (md_G, i3, s3, k3) # (md_G, i4, s4, k4) # ls) r =
   fold (md_step w) ls (quad GG (w i1, s1, k1) (w i2, s2, k2) (w i3, s3, k3) (w i4, s4, k4) r)"
  "fold (md_step w) ((md_H, i1, s1, k1) # (md_H, i2, s2, k2) # (md_H, i3, s3, k3) # (md_H, i4, s4, k4) # ls) r =
   fold (md_step w) ls (quad HH (w i1, s1, k1) (w i2, s2, k2) (w i3, s3, k3) (w i4, s4, k4) r)"
  "fold (md_step w) ((md_I, i1, s1, k1) # (md_I, i2, s2, k2) # (md_I, i3, s3, k3) # (md_I, i4, s4, k4) # ls) r =
   fold (md_step w) ls (quad II (w i1, s1, k1) (w i2, s2, k2) (w i3, s3, k3) (w i4, s4, k4) r)"
  by (cases r; simp add: quad_def Let_def FF_def GG_def HH_def II_def ac_simps)+

definition line_at :: "nat \<Rightarrow> nat \<times> nat \<times> UINT4" where
  "line_at i = (md_index i, md_shift i, md_table ! i)"

lemma lines_at:
  "map line_at [0..<16] =
    [(0, 7, 3614090360), (1, 12, 3905402710), (2, 17, 606105819), (3, 22, 3250441966),
     (4, 7, 4118548399), (5, 12, 1200080426), (6, 17, 2821735955), (7, 22, 4249261313),
     (8, 7, 1770035416), (9, 12, 2336552879), (10, 17, 4294925233), (11, 22, 2304563134),
     (12, 7, 1804603682), (13, 12, 4254626195), (14, 17, 2792965006), (15, 22, 1236535329)]"
  "map line_at [16..<32] =
    [(1, 5, 4129170786), (6, 9, 3225465664), (11, 14, 643717713), (0, 20, 3921069994),
     (5, 5, 3593408605), (10, 9, 38016083), (15, 14, 3634488961), (4, 20, 3889429448),
     (9, 5, 568446438), (14, 9, 3275163606), (3, 14, 4107603335), (8, 20, 1163531501),
     (13, 5, 2850285829), (2, 9, 4243563512), (7, 14, 1735328473), (12, 20, 2368359562)]"
  "map line_at [32..<48] =
    [(5, 4, 4294588738), (8, 11, 2272392833), (11, 16, 1839030562), (14, 23, 4259657740),
     (1, 4, 2763975236), (4, 11, 1272893353), (7, 16, 4139469664), (10, 23, 3200236656),
     (13, 4, 681279174), (0, 11, 3936430074), (3, 16, 3572445317), (6, 23, 76029189),
     (9, 4, 3654602809), (12, 11, 3873151461), (15, 16, 530742520), (2, 23, 3299628645)]"
  "map line_at [48..<64] =
    [(0, 6, 4096336452), (7, 10, 1126891415), (14, 15, 2878612391), (5, 21, 4237533241),
     (12, 6, 1700485571), (3, 10, 2399980690), (10, 15, 4293915773), (1, 21, 2240044497),
     (8, 6, 1873313359), (15, 10, 4264355552), (6, 15, 2734768916), (13, 21, 1309151649),
     (4, 6, 4149444226), (11, 10, 3174756917), (2, 15, 718787259), (9, 21, 3951481745)]"
  by code_simp+

lemma four_ranges: "[0..<64] = [0..<16] @ [16..<32] @ [32..<48] @ [48..<64]"
  by code_simp

lemma schedule_range:
  assumes "\<And>i. m \<le> i \<Longrightarrow> i < n \<Longrightarrow> i div 16 = k"
  shows "map (\<lambda>i. (md_fun i, md_index i, md_shift i, md_table ! i)) [m..<n] =
    map (Pair ([md_F, md_G, md_H, md_I] ! k)) (map line_at [m..<n])"
  using assms unfolding map_map by (intro map_cong) (auto simp: md_fun_def line_at_def)

lemma schedule_lines:
  "schedule = map (Pair md_F) (map line_at [0..<16]) @ map (Pair md_G) (map line_at [16..<32]) @
     map (Pair md_H) (map line_at [32..<48]) @ map (Pair md_I) (map line_at [48..<64])"
proof -
  note parts = schedule_range [of 0 16 0] schedule_range [of 16 32 1] schedule_range [of 32 48 2]
    schedule_range [of 48 64 3]
  show ?thesis
    unfolding schedule_def four_ranges map_append
    using parts by (auto simp del: upt_rec_numeral map_map)
qed

lemma compress_rounds: "compress w r = add_registers r (round4 w (round3 w (round2 w (round1 w r))))"
  unfolding compress_def schedule_lines lines_at
  by (simp only: list.map append.simps four_steps fold_Nil id_apply
      round1_def round2_def round3_def round4_def)

lemma Transform_compress:
  assumes "length ws = 16" "\<And>i. i < 16 \<Longrightarrow> ws ! i = w i"
  shows "Transform r ws = compress w r"
  using assms
  by (simp add: Transform_def compress_rounds Let_def round1_def round2_def round3_def round4_def)

section \<open>Streaming\<close>

lemma absorb_short: "length m < 64 \<Longrightarrow> absorb m r = r"
  by (simp add: absorb.simps)

lemma absorb_block: "length b = 64 \<Longrightarrow> absorb (b @ m) r = absorb m (compress (in_word b) r)"
  by (simp add: absorb.simps [of "b @ m"])

lemma absorb_append: "64 dvd length a \<Longrightarrow> absorb (a @ b) r = absorb b (absorb a r)"
proof (induction a r rule: absorb.induct)
  case (1 a r)
  show ?case
  proof (cases "length a < 64")
    case True
    with 1(2) have "a = []" by (auto dest: dvd_imp_le)
    then show ?thesis by (simp add: absorb_short)
  next
    case False
    with 1 have "absorb (drop 64 a @ b) (compress (in_word (take 64 a)) r) =
        absorb b (absorb (drop 64 a) (compress (in_word (take 64 a)) r))"
      by (simp add: dvd_diff_nat)
    then show ?thesis
      using False absorb_block [of "take 64 a" "drop 64 a @ b" r]
      by (simp add: absorb.simps [of a] append_assoc [symmetric] del: append_assoc)
  qed
qed

definition whole :: "octet list \<Rightarrow> octet list" where
  "whole m = take (64 * (length m div 64)) m"

definition rest :: "octet list \<Rightarrow> octet list" where
  "rest m = drop (64 * (length m div 64)) m"

lemma whole_rest: "whole m @ rest m = m" "64 dvd length (whole m)" "length (rest m) = length m mod 64"
  by (simp_all add: whole_def rest_def minus_mult_div_eq_mod min_absorb2)

lemma absorb_whole: "absorb m r = absorb (whole m) r"
  using absorb_append [OF whole_rest(2) [of m], of "rest m" r] absorb_short [of "rest m"]
  by (simp add: whole_rest)

lemma snoc_whole_rest:
  "length m mod 64 = 63 \<Longrightarrow> whole (m @ [x]) = whole m @ rest m @ [x] \<and> rest (m @ [x]) = []"
  "length m mod 64 \<noteq> 63 \<Longrightarrow> whole (m @ [x]) = whole m \<and> rest (m @ [x]) = rest m @ [x]"
proof -
  have d: "Suc (length m) div 64 = (if length m mod 64 = 63 then Suc (length m div 64) else length m div 64)"
    by (simp add: div_Suc mod_Suc)
  have le: "64 * (length m div 64) \<le> length m" by (simp add: times_div_less_eq_dividend)
  show "length m mod 64 = 63 \<Longrightarrow> whole (m @ [x]) = whole m @ rest m @ [x] \<and> rest (m @ [x]) = []"
  proof -
    assume 63: "length m mod 64 = 63"
    then have "64 * Suc (length m div 64) = Suc (length m)"
      using mult_div_mod_eq [of 64 "length m"] by simp
    then show ?thesis using d 63 whole_rest(1) [of m] by (simp add: whole_def rest_def)
  qed
  show "length m mod 64 \<noteq> 63 \<Longrightarrow> whole (m @ [x]) = whole m \<and> rest (m @ [x]) = rest m @ [x]"
    using d le by (simp add: whole_def rest_def)
qed

text \<open>What the context holds after the message \<open>m\<close>, counters apart.\<close>

definition taken_in :: "octet list \<Rightarrow> MD5_CTX \<Rightarrow> bool" where
  "taken_in m c \<longleftrightarrow> length (md_in c) = 64 \<and> md_buf c = absorb m initial \<and>
     take (length m mod 64) (md_in c) = rest m"

lemma update_loop_takes_in:
  assumes "taken_in m c"
  shows "taken_in (m @ xs) (update_loop xs (length m mod 64) c) \<and>
    bits_lo (update_loop xs (length m mod 64) c) = bits_lo c \<and>
    bits_hi (update_loop xs (length m mod 64) c) = bits_hi c"
  using assms
proof (induction xs arbitrary: m c)
  case (Cons x xs)
  let ?i = "length m mod 64"
  let ?b = "(md_in c)[?i := x]"
  have len: "length (md_in c) = 64" using Cons.prems by (simp add: taken_in_def)
  have new: "take (Suc ?i) ?b = rest m @ [x]"
    using Cons.prems len by (simp add: taken_in_def take_Suc_conv_app_nth)
  show ?case
  proof (cases "?i = 63")
    case True
    let ?c = "c\<lparr>md_in := ?b, md_buf := Transform (md_buf c) (map (in_word ?b) [0..<16])\<rparr>"
    have b: "?b = rest m @ [x]" using new True len by simp
    have "Transform (md_buf c) (map (in_word ?b) [0..<16]) = compress (in_word ?b) (md_buf c)"
      by (rule Transform_compress) simp_all
    also have "\<dots> = compress (in_word (rest m @ [x])) (md_buf c)" by (simp only: b)
    also have "\<dots> = absorb (m @ [x]) initial"
      using Cons.prems absorb_whole [of "m @ [x]" initial] absorb_whole [of m initial]
        absorb_append [OF whole_rest(2) [of m], of "rest m @ [x]" initial] absorb_block [of "rest m @ [x]" "[]"] len
        snoc_whole_rest(1) [OF True, of x] absorb_short [of "[]"]
      whole_rest(3) [of m] True
      by (simp add: taken_in_def)
    finally have "taken_in (m @ [x]) ?c"
      using len snoc_whole_rest(1) [OF True, of x] True by (simp add: taken_in_def mod_Suc)
    then show ?thesis using Cons.IH [of "m @ [x]" ?c] True by (simp add: mod_Suc Let_def)
  next
    case False
    let ?c = "c\<lparr>md_in := ?b\<rparr>"
    have "taken_in (m @ [x]) ?c"
      using Cons.prems new False len snoc_whole_rest(2) [OF False, of x] absorb_whole [of "m @ [x]" initial]
        absorb_whole [of m initial]
      by (simp add: taken_in_def mod_Suc)
    then show ?thesis using Cons.IH [of "m @ [x]" ?c] False by (simp add: mod_Suc Let_def)
  qed
qed simp


section \<open>Counting\<close>

definition counted :: "nat \<Rightarrow> MD5_CTX \<Rightarrow> bool" where
  "counted n c \<longleftrightarrow> bits_lo c = of_nat (8 * n) \<and> bits_hi c = of_nat (8 * n div 2 ^ 32)"

lemma unat_drop: "unat (drop_bit k (w :: 32 word)) = unat w div 2 ^ k"
  unfolding unat_drop_bit_eq by (simp only: drop_bit_eq_div)

lemma unat_take: "unat (take_bit k (w :: 32 word)) = unat w mod 2 ^ k"
  unfolding unsigned_take_bit_eq by (simp only: take_bit_eq_mod)

lemma buffered_counted:
  assumes "counted n c"
  shows "buffered c = n mod 64"
proof -
  have mask: "(0x3F :: 32 word) = mask 6" by (simp add: mask_eq_exp_minus_1)
  have "buffered c = 8 * n mod 2 ^ 32 div 8 mod 64"
    using assms unfolding counted_def buffered_def mask take_bit_eq_mask [symmetric] unat_take unat_drop
    by (simp add: unat_of_nat del: of_nat_mult)
  also have "\<dots> = n mod 64"
    using mod_mult2_eq [of "8 * n" 8 "2 ^ 29"] by (simp add: mod_mod_cancel)
  finally show ?thesis .
qed

lemma carry_nat:
  assumes "a < (m :: nat)" "b < m"
  shows "(a + b) mod m < a \<longleftrightarrow> m \<le> a + b" "(a + b) div m = (if m \<le> a + b then 1 else 0)"
  using assms by (auto simp: mod_if [of "a + b"] le_div_geq)

lemma counted_count_bits:
  assumes "counted n c" "k < 2 ^ 32"
  shows "counted (n + k) (count_bits (of_nat k) c)"
proof -
  let ?M = "2 ^ 32 :: nat"
  let ?carry = "?M \<le> 8 * n mod ?M + 8 * k mod ?M"
  have lo: "bits_lo c = of_nat (8 * n)" and hi: "bits_hi c = of_nat (8 * n div ?M)"
    using assms(1) by (simp_all add: counted_def)
  have push: "push_bit 3 (of_nat k :: 32 word) = of_nat (8 * k)"
    by (simp add: push_bit_eq_mult)
  have "8 * k div ?M = k div 2 ^ 29" using div_mult_mult1 [of 8 k "2 ^ 29"] by simp
  moreover have "unat (drop_bit 29 (of_nat k :: 32 word)) = k div 2 ^ 29"
    using assms(2) unfolding unat_drop by (simp add: unat_of_nat)
  ultimately have drop: "drop_bit 29 (of_nat k :: 32 word) = of_nat (8 * k div ?M)"
    by (metis of_nat_unat ucast_id)
  have carry: "(of_nat (8 * n) + of_nat (8 * k) < (of_nat (8 * n) :: 32 word)) \<longleftrightarrow> ?carry"
    using carry_nat(1) [of "8 * n mod ?M" ?M "8 * k mod ?M"]
    by (simp add: word_less_nat_alt unat_word_ariths unat_of_nat del: of_nat_mult of_nat_numeral)
  have sum: "8 * (n + k) div ?M = 8 * n div ?M + 8 * k div ?M + (if ?carry then 1 else 0)"
    using div_add1_eq [of "8 * n" "8 * k" ?M] carry_nat(2) [of "8 * n mod ?M" ?M "8 * k mod ?M"]
    by (simp add: distrib_left)
  show ?thesis
    unfolding counted_def count_bits_def Let_def push drop lo carry sum
    by (simp add: hi lo)
qed


section \<open>The digest\<close>

text \<open>The context after the message \<open>m\<close>.\<close>

definition context_of :: "octet list \<Rightarrow> MD5_CTX \<Rightarrow> bool" where
  "context_of m c \<longleftrightarrow> taken_in m c \<and> counted (length m) c"

lemma context_MD5Init: "length (md_in c) = 64 \<Longrightarrow> context_of [] (MD5Init c)"
  by (simp add: context_of_def taken_in_def counted_def MD5Init_def absorb_short rest_def initial_def)

lemma taken_in_count_bits: "taken_in m (count_bits k c) = taken_in m c"
  by (simp add: taken_in_def count_bits_def Let_def)

lemma context_MD5Update:
  assumes "context_of m c" "length xs < 2 ^ 32"
  shows "context_of (m @ xs) (MD5Update c xs (of_nat (length xs)))"
proof -
  have n: "unat (of_nat (length xs) :: 32 word) = length xs"
    using assms(2) by (simp add: unat_of_nat)
  have "taken_in m (count_bits (of_nat (length xs)) c)"
    using assms(1) by (simp add: context_of_def taken_in_count_bits)
  from update_loop_takes_in [OF this, of xs]
  show ?thesis
    using counted_count_bits [of "length m" c "length xs"] assms n
      buffered_counted [of "length m" c]
    by (simp add: context_of_def MD5Update_def counted_def)
qed

lemma octets_join:
  "push_bit 24 (ucast (ucast (drop_bit 24 x AND 0xFF) :: octet)) OR
   push_bit 16 (ucast (ucast (drop_bit 16 x AND 0xFF) :: octet)) OR
   push_bit 8 (ucast (ucast (drop_bit 8 x AND 0xFF) :: octet)) OR
   ucast (ucast (x AND 0xFF) :: octet) = (x :: UINT4)" (is "?l = _")
proof (rule bit_word_eqI)
  have ff: "(0xFF :: 32 word) = mask 8" by (simp add: mask_eq_exp_minus_1)
  fix n assume n: "n < LENGTH(32)"
  then consider "n < 8" | "8 \<le> n" "n - 8 < 8" "n < 16" | "16 \<le> n" "n - 16 < 8" "n < 24" "\<not> n - 8 < 8"
    | "24 \<le> n" "n - 24 < 8" "\<not> n - 16 < 8" "\<not> n - 8 < 8"
    by fastforce
  then show "bit ?l n = bit x n"
    unfolding ff by cases (use n in \<open>simp_all add: bit_simps\<close>)
qed

lemma in_word_octets:
  assumes "length a = 4 * k"
  shows "in_word (a @ word_octets x @ b) k = x"
  using assms octets_join [of x] by (simp add: in_word_def word_octets_def nth_append)

lemma in_word_prefix: "4 * i + 3 < length a \<Longrightarrow> in_word (a @ b) i = in_word a i"
  by (simp add: in_word_def nth_append)

lemma in_word_take: "4 * i + 3 < n \<Longrightarrow> n \<le> length a \<Longrightarrow> in_word (take n a) i = in_word a i"
  by (simp add: in_word_def)


lemma padding_taken:
  "take (pad_length n) PADDING = 0x80 # replicate (pad_length n - 1) 0" "pad_length n \<le> 64"
  "(n + pad_length n) mod 64 = 56" "0 < pad_length n"
proof -
  have n: "n mod 64 < 64" by simp
  then show le: "pad_length n \<le> 64" and pos: "0 < pad_length n" by (auto simp: pad_length_def)
  then show "take (pad_length n) PADDING = 0x80 # replicate (pad_length n - 1) 0"
    by (simp add: PADDING_def take_Cons' min_absorb2)
  have "(n mod 64 + pad_length n) mod 64 = 56" using n by (simp add: pad_length_def)
  then show "(n + pad_length n) mod 64 = 56" by (simp add: mod_simps)
qed

lemma context_padded:
  assumes "context_of m c"
  shows "context_of (m @ take (pad_length (length m)) PADDING)
    (MD5Update c PADDING (of_nat (pad_length (length m))))"
proof -
  let ?p = "pad_length (length m)"
  have len: "length (take ?p PADDING) = ?p"
    using padding_taken(2) [of "length m"] by (simp add: PADDING_def)
  have "unat (of_nat ?p :: 32 word) = ?p"
    using padding_taken(2) [of "length m"] by (simp add: unat_of_nat)
  then have "MD5Update c PADDING (of_nat ?p) =
      MD5Update c (take ?p PADDING) (of_nat (length (take ?p PADDING)))"
    unfolding len by (simp add: MD5Update_def)
  then show ?thesis
    using context_MD5Update [OF assms, of "take ?p PADDING"] padding_taken(2) [of "length m"] len by simp
qed

lemma digest_MD5Final:
  assumes "context_of m c"
  shows "digest (MD5Final c) = md5 m"
proof -
  let ?n = "length m"
  let ?p = "pad_length ?n"
  let ?mp = "m @ take ?p PADDING"
  let ?c = "MD5Update c PADDING (of_nat ?p)"
  let ?lo = "of_nat (8 * ?n) :: UINT4" and ?hi = "of_nat (8 * ?n div 2 ^ 32) :: UINT4"
  let ?b = "rest ?mp @ word_octets ?lo @ word_octets ?hi"
  have count: "bits_lo c = ?lo" "bits_hi c = ?hi" "buffered c = ?n mod 64"
    using assms buffered_counted [of ?n c] by (simp_all add: context_of_def counted_def)
  have len: "length (take ?p PADDING) = ?p"
    using padding_taken(2) [of ?n] by (simp add: PADDING_def)
  then have mod: "length ?mp mod 64 = 56" using padding_taken(3) [of ?n] by simp
  have c: "length (md_in ?c) = 64" "md_buf ?c = absorb ?mp initial" "take 56 (md_in ?c) = rest ?mp"
    using context_padded [OF assms] mod by (simp_all add: context_of_def taken_in_def)
  have rest: "length (rest ?mp) = 56" using whole_rest(3) [of ?mp] mod by simp
  let ?ws = "map (in_word (md_in ?c)) [0..<14] @ [?lo, ?hi]"
  have "?ws ! i = in_word ?b i" if "i < 16" for i
  proof -
    have "i < 14 \<or> i = 14 \<or> i = 15" using that by auto
    then consider "i < 14" | "i = 14" | "i = 15" by blast
    then show ?thesis
    proof cases
      case 1
      then have "in_word ?b i = in_word (md_in ?c) i"
        using in_word_prefix [of i "rest ?mp"] in_word_take [of i 56 "md_in ?c"] c rest by simp
      then show ?thesis using 1 by (simp add: nth_append)
    next
      case 2
      then show ?thesis using in_word_octets [of "rest ?mp" 14] rest by (simp add: nth_append)
    next
      case 3
      have "length (rest ?mp @ word_octets ?lo) = 4 * 15" using rest by (simp add: word_octets_def)
      from in_word_octets [OF this, of ?hi "[]"] show ?thesis using 3 by (simp add: nth_append)
    qed
  qed
  then have "Transform (md_buf ?c) ?ws = compress (in_word ?b) (absorb (whole ?mp) initial)"
    using Transform_compress [of ?ws "in_word ?b"] absorb_whole [of ?mp] c by simp
  also have "\<dots> = absorb (whole ?mp @ ?b) initial"
    using absorb_append [OF whole_rest(2) [of ?mp]] absorb_block [of ?b "[]"] absorb_short [of "[]"] rest
    by (simp add: word_octets_def)
  also have "whole ?mp @ ?b = pad m"
    using whole_rest(1) [of ?mp] padding_taken(1) [of ?n]
    by (simp add: pad_def append_assoc [symmetric] del: append_assoc)
  finally show ?thesis
    by (simp add: MD5Final_def Let_def md5_def count pad_length_def [symmetric])
qed

section \<open>The command\<close>

datatype md_call = MFopen string | MFread int nat | MFclose int | MPrintf string | MTime

type_synonym 'a md = "(md_call io_state, 'a) state"

definition octets :: "string \<Rightarrow> octet list" where
  "octets s = map of_char s"

definition hex_digit :: "nat \<Rightarrow> char" where
  "hex_digit n = ''0123456789abcdef'' ! n"

definition hex2 :: "octet \<Rightarrow> string" where
  "hex2 x = [hex_digit (unat x div 16), hex_digit (unat x mod 16)]"

primrec print_all :: "md_call os \<Rightarrow> string list \<Rightarrow> unit md" where
  "print_all os [] = return ()"
| "print_all os (t # ts) = do { syscall os (MPrintf t); print_all os ts }"

definition MDPrint :: "md_call os \<Rightarrow> MD5_CTX \<Rightarrow> unit md" where
  "MDPrint os c = print_all os (map hex2 (digest c))"

definition line_end :: string where
  "line_end = [CHR 0x0A]"

definition quote :: string where
  "quote = [CHR 0x22]"

text \<open>The context is a local variable: \<open>c\<close> is whatever the stack holds.\<close>

definition MDString :: "md_call os \<Rightarrow> MD5_CTX \<Rightarrow> string \<Rightarrow> unit md" where
  "MDString os c inString = do {
     let len = of_nat (length inString);
     MDPrint os (MD5Final (MD5Update (MD5Init c) (octets inString) len));
     print_all os ['' '' @ quote @ inString @ quote @ line_end @ line_end]
   }"

text \<open>
  The loop of \<open>MDFile\<close> and \<open>MDFilter\<close>, with pieces of at most \<open>n\<close> bytes; \<open>None\<close> when it has not
  ended within \<open>k\<close> rounds.
\<close>

primrec digest_stream :: "md_call os \<Rightarrow> nat \<Rightarrow> int \<Rightarrow> nat \<Rightarrow> MD5_CTX \<Rightarrow> MD5_CTX option md" where
  "digest_stream os 0 f n c = return None"
| "digest_stream os (Suc k) f n c = do {
     r \<leftarrow> syscall os (MFread f n);
     if ret_val r = 0 then return (Some c)
     else digest_stream os k f n (MD5Update c (octets (ret_data r)) (word_of_int (ret_val r)))
   }"

definition print_stream :: "md_call os \<Rightarrow> nat \<Rightarrow> int \<Rightarrow> nat \<Rightarrow> MD5_CTX \<Rightarrow> string \<Rightarrow> bool md" where
  "print_stream os k f n c ending = do {
     d \<leftarrow> digest_stream os k f n (MD5Init c);
     case d of
       None \<Rightarrow> return False
     | Some c \<Rightarrow> do { MDPrint os (MD5Final c); print_all os [ending]; return True }
   }"

definition MDFile :: "md_call os \<Rightarrow> nat \<Rightarrow> MD5_CTX \<Rightarrow> string \<Rightarrow> unit md" where
  "MDFile os k c filename = do {
     f \<leftarrow> syscall os (MFopen filename);
     if ret_val f = 0 then print_all os [filename @ '' can'' @ [CHR 0x27] @ ''t be opened.'' @ line_end]
     else do {
       ended \<leftarrow> print_stream os k (ret_val f) 1024 c ('' '' @ filename @ line_end);
       whenM ended (do { syscall os (MFclose (ret_val f)); return () })
     }
   }"

definition stdin :: int where
  "stdin = 0"

definition MDFilter :: "md_call os \<Rightarrow> nat \<Rightarrow> MD5_CTX \<Rightarrow> unit md" where
  "MDFilter os k c = do { print_stream os k stdin 16 c line_end; return () }"

abbreviation "TEST_BLOCK_SIZE \<equiv> 1000 :: nat"
abbreviation "TEST_BLOCKS \<equiv> 10000 :: nat"
abbreviation "TEST_BYTES \<equiv> 10000000 :: int"

text \<open>The speed is a division by the seconds passed, which may be none.\<close>

definition MDTimeTrial :: "md_call os \<Rightarrow> MD5_CTX \<Rightarrow> unit md" where
  "MDTimeTrial os c = do {
     let data = map (\<lambda>i. of_nat i) [0..<TEST_BLOCK_SIZE];
     print_all os [''MD5 time trial. Processing '' @ show_int TEST_BYTES @ '' characters...'' @ line_end];
     startTime \<leftarrow> syscall os MTime;
     let d = MD5Final (((\<lambda>c. MD5Update c data (of_nat TEST_BLOCK_SIZE)) ^^ TEST_BLOCKS) (MD5Init c));
     endTime \<leftarrow> syscall os MTime;
     MDPrint os d;
     let seconds = ret_val endTime - ret_val startTime;
     print_all os ['' is digest of test input.'' @ line_end,
       ''Seconds to process test input: '' @ show_int seconds @ line_end];
     if seconds = 0 then undefined_behaviour
     else print_all os [''Characters processed per second: '' @ show_int (TEST_BYTES sdiv seconds) @ line_end]
   }"

definition test_strings :: "string list" where
  "test_strings = ['''', ''a'', ''abc'', ''message digest'', ''abcdefghijklmnopqrstuvwxyz'',
     ''ABCDEFGHIJKLMNOPQRSTUVWXYZabcdefghijklmnopqrstuvwxyz0123456789'',
     ''12345678901234567890123456789012345678901234567890123456789012345678901234567890'']"

primrec MDStrings :: "md_call os \<Rightarrow> MD5_CTX \<Rightarrow> string list \<Rightarrow> unit md" where
  "MDStrings os c [] = return ()"
| "MDStrings os c (s # ss) = do { MDString os c s; MDStrings os c ss }"

definition MDTestSuite :: "md_call os \<Rightarrow> nat \<Rightarrow> MD5_CTX \<Rightarrow> unit md" where
  "MDTestSuite os k c = do {
     print_all os [''MD5 test suite results:'' @ line_end @ line_end];
     MDStrings os c test_strings;
     MDFile os k c ''foo''
   }"

primrec md5sum_args :: "md_call os \<Rightarrow> nat \<Rightarrow> MD5_CTX \<Rightarrow> string list \<Rightarrow> unit md" where
  "md5sum_args os k c [] = return ()"
| "md5sum_args os k c (arg # args) = do {
     (if take 2 arg = ''-s'' then MDString os c (drop 2 arg)
      else if arg = ''-t'' then MDTimeTrial os c
      else if arg = ''-x'' then MDTestSuite os k c
      else MDFile os k c arg);
     md5sum_args os k c args
   }"

definition md5sum_main :: "md_call os \<Rightarrow> nat \<Rightarrow> MD5_CTX \<Rightarrow> string list \<Rightarrow> unit md" where
  "md5sum_main os k c argv =
     (if length argv = 1 then MDFilter os k c else md5sum_args os k c (tl argv))"

section \<open>Properties\<close>

text \<open>
  C9: the unrolled \<open>Transform\<close> is the compression function of the specification: 64 rotating steps
  over the schedule.
\<close>

theorem Transform_refines: "Transform r ws = compress (nth ws) r"
  by (simp add: Transform_def compress_rounds Let_def)

lemma context_updates:
  assumes "context_of m c" "\<forall>p\<in>set ps. length p < 2 ^ 32"
  shows "context_of (m @ concat ps) (fold (\<lambda>p c. MD5Update c p (of_nat (length p))) ps c)"
  using assms
proof (induction ps arbitrary: m c)
  case (Cons p ps)
  from Cons.IH [of "m @ p"] context_MD5Update [OF Cons.prems(1), of p] Cons.prems(2) show ?case by simp
qed simp

text \<open>
  C8: however a message is cut into pieces, \<open>MD5Init\<close>, one \<open>MD5Update\<close> for each piece and \<open>MD5Final\<close>
  yield the digest of the whole message as the one-shot specification defines it, for messages of any
  length (the bit count wraps at \<open>2\<^sup>6\<^sup>4\<close> on both sides).
\<close>

theorem md5_streaming:
  assumes "length (md_in c) = 64" "\<forall>p\<in>set ps. length p < 2 ^ 32"
  shows "digest (MD5Final (fold (\<lambda>p c. MD5Update c p (of_nat (length p))) ps (MD5Init c))) = md5 (concat ps)"
  using digest_MD5Final [OF context_updates [OF context_MD5Init [OF assms(1)] assms(2)]] by simp

definition stack_garbage :: MD5_CTX where
  "stack_garbage = \<lparr>bits_lo = 7, bits_hi = 7, md_buf = (1, 2, 3, 4), md_in = replicate 64 0xAA, digest = []\<rparr>"

theorem md5_streaming_witness:
  "md5 (octets ''abc'') =
   [0x90, 0x01, 0x50, 0x98, 0x3c, 0xd2, 0x4f, 0xb0, 0xd6, 0x96, 0x3f, 0x7d, 0x28, 0xe1, 0x7f, 0x72]"
proof -
  have "digest (MD5Final (fold (\<lambda>p c. MD5Update c p (of_nat (length p))) [[0x61], [0x62, 0x63]]
      (MD5Init stack_garbage))) =
    [0x90, 0x01, 0x50, 0x98, 0x3c, 0xd2, 0x4f, 0xb0, 0xd6, 0x96, 0x3f, 0x7d, 0x28, 0xe1, 0x7f, 0x72]"
    by code_simp
  then show ?thesis
    using md5_streaming [of stack_garbage "[[0x61], [0x62, 0x63]]"]
    by (simp add: stack_garbage_def octets_def)
qed

text \<open>What has been printed, and how often a stream has been read.\<close>

definition printed :: "md_call hist \<Rightarrow> string" where
  "printed h = concat (map (\<lambda>(c, r). case c of MPrintf t \<Rightarrow> t | _ \<Rightarrow> []) h)"

definition reads_of :: "int \<Rightarrow> md_call hist \<Rightarrow> nat" where
  "reads_of f h = length (filter (\<lambda>(c, r). case c of MFread g n \<Rightarrow> g = f | _ \<Rightarrow> False) h)"

lemma printed_append [simp]: "printed (h @ h') = printed h @ printed h'"
  by (simp add: printed_def)

lemma printed_Cons: "printed ((c, r) # h) = (case c of MPrintf t \<Rightarrow> t | _ \<Rightarrow> []) @ printed h"
  by (simp add: printed_def)

lemma reads_of_append [simp]: "reads_of f (h @ h') = reads_of f h + reads_of f h'"
  by (simp add: reads_of_def)

text \<open>
  \<open>fread\<close> on the stream \<open>f\<close> delivers the pieces \<open>ps\<close>, each of 1 to \<open>n\<close> bytes, and then the end of the file.
\<close>

definition delivers_file :: "md_call os \<Rightarrow> int \<Rightarrow> nat \<Rightarrow> string list \<Rightarrow> bool" where
  "delivers_file os f n ps \<longleftrightarrow>
     (\<forall>h. os h (MFread f n) =
        (if reads_of f h < length ps then data_result (ps ! reads_of f h) else result 0)) \<and>
     (\<forall>p\<in>set ps. p \<noteq> [] \<and> length p \<le> n)"

lemma octets_append: "octets (a @ b) = octets a @ octets b"
  by (simp add: octets_def)

lemma context_piece:
  assumes "context_of m c" "length p < 2 ^ 32"
  shows "context_of (m @ octets p) (MD5Update c (octets p) (word_of_int (int (length p))))"
  using context_MD5Update [OF assms(1), of "octets p"] assms(2) by (simp add: octets_def)

lemma digest_stream_reads:
  assumes "delivers_file os f n ps" "n < 2 ^ 32"
  shows "reads_of f (trace s) \<le> length ps \<Longrightarrow> length ps - reads_of f (trace s) < k \<Longrightarrow> context_of m c \<Longrightarrow>
    \<exists>c' h. run_state (digest_stream os k f n c) s = (Some c', s\<lparr>trace := trace s @ h\<rparr>) \<and>
      context_of (m @ octets (concat (drop (reads_of f (trace s)) ps))) c' \<and> printed h = []"
proof (induction k arbitrary: s m c)
  case (Suc k)
  let ?j = "reads_of f (trace s)"
  have one: "reads_of f [(MFread f n, r)] = 1" "printed [(MFread f n, r)] = []" for r
    by (simp_all add: reads_of_def printed_def)
  show ?case
  proof (cases "?j < length ps")
    case True
    let ?p = "ps ! ?j"
    let ?s = "s\<lparr>trace := trace s @ [(MFread f n, data_result ?p)]\<rparr>"
    have r: "os (trace s) (MFread f n) = data_result ?p" using assms(1) True by (simp add: delivers_file_def)
    have "?p \<in> set ps" using True by simp
    then have p: "?p \<noteq> []" "length ?p < 2 ^ 32"
      using assms by (auto simp: delivers_file_def intro: le_less_trans)
    let ?c = "MD5Update c (octets ?p) (word_of_int (int (length ?p)))"
    have c: "context_of (m @ octets ?p) ?c" by (rule context_piece [OF Suc.prems(3) p(2)])
    have "length ps - Suc ?j < k" using Suc.prems(2) True by linarith
    then obtain c' h where ih: "run_state (digest_stream os k f n ?c) ?s = (Some c', ?s\<lparr>trace := trace ?s @ h\<rparr>)"
      "context_of ((m @ octets ?p) @ octets (concat (drop (Suc ?j) ps))) c'" "printed h = []"
      using Suc.IH [of ?s, OF _ _ c] Suc.prems True one by auto
    have d: "drop ?j ps = ?p # drop (Suc ?j) ps" using True by (simp add: Cons_nth_drop_Suc)
    show ?thesis
      by (rule exI [of _ c'], rule exI [of _ "(MFread f n, data_result ?p) # h"])
         (use ih p r d one in \<open>simp add: octets_append printed_def\<close>)
  next
    case False
    then have "os (trace s) (MFread f n) = result 0" using assms(1) by (simp add: delivers_file_def)
    then show ?thesis
      using False Suc.prems
      by (intro exI [of _ c] exI [of _ "[(MFread f n, result 0)]"]) (simp add: octets_def printed_def)
  qed
qed simp

lemma exec_print_all: "\<exists>h. run_state (print_all os ts) s = ((), s\<lparr>trace := trace s @ h\<rparr>) \<and> printed h = concat ts"
proof (induction ts arbitrary: s)
  case (Cons t ts)
  let ?e = "(MPrintf t, os (trace s) (MPrintf t))"
  obtain h where "run_state (print_all os ts) (s\<lparr>trace := trace s @ [?e]\<rparr>) =
      ((), s\<lparr>trace := (trace s @ [?e]) @ h\<rparr>)" "printed h = concat ts"
    using Cons [of "s\<lparr>trace := trace s @ [?e]\<rparr>"] by auto
  then show ?case by (intro exI [of _ "?e # h"]) (simp add: printed_def)
qed (intro exI [of _ "[]"], simp add: printed_def)

lemma exec_MDPrint:
  assumes "context_of m c"
  shows "\<exists>h. run_state (MDPrint os (MD5Final c)) s = ((), s\<lparr>trace := trace s @ h\<rparr>) \<and>
    printed h = concat (map hex2 (md5 m))"
  using exec_print_all [of os "map hex2 (digest (MD5Final c))" s] digest_MD5Final [OF assms]
  by (simp add: MDPrint_def)

text \<open>
  \<open>md5sum\<close> of a file prints the digest of the file's content in 32 hexadecimal digits, a space
  and the name, however \<open>fread\<close> cuts the content into pieces, and closes the file.
\<close>

lemma MDFile_prints_digest:
  assumes "os (trace s) (MFopen name) = result f" "f \<noteq> 0" "delivers_file os f 1024 ps"
    and "reads_of f (trace s) = 0" "length ps < k" "length (md_in c) = 64"
  shows "let t = exec (MDFile os k c name) s in
    printed (trace t) = printed (trace s) @ concat (map hex2 (md5 (octets (concat ps)))) @ '' '' @ name @ line_end \<and>
    last (calls t) = MFclose f"
proof -
  let ?s = "s\<lparr>trace := trace s @ [(MFopen name, result f)]\<rparr>"
  have opened: "reads_of f [(MFopen name, result f)] = 0" "printed [(MFopen name, result f)] = []"
    by (simp_all add: reads_of_def printed_def)
  obtain d h where d: "run_state (digest_stream os k f 1024 (MD5Init c)) ?s = (Some d, ?s\<lparr>trace := trace ?s @ h\<rparr>)"
    "context_of (octets (concat ps)) d" "printed h = []"
    using digest_stream_reads [OF assms(3), of ?s k "[]" "MD5Init c"] context_MD5Init [OF assms(6)] assms(4,5) opened
    by auto
  let ?t = "?s\<lparr>trace := trace ?s @ h\<rparr>"
  obtain h' where h': "run_state (MDPrint os (MD5Final d)) ?t = ((), ?t\<lparr>trace := trace ?t @ h'\<rparr>)"
    "printed h' = concat (map hex2 (md5 (octets (concat ps))))"
    using exec_MDPrint [OF d(2), of os ?t] by blast
  let ?u = "?t\<lparr>trace := trace ?t @ h'\<rparr>"
  obtain g where g: "run_state (print_all os ['' '' @ name @ line_end]) ?u = ((), ?u\<lparr>trace := trace ?u @ g\<rparr>)"
    "printed g = '' '' @ name @ line_end"
    using exec_print_all [of os "['' '' @ name @ line_end]" ?u] by auto
  have close: "printed [(MFclose f, r)] = []" for r by (simp add: printed_def)
  show ?thesis
    using assms(1,2) d h' g opened close
    by (simp add: MDFile_def print_stream_def Let_def printed_Cons)
qed

definition abc_file :: "md_call os" where
  "abc_file h c = (case c of MFopen _ \<Rightarrow> result 3
     | MFread f n \<Rightarrow> (if f = 3 \<and> n = 1024
         then if reads_of 3 h < 2 then data_result ([''ab'', ''c''] ! reads_of 3 h) else result 0 else result 0)
     | _ \<Rightarrow> result 0)"

lemma MDFile_prints_digest_witness:
  "printed (trace (exec (MDFile abc_file 3 stack_garbage ''f'') \<lparr>trace = [], fault = False\<rparr>)) =
   concat (map hex2 (md5 (octets ''abc''))) @ '' f'' @ line_end"
proof -
  have "delivers_file abc_file 3 1024 [''ab'', ''c'']"
    by (simp add: delivers_file_def abc_file_def)
  then show ?thesis
    using MDFile_prints_digest [of abc_file "\<lparr>trace = [], fault = False\<rparr>" "''f''" 3 "[''ab'', ''c'']" 3 stack_garbage]
    by (simp add: abc_file_def stack_garbage_def reads_of_def printed_def Let_def)
qed

end
