(* ===== verification/Cp.thy ===== *)
theory Cp
  imports Prelude
begin

text \<open>
  The command \<open>cp\<close> (\<open>src/motobox/cp.c\<close>).

  \<^item> A path (\<open>PATH_T\<close>) is the text in its array, up to the first NUL, and the index \<open>p_end\<close> that the pointer of
    the source has. The byte before the start of the array (\<open>p_end[-1]\<close> of an empty path) is undefined behaviour.
  \<^item> An environment answers the system calls. A \<open>stat\<close> structure and the result of \<open>scandir\<close> are named by the number
    in \<open>ret_aux\<close> of the answer and looked up in the environment.
  \<^item> \<open>copy\<close> and \<open>copy_dir\<close> call each other; the number given to \<open>copy\<close> bounds the depth, and the flag \<open>too_deep\<close> tells
    that it was not enough. The loop over the bytes of a file is bounded by \<open>rounds\<close>; the flag \<open>endless\<close> tells that there
    was more to read.
  Messages to the standard error stream are not part of the model.
\<close>

unbundle bit_operations_syntax

section \<open>Types\<close>

record PATH_T =
  p_path :: string
  p_end :: nat

type_synonym mode_t = "32 word"

record stat =
  st_dev :: int
  st_ino :: int
  st_mode :: mode_t
  st_uid :: int
  st_gid :: int
  st_rdev :: int
  st_atime :: int
  st_mtime :: int

datatype cp_call =
    Stat string | Lstat string | Fstat int | Mkdir string mode_t | Chmod string mode_t
  | Open_r string | Open_trunc string | Open_creat string mode_t | Read int int | Write int string | Close int
  | Getchar | Scandir string | Readlink string nat | Unlink string | Symlink string string | Mkfifo string mode_t
  | Mknod string mode_t int | Utimes string int int | Fchown int int int | Chown string int int | Fchmod int mode_t
  | Getuid | Umask int | Isatty int

record cp_env =
  sys :: "cp_call os"
  stat_at :: "int \<Rightarrow> stat"
  names_at :: "int \<Rightarrow> string list"
  rounds :: nat

record cp_state = "cp_call io_state" +
  from_path :: PATH_T
  to_path :: PATH_T
  myuid :: int
  myumask :: int
  exit_val :: int
  iflag :: bool
  pflag :: bool
  orflag :: bool
  rflag :: bool
  follow :: bool
  too_deep :: bool
  endless :: bool

type_synonym 'a cp = "(cp_state, 'a) state"

abbreviation "MAXPATHLEN \<equiv> 4096 :: nat"
abbreviation "MAXBSIZE \<equiv> 65536 :: int"
abbreviation "S_IFMT \<equiv> 0xF000 :: mode_t"
abbreviation "S_IFLNK \<equiv> 0xA000 :: mode_t"
abbreviation "S_IFDIR \<equiv> 0x4000 :: mode_t"
abbreviation "S_IFCHR \<equiv> 0x2000 :: mode_t"
abbreviation "S_IFBLK \<equiv> 0x6000 :: mode_t"
abbreviation "S_IFIFO \<equiv> 0x1000 :: mode_t"
abbreviation "S_ISUID \<equiv> 0x800 :: mode_t"
abbreviation "S_ISGID \<equiv> 0x400 :: mode_t"
abbreviation "S_ISVTX \<equiv> 0x200 :: mode_t"
abbreviation "S_IRWXU \<equiv> 0x1C0 :: mode_t"
abbreviation "S_IRWXG \<equiv> 0x38 :: mode_t"
abbreviation "S_IRWXO \<equiv> 0x7 :: mode_t"
abbreviation "S_IRWX \<equiv> S_IRWXU OR S_IRWXG OR S_IRWXO"
abbreviation "RETAINBITS \<equiv> S_ISUID OR S_ISGID OR S_ISVTX OR S_IRWX"
abbreviation "ENOENT \<equiv> 2 :: int"
abbreviation "EPERM \<equiv> 1 :: int"

definition S_ISDIR :: "mode_t \<Rightarrow> bool" where
  "S_ISDIR m \<longleftrightarrow> m AND S_IFMT = S_IFDIR"

section \<open>Paths\<close>

primrec strip_to :: "nat \<Rightarrow> string \<Rightarrow> nat" where
  "strip_to 0 s = 0"
| "strip_to (Suc n) s = (if s ! n = CHR ''/'' then strip_to n s else Suc n)"

definition STRIP_TRAILING_SLASH :: "PATH_T \<Rightarrow> PATH_T" where
  "STRIP_TRAILING_SLASH p = (let e = strip_to (p_end p) (p_path p) in \<lparr>p_path = take e (p_path p), p_end = e\<rparr>)"

text \<open>The result 0 of the source is \<open>None\<close>.\<close>

definition path_set :: "string \<Rightarrow> PATH_T option" where
  "path_set string =
     (if length string > MAXPATHLEN then None
      else let p = \<lparr>p_path = string, p_end = length string\<rparr>;
               p = (if p_end p = 0 then \<lparr>p_path = ''.'', p_end = 1\<rparr> else p) in
        Some (STRIP_TRAILING_SLASH p))"

text \<open>The old end and the new path.\<close>

definition path_append :: "PATH_T \<Rightarrow> string \<Rightarrow> int \<Rightarrow> (nat \<times> PATH_T) option" where
  "path_append p nm len =
     (let old = p_end p;
          len = (if len = -1 then length nm else nat len) in
      if len + p_end p + 1 > MAXPATHLEN then None
      else
        let p = (if p_end p = 0 \<or> p_path p ! (p_end p - 1) \<noteq> CHR ''/''
                 then \<lparr>p_path = take (p_end p) (p_path p) @ ''/'', p_end = p_end p + 1\<rparr> else p);
            p = \<lparr>p_path = p_path p @ take len nm, p_end = p_end p + len\<rparr>;
            p = p\<lparr>p_path := take (p_end p) (p_path p)\<rparr> in
        Some (old, STRIP_TRAILING_SLASH p))"

definition path_restore :: "PATH_T \<Rightarrow> nat \<Rightarrow> PATH_T" where
  "path_restore p old = \<lparr>p_path = take old (p_path p), p_end = old\<rparr>"

definition path_basename :: "PATH_T \<Rightarrow> string" where
  "path_basename p = rev (takeWhile (\<lambda>c. c \<noteq> CHR ''/'') (rev (p_path p)))"

text \<open>The operations on the two paths of the program.\<close>

definition append_from :: "string \<Rightarrow> int \<Rightarrow> nat option cp" where
  "append_from nm len = do {
     p \<leftarrow> gets from_path;
     case path_append p nm len of
       None \<Rightarrow> return None
     | Some (old, p') \<Rightarrow> do {
         whenM (p_end p = 0) undefined_behaviour;
         modify (\<lambda>s. s\<lparr>from_path := p'\<rparr>);
         return (Some old)
       }
   }"

definition append_to :: "string \<Rightarrow> int \<Rightarrow> nat option cp" where
  "append_to nm len = do {
     p \<leftarrow> gets to_path;
     case path_append p nm len of
       None \<Rightarrow> return None
     | Some (old, p') \<Rightarrow> do {
         whenM (p_end p = 0) undefined_behaviour;
         modify (\<lambda>s. s\<lparr>to_path := p'\<rparr>);
         return (Some old)
       }
   }"

definition restore_from :: "nat \<Rightarrow> unit cp" where
  "restore_from old = modify (\<lambda>s. s\<lparr>from_path := path_restore (from_path s) old\<rparr>)"

definition restore_to :: "nat \<Rightarrow> unit cp" where
  "restore_to old = modify (\<lambda>s. s\<lparr>to_path := path_restore (to_path s) old\<rparr>)"

section \<open>Copying one object\<close>

definition err :: "unit cp" where
  "err = modify (\<lambda>s. s\<lparr>exit_val := 1\<rparr>)"

abbreviation from_text :: "string cp" where
  "from_text \<equiv> gets (\<lambda>s. p_path (from_path s))"

abbreviation to_text :: "string cp" where
  "to_text \<equiv> gets (\<lambda>s. p_path (to_path s))"

text \<open>\<open>chown\<close> and \<open>chmod\<close> go through the descriptor when there is one.\<close>

definition setfile :: "cp_env \<Rightarrow> stat \<Rightarrow> int \<Rightarrow> unit cp" where
  "setfile E fs fd = do {
     let mode = st_mode fs AND (S_ISUID OR S_ISGID OR S_IRWX);
     path \<leftarrow> to_text;
     u \<leftarrow> syscall (sys E) (Utimes path (st_atime fs) (st_mtime fs));
     whenM (ret_val u \<noteq> 0) err;
     c \<leftarrow> syscall (sys E) (if fd \<noteq> 0 then Fchown fd (st_uid fs) (st_gid fs) else Chown path (st_uid fs) (st_gid fs));
     whenM (ret_val c \<noteq> 0 \<and> ret_errno c \<noteq> EPERM) err;
     let mode = (if ret_val c \<noteq> 0 then mode AND NOT (S_ISUID OR S_ISGID) else mode);
     m \<leftarrow> syscall (sys E) (if fd \<noteq> 0 then Fchmod fd mode else Chmod path mode);
     whenM (ret_val m \<noteq> 0) err
   }"

text \<open>The rest of a line of input, up to the newline or the end (-1).\<close>

primrec skip_line :: "cp_env \<Rightarrow> nat \<Rightarrow> int \<Rightarrow> unit cp" where
  "skip_line E 0 ch = modify (\<lambda>s. s\<lparr>endless := True\<rparr>)"
| "skip_line E (Suc k) ch =
     (if ch \<noteq> 10 \<and> ch \<noteq> -1 then do { c \<leftarrow> syscall (sys E) Getchar; skip_line E k (ret_val c) } else return ())"

definition confirmed :: "cp_env \<Rightarrow> bool cp" where
  "confirmed E = do {
     c \<leftarrow> syscall (sys E) Getchar;
     skip_line E (rounds E) (ret_val c);
     return (ret_val c = of_char CHR ''y'' \<or> ret_val c = of_char CHR ''Y'')
   }"

text \<open>The last value of \<open>rcount\<close>.\<close>

primrec copy_bytes :: "cp_env \<Rightarrow> nat \<Rightarrow> int \<Rightarrow> int \<Rightarrow> int cp" where
  "copy_bytes E 0 from_fd to_fd = do { modify (\<lambda>s. s\<lparr>endless := True\<rparr>); return 0 }"
| "copy_bytes E (Suc k) from_fd to_fd = do {
     r \<leftarrow> syscall (sys E) (Read from_fd MAXBSIZE);
     if ret_val r > 0 then do {
       w \<leftarrow> syscall (sys E) (Write to_fd (take (nat (ret_val r)) (ret_data r)));
       if ret_val r \<noteq> ret_val w \<or> ret_val w = -1 then do { err; return (ret_val r) }
       else copy_bytes E k from_fd to_fd
     } else return (ret_val r)
   }"

definition keep_set_id :: "cp_env \<Rightarrow> stat \<Rightarrow> int \<Rightarrow> unit cp" where
  "keep_set_id E fs to_fd = do {
     uid \<leftarrow> gets myuid;
     whenM (st_mode fs AND (S_ISUID OR S_ISGID) \<noteq> 0 \<and> st_uid fs = uid) (do {
       t \<leftarrow> syscall (sys E) (Fstat to_fd);
       if ret_val t \<noteq> 0 then err
       else if st_gid fs = st_gid (stat_at E (ret_aux t)) then do {
         mask \<leftarrow> gets myumask;
         c \<leftarrow> syscall (sys E) (Fchmod to_fd (st_mode fs AND RETAINBITS AND NOT (word_of_int mask)));
         whenM (ret_val c \<noteq> 0) err
       } else return ()
     })
   }"

definition open_target :: "cp_env \<Rightarrow> stat \<Rightarrow> bool \<Rightarrow> int option cp" where
  "open_target E fs dne = do {
     path \<leftarrow> to_text;
     if \<not> dne then do {
       ask \<leftarrow> gets iflag;
       ok \<leftarrow> (if ask then confirmed E else return True);
       if \<not> ok then return None
       else do { f \<leftarrow> syscall (sys E) (Open_trunc path); return (Some (ret_val f)) }
     } else do {
       f \<leftarrow> syscall (sys E) (Open_creat path (st_mode fs AND NOT (S_ISUID OR S_ISGID)));
       return (Some (ret_val f))
     }
   }"

definition finish_file :: "cp_env \<Rightarrow> stat \<Rightarrow> int \<Rightarrow> int \<Rightarrow> unit cp" where
  "finish_file E fs from_fd to_fd = do {
     preserve \<leftarrow> gets pflag;
     (if preserve then setfile E fs to_fd else keep_set_id E fs to_fd);
     syscall (sys E) (Close from_fd);
     c \<leftarrow> syscall (sys E) (Close to_fd);
     whenM (ret_val c \<noteq> 0) err
   }"

definition copy_data :: "cp_env \<Rightarrow> stat \<Rightarrow> int \<Rightarrow> int \<Rightarrow> unit cp" where
  "copy_data E fs from_fd to_fd = do {
     rcount \<leftarrow> copy_bytes E (rounds E) from_fd to_fd;
     whenM (rcount < 0) err;
     finish_file E fs from_fd to_fd
   }"

definition copy_file :: "cp_env \<Rightarrow> stat \<Rightarrow> bool \<Rightarrow> unit cp" where
  "copy_file E fs dne = do {
     path \<leftarrow> from_text;
     f \<leftarrow> syscall (sys E) (Open_r path);
     let from_fd = ret_val f;
     if from_fd = -1 then err
     else do {
       t \<leftarrow> open_target E fs dne;
       case t of
         None \<Rightarrow> do { syscall (sys E) (Close from_fd); return () }
       | Some to_fd \<Rightarrow>
           if to_fd = -1 then do { err; syscall (sys E) (Close from_fd); return () }
           else copy_data E fs from_fd to_fd
     }
   }"

text \<open>\<open>link[len] = 0\<close> is behind the array when the text of the link fills it.\<close>

definition copy_link :: "cp_env \<Rightarrow> bool \<Rightarrow> unit cp" where
  "copy_link E exists = do {
     path \<leftarrow> from_text;
     target \<leftarrow> to_text;
     l \<leftarrow> syscall (sys E) (Readlink path MAXPATHLEN);
     if ret_val l = -1 then err
     else do {
       whenM (ret_val l \<ge> int MAXPATHLEN) undefined_behaviour;
       u \<leftarrow> (if exists then syscall (sys E) (Unlink target) else return (result 0));
       if ret_val u \<noteq> 0 then err
       else do {
         s \<leftarrow> syscall (sys E) (Symlink (cstr (take (nat (ret_val l)) (ret_data l))) target);
         whenM (ret_val s \<noteq> 0) err
       }
     }
   }"

definition copy_node :: "cp_env \<Rightarrow> (string \<Rightarrow> cp_call) \<Rightarrow> stat \<Rightarrow> bool \<Rightarrow> unit cp" where
  "copy_node E mk from_stat exists = do {
     target \<leftarrow> to_text;
     u \<leftarrow> (if exists then syscall (sys E) (Unlink target) else return (result 0));
     if ret_val u \<noteq> 0 then err
     else do {
       m \<leftarrow> syscall (sys E) (mk target);
       if ret_val m \<noteq> 0 then err
       else do {
         preserve \<leftarrow> gets pflag;
         whenM preserve (setfile E from_stat 0)
       }
     }
   }"

definition copy_fifo :: "cp_env \<Rightarrow> stat \<Rightarrow> bool \<Rightarrow> unit cp" where
  "copy_fifo E from_stat exists = copy_node E (\<lambda>p. Mkfifo p (st_mode from_stat)) from_stat exists"

definition copy_special :: "cp_env \<Rightarrow> stat \<Rightarrow> bool \<Rightarrow> unit cp" where
  "copy_special E from_stat exists = copy_node E (\<lambda>p. Mknod p (st_mode from_stat) (st_rdev from_stat)) from_stat exists"

section \<open>Copying trees\<close>

definition statfcn :: "cp_env \<Rightarrow> ret cp" where
  "statfcn E = do {
     path \<leftarrow> from_text;
     f \<leftarrow> gets follow;
     syscall (sys E) (if f then Stat path else Lstat path)
   }"

definition dot_entry :: "string \<Rightarrow> bool" where
  "dot_entry d \<longleftrightarrow> length d \<le> 2 \<and> d \<noteq> [] \<and> d ! 0 = CHR ''.'' \<and> (length d = 1 \<or> d ! 1 = CHR ''.'')"

text \<open>One entry of the first loop; the result tells that the entry stays in the list, as a directory.\<close>

definition copy_entry :: "cp_env \<Rightarrow> unit cp \<Rightarrow> string \<Rightarrow> bool cp" where
  "copy_entry E rec d =
     (if dot_entry d then return False
      else do {
        old_from \<leftarrow> append_from d (int (length d));
        case old_from of
          None \<Rightarrow> return False
        | Some of' \<Rightarrow> do {
            r \<leftarrow> statfcn E;
            if ret_val r < 0 then do { err; restore_from of'; return False }
            else if S_ISDIR (st_mode (stat_at E (ret_aux r))) then do { restore_from of'; return True }
            else do {
              old_to \<leftarrow> append_to d (int (length d));
              (case old_to of None \<Rightarrow> return () | Some ot \<Rightarrow> do { rec; restore_to ot });
              restore_from of';
              return False
            }
          }
      })"

primrec copy_files :: "cp_env \<Rightarrow> unit cp \<Rightarrow> string list \<Rightarrow> string list cp" where
  "copy_files E rec [] = return []"
| "copy_files E rec (d # ds) = do {
     stays \<leftarrow> copy_entry E rec d;
     rest \<leftarrow> copy_files E rec ds;
     return (if stays then d # rest else rest)
   }"

definition copy_subdir :: "unit cp \<Rightarrow> string \<Rightarrow> unit cp" where
  "copy_subdir rec d = do {
     old_from \<leftarrow> append_from d (int (length d));
     case old_from of
       None \<Rightarrow> return ()
     | Some of' \<Rightarrow> do {
         old_to \<leftarrow> append_to d (int (length d));
         case old_to of
           None \<Rightarrow> restore_from of'
         | Some ot \<Rightarrow> do { rec; restore_from of'; restore_to ot }
       }
   }"

primrec copy_subdirs :: "unit cp \<Rightarrow> string list \<Rightarrow> unit cp" where
  "copy_subdirs rec [] = return ()"
| "copy_subdirs rec (d # ds) = do { copy_subdir rec d; copy_subdirs rec ds }"

text \<open>After a failed \<open>scandir\<close> the source frees a pointer that was never set.\<close>

definition copy_dir :: "cp_env \<Rightarrow> unit cp \<Rightarrow> unit cp" where
  "copy_dir E rec = do {
     path \<leftarrow> from_text;
     r \<leftarrow> syscall (sys E) (Scandir path);
     if ret_val r = -1 then do { modify (\<lambda>s. s\<lparr>exit_val := 1\<rparr>); undefined_behaviour }
     else do {
       dirs \<leftarrow> copy_files E rec (names_at E (ret_aux r));
       copy_subdirs rec dirs
     }
   }"

definition copy_directory :: "cp_env \<Rightarrow> unit cp \<Rightarrow> stat \<Rightarrow> stat \<Rightarrow> bool \<Rightarrow> unit cp" where
  "copy_directory E rec from_stat to_stat dne = do {
     path \<leftarrow> to_text;
     recursive \<leftarrow> gets (\<lambda>s. rflag s \<or> orflag s);
     if \<not> recursive then modify (\<lambda>s. s\<lparr>exit_val := 1\<rparr>)
     else do {
       m \<leftarrow> (if dne then syscall (sys E) (Mkdir path (st_mode from_stat OR S_IRWXU)) else return (result 0));
       if ret_val m < 0 then err
       else if \<not> dne \<and> \<not> S_ISDIR (st_mode to_stat) then return ()
       else do {
         copy_dir E rec;
         preserve \<leftarrow> gets pflag;
         if preserve then setfile E from_stat 0
         else if dne then do { path \<leftarrow> to_text; syscall (sys E) (Chmod path (st_mode from_stat)); return () }
         else return ()
       }
     }
   }"

text \<open>The switch on the type of the file; \<open>exists\<close> is \<open>!dne\<close>.\<close>

definition copy_object :: "cp_env \<Rightarrow> unit cp \<Rightarrow> stat \<Rightarrow> stat \<Rightarrow> bool \<Rightarrow> unit cp" where
  "copy_object E rec from_stat to_stat dne = do {
     let kind = st_mode from_stat AND S_IFMT;
     R \<leftarrow> gets rflag;
     if kind = S_IFLNK then copy_link E (\<not> dne)
     else if kind = S_IFDIR then copy_directory E rec from_stat to_stat dne
     else if (kind = S_IFCHR \<or> kind = S_IFBLK) \<and> R then copy_special E from_stat (\<not> dne)
     else if kind = S_IFIFO \<and> R then copy_fifo E from_stat (\<not> dne)
     else copy_file E from_stat dne
   }"

definition copy_body :: "cp_env \<Rightarrow> unit cp \<Rightarrow> unit cp" where
  "copy_body E rec = do {
     f \<leftarrow> statfcn E;
     if ret_val f = -1 then err
     else do {
       path \<leftarrow> to_text;
       t \<leftarrow> syscall (sys E) (Stat path);
       let from_stat = stat_at E (ret_aux f);
       let to_stat = stat_at E (ret_aux t);
       if ret_val t = -1 then copy_object E rec from_stat to_stat True
       else if st_dev to_stat = st_dev from_stat \<and> st_ino to_stat = st_ino from_stat
         then modify (\<lambda>s. s\<lparr>exit_val := 1\<rparr>)
       else if \<not> S_ISDIR (st_mode from_stat) \<and> S_ISDIR (st_mode to_stat) then modify (\<lambda>s. s\<lparr>exit_val := 1\<rparr>)
       else copy_object E rec from_stat to_stat False
     }
   }"

primrec copy :: "cp_env \<Rightarrow> nat \<Rightarrow> unit cp" where
  "copy E 0 = modify (\<lambda>s. s\<lparr>too_deep := True\<rparr>)"
| "copy E (Suc n) = copy_body E (copy E n)"

section \<open>The program\<close>

text \<open>\<open>None\<close>: an unknown option, after which \<open>usage\<close> ends the program. The letters of one word.\<close>

fun option_letters :: "cp_env \<Rightarrow> string \<Rightarrow> bool \<Rightarrow> bool option cp" where
  "option_letters E [] symfollow = return (Some symfollow)"
| "option_letters E (c # cs) symfollow =
     (if c = CHR ''f'' then do { modify (\<lambda>s. s\<lparr>iflag := False\<rparr>); option_letters E cs symfollow }
      else if c = CHR ''h'' then option_letters E cs True
      else if c = CHR ''i'' then do {
        t \<leftarrow> syscall (sys E) (Isatty 0);
        modify (\<lambda>s. s\<lparr>iflag := (ret_val t \<noteq> 0)\<rparr>);
        option_letters E cs symfollow
      }
      else if c = CHR ''p'' then do { modify (\<lambda>s. s\<lparr>pflag := True\<rparr>); option_letters E cs symfollow }
      else if c = CHR ''R'' then do { modify (\<lambda>s. s\<lparr>rflag := True\<rparr>); option_letters E cs symfollow }
      else if c = CHR ''r'' then do { modify (\<lambda>s. s\<lparr>orflag := True\<rparr>); option_letters E cs symfollow }
      else return None)"

text \<open>\<open>getopt\<close> up to the first word that is no option; the words that are left.\<close>

fun options :: "cp_env \<Rightarrow> string list \<Rightarrow> bool \<Rightarrow> (bool \<times> string list) option cp" where
  "options E [] symfollow = return (Some (symfollow, []))"
| "options E (w # ws) symfollow =
     (if w = ''--'' then return (Some (symfollow, ws))
      else if length w \<ge> 2 \<and> hd w = CHR ''-'' then do {
        r \<leftarrow> option_letters E (tl w) symfollow;
        case r of None \<Rightarrow> return None | Some f \<Rightarrow> options E ws f
      }
      else return (Some (symfollow, w # ws)))"

text \<open>
  The loop over the sources of case (2). A source that is skipped is not counted, so that the loop goes on
  behind the sources: to the target, and then to the null pointer at the end of the vector.
\<close>

fun copy_sources :: "cp_env \<Rightarrow> nat \<Rightarrow> string list \<Rightarrow> nat \<Rightarrow> unit cp" where
  "copy_sources E n [] argc = undefined_behaviour"
| "copy_sources E n (w # ws) argc =
     (case path_set w of
        None \<Rightarrow> copy_sources E n ws argc
      | Some p \<Rightarrow> do {
          modify (\<lambda>s. s\<lparr>from_path := p\<rparr>);
          old_to \<leftarrow> append_to (path_basename p) (-1);
          case old_to of
            None \<Rightarrow> copy_sources E n ws argc
          | Some ot \<Rightarrow> do {
              copy E n;
              if argc = 1 then return ()
              else do { restore_to ot; copy_sources E n ws (argc - 1) }
            }
        })"

definition cp_copy_all :: "cp_env \<Rightarrow> nat \<Rightarrow> string list \<Rightarrow> int cp" where
  "cp_copy_all E n argv = do {
     let argc = length argv - 1;
     path \<leftarrow> to_text;
     r \<leftarrow> syscall (sys E) (Stat path);
     if ret_val r = -1 \<and> ret_errno r \<noteq> ENOENT then return 1
     else if ret_val r = -1 \<or> \<not> S_ISDIR (st_mode (stat_at E (ret_aux r))) then
       (if argc > 1 then return 1
        else case path_set (hd argv) of
            None \<Rightarrow> return 1
          | Some p \<Rightarrow> do { modify (\<lambda>s. s\<lparr>from_path := p\<rparr>); copy E n; gets exit_val })
     else do { copy_sources E n argv argc; gets exit_val }
   }"

definition cp_main :: "cp_env \<Rightarrow> nat \<Rightarrow> string list \<Rightarrow> int cp" where
  "cp_main E n args = do {
     opt \<leftarrow> options E (tl args) False;
     case opt of
       None \<Rightarrow> return 1
     | Some (symfollow, argv) \<Rightarrow>
         if length argv < 2 then return 1
         else do {
           exclusive \<leftarrow> gets (\<lambda>s. rflag s \<and> orflag s);
           if exclusive then return 1
           else do {
             u \<leftarrow> syscall (sys E) Getuid;
             m \<leftarrow> syscall (sys E) (Umask 0);
             syscall (sys E) (Umask (ret_val m));
             modify (\<lambda>s. s\<lparr>myuid := ret_val u, myumask := ret_val m\<rparr>);
             case path_set (last argv) of
               None \<Rightarrow> return 1
             | Some p \<Rightarrow> do {
                 modify (\<lambda>s. s\<lparr>to_path := p, follow := (symfollow \<or> \<not> rflag s)\<rparr>);
                 cp_copy_all E n argv
               }
           }
         }
   }"

end
