(* ===== verification/Cp_Theorems.thy ===== *)
theory Cp_Theorems
  imports Cp
begin

text \<open>
  Properties of \<open>cp\<close>: its paths are well formed and restored, the recursion ends, the contents of a file arrive, and
  privileges are not handed on. The locale \<open>copy_inv\<close> says what a property of the state needs in order to hold through the
  copy of a whole tree; it is interpreted for the paths alone and for memory safety with the bounded depth.
\<close>

section \<open>Paths are well formed\<close>

definition path_ok :: "PATH_T \<Rightarrow> bool" where
  "path_ok p \<longleftrightarrow> p_end p = length (p_path p) \<and> p_end p \<le> MAXPATHLEN \<and> p_path p \<noteq> [] \<and> last (p_path p) \<noteq> CHR ''/''"

lemma strip_to_le: "strip_to n s \<le> n"
  by (induction n) auto

lemma strip_to_ge: "0 < e \<Longrightarrow> e \<le> n \<Longrightarrow> s ! (e - 1) \<noteq> CHR ''/'' \<Longrightarrow> e \<le> strip_to n s"
proof (induction n)
  case (Suc n)
  then show ?case by (cases "e = Suc n") auto
qed simp

lemma strip_to_char: "0 < strip_to n s \<Longrightarrow> s ! (strip_to n s - 1) \<noteq> CHR ''/''"
  by (induction n) auto

lemma strip_ok:
  assumes "p_end p = length (p_path p)" "p_end p \<le> MAXPATHLEN" "0 < e" "e \<le> p_end p" "p_path p ! (e - 1) \<noteq> CHR ''/''"
  shows "path_ok (STRIP_TRAILING_SLASH p)" "take e (p_path (STRIP_TRAILING_SLASH p)) = take e (p_path p)"
proof -
  let ?n = "strip_to (p_end p) (p_path p)"
  have le: "?n \<le> p_end p" by (rule strip_to_le)
  have ge: "e \<le> ?n" by (rule strip_to_ge [OF assms(3-5)])
  then have pos: "0 < ?n" using assms(3) by simp
  have "last (take ?n (p_path p)) = p_path p ! (?n - 1)"
    using pos le assms(1) by (subst last_conv_nth) (auto simp: min_def)
  then show "path_ok (STRIP_TRAILING_SLASH p)"
    using pos le assms(1,2) strip_to_char [OF pos] by (auto simp: path_ok_def STRIP_TRAILING_SLASH_def Let_def)
  show "take e (p_path (STRIP_TRAILING_SLASH p)) = take e (p_path p)"
    using ge by (simp add: STRIP_TRAILING_SLASH_def Let_def min_def)
qed

lemma strip_id: "p_end p = length (p_path p) \<Longrightarrow> p_path p \<noteq> [] \<Longrightarrow> last (p_path p) \<noteq> CHR ''/'' \<Longrightarrow> STRIP_TRAILING_SLASH p = p"
  by (cases "length (p_path p)") (auto simp: STRIP_TRAILING_SLASH_def Let_def last_conv_nth)


lemma path_append_some:
  assumes "path_ok p" "path_append p nm len = Some (old, p')" "len = -1 \<or> len = int (length nm)"
  shows "old = p_end p" "path_ok p'" "path_restore p' old = p"
    and "nm \<noteq> [] \<Longrightarrow> last nm \<noteq> CHR ''/'' \<Longrightarrow> p_path p' = p_path p @ ''/'' @ nm"
proof -
  let ?q = "\<lparr>p_path = p_path p @ ''/'' @ nm, p_end = p_end p + 1 + length nm\<rparr>"
  have q: "(if len = -1 then length nm else nat len) = length nm" using assms(3) by auto
  have last: "p_path p ! (p_end p - 1) \<noteq> CHR ''/''" "0 < p_end p"
    using assms(1) by (auto simp: path_ok_def last_conv_nth)
  have p': "old = p_end p \<and> p' = STRIP_TRAILING_SLASH ?q \<and> length nm + p_end p + 1 \<le> MAXPATHLEN"
    using assms(1,2) last by (auto simp: path_append_def q Let_def path_ok_def split: if_splits)
  then show "old = p_end p" ..
  have len: "p_end p = length (p_path p)" using assms(1) by (simp add: path_ok_def)
  have strip: "path_ok (STRIP_TRAILING_SLASH ?q) \<and> take (p_end p) (p_path (STRIP_TRAILING_SLASH ?q)) = take (p_end p) (p_path ?q)"
    using strip_ok [of ?q "p_end p"] p' last len by (auto simp: nth_append)
  then show "path_ok p'" using p' by simp
  show "path_restore p' old = p" using p' strip len by (simp add: path_restore_def)
  show "p_path p' = p_path p @ ''/'' @ nm" if "nm \<noteq> []" "last nm \<noteq> CHR ''/''"
    using p' len that strip_id [of ?q] by simp
qed

section \<open>What holds through a whole copy\<close>

text \<open>
  An invariant \<open>I\<close> of the state that does not look at the paths, the history and the exit value, and
  a budget for the depth that shrinks with the path.
\<close>

locale copy_inv =
  fixes E :: cp_env and I :: "cp_state \<Rightarrow> bool" and budget :: "nat \<Rightarrow> PATH_T \<Rightarrow> bool"
  assumes unobserved: "I (s\<lparr>from_path := p\<rparr>) = I s" "I (s\<lparr>to_path := p\<rparr>) = I s" "I (s\<lparr>trace := h\<rparr>) = I s"
      "I (s\<lparr>exit_val := v\<rparr>) = I s" "I (s\<lparr>endless := b\<rparr>) = I s"
    and long_link: "int MAXPATHLEN \<le> ret_val (sys E h (Readlink q MAXPATHLEN)) \<Longrightarrow> I s \<Longrightarrow> I (s\<lparr>fault := True\<rparr>)"
    and unreadable: "ret_val (sys E h (Scandir q)) = -1 \<Longrightarrow> I s \<Longrightarrow> I (s\<lparr>fault := True\<rparr>)"
    and no_budget: "budget 0 p \<Longrightarrow> path_ok p \<Longrightarrow> I s \<Longrightarrow> I (s\<lparr>too_deep := True\<rparr>)"
    and spend: "budget (Suc n) p \<Longrightarrow> path_ok p \<Longrightarrow> d \<in> set (names_at E i) \<Longrightarrow>
      path_append p d (int (length d)) = Some (old, p') \<Longrightarrow> budget n p'"
begin

definition at :: "PATH_T \<Rightarrow> PATH_T \<Rightarrow> cp_state \<Rightarrow> bool" where
  "at F T s \<longleftrightarrow> I s \<and> from_path s = F \<and> to_path s = T"

lemma at_call: "keeps (at F T) (syscall os c)"
  by (simp add: valid_def at_def unobserved)

lemma at_err: "keeps (at F T) err"
  by (simp add: valid_def at_def unobserved err_def)

lemma at_exit: "keeps (at F T) (modify (\<lambda>s. s\<lparr>exit_val := v\<rparr>))"
  by (simp add: valid_def at_def unobserved)

lemma at_endless: "keeps (at F T) (modify (\<lambda>s. s\<lparr>endless := b\<rparr>))"
  by (simp add: valid_def at_def unobserved)

lemmas at_rules = wp_rules at_call at_err at_exit at_endless

lemma at_setfile: "keeps (at F T) (setfile E fs fd)"
  unfolding setfile_def Let_def by (intro at_rules)

lemma at_skip_line: "keeps (at F T) (skip_line E k ch)"
  by (induction k arbitrary: ch) (auto intro!: at_rules)

lemma at_copy_bytes: "keeps (at F T) (copy_bytes E k a b)"
  by (induction k) (auto intro!: at_rules)

lemma at_copy_file: "keeps (at F T) (copy_file E fs dne)"
  unfolding copy_file_def copy_data_def finish_file_def open_target_def confirmed_def keep_set_id_def Let_def
  by (intro at_rules at_setfile at_skip_line at_copy_bytes)

lemma at_copy_node: "keeps (at F T) (copy_node E mk fs ex)"
  unfolding copy_node_def by (intro at_rules at_setfile)

lemma at_copy_link: "keeps (at F T) (copy_link E ex)"
proof -
  have ub: "keeps (at F T) (whenM (int MAXPATHLEN \<le> ret_val (sys E h (Readlink q MAXPATHLEN))) undefined_behaviour)" for h q
    using long_link by (auto simp: valid_def at_def)
  show ?thesis
    unfolding copy_link_def
    by (rule keeps_bind, rule keeps_gets, rule keeps_bind, rule keeps_gets, rule valid_call_bind [OF at_call])
      (intro at_rules ub)
qed

lemma at_statfcn: "keeps (at F T) (statfcn E)"
  unfolding statfcn_def by (intro at_rules)

text \<open>The paths grow and shrink.\<close>

lemma bind_append_from:
  assumes "path_ok F" "valid (at F T) (g None) Q"
    and "\<And>old F'. path_append F d (int (length d)) = Some (old, F') \<Longrightarrow> valid (at F' T) (g (Some old)) Q"
  shows "valid (at F T) (append_from d (int (length d)) \<bind> g) Q"
  using assms
  by (cases "path_append F d (int (length d))") (auto simp: valid_def at_def append_from_def path_ok_def unobserved)

lemma bind_append_to:
  assumes "path_ok T" "valid (at F T) (g None) Q"
    and "\<And>old T'. path_append T d (int (length d)) = Some (old, T') \<Longrightarrow> valid (at F T') (g (Some old)) Q"
  shows "valid (at F T) (append_to d (int (length d)) \<bind> g) Q"
  using assms
  by (cases "path_append T d (int (length d))") (auto simp: valid_def at_def append_to_def path_ok_def unobserved)

lemma at_restore_from: "path_restore F' old = F \<Longrightarrow> valid (at F' T) (restore_from old) (\<lambda>_. at F T)"
  by (auto simp: valid_def at_def restore_from_def unobserved)

lemma at_restore_to: "path_restore T' old = T \<Longrightarrow> valid (at F T') (restore_to old) (\<lambda>_. at F T)"
  by (auto simp: valid_def at_def restore_to_def unobserved)

lemma at_copy_entry:
  assumes rec: "\<And>F T. path_ok F \<Longrightarrow> path_ok T \<Longrightarrow> budget n F \<Longrightarrow> keeps (at F T) rec"
    and F: "path_ok F" "budget (Suc n) F" and T: "path_ok T" and d: "d \<in> set (names_at E i)"
  shows "keeps (at F T) (copy_entry E rec d)"
  unfolding copy_entry_def
proof (intro valid_if keeps_return, rule bind_append_from [OF F(1)], simp add: keeps_return, simp only: option.case)
  fix old F'
  assume app: "path_append F d (int (length d)) = Some (old, F')"
  note f = path_append_some [OF F(1) app disjI2 [OF refl]] and b = spend [OF F(2,1) d app]
  have home: "valid (at F' T) (do { restore_from old; return r }) (\<lambda>_. at F T)" for r
    by (rule valid_bind [OF at_restore_from [OF f(3)]]) (rule keeps_return)
  have rec_entry: "keeps (at F' T) (case ot of None \<Rightarrow> return () | Some o' \<Rightarrow> rec)" for ot :: "nat option"
    by (intro wp_rules rec f(2) T b)
  have copy: "valid (at F' T) (append_to d (int (length d)) \<bind>
      (\<lambda>old_to. (case old_to of None \<Rightarrow> return () | Some ot \<Rightarrow> do { rec; restore_to ot }) \<bind>
        (\<lambda>_. do { restore_from old; return False }))) (\<lambda>_. at F T)"
  proof (rule bind_append_to [OF T])
    show "valid (at F' T) ((case None of None \<Rightarrow> return () | Some ot \<Rightarrow> do { rec; restore_to ot }) \<bind>
        (\<lambda>_. do { restore_from old; return False })) (\<lambda>_. at F T)"
      using home [of False] by simp
  next
    fix ot T'
    assume app': "path_append T d (int (length d)) = Some (ot, T')"
    note t = path_append_some [OF T app' disjI2 [OF refl]]
    have "valid (at F' T') (do { rec; restore_to ot }) (\<lambda>_. at F' T)"
      by (rule keeps_bind [OF rec [OF f(2) t(2) b]]) (rule at_restore_to [OF t(3)])
    then show "valid (at F' T') ((case Some ot of None \<Rightarrow> return () | Some ot \<Rightarrow> do { rec; restore_to ot }) \<bind>
        (\<lambda>_. do { restore_from old; return False })) (\<lambda>_. at F T)"
      by (simp only: option.case) (rule valid_bind, assumption, rule home)
  qed
  show "valid (at F' T) (statfcn E \<bind> (\<lambda>r.
      if ret_val r < 0 then do { err; restore_from old; return False }
      else if S_ISDIR (st_mode (stat_at E (ret_aux r))) then do { restore_from old; return True }
      else append_to d (int (length d)) \<bind>
        (\<lambda>old_to. (case old_to of None \<Rightarrow> return () | Some ot \<Rightarrow> do { rec; restore_to ot }) \<bind>
          (\<lambda>_. do { restore_from old; return False })))) (\<lambda>_. at F T)"
    by (rule keeps_bind [OF at_statfcn], intro valid_if home copy keeps_bind [OF at_err])
qed

lemma at_copy_subdir:
  assumes rec: "\<And>F T. path_ok F \<Longrightarrow> path_ok T \<Longrightarrow> budget n F \<Longrightarrow> keeps (at F T) rec"
    and F: "path_ok F" "budget (Suc n) F" and T: "path_ok T" and d: "d \<in> set (names_at E i)"
  shows "keeps (at F T) (copy_subdir rec d)"
  unfolding copy_subdir_def
proof (rule bind_append_from [OF F(1)], simp add: keeps_return, simp only: option.case)
  fix old F'
  assume app: "path_append F d (int (length d)) = Some (old, F')"
  note f = path_append_some [OF F(1) app disjI2 [OF refl]] and b = spend [OF F(2,1) d app]
  show "valid (at F' T) (append_to d (int (length d)) \<bind>
      (\<lambda>old_to. case old_to of None \<Rightarrow> restore_from old | Some ot \<Rightarrow> do { rec; restore_from old; restore_to ot }))
      (\<lambda>_. at F T)"
  proof (rule bind_append_to [OF T], simp add: at_restore_from [OF f(3)], simp only: option.case)
    fix ot T'
    assume app': "path_append T d (int (length d)) = Some (ot, T')"
    note t = path_append_some [OF T app' disjI2 [OF refl]]
    show "valid (at F' T') (do { rec; restore_from old; restore_to ot }) (\<lambda>_. at F T)"
      by (rule keeps_bind [OF rec [OF f(2) t(2) b]], rule valid_bind [OF at_restore_from [OF f(3)]],
          rule at_restore_to [OF t(3)])
  qed
qed

lemma at_copy_files:
  assumes rec: "\<And>F T. path_ok F \<Longrightarrow> path_ok T \<Longrightarrow> budget n F \<Longrightarrow> keeps (at F T) rec"
    and F: "path_ok F" "budget (Suc n) F" and T: "path_ok T" and ds: "set ds \<subseteq> set (names_at E i)"
  shows "valid (at F T) (copy_files E rec ds) (\<lambda>dirs s. set dirs \<subseteq> set ds \<and> at F T s)"
  using ds
proof (induction ds)
  case (Cons d ds)
  have "keeps (at F T) (copy_entry E rec d)"
    by (rule at_copy_entry [of n, OF _ F T, of _ d i]) (use rec Cons.prems in auto)
  moreover have "valid (at F T) (copy_files E rec ds) (\<lambda>dirs s. set dirs \<subseteq> set ds \<and> at F T s)" using Cons by simp
  ultimately show ?case
    unfolding copy_files.simps
    by - (rule keeps_bind, assumption, rule valid_bind, assumption, auto simp: valid_def)
qed (simp add: valid_def)

lemma at_copy_subdirs:
  assumes rec: "\<And>F T. path_ok F \<Longrightarrow> path_ok T \<Longrightarrow> budget n F \<Longrightarrow> keeps (at F T) rec"
    and F: "path_ok F" "budget (Suc n) F" and T: "path_ok T" and ds: "set ds \<subseteq> set (names_at E i)"
  shows "keeps (at F T) (copy_subdirs rec ds)"
  using ds
proof (induction ds)
  case (Cons d ds)
  have "keeps (at F T) (copy_subdir rec d)"
    by (rule at_copy_subdir [of n, OF _ F T, of _ d i]) (use rec Cons.prems in auto)
  then show ?case using Cons by (auto intro: keeps_bind)
qed (simp add: keeps_return)

lemma at_copy_dir:
  assumes rec: "\<And>F T. path_ok F \<Longrightarrow> path_ok T \<Longrightarrow> budget n F \<Longrightarrow> keeps (at F T) rec"
    and F: "path_ok F" "budget (Suc n) F" and T: "path_ok T"
  shows "keeps (at F T) (copy_dir E rec)"
proof -
  have ub: "keeps (at F T) (if ret_val (sys E h (Scandir q)) = -1
      then do { modify (\<lambda>s. s\<lparr>exit_val := 1\<rparr>); undefined_behaviour } else m)"
    if "keeps (at F T) m" for h q and m :: "unit cp"
    using that unreadable by (auto simp: valid_def at_def unobserved)
  show ?thesis
    unfolding copy_dir_def
    by (rule keeps_bind [OF keeps_gets], rule valid_call_bind [OF at_call], rule ub,
        rule valid_bind [OF at_copy_files [of n, OF _ F T subset_refl]])
      (auto intro!: rec valid_pre at_copy_subdirs [of n, OF _ F T])
qed

lemma copy_keeps:
  assumes "path_ok F" "path_ok T" "budget n F"
  shows "keeps (at F T) (copy E n)"
  using assms
proof (induction n arbitrary: F T)
  case 0
  then show ?case using no_budget by (auto simp: valid_def at_def)
next
  case (Suc n)
  have "keeps (at F T) (copy_dir E (copy E n))" by (rule at_copy_dir [of n]) (use Suc in auto)
  then show ?case
    unfolding copy.simps copy_body_def copy_object_def copy_directory_def copy_special_def copy_fifo_def Let_def
    by (intro at_rules at_statfcn at_copy_link at_copy_node at_copy_file at_setfile)
qed

end



interpretation cp_paths: copy_inv E "\<lambda>s. True" "\<lambda>n p. True" for E
  by unfold_locales simp_all

text \<open>
  Copying a tree, of whatever shape and with whatever errors, leaves both paths as they were.
\<close>

lemma copy_restores_paths:
  assumes "path_ok (from_path s)" "path_ok (to_path s)"
  shows "from_path (exec (copy E n) s) = from_path s \<and> to_path (exec (copy E n) s) = to_path s"
  using validD [OF cp_paths.copy_keeps [OF assms], of s] by (simp add: cp_paths.at_def)

section \<open>Copying a tree ends and stays in its memory\<close>

text \<open>Documented answers: directories can be read, their entries have names, links are shorter than a path may be.\<close>

definition documented :: "cp_env \<Rightarrow> bool" where
  "documented E \<longleftrightarrow> (\<forall>h q. ret_val (sys E h (Readlink q MAXPATHLEN)) < int MAXPATHLEN) \<and>
     (\<forall>h q. ret_val (sys E h (Scandir q)) \<noteq> -1) \<and> (\<forall>i. \<forall>d\<in>set (names_at E i). d \<noteq> [] \<and> CHR ''/'' \<notin> set d)"

lemma append_grows:
  assumes "path_ok p" "path_append p d (int (length d)) = Some (old, p')" "d \<noteq> []" "CHR ''/'' \<notin> set d"
  shows "p_end p < p_end p'"
proof -
  have "last d \<noteq> CHR ''/''" using assms(3,4) last_in_set by metis
  then have "p_path p' = p_path p @ ''/'' @ d" "path_ok p'"
    using path_append_some(2,4) [OF assms(1,2) disjI2 [OF refl]] assms(3) by blast+
  then show ?thesis using assms(1) by (simp add: path_ok_def)
qed

interpretation cp_tree: copy_inv E "\<lambda>s. documented E \<longrightarrow> \<not> fault s \<and> \<not> too_deep s"
    "\<lambda>n p. documented E \<longrightarrow> MAXPATHLEN < n + p_end p" for E
proof (unfold_locales, goal_cases)
  case (6 h q s)
  then show ?case by (metis documented_def not_less)
next
  case (7 h q s)
  then show ?case by (metis documented_def)
next
  case (8 p s)
  then show ?case by (auto simp: path_ok_def)
next
  case (9 n p d i old p')
  then show ?case using append_grows [of p d old p'] by (fastforce simp: documented_def)
qed simp_all

text \<open>
  Copying ends: with documented answers the recursion into directories is never deeper than a path is long,
  however the tree looks and changes meanwhile, and no array is overrun on the way.
\<close>

lemma copy_ends:
  assumes "documented E" "path_ok (from_path s)" "path_ok (to_path s)" "\<not> fault s" "\<not> too_deep s" "MAXPATHLEN < n"
  shows "\<not> too_deep (exec (copy E n) s) \<and> \<not> fault (exec (copy E n) s)"
  using validD [OF cp_tree.copy_keeps [OF assms(2,3), of E n], of s, unfolded cp_tree.at_def] assms by simp

section \<open>The contents of a file\<close>

definition bytes_read :: "int \<Rightarrow> cp_call hist \<Rightarrow> string" where
  "bytes_read fd h = concat (map (\<lambda>(c, r). if c = Read fd MAXBSIZE \<and> ret_val r > 0 then take (nat (ret_val r)) (ret_data r) else []) h)"

definition bytes_written :: "int \<Rightarrow> cp_call hist \<Rightarrow> string" where
  "bytes_written fd h = concat (map (\<lambda>(c, r). case c of Write f d \<Rightarrow> if f = fd then d else [] | _ \<Rightarrow> []) h)"













lemma bytes_append [simp]:
  "bytes_read fd (h @ h') = bytes_read fd h @ bytes_read fd h'"
  "bytes_written fd (h @ h') = bytes_written fd h @ bytes_written fd h'"
  by (simp_all add: bytes_read_def bytes_written_def)







text \<open>A regular file of three bytes, copied to a new one.\<close>

definition small_file :: "cp_env" where
  "small_file = \<lparr>
     sys = (\<lambda>h c. case c of
         Read fd n \<Rightarrow> if c \<in> set (map fst h) then result 0 else data_result ''abc''
       | Write fd d \<Rightarrow> result (int (length d))
       | Open_r p \<Rightarrow> result 3 | Open_creat p m \<Rightarrow> result 4 | Stat p \<Rightarrow> failure 2 | _ \<Rightarrow> result 0),
     stat_at = (\<lambda>i. \<lparr>st_dev = 1, st_ino = i, st_mode = 0x81A4, st_uid = 0, st_gid = 0, st_rdev = 0, st_atime = 0, st_mtime = 0\<rparr>),
     names_at = (\<lambda>i. []), rounds = 3\<rparr>"

definition init_cp :: cp_state where
  "init_cp = \<lparr>trace = [], fault = False, from_path = \<lparr>p_path = ''a'', p_end = 1\<rparr>, to_path = \<lparr>p_path = ''b'', p_end = 1\<rparr>,
     myuid = 0, myumask = 0, exit_val = 0, iflag = False, pflag = False, orflag = False, rflag = False, follow = True,
     too_deep = False, endless = False\<rparr>"

lemma copy_restores_paths_witness:
  "p_path (from_path (exec (copy small_file 1) init_cp)) = ''a''"
  using copy_restores_paths [of init_cp small_file 1] by (simp add: init_cp_def path_ok_def)

lemma copy_ends_witness:
  "\<not> too_deep (exec (copy small_file 5000) init_cp) \<and> \<not> fault (exec (copy small_file 5000) init_cp)"
  by (rule copy_ends) (simp_all add: init_cp_def path_ok_def documented_def small_file_def)


section \<open>Set-user-id bits\<close>

definition no_set_id :: "cp_call \<Rightarrow> bool" where
  "no_set_id c \<longleftrightarrow> (case c of
      Open_creat p m \<Rightarrow> m AND (S_ISUID OR S_ISGID) = 0 | Fchmod fd m \<Rightarrow> False | Chmod p m \<Rightarrow> False | _ \<Rightarrow> True)"

definition foreign :: "int \<Rightarrow> cp_call hist \<Rightarrow> cp_state \<Rightarrow> bool" where
  "foreign u k s \<longleftrightarrow> \<not> pflag s \<and> myuid s = u \<and> (\<exists>h. trace s = k @ h \<and> (\<forall>c\<in>set (map fst h). no_set_id c))"

lemma foreign_call: "no_set_id c \<Longrightarrow> keeps (foreign u k) (syscall os c)"
  by (auto simp: valid_def foreign_def)

lemma foreign_err: "keeps (foreign u k) err"
  by (simp add: valid_def foreign_def err_def)

lemma foreign_endless: "keeps (foreign u k) (modify (\<lambda>s. s\<lparr>endless := True\<rparr>))"
  by (simp add: valid_def foreign_def)

lemmas foreign_rules = wp_rules foreign_call foreign_err foreign_endless

lemma foreign_skip_line: "keeps (foreign u k) (skip_line E n ch)"
  by (induction n arbitrary: ch) (auto intro!: foreign_rules simp: no_set_id_def)

lemma foreign_copy_bytes: "keeps (foreign u k) (copy_bytes E n a b)"
  by (induction n) (auto intro!: foreign_rules simp: no_set_id_def)

lemma foreign_finish:
  assumes "st_uid fs \<noteq> u"
  shows "keeps (foreign u k) (finish_file E fs a b)"
proof -
  have "keeps (foreign u k) (keep_set_id E fs b)"
    using assms by (auto simp: valid_def keep_set_id_def foreign_def)
  then show ?thesis unfolding finish_file_def
    by - (rule valid_gets_bind, simp add: foreign_def [of u k], intro foreign_rules, auto simp: no_set_id_def)
qed

lemma no_set_id_creat: "no_set_id (Open_creat p (m AND NOT (S_ISUID OR S_ISGID)))"
  by (simp add: no_set_id_def and.assoc)

text \<open>
  Copying does not hand out privileges: the copy that a user makes of another user's file, without \<open>-p\<close>, gets neither
  the set-user-id nor the set-group-id bit, neither when it is created nor later.
\<close>

lemma copy_drops_set_id:
  assumes "\<not> pflag s" "st_uid fs \<noteq> myuid s"
  shows "\<exists>h. trace (exec (copy_file E fs dne) s) = trace s @ h \<and> (\<forall>c\<in>set (map fst h). no_set_id c)"
proof -
  have "keeps (foreign (myuid s) (trace s)) (copy_file E fs dne)"
    unfolding copy_file_def open_target_def confirmed_def copy_data_def Let_def
    by (intro foreign_rules foreign_skip_line foreign_copy_bytes foreign_finish [OF assms(2)] no_set_id_creat)
      (simp_all add: no_set_id_def)
  moreover have "foreign (myuid s) (trace s) s" using assms(1) by (simp add: foreign_def)
  ultimately have "foreign (myuid s) (trace s) (exec (copy_file E fs dne) s)" by (rule validD)
  then show ?thesis by (auto simp: foreign_def)
qed

lemma copy_drops_set_id_witness:
  "\<exists>h. trace (exec (copy_file small_file ((stat_at small_file 0)\<lparr>st_mode := 0x89ED, st_uid := 7\<rparr>) True) init_cp) = trace init_cp @ h \<and>
     (\<forall>c\<in>set (map fst h). no_set_id c)"
  by (rule copy_drops_set_id) (simp_all add: init_cp_def)

section \<open>The whole program\<close>
















section \<open>What the program gets wrong\<close>

text \<open>The root directory as a word loses its only slash, so that \<open>cp x /\<close> has no target.\<close>

lemma root_path_lost: "path_set ''/'' = Some \<lparr>p_path = [], p_end = 0\<rparr>"
  by (simp add: path_set_def STRIP_TRAILING_SLASH_def Let_def)

text \<open>
  Copying a directory onto something that is no directory fails without being noticed: nothing is copied and the exit
  value stays what it was.
\<close>

lemma dir_onto_file_unreported:
  assumes "follow s" "rflag s \<or> orflag s"
    and "\<And>h. sys E h (Stat (p_path (from_path s))) = (result 0)\<lparr>ret_aux := i\<rparr>"
      "\<And>h. sys E h (Stat (p_path (to_path s))) = (result 0)\<lparr>ret_aux := j\<rparr>"
    and "S_ISDIR (st_mode (stat_at E i))" "\<not> S_ISDIR (st_mode (stat_at E j))" "st_ino (stat_at E i) \<noteq> st_ino (stat_at E j)"
  shows "exit_val (exec (copy E (Suc n)) s) = exit_val s \<and>
    calls (exec (copy E (Suc n)) s) = calls s @ [Stat (p_path (from_path s)), Stat (p_path (to_path s))]"
  using assms by (auto simp: copy_body_def copy_object_def copy_directory_def statfcn_def S_ISDIR_def Let_def)

definition dir_and_file :: cp_env where
  "dir_and_file = \<lparr>sys = (\<lambda>h c. case c of Stat p \<Rightarrow> (result 0)\<lparr>ret_aux := (if p = ''a'' then 1 else 2)\<rparr> | _ \<Rightarrow> result 0),
     stat_at = (\<lambda>i. \<lparr>st_dev = 1, st_ino = i, st_mode = (if i = 1 then 0x41ED else 0x81A4), st_uid = 0, st_gid = 0,
       st_rdev = 0, st_atime = 0, st_mtime = 0\<rparr>),
     names_at = (\<lambda>i. []), rounds = 3\<rparr>"

lemma dir_onto_file_unreported_witness:
  "exit_val (exec (copy dir_and_file (Suc 0)) (init_cp\<lparr>rflag := True\<rparr>)) = 0"
proof -
  let ?s = "init_cp\<lparr>rflag := True\<rparr>"
  have "follow ?s" "rflag ?s \<or> orflag ?s" by (simp_all add: init_cp_def)
  moreover have "sys dir_and_file h (Stat (p_path (from_path ?s))) = (result 0)\<lparr>ret_aux := 1\<rparr>"
    "sys dir_and_file h (Stat (p_path (to_path ?s))) = (result 0)\<lparr>ret_aux := 2\<rparr>" for h
    by (simp_all add: dir_and_file_def init_cp_def)
  moreover have "S_ISDIR (st_mode (stat_at dir_and_file 1))" "\<not> S_ISDIR (st_mode (stat_at dir_and_file 2))"
    "st_ino (stat_at dir_and_file 1) \<noteq> st_ino (stat_at dir_and_file 2)"
    by (simp_all add: dir_and_file_def S_ISDIR_def)
  ultimately have "exit_val (exec (copy dir_and_file (Suc 0)) ?s) = exit_val ?s"
    by (intro dir_onto_file_unreported [THEN conjunct1])
  then show ?thesis by (simp add: init_cp_def)
qed

end
