(* ===== verification/Motobox_Config.thy ===== *)
theory Motobox_Config
  imports Prelude
begin

text \<open>
  The commands \<open>getconfig\<close>, \<open>setconfig\<close> and \<open>masterclear\<close> of \<open>motobox\<close> (\<open>src/motobox/getconfig.c\<close>, \<open>setconfig.c\<close>,
  \<open>masterclear.c\<close>, \<open>getsetconfig.h\<close>), which read and change the configuration of a phone and ask the recovery system to
  act at the next boot.

  The message to the boot loader is read and written by a library (\<open>libbcbmsg\<close>) that is not part of the
  repository: its calls are \<open>Get_bcb\<close>, which answers the bytes of the command, and \<open>Set_bcb\<close>; the sizes of the two fields
  are parameters of the environment. Output on the standard output, which callers read, is the call \<open>Printf\<close>.
\<close>

section \<open>Types\<close>

datatype MOTOBOX_CONFIG_ERR_T =
    ERR_NONE | ERR_INVALID_PARAM | ERR_FILE_OPERATION | ERR_INVALID_FORMAT | ERR_REPEAT_ID | ERR_SET_RECOVERY
  | ERR_NEEDS_RECONFIG | ERR_NOT_MULTICONFIG

definition err_code :: "MOTOBOX_CONFIG_ERR_T \<Rightarrow> int" where
  "err_code e = (case e of ERR_NONE \<Rightarrow> 0x00 | ERR_INVALID_PARAM \<Rightarrow> 0x51 | ERR_FILE_OPERATION \<Rightarrow> 0x52
     | ERR_INVALID_FORMAT \<Rightarrow> 0x53 | ERR_REPEAT_ID \<Rightarrow> 0x54 | ERR_SET_RECOVERY \<Rightarrow> 0x55 | ERR_NEEDS_RECONFIG \<Rightarrow> 0x56
     | ERR_NOT_MULTICONFIG \<Rightarrow> 0x57)"

abbreviation "CONFIG_ID_MAX \<equiv> 2147483647 :: int"
abbreviation "CONFIG_ID_INVALID \<equiv> -2 :: int"
abbreviation "CONFIG_ID_UNCONFIGURED \<equiv> -1 :: int"

datatype config_call =
    Lstat string | Mkdir string | Chmod string | Open_creat string | Open_append string | Write int string | Close int
  | Unlink string | System string | Get_bcb | Set_bcb string string | Sync | Fopen string | Fgets int | Fclose int
  | Opendir string | Readdir int | Closedir int | Property_get string string | Printf string

record config_env =
  sys :: "config_call os"
  command_size :: nat
  recovery_size :: nat

type_synonym config_state = "config_call io_state"
type_synonym 'a config = "(config_state, 'a) state"

abbreviation "RECOVERY_FOLDER \<equiv> ''/cache/recovery''"
abbreviation "COMMAND_FILE \<equiv> ''/cache/recovery/command''"
abbreviation "NEW_CONFIG_FILE \<equiv> ''/cache/recovery/new-config-id''"
abbreviation "NO_ERASE_FILE \<equiv> ''/cache/recovery/noerasedata''"
abbreviation "MULTICONFIG_FOLDER \<equiv> ''/system/multiconfig''"
abbreviation "CONFIG_FILE \<equiv> ''/system/multiconfig/config-id''"
abbreviation "MASTER_CONFIG_FILE \<equiv> ''/system/multiconfig/master-config-id''"
abbreviation "CONFIG_FOLDERS \<equiv> ''/system/multiconfig/ap''"
abbreviation "BOTA_PACKAGE \<equiv> ''/system/multiconfig/bota/update_config.zip''"
abbreviation "CACHE_BOTA_PACKAGE \<equiv> ''/cache/update_config.zip''"
abbreviation "COPY_BOTA_PACKAGE \<equiv> ''/system/bin/cp /system/multiconfig/bota/update_config.zip /cache/''"
abbreviation "REMOVE_BOTA_PACKAGE_FROM_CACHE \<equiv> ''/system/bin/rm /cache/update_config.zip''"
abbreviation "MULTICONFIG_COMMAND \<equiv> ''--update_package=CACHE:update_config.zip''"
abbreviation "newline \<equiv> [CHR 0x0A]"
abbreviation "RECOVERY_COMMAND \<equiv> ''recovery'' @ newline @ ''--update_package=CACHE:update_config.zip''"
abbreviation "ENOENT \<equiv> 2 :: int"
abbreviation "CONFID_SIZE \<equiv> 255 :: nat"

section \<open>Reading the configuration\<close>

text \<open>The check that both commands make: the number is printed again and compared without leading zeros.\<close>

definition lead_zeros :: "string \<Rightarrow> nat" where
  "lead_zeros confid = (if length confid > 1 then length (takeWhile (\<lambda>c. c = CHR ''0'') confid) else 0)"

definition config_id_ok :: "string \<Rightarrow> bool" where
  "config_id_ok confid \<longleftrightarrow> (let v = atoi confid in
     show_int v = drop (lead_zeros confid) confid \<and> \<not> (v < CONFIG_ID_UNCONFIGURED \<or> v > CONFIG_ID_MAX))"

text \<open>The result and the text in \<open>out\<close>. \<open>Fgets\<close> answers the line, or 0 for the null pointer.\<close>

definition getconfig :: "config_env \<Rightarrow> (MOTOBOX_CONFIG_ERR_T \<times> string) config" where
  "getconfig E = do {
     let invalid = show_int CONFIG_ID_INVALID;
     f \<leftarrow> syscall (sys E) (Lstat MULTICONFIG_FOLDER);
     if ret_val f < 0 then return (ERR_NOT_MULTICONFIG, invalid)
     else do {
       c \<leftarrow> syscall (sys E) (Lstat CONFIG_FILE);
       m \<leftarrow> (if ret_val c < 0 then syscall (sys E) (Lstat MASTER_CONFIG_FILE) else return (result 0));
       if ret_val c < 0 \<and> ret_val m < 0 then return (ERR_FILE_OPERATION, invalid)
       else do {
         fp \<leftarrow> syscall (sys E) (Fopen (if ret_val c < 0 then MASTER_CONFIG_FILE else CONFIG_FILE));
         if ret_val fp = 0 then return (ERR_FILE_OPERATION, invalid)
         else do {
           l \<leftarrow> syscall (sys E) (Fgets (ret_val fp));
           syscall (sys E) (Fclose (ret_val fp));
           let confid = take (CONFID_SIZE - 1) (cstr (ret_data l));
           if ret_val l = 0 then return (ERR_FILE_OPERATION, invalid)
           else if config_id_ok confid then return (ERR_NONE, confid)
           else return (ERR_INVALID_FORMAT, invalid)
         }
       }
     }
   }"

text \<open>
  The entries are printed one behind the other, each with the full size as its limit: the array of 255 bytes is overrun
  when an entry with its blank and the terminator does not fit behind the others. \<open>pos\<close> is how far the pointer has moved. The
  text \<open>None\<close> says that the array was not written at all.
\<close>

primrec list_entries :: "config_env \<Rightarrow> nat \<Rightarrow> int \<Rightarrow> string option \<Rightarrow> nat \<Rightarrow> string option config" where
  "list_entries E 0 dir buf pos = return buf"
| "list_entries E (Suc k) dir buf pos = do {
     e \<leftarrow> syscall (sys E) (Readdir dir);
     let d_name = cstr (ret_data e);
     if ret_val e = 0 then return buf
     else if d_name = ''.'' \<or> d_name = ''..'' \<or> d_name = ''backup'' then list_entries E k dir buf pos
     else do {
       let written = (case buf of None \<Rightarrow> [] | Some b \<Rightarrow> b);
       let piece = snprintf CONFID_SIZE (d_name @ '' '');
       whenM (CONFID_SIZE < pos + length piece + 1) undefined_behaviour;
       list_entries E k dir (Some (if length written = pos then written @ piece else written)) (pos + (length d_name + 1))
     }
   }"

definition list_configids :: "config_env \<Rightarrow> nat \<Rightarrow> (MOTOBOX_CONFIG_ERR_T \<times> string option) config" where
  "list_configids E k = do {
     d \<leftarrow> syscall (sys E) (Opendir CONFIG_FOLDERS);
     if ret_val d = 0 then return (ERR_NOT_MULTICONFIG, Some (show_int CONFIG_ID_INVALID))
     else do {
       buf \<leftarrow> list_entries E k (ret_val d) None 0;
       syscall (sys E) (Closedir (ret_val d));
       return (ERR_NONE, buf)
     }
   }"

definition getconfig_main :: "config_env \<Rightarrow> nat \<Rightarrow> string list \<Rightarrow> MOTOBOX_CONFIG_ERR_T config" where
  "getconfig_main E k argv = do {
     (status, confid) \<leftarrow>
       (if length argv = 2 \<and> argv ! 1 = ''-list'' then list_configids E k
        else if length argv \<noteq> 1 then return (ERR_INVALID_PARAM, Some (show_int CONFIG_ID_INVALID))
        else do { (st, c) \<leftarrow> getconfig E; return (st, Some c) });
     (case confid of
        None \<Rightarrow> undefined_behaviour
      | Some c \<Rightarrow> do { syscall (sys E) (Printf (c @ newline)); return () });
     return status
   }"

section \<open>Asking for the recovery system\<close>

definition create_recovery_folder_if_neccessary :: "config_env \<Rightarrow> MOTOBOX_CONFIG_ERR_T config" where
  "create_recovery_folder_if_neccessary E = do {
     l \<leftarrow> syscall (sys E) (Lstat RECOVERY_FOLDER);
     if ret_val l < 0 then
       if ret_errno l = ENOENT then do {
         m \<leftarrow> syscall (sys E) (Mkdir RECOVERY_FOLDER);
         c \<leftarrow> (if ret_val m < 0 then return (result 0) else syscall (sys E) (Chmod RECOVERY_FOLDER));
         return (if ret_val m < 0 \<or> ret_val c < 0 then ERR_FILE_OPERATION else ERR_NONE)
       } else return ERR_FILE_OPERATION
     else return ERR_NONE
   }"

text \<open>The command file is made when it is not there; the result tells whether the writing can go on.\<close>

definition make_command_file :: "config_env \<Rightarrow> bool \<Rightarrow> bool config" where
  "make_command_file E set_mode = do {
     l \<leftarrow> syscall (sys E) (Lstat COMMAND_FILE);
     if ret_val l < 0 then
       if ret_errno l = ENOENT then do {
         fd \<leftarrow> syscall (sys E) (Open_creat COMMAND_FILE);
         if ret_val fd < 0 then return False
         else do {
           syscall (sys E) (Close (ret_val fd));
           whenM set_mode (do { syscall (sys E) (Chmod COMMAND_FILE); return () });
           return True
         }
       } else return False
     else return True
   }"

text \<open>The descriptor is not closed.\<close>

definition append_command :: "config_env \<Rightarrow> string \<Rightarrow> bool config" where
  "append_command E cmd = do {
     fd \<leftarrow> syscall (sys E) (Open_append COMMAND_FILE);
     if ret_val fd < 0 then return False
     else do {
       w \<leftarrow> syscall (sys E) (Write (ret_val fd) cmd);
       return (ret_val w = int (length cmd))
     }
   }"

definition set_cache_command :: "config_env \<Rightarrow> MOTOBOX_CONFIG_ERR_T config" where
  "set_cache_command E = do {
     f \<leftarrow> create_recovery_folder_if_neccessary E;
     if f \<noteq> ERR_NONE then return ERR_FILE_OPERATION
     else do {
       ok \<leftarrow> make_command_file E True;
       if \<not> ok then return ERR_FILE_OPERATION
       else do {
         written \<leftarrow> append_command E MULTICONFIG_COMMAND;
         return (if written then ERR_NONE else ERR_FILE_OPERATION)
       }
     }
   }"

text \<open>The first byte of the command; the structure was cleared before.\<close>

definition first_byte :: "string \<Rightarrow> nat" where
  "first_byte cmd = (case cmd of [] \<Rightarrow> 0 | c # _ \<Rightarrow> of_char c)"

definition strlcpy :: "nat \<Rightarrow> string \<Rightarrow> string" where
  "strlcpy n s = take (n - 1) s"

definition set_recovery :: "config_env \<Rightarrow> MOTOBOX_CONFIG_ERR_T config" where
  "set_recovery E = do {
     b \<leftarrow> syscall (sys E) Get_bcb;
     let command = take (command_size E) (ret_data b);
     if ret_val b \<noteq> 0 then return ERR_SET_RECOVERY
     else if first_byte command \<noteq> 0 \<and> first_byte command \<noteq> 255 then
       if cstr command = ''boot-recovery'' then do {
         st \<leftarrow> set_cache_command E;
         return (if st \<noteq> ERR_NONE then ERR_SET_RECOVERY else ERR_NONE)
       } else return ERR_SET_RECOVERY
     else do {
       r \<leftarrow> syscall (sys E) (Set_bcb (strlcpy (command_size E) ''boot-recovery'') (strlcpy (recovery_size E) RECOVERY_COMMAND));
       return (if ret_val r \<noteq> 0 then ERR_SET_RECOVERY else ERR_NONE)
     }
   }"

section \<open>Changing the configuration\<close>

definition write_config :: "config_env \<Rightarrow> string \<Rightarrow> MOTOBOX_CONFIG_ERR_T config" where
  "write_config E confid = do {
     fd \<leftarrow> syscall (sys E) (Open_creat NEW_CONFIG_FILE);
     if ret_val fd < 0 then return ERR_FILE_OPERATION
     else do {
       w \<leftarrow> syscall (sys E) (Write (ret_val fd) confid);
       syscall (sys E) (Close (ret_val fd));
       syscall (sys E) (Chmod NEW_CONFIG_FILE);
       return (if ret_val w \<noteq> int (length confid) then ERR_FILE_OPERATION else ERR_NONE)
     }
   }"

definition set_config :: "config_env \<Rightarrow> string \<Rightarrow> MOTOBOX_CONFIG_ERR_T config" where
  "set_config E confid = do {
     f \<leftarrow> create_recovery_folder_if_neccessary E;
     if f \<noteq> ERR_NONE then return ERR_FILE_OPERATION
     else do {
       l \<leftarrow> syscall (sys E) (Lstat NEW_CONFIG_FILE);
       u \<leftarrow> (if ret_val l = 0 then syscall (sys E) (Unlink NEW_CONFIG_FILE) else return (result 0));
       if ret_val u \<noteq> 0 then return ERR_FILE_OPERATION else write_config E confid
     }
   }"

text \<open>\<open>WEXITSTATUS\<close>: bits 8 to 15 of the status.\<close>

definition WEXITSTATUS :: "int \<Rightarrow> int" where
  "WEXITSTATUS st = (st div 256) mod 256"

definition copy_bota_package_to_cache :: "config_env \<Rightarrow> MOTOBOX_CONFIG_ERR_T config" where
  "copy_bota_package_to_cache E = do {
     l \<leftarrow> syscall (sys E) (Lstat BOTA_PACKAGE);
     if ret_val l \<noteq> 0 then return ERR_FILE_OPERATION
     else do {
       r \<leftarrow> syscall (sys E) (System COPY_BOTA_PACKAGE);
       return (if WEXITSTATUS (ret_val r) = 0 then ERR_NONE else ERR_FILE_OPERATION)
     }
   }"

definition remove_bota_package_from_cache :: "config_env \<Rightarrow> unit config" where
  "remove_bota_package_from_cache E = do {
     l \<leftarrow> syscall (sys E) (Lstat CACHE_BOTA_PACKAGE);
     whenM (ret_val l = 0) (do { syscall (sys E) (System REMOVE_BOTA_PACKAGE_FROM_CACHE); return () })
   }"

definition set_no_erase_data_flag :: "config_env \<Rightarrow> unit config" where
  "set_no_erase_data_flag E = do {
     fd \<leftarrow> syscall (sys E) (Open_creat NO_ERASE_FILE);
     whenM (\<not> ret_val fd < 0) (do {
       w \<leftarrow> syscall (sys E) (Write (ret_val fd) ''noerasedata'');
       syscall (sys E) (Close (ret_val fd));
       whenM (ret_val w = 11) (do { syscall (sys E) (Chmod NO_ERASE_FILE); return () })
     })
   }"

text \<open>The status is printed and returned.\<close>

definition report :: "config_env \<Rightarrow> MOTOBOX_CONFIG_ERR_T \<Rightarrow> MOTOBOX_CONFIG_ERR_T config" where
  "report E st = do { syscall (sys E) (Printf (show_int (err_code st) @ newline)); return st }"

text \<open>The arguments: whether to set the recovery mode, whether to keep the data, the new id.\<close>

definition setconfig_args :: "string list \<Rightarrow> (bool \<times> bool \<times> string) option" where
  "setconfig_args argv =
     (if length argv = 3 then
        if argv ! 1 = ''-norecovery'' then Some (False, False, argv ! 2)
        else if argv ! 1 = ''-no_erase_data'' then Some (True, True, argv ! 2) else None
      else if length argv = 2 then Some (True, False, argv ! 1) else None)"

text \<open>From the new file on: the recovery is asked for, and the old id comes back when that fails.\<close>

definition switch_config :: "config_env \<Rightarrow> bool \<Rightarrow> bool \<Rightarrow> string option \<Rightarrow> string \<Rightarrow> MOTOBOX_CONFIG_ERR_T config" where
  "switch_config E isSetRecovery dont_erase old_confid confid = do {
     st \<leftarrow> set_config E confid;
     if st \<noteq> ERR_NONE then return st
     else do {
       st \<leftarrow> (if isSetRecovery then set_recovery E else set_cache_command E);
       if st = ERR_NONE then do {
         whenM dont_erase (set_no_erase_data_flag E);
         syscall (sys E) Sync;
         return ERR_NONE
       } else (case old_confid of
           None \<Rightarrow> return st
         | Some old \<Rightarrow> do {
             r \<leftarrow> set_config E old;
             return (if r \<noteq> ERR_NONE then ERR_NEEDS_RECONFIG else st)
           })
     }
   }"

definition setconfig_main :: "config_env \<Rightarrow> string list \<Rightarrow> MOTOBOX_CONFIG_ERR_T config" where
  "setconfig_main E argv =
     (if length argv \<noteq> 3 \<and> length argv \<noteq> 2 then report E ERR_INVALID_PARAM
      else do {
        l \<leftarrow> syscall (sys E) (Lstat MULTICONFIG_FOLDER);
        if ret_val l < 0 then report E ERR_NOT_MULTICONFIG
        else case setconfig_args argv of
            None \<Rightarrow> report E ERR_INVALID_PARAM
          | Some (isSetRecovery, dont_erase, confid) \<Rightarrow>
              if \<not> config_id_ok confid then report E ERR_INVALID_FORMAT
              else do {
                (got, old) \<leftarrow> getconfig E;
                let old_confid = (if got = ERR_NONE then Some old else None);
                st \<leftarrow> copy_bota_package_to_cache E;
                if st \<noteq> ERR_NONE then report E st
                else do {
                  st \<leftarrow> switch_config E isSetRecovery dont_erase old_confid confid;
                  whenM (st \<noteq> ERR_NONE) (remove_bota_package_from_cache E);
                  report E st
                }
              }
      })"

section \<open>Clearing the phone\<close>

definition shredding_enabled :: "config_env \<Rightarrow> bool config" where
  "shredding_enabled E = do {
     a \<leftarrow> syscall (sys E) (Property_get ''ro.mot.master_clear.shredsd'' ''false'');
     b \<leftarrow> syscall (sys E) (Property_get ''ro.mot.master_clear.shredsd.dev'' ''false'');
     return (cstr (ret_data a) = ''true'' \<and> cstr (ret_data b) = ''true'')
   }"

definition wipe_options :: "bool \<Rightarrow> string" where
  "wipe_options shred =
     (if shred then ''--wipe_data'' @ newline @ ''--wipe_sdcard'' @ newline @ ''--silent'' @ newline
      else ''--wipe_data'' @ newline)"

text \<open>0 for success, -1 for a failure.\<close>

definition set_wipe_command :: "config_env \<Rightarrow> int config" where
  "set_wipe_command E = do {
     shred \<leftarrow> shredding_enabled E;
     l \<leftarrow> syscall (sys E) (Lstat RECOVERY_FOLDER);
     m \<leftarrow> (if ret_val l < 0 \<and> ret_errno l = ENOENT then syscall (sys E) (Mkdir RECOVERY_FOLDER) else return (result 0));
     if ret_val l < 0 \<and> (ret_errno l \<noteq> ENOENT \<or> ret_val m < 0) then return (-1)
     else do {
       ok \<leftarrow> make_command_file E False;
       if \<not> ok then return (-1)
       else do {
         written \<leftarrow> append_command E (wipe_options shred);
         return (if written then 0 else -1)
       }
     }
   }"

text \<open>The result of \<open>get_bootloader_message\<close> is not looked at.\<close>

definition masterclear_main :: "config_env \<Rightarrow> int config" where
  "masterclear_main E = do {
     shred \<leftarrow> shredding_enabled E;
     b \<leftarrow> syscall (sys E) Get_bcb;
     let command = take (command_size E) (ret_data b);
     r \<leftarrow> (if first_byte command \<noteq> 0 \<and> first_byte command \<noteq> 255 then
             if cstr command = ''boot-recovery'' then set_wipe_command E else return (-1)
           else do {
             w \<leftarrow> syscall (sys E) (Set_bcb (strlcpy (command_size E) ''boot-recovery'')
               (strlcpy (recovery_size E) (''recovery'' @ newline @ wipe_options shred)));
             return (if ret_val w \<noteq> 0 then -1 else 0)
           });
     if r \<noteq> 0 then return (-1)
     else do { syscall (sys E) Sync; return 0 }
   }"

section \<open>The ids that are accepted\<close>

lemma show_nat_zero: "show_nat 0 = ''0''"
  by (subst show_nat.simps) (simp add: digit_char_def, code_simp)

lemma hd_show_nat: "0 < n \<Longrightarrow> hd (show_nat n) \<noteq> CHR ''0''"
proof (induction n rule: show_nat.induct)
  case (1 n)
  show ?case
  proof (cases "n < 10")
    case True
    then have "digit_val (digit_char n) = n" using isdigit_digit_char by blast
    then have "digit_char n \<noteq> CHR ''0''" using "1.prems" by (auto simp: digit_val_def)
    then show ?thesis using True by (subst show_nat.simps) simp
  next
    case False
    then have "hd (show_nat (n div 10)) \<noteq> CHR ''0''" using 1 by simp
    then show ?thesis using False show_nat_not_empty by (subst show_nat.simps) (simp add: hd_append)
  qed
qed

lemma digits_val_zeros: "digits_val 0 (replicate z CHR ''0'' @ s) = digits_val 0 s"
  by (induction z) (simp_all add: isdigit_def digit_val_def)

lemma takeWhile_zeros:
  "0 < n \<Longrightarrow> takeWhile (\<lambda>c. c = CHR ''0'') (replicate z CHR ''0'' @ show_nat n) = replicate z CHR ''0''"
  using hd_show_nat [of n] show_nat_not_empty [of n] by (induction z) (cases "show_nat n"; simp)+

lemma atoi_digits:
  assumes "isdigit (hd s)" "s \<noteq> []"
  shows "atoi s = clamp32 (int (digits_val 0 s))"
proof -
  obtain c r where s: "s = c # r" using assms(2) by (cases s) auto
  then have c: "isdigit c" using assms(1) by simp
  have "dropWhile isspace (c # r) = c # r" using isdigit_plain [OF c] by simp
  then show ?thesis using isdigit_plain [OF c] unfolding strtol_def s by (simp del: digits_val.simps)
qed

lemma hd_zeros_digit: "isdigit (hd (replicate z CHR ''0'' @ show_nat n))"
  using show_nat_digits [of n] show_nat_not_empty [of n] by (cases z; cases "show_nat n") (auto simp: isdigit_def)

lemma atoi_zeros: "n < 2 ^ 31 \<Longrightarrow> atoi (replicate z CHR ''0'' @ show_nat n) = int n"
  using atoi_digits [OF hd_zeros_digit [of z n]] show_nat_not_empty [of n]
  by (simp add: digits_val_zeros digits_val_show_nat clamp32_def)

lemma config_id_ok_number:
  assumes "0 < n" "n < 2 ^ 31"
  shows "config_id_ok (replicate z CHR ''0'' @ show_nat n)"
proof -
  let ?s = "replicate z CHR ''0'' @ show_nat n"
  have "length (show_nat n) > 0" using show_nat_not_empty by simp
  then have "drop (lead_zeros ?s) ?s = show_nat n"
    using takeWhile_zeros [OF assms(1), of z] by (cases z) (auto simp: lead_zeros_def)
  then show ?thesis using assms by (simp add: config_id_ok_def atoi_zeros show_int_def)
qed

lemma lead_zeros_split: "\<exists>z. confid = replicate z CHR ''0'' @ drop (lead_zeros confid) confid"
proof -
  have "takeWhile (\<lambda>c. c = CHR ''0'') s = replicate (length (takeWhile (\<lambda>c. c = CHR ''0'') s)) CHR ''0''" for s
    by (induction s) auto
  then show ?thesis
    unfolding lead_zeros_def
    by (cases "length confid > 1") (metis append_take_drop_id takeWhile_eq_take, auto intro: exI [of _ 0])
qed

lemma config_id_ok_shape:
  assumes "config_id_ok s"
  shows "s = ''-1'' \<or> s = ''0'' \<or> (\<exists>z n. 0 < n \<and> n < 2 ^ 31 \<and> s = replicate z CHR ''0'' @ show_nat n)"
proof -
  let ?v = "atoi s"
  have v: "show_int ?v = drop (lead_zeros s) s" "-1 \<le> ?v" "?v < 2 ^ 31"
    using assms by (auto simp: config_id_ok_def Let_def)
  obtain z where s: "s = replicate z CHR ''0'' @ show_int ?v" using lead_zeros_split [of s] v(1) by auto
  consider "?v = -1" | "?v = 0" | "0 < ?v" using v(2) by linarith
  then show ?thesis
  proof cases
    case 1
    then have "show_int ?v = ''-1''" by (simp add: show_int_def, code_simp)
    moreover have "z = 0"
    proof (rule ccontr)
      assume "z \<noteq> 0"
      then obtain k where "z = Suc k" by (cases z) auto
      then obtain r where "s = CHR ''0'' # r" using s by (metis append_Cons replicate_Suc)
      then have "isdigit (hd s)" "s \<noteq> []" by (simp_all add: isdigit_def)
      then have "0 \<le> atoi s" by (subst atoi_digits) (auto simp: clamp32_def)
      then show False using 1 by simp
    qed
    ultimately show ?thesis using s by simp
  next
    case 2
    then have zero: "show_int ?v = ''0''" by (simp add: show_int_def show_nat_zero)
    have "z = 0"
    proof (rule ccontr)
      assume "z \<noteq> 0"
      then have "s = replicate (Suc z) CHR ''0''" "length s > 1" using s zero by (simp_all add: replicate_append_same)
      then have "drop (lead_zeros s) s = []" by (simp add: lead_zeros_def del: replicate_Suc)
      then show False using v(1) zero by simp
    qed
    then show ?thesis using s zero by simp
  next
    case 3
    then have "show_int ?v = show_nat (nat ?v)" "0 < nat ?v" "nat ?v < 2 ^ 31" using v(3) by (auto simp: show_int_def)
    then show ?thesis using s by metis
  qed
qed

text \<open>
  The ids that \<open>getconfig\<close> and \<open>setconfig\<close> accept are exactly \<open>-1\<close>, \<open>0\<close> and the positive 32-bit numbers in decimal, with any
  number of leading zeros; everything else, signs, blanks, letters behind the number and numbers that are too large among
  them, is rejected, and so is zero with a leading zero.
\<close>

lemma config_ids_accepted:
  "config_id_ok s \<longleftrightarrow> s = ''-1'' \<or> s = ''0'' \<or> (\<exists>z n. 0 < n \<and> n < 2 ^ 31 \<and> s = replicate z CHR ''0'' @ show_nat n)"
proof -
  have "config_id_ok ''-1''" "config_id_ok ''0''" by code_simp+
  then show ?thesis using config_id_ok_shape config_id_ok_number by blast
qed

end
