(* ===== verification/Motobox_Config_Theorems.thy ===== *)
theory Motobox_Config_Theorems
  imports Motobox_Config
begin

text \<open>
  What \<open>setconfig\<close> and \<open>masterclear\<close> do to the phone, in every environment: the file with the new id, replayed from the
  history, the request to the recovery system, the message of the boot loader, and the array of \<open>getconfig -list\<close>.
\<close>

section \<open>The file with the new id\<close>

text \<open>The descriptor under which \<open>/cache/recovery/new-config-id\<close> is open, and its contents.\<close>

type_synonym id_file = "int option \<times> string option"

definition id_step :: "config_call \<times> ret \<Rightarrow> id_file \<Rightarrow> id_file" where
  "id_step = (\<lambda>(c, r) (fd, f). case c of
      Unlink p \<Rightarrow> (fd, if p = NEW_CONFIG_FILE \<and> ret_val r = 0 then None else f)
    | Open_creat p \<Rightarrow>
        if ret_val r < 0 then (fd, f)
        else if p = NEW_CONFIG_FILE then (Some (ret_val r), Some (case f of None \<Rightarrow> [] | Some x \<Rightarrow> x))
        else (if fd = Some (ret_val r) then None else fd, f)
    | Open_append p \<Rightarrow> (if fd = Some (ret_val r) then None else fd, f)
    | Write g d \<Rightarrow>
        (fd, if fd = Some g \<and> 0 < ret_val r
             then map_option (\<lambda>x. take (nat (ret_val r)) d @ drop (nat (ret_val r)) x) f else f)
    | Close g \<Rightarrow> (if fd = Some g then None else fd, f)
    | _ \<Rightarrow> (fd, f))"

definition new_id :: "string option \<Rightarrow> config_call hist \<Rightarrow> id_file" where
  "new_id f h = fold id_step h (None, f)"

lemma new_id_append [simp]: "new_id f (h @ xs) = fold id_step xs (new_id f h)"
  by (simp add: new_id_def)











section \<open>Asking for the recovery\<close>









section \<open>The transaction\<close>













section \<open>The list of ids\<close>

text \<open>A directory that lists the names \<open>ns\<close>; none of them is skipped and none is longer than the array.\<close>

definition reads :: "int \<Rightarrow> config_call hist \<Rightarrow> nat" where
  "reads d h = length (filter (\<lambda>(c, r). c = Readdir d) h)"

definition serves :: "config_env \<Rightarrow> int \<Rightarrow> string list \<Rightarrow> bool" where
  "serves E d ns \<longleftrightarrow> (\<forall>h. sys E h (Readdir d) = (if reads d h < length ns then data_result (ns ! reads d h) else result 0)) \<and>
     (\<forall>n\<in>set ns. n \<noteq> [] \<and> nul_free n \<and> n \<notin> {''.'', ''..'', ''backup''} \<and> length n < 254)"

abbreviation listing :: "string list \<Rightarrow> string" where
  "listing ns \<equiv> concat (map (\<lambda>n. n @ '' '') ns)"

lemma list_entries_run:
  assumes "serves E d ns"
  shows "reads d (trace s) = i \<Longrightarrow> i \<le> length ns \<Longrightarrow> length ns < k + i \<Longrightarrow>
    (buf = None \<and> i = 0 \<or> buf = Some (listing (take i ns))) \<Longrightarrow> pos = length (listing (take i ns)) \<Longrightarrow>
    (eval_in (list_entries E k d buf pos) s = (if i = length ns then buf else Some (listing ns))) \<and>
    (fault (exec (list_entries E k d buf pos) s) \<longleftrightarrow> fault s \<or> i < length ns \<and> CONFID_SIZE < length (listing ns) + 1)"
proof (induction k arbitrary: s i buf pos)
  case (Suc k)
  let ?s = "exec (syscall (sys E) (Readdir d)) s"
  show ?case
  proof (cases "i = length ns")
    case True
    then have "sys E (trace s) (Readdir d) = result 0" using assms Suc.prems(1) by (simp add: serves_def)
    then show ?thesis using True by simp
  next
    case False
    then have i: "i < length ns" using Suc.prems(2) by simp
    then have e: "sys E (trace s) (Readdir d) = data_result (ns ! i)"
      using assms Suc.prems(1) by (simp add: serves_def)
    have n: "ns ! i \<noteq> []" "nul_free (ns ! i)" "ns ! i \<noteq> ''.''" "ns ! i \<noteq> ''..''" "ns ! i \<noteq> ''backup''" "length (ns ! i) < 254"
      using assms i by (auto simp: serves_def)
    have pre: "listing (take (Suc i) ns) = listing (take i ns) @ ns ! i @ '' ''" using i by (simp add: take_Suc_conv_app_nth)
    have "prefix": "length (listing (take (Suc i) ns)) \<le> length (listing ns)"
      by (subst (2) append_take_drop_id [of "Suc i" ns, symmetric]) (simp only: map_append concat_append length_append le_add1)
    let ?u = "if CONFID_SIZE < length (listing (take (Suc i) ns)) + 1 then ?s\<lparr>fault := True\<rparr> else ?s"
    have run: "run_state (list_entries E (Suc k) d buf pos) s =
        run_state (list_entries E k d (Some (listing (take (Suc i) ns))) (length (listing (take (Suc i) ns)))) ?u"
    proof -
      have w: "(case buf of None \<Rightarrow> [] | Some b \<Rightarrow> b) = listing (take i ns)" using Suc.prems(4) by auto
      have p: "snprintf CONFID_SIZE (ns ! i @ '' '') = ns ! i @ '' ''" using n(6) by (simp add: snprintf_def)
      show ?thesis
        unfolding list_entries.simps pre Let_def using e n(1-5) Suc.prems(5) by (simp add: w p)
    qed
    have "reads d (trace ?u) = Suc i" using Suc.prems(1) by (simp add: reads_def)
    note IH = Suc.IH [OF this _ _ disjI2 [OF refl] refl]
    show ?thesis
      unfolding run using IH i Suc.prems(3) "prefix" by (cases "Suc i = length ns") auto
  qed
qed simp

text \<open>
  \<open>getconfig -list\<close> shows the ids of the directory, each followed by a blank, and stays inside its array of 255 bytes exactly
  when the whole list with its terminator fits: the size given to \<open>snprintf\<close> is never reduced, so nothing else stops it.
\<close>

lemma config_list_fits:
  assumes "serves E d ns" "ns \<noteq> []" "length ns < k" "\<And>h. ret_val (sys E h (Opendir CONFIG_FOLDERS)) = d" "d \<noteq> 0"
    and "\<not> fault s" "reads d (trace s) = 0"
  shows "eval_in (list_configids E k) s = (ERR_NONE, Some (listing ns)) \<and>
    (fault (exec (list_configids E k) s) \<longleftrightarrow> CONFID_SIZE < length (listing ns) + 1)"
proof -
  let ?u = "exec (syscall (sys E) (Opendir CONFIG_FOLDERS)) s"
  have "reads d (trace ?u) = 0" using assms(7) by (simp add: reads_def)
  from list_entries_run [OF assms(1) this, of k None 0] assms(2,3)
  have "eval_in (list_entries E k d None 0) ?u = Some (listing ns)"
    "fault (exec (list_entries E k d None 0) ?u) \<longleftrightarrow> fault ?u \<or> CONFID_SIZE < length (listing ns) + 1" by auto
  then show ?thesis using assms(4-6) by (simp add: list_configids_def split_beta)
qed

definition two_configs :: config_env where
  "two_configs = \<lparr>sys = (\<lambda>h c. case c of
       Readdir d \<Rightarrow> if reads d h < 2 then data_result ([''12'', ''345''] ! reads d h) else result 0 | _ \<Rightarrow> result 6),
     command_size = 32, recovery_size = 1024\<rparr>"

lemma config_list_fits_witness:
  "eval_in (list_configids two_configs 3) \<lparr>trace = [], fault = False\<rparr> = (ERR_NONE, Some ''12 345 '')"
proof -
  have serves: "serves two_configs 6 [''12'', ''345'']" by (simp add: serves_def two_configs_def nul_free_def)
  have dir: "ret_val (sys two_configs h (Opendir CONFIG_FOLDERS)) = 6" for h by (simp add: two_configs_def)
  have "eval_in (list_configids two_configs 3) \<lparr>trace = [], fault = False\<rparr> = (ERR_NONE, Some (listing [''12'', ''345'']))"
    by (rule config_list_fits [OF serves _ _ dir, THEN conjunct1]) (simp_all add: reads_def)
  then show ?thesis by simp
qed

section \<open>A pending command is not overwritten\<close>

definition no_message :: "config_call hist \<Rightarrow> config_state \<Rightarrow> bool" where
  "no_message t s \<longleftrightarrow> (\<exists>h. trace s = t @ h \<and> (\<forall>c x. Set_bcb c x \<notin> set (map fst h)))"

lemma no_message_call: "(\<And>c' x. c \<noteq> Set_bcb c' x) \<Longrightarrow> keeps (no_message t) (syscall os c)"
  unfolding valid_def no_message_def by (fastforce simp: image_iff)

lemmas no_message_rules = wp_rules no_message_call

lemma no_message_parts:
  "keeps (no_message t) (create_recovery_folder_if_neccessary E)" "keeps (no_message t) (make_command_file E b)"
  "keeps (no_message t) (append_command E cmd)" "keeps (no_message t) (shredding_enabled E)"
  unfolding create_recovery_folder_if_neccessary_def make_command_file_def append_command_def shredding_enabled_def
  by ((intro no_message_rules; simp))+

lemma no_message_command: "keeps (no_message t) (set_cache_command E)" "keeps (no_message t) (set_wipe_command E)"
  unfolding set_cache_command_def set_wipe_command_def
  by ((intro no_message_rules no_message_parts; simp))+

text \<open>
  A command that waits for the boot loader is not overwritten: \<open>setconfig\<close> and \<open>masterclear\<close> send no message while there is
  one. If it is not the command for the recovery system both fail and leave the files alone.
\<close>

lemma pending_command_kept:
  assumes "\<And>h. take (command_size E) (ret_data (sys E h Get_bcb)) = cmd" "first_byte cmd \<notin> {0, 255}"
  shows "no_message (trace s) (exec (set_recovery E) s) \<and> no_message (trace s) (exec (masterclear_main E) s) \<and>
    (cstr cmd \<noteq> ''boot-recovery'' \<longrightarrow> eval_in (set_recovery E) s = ERR_SET_RECOVERY \<and>
      calls (exec (set_recovery E) s) = calls s @ [Get_bcb] \<and> eval_in (masterclear_main E) s = -1)"
proof -
  have bcb: "valid (no_message (trace s)) (syscall (sys E) Get_bcb) (\<lambda>b s'. take (command_size E) (ret_data b) = cmd \<and> no_message (trace s) s')"
    using no_message_call [of Get_bcb "trace s" "sys E"] assms(1) by (auto simp: valid_def)
  have start: "no_message (trace s) s" by (auto simp: no_message_def)
  have sr: "keeps (no_message (trace s)) (set_recovery E)"
    unfolding set_recovery_def Let_def
    by (rule valid_bind [OF bcb], rule valid_pre) (use assms(2) in \<open>auto intro!: no_message_rules no_message_command\<close>)
  have mc: "keeps (no_message (trace s)) (masterclear_main E)"
    unfolding masterclear_main_def Let_def
    by (rule keeps_bind [OF no_message_parts(4)], rule valid_bind [OF bcb], rule valid_pre)
      (use assms(2) in \<open>auto intro!: no_message_rules no_message_command\<close>)
  have "eval_in (set_recovery E) s = ERR_SET_RECOVERY \<and> calls (exec (set_recovery E) s) = calls s @ [Get_bcb] \<and>
      eval_in (masterclear_main E) s = -1" if "cstr cmd \<noteq> ''boot-recovery''"
    using that assms by (auto simp: set_recovery_def masterclear_main_def split_beta Let_def)
  then show ?thesis using validD [OF sr start] validD [OF mc start] by blast
qed

lemma pending_command_kept_witness:
  "let E = \<lparr>sys = (\<lambda>h c. data_result ''boot-bp''), command_size = 32, recovery_size = 1024\<rparr> in
   eval_in (masterclear_main E) \<lparr>trace = [], fault = False\<rparr> = -1"
proof -
  let ?E = "\<lparr>sys = (\<lambda>h c. data_result ''boot-bp''), command_size = 32, recovery_size = 1024\<rparr> :: config_env"
  have "first_byte ''boot-bp'' \<notin> {0, 255}" "cstr ''boot-bp'' \<noteq> ''boot-recovery''" by code_simp+
  then show ?thesis using pending_command_kept [of ?E "''boot-bp''" "\<lparr>trace = [], fault = False\<rparr>"] by simp
qed

end
