(* ===== verification/Test_Cmd.thy ===== *)
theory Test_Cmd
  imports Prelude
begin

text \<open>
  The command \<open>test\<close> (or \<open>[\<close>) of \<open>motobox\<close>, \<open>src/motobox/test.c\<close>: a recursive-descent evaluator over
  the argument vector.

  \<^item> The globals \<open>nargc\<close>, \<open>t_wp\<close> (an index into \<open>argv\<close>) and \<open>t_wp_op\<close> are the state. The argument
    vector is a list of pointers, \<open>None\<close> the null pointer; a read outside of it or through a null
    pointer is the error \<open>Overrun\<close>.
  \<^item> \<open>exit(1)\<close> with a message is the error \<open>Failed\<close>. The four mutually recursive functions carry fuel;
    \<open>Endless\<close> is the error that it ran out. The properties show that neither \<open>Overrun\<close> nor \<open>Endless\<close>
    ever happens, and that a rendered expression evaluates to its value.
  \<^item> The file system is looked at and not changed: it is a parameter of the evaluation.
\<close>

unbundle bit_operations_syntax

section \<open>Tokens\<close>

datatype token =
    EOI | FILRD | FILWR | FILEX | FILEXIST | FILREG | FILDIR | FILCDEV | FILBDEV | FILFIFO | FILSOCK
  | FILSYM | FILGZ | FILTT | FILSUID | FILSGID | FILSTCK | FILNT | FILOT | FILEQ | FILUID | FILGID
  | STREZ | STRNZ | STREQ | STRNE | STRLT | STRGT | INTEQ | INTNE | INTGE | INTGT | INTLE | INTLT
  | UNOT | BAND | BOR | LPAREN | RPAREN | OPERAND

datatype token_types = UNOP | BINOP | BUNOP | BBINOP | PAREN

datatype t_op = T_op (op_text: string) (op_num: token) (op_type: token_types)

definition ops :: "t_op list" where
  "ops =
    [T_op ''-r'' FILRD UNOP, T_op ''-w'' FILWR UNOP, T_op ''-x'' FILEX UNOP, T_op ''-e'' FILEXIST UNOP,
     T_op ''-f'' FILREG UNOP, T_op ''-d'' FILDIR UNOP, T_op ''-c'' FILCDEV UNOP, T_op ''-b'' FILBDEV UNOP,
     T_op ''-p'' FILFIFO UNOP, T_op ''-u'' FILSUID UNOP, T_op ''-g'' FILSGID UNOP, T_op ''-k'' FILSTCK UNOP,
     T_op ''-s'' FILGZ UNOP, T_op ''-t'' FILTT UNOP, T_op ''-z'' STREZ UNOP, T_op ''-n'' STRNZ UNOP,
     T_op ''-h'' FILSYM UNOP, T_op ''-O'' FILUID UNOP, T_op ''-G'' FILGID UNOP, T_op ''-L'' FILSYM UNOP,
     T_op ''-S'' FILSOCK UNOP, T_op ''='' STREQ BINOP, T_op ''!='' STRNE BINOP, T_op ''<'' STRLT BINOP,
     T_op ''>'' STRGT BINOP, T_op ''-eq'' INTEQ BINOP, T_op ''-ne'' INTNE BINOP, T_op ''-ge'' INTGE BINOP,
     T_op ''-gt'' INTGT BINOP, T_op ''-le'' INTLE BINOP, T_op ''-lt'' INTLT BINOP, T_op ''-nt'' FILNT BINOP,
     T_op ''-ot'' FILOT BINOP, T_op ''-ef'' FILEQ BINOP, T_op ''!'' UNOT BUNOP, T_op ''-a'' BAND BBINOP,
     T_op ''-o'' BOR BBINOP, T_op ''('' LPAREN PAREN, T_op '')'' RPAREN PAREN]"

definition find_op :: "string \<Rightarrow> t_op option" where
  "find_op s = find (\<lambda>op. op_text op = s) ops"

section \<open>State and errors\<close>

record test_state =
  nargc :: int
  t_wp :: int
  t_wp_op :: "t_op option"

datatype test_error = Failed string | Overrun | Endless

type_synonym 'a test = "test_state \<Rightarrow> test_error + 'a \<times> test_state"

definition yield :: "'a \<Rightarrow> 'a test" where
  "yield x s = Inr (x, s)"

definition fail :: "test_error \<Rightarrow> 'a test" where
  "fail e s = Inl e"

definition andthen :: "'a test \<Rightarrow> ('a \<Rightarrow> 'b test) \<Rightarrow> 'b test" where
  "andthen m f s = (case m s of Inl e \<Rightarrow> Inl e | Inr (x, t) \<Rightarrow> f x t)"

type_synonym argv = "string option list"

definition deref :: "argv \<Rightarrow> int \<Rightarrow> string option test" where
  "deref argv i = (if 0 \<le> i \<and> i < int (length argv) then yield (argv ! nat i) else fail Overrun)"

definition text_of :: "string option \<Rightarrow> string test" where
  "text_of p = (case p of None \<Rightarrow> fail Overrun | Some s \<Rightarrow> yield s)"

definition current :: "argv \<Rightarrow> int \<Rightarrow> string option test" where
  "current argv d s = deref argv (t_wp s + d) s"

text \<open>\<open>nargc > 0 ? (--nargc, *++t_wp) : NULL\<close>\<close>

definition next_arg :: "argv \<Rightarrow> string option test" where
  "next_arg argv s =
     (if nargc s > 0
      then andthen (\<lambda>s. yield () (s\<lparr>nargc := nargc s - 1, t_wp := t_wp s + 1\<rparr>)) (\<lambda>_. current argv 0) s
      else yield None s)"

definition step_back :: "unit test" where
  "step_back s = yield () (s\<lparr>t_wp := t_wp s - 1, nargc := nargc s + 1\<rparr>)"

definition syntax_error :: "string option \<Rightarrow> string \<Rightarrow> 'a test" where
  "syntax_error op msg = fail (Failed (case op of Some (c # o') \<Rightarrow> (c # o') @ '': '' @ msg | _ \<Rightarrow> msg))"

section \<open>The lexer\<close>

definition isoperand :: "argv \<Rightarrow> bool test" where
  "isoperand argv st =
     (if nargc st = 1 then yield True st
      else if nargc st = 2 then yield False st
      else andthen (current argv 1) (\<lambda>p. andthen (current argv 2) (\<lambda>q. andthen (text_of p) (\<lambda>s.
        case find_op s of
          None \<Rightarrow> yield False
        | Some op \<Rightarrow> if op_type op = BINOP then andthen (text_of q) (\<lambda>t. yield (t \<noteq> '')'')) else yield False))) st)"

definition set_op :: "t_op option \<Rightarrow> token \<Rightarrow> token test" where
  "set_op op n s = yield n (s\<lparr>t_wp_op := op\<rparr>)"

definition t_lex :: "argv \<Rightarrow> string option \<Rightarrow> token test" where
  "t_lex argv p =
     (case p of
        None \<Rightarrow> set_op None EOI
      | Some s \<Rightarrow> (case find_op s of
            None \<Rightarrow> set_op None OPERAND
          | Some op \<Rightarrow> andthen (if op_type op = UNOP then isoperand argv else yield False) (\<lambda>operand st.
              if operand \<or> op_num op = LPAREN \<and> nargc st = 1 then set_op None OPERAND st
              else set_op (Some op) (op_num op) st)))"

definition lex_next :: "argv \<Rightarrow> token test" where
  "lex_next argv = andthen (next_arg argv) (t_lex argv)"

section \<open>Numbers\<close>

fun skip_spaces :: "string \<Rightarrow> string" where
  "skip_spaces [] = []"
| "skip_spaces (c # s) = (if isspace c then skip_spaces s else c # s)"

definition scan_digits :: "string \<Rightarrow> (int \<times> string) option" where
  "scan_digits s = (let ds = takeWhile isdigit s in
     if ds = [] then None else Some (int (digits_val 0 ds), dropWhile isdigit s))"

text \<open>\<open>strtol\<close> and \<open>strtoimax\<close> in base 10: the number and what follows, or \<open>None\<close> when there is none.\<close>

definition scan_int :: "string \<Rightarrow> (int \<times> string) option" where
  "scan_int s = (case skip_spaces s of
      [] \<Rightarrow> None
    | c # t \<Rightarrow>
        if c = CHR ''-'' then map_option (\<lambda>(v, r). (- v, r)) (scan_digits t)
        else if c = CHR ''+'' then scan_digits t
        else scan_digits (c # t))"

definition get_number :: "nat \<Rightarrow> string \<Rightarrow> int test" where
  "get_number w s = (case scan_int s of
      None \<Rightarrow> fail (Failed (s @ '': bad number''))
    | Some (v, rest) \<Rightarrow>
        if v < - (2 ^ (w - 1)) \<or> v \<ge> 2 ^ (w - 1) then fail (Failed (s @ '': out of range''))
        else if skip_spaces rest \<noteq> [] then fail (Failed (s @ '': bad number''))
        else yield v)"

definition getn :: "string \<Rightarrow> int test" where
  "getn s = get_number 32 s"

definition getq :: "string \<Rightarrow> int test" where
  "getq s = get_number 64 s"

definition intcmp :: "string \<Rightarrow> string \<Rightarrow> int test" where
  "intcmp s1 s2 = andthen (getq s1) (\<lambda>q1. andthen (getq s2) (\<lambda>q2.
     yield (if q1 > q2 then 1 else if q1 < q2 then -1 else 0)))"

section \<open>Files\<close>

record file_stat =
  st_mode :: "32 word"
  st_size :: int
  st_uid :: int
  st_gid :: int
  st_dev :: int
  st_ino :: int
  st_mtime :: int
  st_mtimensec :: int

record file_system =
  fs_stat :: "string \<Rightarrow> file_stat option"
  fs_lstat :: "string \<Rightarrow> file_stat option"
  fs_access :: "string \<Rightarrow> char \<Rightarrow> bool"
  fs_isatty :: "int \<Rightarrow> bool"
  fs_euid :: int
  fs_egid :: int

definition is_kind :: "32 word \<Rightarrow> file_stat \<Rightarrow> bool" where
  "is_kind kind s \<longleftrightarrow> st_mode s AND 0xF000 = kind"

definition has_bits :: "32 word \<Rightarrow> file_stat \<Rightarrow> bool" where
  "has_bits m s \<longleftrightarrow> st_mode s AND m \<noteq> 0"

definition filstat :: "file_system \<Rightarrow> string \<Rightarrow> token \<Rightarrow> bool" where
  "filstat fs nm mode =
     (case (if mode = FILSYM then fs_lstat fs nm else fs_stat fs nm) of
        None \<Rightarrow> False
      | Some s \<Rightarrow> (case mode of
            FILRD \<Rightarrow> fs_access fs nm (CHR ''r'')
          | FILWR \<Rightarrow> fs_access fs nm (CHR ''w'')
          | FILEX \<Rightarrow> fs_access fs nm (CHR ''x'') \<and>
              (is_kind 0x4000 s \<or> fs_euid fs \<noteq> 0 \<or> has_bits 0x49 s)
          | FILEXIST \<Rightarrow> fs_access fs nm (CHR ''f'')
          | FILREG \<Rightarrow> is_kind 0x8000 s
          | FILDIR \<Rightarrow> is_kind 0x4000 s
          | FILCDEV \<Rightarrow> is_kind 0x2000 s
          | FILBDEV \<Rightarrow> is_kind 0x6000 s
          | FILFIFO \<Rightarrow> is_kind 0x1000 s
          | FILSOCK \<Rightarrow> is_kind 0xC000 s
          | FILSYM \<Rightarrow> is_kind 0xA000 s
          | FILSUID \<Rightarrow> has_bits 0x800 s
          | FILSGID \<Rightarrow> has_bits 0x400 s
          | FILSTCK \<Rightarrow> has_bits 0x200 s
          | FILGZ \<Rightarrow> st_size s > 0
          | FILUID \<Rightarrow> st_uid s = fs_euid fs
          | FILGID \<Rightarrow> st_gid s = fs_egid fs
          | _ \<Rightarrow> True))"

definition newerf :: "file_system \<Rightarrow> string \<Rightarrow> string \<Rightarrow> bool" where
  "newerf fs f1 f2 = (case (fs_stat fs f1, fs_stat fs f2) of
      (Some b1, Some b2) \<Rightarrow> st_mtime b1 > st_mtime b2 \<or>
        st_mtime b1 = st_mtime b2 \<and> st_mtimensec b1 > st_mtimensec b2
    | _ \<Rightarrow> False)"

definition olderf :: "file_system \<Rightarrow> string \<Rightarrow> string \<Rightarrow> bool" where
  "olderf fs f1 f2 = newerf fs f2 f1"

definition equalf :: "file_system \<Rightarrow> string \<Rightarrow> string \<Rightarrow> bool" where
  "equalf fs f1 f2 = (case (fs_stat fs f1, fs_stat fs f2) of
      (Some b1, Some b2) \<Rightarrow> st_dev b1 = st_dev b2 \<and> st_ino b1 = st_ino b2
    | _ \<Rightarrow> False)"

section \<open>The evaluator\<close>

fun strcmp :: "string \<Rightarrow> string \<Rightarrow> int" where
  "strcmp [] [] = 0"
| "strcmp [] (d # t) = -1"
| "strcmp (c # s) [] = 1"
| "strcmp (c # s) (d # t) =
     (if c = d then strcmp s t else if (of_char c :: nat) < of_char d then -1 else 1)"

definition eval_binop :: "file_system \<Rightarrow> token \<Rightarrow> string \<Rightarrow> string \<Rightarrow> bool test" where
  "eval_binop fs n opnd1 opnd2 =
     (let int_test = (\<lambda>rel. andthen (intcmp opnd1 opnd2) (\<lambda>c. yield (rel c))) in
      case n of
        STREQ \<Rightarrow> yield (strcmp opnd1 opnd2 = 0)
      | STRNE \<Rightarrow> yield (strcmp opnd1 opnd2 \<noteq> 0)
      | STRLT \<Rightarrow> yield (strcmp opnd1 opnd2 < 0)
      | STRGT \<Rightarrow> yield (strcmp opnd1 opnd2 > 0)
      | INTEQ \<Rightarrow> int_test (\<lambda>c. c = 0)
      | INTNE \<Rightarrow> int_test (\<lambda>c. c \<noteq> 0)
      | INTGE \<Rightarrow> int_test (\<lambda>c. c \<ge> 0)
      | INTGT \<Rightarrow> int_test (\<lambda>c. c > 0)
      | INTLE \<Rightarrow> int_test (\<lambda>c. c \<le> 0)
      | INTLT \<Rightarrow> int_test (\<lambda>c. c < 0)
      | FILNT \<Rightarrow> yield (newerf fs opnd1 opnd2)
      | FILOT \<Rightarrow> yield (olderf fs opnd1 opnd2)
      | FILEQ \<Rightarrow> yield (equalf fs opnd1 opnd2)
      | _ \<Rightarrow> fail (Failed ''abort''))"

definition binop :: "file_system \<Rightarrow> argv \<Rightarrow> bool test" where
  "binop fs argv = andthen (current argv 0) (\<lambda>opnd1. andthen (lex_next argv) (\<lambda>_ st.
     (case t_wp_op st of
        None \<Rightarrow> fail Overrun
      | Some op \<Rightarrow> andthen (next_arg argv) (\<lambda>opnd2.
          case opnd2 of
            None \<Rightarrow> syntax_error (Some (op_text op)) ''argument expected''
          | Some b \<Rightarrow> andthen (text_of opnd1) (\<lambda>a. eval_binop fs (op_num op) a b))) st))"

definition eval_unop :: "file_system \<Rightarrow> token \<Rightarrow> string \<Rightarrow> bool test" where
  "eval_unop fs n s =
     (case n of
        STREZ \<Rightarrow> yield (s = [])
      | STRNZ \<Rightarrow> yield (s \<noteq> [])
      | FILTT \<Rightarrow> andthen (getn s) (\<lambda>fd. yield (fs_isatty fs fd))
      | _ \<Rightarrow> yield (filstat fs s n))"

definition unop :: "file_system \<Rightarrow> argv \<Rightarrow> t_op \<Rightarrow> token \<Rightarrow> bool test" where
  "unop fs argv op n st =
     (let st = st\<lparr>nargc := nargc st - 1\<rparr> in
      if nargc st = 0 then syntax_error (Some (op_text op)) ''argument expected'' st
      else andthen (\<lambda>s. yield () (s\<lparr>t_wp := t_wp s + 1\<rparr>)) (\<lambda>_.
        andthen (current argv 0) (\<lambda>p. andthen (text_of p) (eval_unop fs n))) st)"

definition peek :: "argv \<Rightarrow> token test" where
  "peek argv st = andthen (if nargc st > 0 then current argv 1 else yield None) (t_lex argv) st"

definition operand_or_binop :: "file_system \<Rightarrow> argv \<Rightarrow> bool test" where
  "operand_or_binop fs argv = andthen (peek argv) (\<lambda>_ st.
     case t_wp_op st of
       Some op \<Rightarrow> if op_type op = BINOP then binop fs argv st
                  else andthen (current argv 0) (\<lambda>p. andthen (text_of p) (\<lambda>s. yield (s \<noteq> []))) st
     | None \<Rightarrow> andthen (current argv 0) (\<lambda>p. andthen (text_of p) (\<lambda>s. yield (s \<noteq> []))) st)"

fun oexpr :: "file_system \<Rightarrow> argv \<Rightarrow> nat \<Rightarrow> token \<Rightarrow> bool test"
  and aexpr :: "file_system \<Rightarrow> argv \<Rightarrow> nat \<Rightarrow> token \<Rightarrow> bool test"
  and nexpr :: "file_system \<Rightarrow> argv \<Rightarrow> nat \<Rightarrow> token \<Rightarrow> bool test"
  and primary :: "file_system \<Rightarrow> argv \<Rightarrow> nat \<Rightarrow> token \<Rightarrow> bool test" where
  "oexpr fs argv 0 n = fail Endless"
| "oexpr fs argv (Suc k) n = andthen (aexpr fs argv k n) (\<lambda>res. andthen (lex_next argv) (\<lambda>t.
     if t = BOR then andthen (lex_next argv) (\<lambda>u. andthen (oexpr fs argv k u) (\<lambda>right. yield (right \<or> res)))
     else andthen step_back (\<lambda>_. yield res)))"
| "aexpr fs argv 0 n = fail Endless"
| "aexpr fs argv (Suc k) n = andthen (nexpr fs argv k n) (\<lambda>res. andthen (lex_next argv) (\<lambda>t.
     if t = BAND then andthen (lex_next argv) (\<lambda>u. andthen (aexpr fs argv k u) (\<lambda>right. yield (right \<and> res)))
     else andthen step_back (\<lambda>_. yield res)))"
| "nexpr fs argv 0 n = fail Endless"
| "nexpr fs argv (Suc k) n =
     (if n = UNOT then andthen (lex_next argv) (\<lambda>t. andthen (nexpr fs argv k t) (\<lambda>res. yield (\<not> res)))
      else primary fs argv k n)"
| "primary fs argv 0 n = fail Endless"
| "primary fs argv (Suc k) n =
     (if n = EOI then yield False
      else if n = LPAREN then andthen (lex_next argv) (\<lambda>nn.
        if nn = RPAREN then yield False
        else andthen (oexpr fs argv k nn) (\<lambda>res. andthen (lex_next argv) (\<lambda>t.
          if t \<noteq> RPAREN then syntax_error None ''closing paren expected'' else yield res)))
      else (\<lambda>st. case t_wp_op st of
          Some op \<Rightarrow> if op_type op = UNOP then unop fs argv op n st else operand_or_binop fs argv st
        | None \<Rightarrow> operand_or_binop fs argv st))"

text \<open>\<open>rindex(argv[0], '/')\<close> and what follows.\<close>

definition base_name :: "string \<Rightarrow> string" where
  "base_name s = rev (takeWhile (\<lambda>c. c \<noteq> CHR ''/'') (rev s))"

definition test_expr :: "file_system \<Rightarrow> argv \<Rightarrow> int \<Rightarrow> test_error + int" where
  "test_expr fs argv argc =
     (if argc - 1 \<le> 0 then Inr 1
      else case andthen (andthen (current argv 0) (t_lex argv)) (oexpr fs argv (4 * nat argc))
          \<lparr>nargc = argc - 1, t_wp = 1, t_wp_op = None\<rparr> of
        Inl e \<Rightarrow> Inl e
      | Inr (v, st) \<Rightarrow>
          if nargc st - 1 > 0
          then map_sum id fst (andthen (current argv 0) (\<lambda>p. syntax_error p ''unexpected operator'') st)
          else Inr (if v then 0 else 1))"

definition test_main :: "file_system \<Rightarrow> string list \<Rightarrow> test_error + int" where
  "test_main fs argv =
     (if base_name (hd argv) = ''[''
      then if last argv \<noteq> '']'' then Inl (Failed ''missing ]'')
           else test_expr fs (map Some (butlast argv) @ [None, None]) (int (length argv) - 1)
      else test_expr fs (map Some argv @ [None]) (int (length argv)))"

section \<open>Positions in the argument vector\<close>

definition head :: "'a list \<Rightarrow> 'a option" where
  "head xs = (case xs of [] \<Rightarrow> None | x # _ \<Rightarrow> Some x)"

lemma head_simps [simp]: "head [] = None" "head (x # xs) = Some x"
  by (simp_all add: head_def)

lemma andthen_Inr [simp]: "m s = Inr (x, t) \<Longrightarrow> andthen m f s = f x t"
  and andthen_Inl [simp]: "m s = Inl e \<Longrightarrow> andthen m f s = Inl e"
  by (simp_all add: andthen_def)

lemma yield_eq [simp]: "yield x s = Inr (x, s)"
  by (simp add: yield_def)

lemma binop_not_paren:
  assumes "find_op x = Some op" "op_type op = BINOP"
  shows "op_num op \<noteq> LPAREN"
proof -
  have "op \<in> set ops" using assms(1) by (auto simp: find_op_def find_Some_iff)
  moreover have "\<forall>op\<in>set ops. op_type op = BINOP \<longrightarrow> op_num op \<noteq> LPAREN" by (simp add: ops_def)
  ultimately show ?thesis using assms(2) by blast
qed

text \<open>
  What the evaluator relies on: the vector holds the arguments, two at least with the program's
  name, and a null pointer behind them.
\<close>

locale arguments =
  fixes argv :: argv and args :: "string list"
  assumes argv_ge: "length args < length argv"
    and argv_nth: "i < length args \<Longrightarrow> argv ! i = Some (args ! i)"
    and argv_end: "argv ! length args = None"
    and some_args: "2 \<le> length args"
begin

text \<open>\<open>here rem s\<close>: \<open>rem\<close> is still to be read, its first element is the current argument.\<close>

definition here :: "string list \<Rightarrow> test_state \<Rightarrow> bool" where
  "here rem s \<longleftrightarrow> (\<exists>pre. args = pre @ rem \<and> pre \<noteq> [] \<and> nargc s = int (length rem) \<and> t_wp s = int (length pre))"

definition lexed :: "string list \<Rightarrow> token \<Rightarrow> test_state \<Rightarrow> bool" where
  "lexed rem n s \<longleftrightarrow> here rem s \<and> t_lex argv (head rem) s = Inr (n, s)"

lemma here_op [simp]: "here rem (s\<lparr>t_wp_op := x\<rparr>) = here rem s"
  by (simp add: here_def)

lemma here_nargc: "here rem s \<Longrightarrow> nargc s = int (length rem)"
  by (auto simp: here_def)

lemma current_here:
  assumes "here rem s" "d \<le> length rem"
  shows "current argv (int d) s = Inr (head (drop d rem), s)"
proof -
  obtain pre where pre: "args = pre @ rem" "t_wp s = int (length pre)"
    using assms(1) by (auto simp: here_def)
  have "length pre + d \<le> length args" using pre(1) assms(2) by simp
  moreover have "argv ! (length pre + d) = head (drop d rem)"
    using argv_nth [of "length pre + d"] argv_end pre(1) assms(2)
    by (cases "d = length rem") (simp_all add: nth_append head_def hd_drop_conv_nth Cons_nth_drop_Suc [symmetric])
  ultimately show ?thesis
    using pre argv_ge by (simp add: current_def deref_def nat_add_distrib flip: of_nat_add)
qed

lemma current_here_0: "here rem s \<Longrightarrow> current argv 0 s = Inr (head rem, s)"
  using current_here [of rem s 0] by simp

lemma here_forward:
  assumes "here (x # rem) s"
  shows "here rem (s\<lparr>nargc := nargc s - 1, t_wp := t_wp s + 1\<rparr>)"
proof -
  obtain pre where pre: "args = pre @ x # rem" "nargc s = int (length (x # rem))" "t_wp s = int (length pre)"
    using assms by (auto simp: here_def)
  then show ?thesis unfolding here_def by (intro exI [of _ "pre @ [x]"]) simp
qed

lemma next_arg_here:
  "here [] s \<Longrightarrow> next_arg argv s = Inr (None, s)"
  "here (x # rem) s \<Longrightarrow>
   next_arg argv s = Inr (head rem, s\<lparr>nargc := nargc s - 1, t_wp := t_wp s + 1\<rparr>)"
  using here_nargc [of "[]" s] here_nargc [of "x # rem" s] current_here_0 [OF here_forward, of x rem s]
  by (simp_all add: next_arg_def)

lemma isoperand_here:
  assumes "here rem s" "rem \<noteq> []"
  shows "isoperand argv s = Inr (length rem = 1 \<or> length rem \<ge> 3 \<and>
    (\<exists>op. find_op (rem ! 1) = Some op \<and> op_type op = BINOP \<and> rem ! 2 \<noteq> '')''), s)"
proof (cases "length rem \<ge> 3")
  case True
  then obtain x y z zs where rem: "rem = x # y # z # zs" by (auto simp: numeral_eq_Suc Suc_le_length_iff)
  then show ?thesis
    using current_here [of rem s 1] current_here [of rem s 2] assms here_nargc [OF assms(1)]
    by (auto simp: isoperand_def text_of_def split: option.splits)
next
  case False
  then have "length rem = 1 \<or> length rem = 2" using assms(2) by (simp flip: length_greater_0_conv) linarith
  then show ?thesis using here_nargc [OF assms(1)] by (auto simp: isoperand_def)
qed

text \<open>The token at a position: the lexer never fails, and does not move.\<close>

definition token_at :: "string list \<Rightarrow> token \<times> t_op option" where
  "token_at rem = (case rem of
      [] \<Rightarrow> (EOI, None)
    | s # _ \<Rightarrow> (case find_op s of
        None \<Rightarrow> (OPERAND, None)
      | Some op \<Rightarrow>
          if op_type op = UNOP \<and> (length rem = 1 \<or> length rem \<ge> 3 \<and>
               (\<exists>b. find_op (rem ! 1) = Some b \<and> op_type b = BINOP \<and> rem ! 2 \<noteq> '')''))
             \<or> op_num op = LPAREN \<and> length rem = 1
          then (OPERAND, None) else (op_num op, Some op)))"

lemma t_lex_here:
  assumes "here rem s"
  shows "t_lex argv (head rem) s = Inr (fst (token_at rem), s\<lparr>t_wp_op := snd (token_at rem)\<rparr>)"
proof (cases rem)
  case Nil
  then show ?thesis by (simp add: t_lex_def set_op_def token_at_def)
next
  case (Cons x xs)
  then show ?thesis
    using isoperand_here [OF assms] here_nargc [OF assms]
    by (auto simp: t_lex_def set_op_def token_at_def split: option.splits)
qed

lemma same_op: "(s\<lparr>t_wp_op := v\<rparr> = s) = (t_wp_op s = v)" "(s = s\<lparr>t_wp_op := v\<rparr>) = (t_wp_op s = v)"
  by (cases s; auto)+

lemma lexed_iff: "lexed rem n s \<longleftrightarrow> here rem s \<and> n = fst (token_at rem) \<and> t_wp_op s = snd (token_at rem)"
  using t_lex_here [of rem s] by (auto simp: lexed_def same_op(1) iff: same_op(2))

lemma lex_next_here:
  assumes "here rem s"
  obtains s' where "lex_next argv s = Inr (fst (token_at (tl rem)), s')" "lexed (tl rem) (fst (token_at (tl rem))) s'"
    "step_back s' = Inr ((), s'\<lparr>t_wp := t_wp s' - 1, nargc := nargc s' + 1\<rparr>)"
    "here (if rem = [] then [last args] else rem) (s'\<lparr>t_wp := t_wp s' - 1, nargc := nargc s' + 1\<rparr>)"
proof (cases rem)
  case Nil
  let ?s = "s\<lparr>t_wp_op := None\<rparr>"
  have pre: "t_wp s = int (length args)" "nargc s = 0" using assms Nil by (auto simp: here_def)
  have args: "args \<noteq> []" "butlast args \<noteq> []"
    using some_args by (auto simp: length_0_conv [symmetric] simp del: length_0_conv)
  have "here [last args] (?s\<lparr>t_wp := t_wp ?s - 1, nargc := nargc ?s + 1\<rparr>)"
    unfolding here_def using pre args some_args by (intro exI [of _ "butlast args"]) (simp add: of_nat_diff)
  then show ?thesis
    using assms Nil next_arg_here(1) [of s] t_lex_here [of "[]" s]
    by (intro that [of ?s]) (simp_all add: lex_next_def lexed_iff token_at_def step_back_def)
next
  case (Cons x xs)
  let ?t = "s\<lparr>nargc := nargc s - 1, t_wp := t_wp s + 1\<rparr>"
  let ?s = "?t\<lparr>t_wp_op := snd (token_at xs)\<rparr>"
  have t: "here xs ?t" using here_forward assms Cons by simp
  have "here rem (?s\<lparr>t_wp := t_wp ?s - 1, nargc := nargc ?s + 1\<rparr>)"
    using assms by (simp add: here_def)
  then show ?thesis
    using t assms Cons next_arg_here(2) [of x xs s] t_lex_here [OF t]
    by (intro that [of ?s]) (simp_all add: lex_next_def lexed_iff step_back_def)
qed

text \<open>
  \<open>good m r s\<close>: the run of \<open>m\<close> in \<open>s\<close> ends with an error message or at a position with at most \<open>r\<close>
  arguments left.
\<close>

definition good :: "'a test \<Rightarrow> nat \<Rightarrow> test_state \<Rightarrow> bool" where
  "good m r s \<longleftrightarrow> (case m s of
      Inl e \<Rightarrow> e \<noteq> Overrun \<and> e \<noteq> Endless
    | Inr (x, t) \<Rightarrow> (\<exists>rem. here rem t \<and> length rem \<le> r))"

lemma good_mono: "good m r s \<Longrightarrow> r \<le> r' \<Longrightarrow> good m r' s"
  by (fastforce simp: good_def split: sum.splits)

lemma good_Failed [simp]: "m s = Inl (Failed e) \<Longrightarrow> good m r s"
  by (simp add: good_def)

lemma good_Inr: "m s = Inr (x, t) \<Longrightarrow> here rem t \<Longrightarrow> length rem \<le> r \<Longrightarrow> good m r s"
  by (auto simp: good_def)

lemma good_andthen:
  assumes "good m r s" "\<And>x t rem. m s = Inr (x, t) \<Longrightarrow> here rem t \<Longrightarrow> length rem \<le> r \<Longrightarrow> good (f x) r' t"
  shows "good (andthen m f) r' s"
proof (cases "m s")
  case (Inl e)
  then show ?thesis using assms(1) by (simp add: good_def)
next
  case (Inr p)
  then obtain x t where p: "m s = Inr (x, t)" by (cases p) auto
  with assms(1) obtain rem where "here rem t" "length rem \<le> r" by (auto simp: good_def)
  from assms(2) [OF p this] show ?thesis using p by (simp add: good_def)
qed

lemma eval_unop_cases: "(\<exists>v. eval_unop fs n x s = Inr (v, s)) \<or> (\<exists>e. eval_unop fs n x s = Inl (Failed e))"
  by (auto simp: eval_unop_def getn_def get_number_def fail_def andthen_def split: token.splits option.splits)

lemma getq_cases: "(\<exists>v. getq x s = Inr (v, s)) \<or> (\<exists>e. getq x s = Inl (Failed e))"
  by (auto simp: getq_def get_number_def fail_def split: option.splits)

lemma intcmp_cases: "(\<exists>v. intcmp x y s = Inr (v, s)) \<or> (\<exists>e. intcmp x y s = Inl (Failed e))"
  using getq_cases [of x s] getq_cases [of y s] by (auto simp: intcmp_def)

lemma eval_binop_cases: "(\<exists>v. eval_binop fs n x y s = Inr (v, s)) \<or> (\<exists>e. eval_binop fs n x y s = Inl (Failed e))"
  using intcmp_cases [of x y s] by (cases n) (auto simp: eval_binop_def Let_def fail_def)

lemma unop_run:
  assumes "here (u # x # post) s"
  shows "\<exists>t. here (x # post) t \<and> unop fs argv op n s = eval_unop fs n x t"
proof -
  let ?t = "s\<lparr>nargc := nargc s - 1, t_wp := t_wp s + 1\<rparr>"
  have t: "here (x # post) ?t" by (rule here_forward [OF assms])
  have "unop fs argv op n s = eval_unop fs n x ?t"
    using here_nargc [OF assms] current_here_0 [OF t] by (simp add: unop_def Let_def text_of_def)
  then show ?thesis using t by blast
qed

lemma good_unop:
  assumes "here (u # x # post) s"
  shows "good (unop fs argv op n) (length (x # post)) s"
proof -
  obtain t where t: "here (x # post) t" "unop fs argv op n s = eval_unop fs n x t"
    using unop_run [OF assms] by blast
  then show ?thesis
    using eval_unop_cases [of fs n x t] good_Inr [OF _ t(1), of "unop fs argv op n" s] by auto
qed

lemma binop_run:
  assumes "here (a # o' # post) s" "find_op o' = Some op" "op_type op = BINOP"
  shows "\<exists>t. here post t \<and> binop fs argv s =
    (case post of [] \<Rightarrow> syntax_error (Some (op_text op)) ''argument expected'' t
     | b # _ \<Rightarrow> eval_binop fs (op_num op) a b t)"
proof -
  obtain u where u: "lex_next argv s = Inr (fst (token_at (o' # post)), u)"
    "lexed (o' # post) (fst (token_at (o' # post))) u"
    using lex_next_here [OF assms(1)] by auto
  have "token_at (o' # post) = (op_num op, Some op)"
    using assms(2,3) binop_not_paren by (auto simp: token_at_def)
  then have here: "here (o' # post) u" "t_wp_op u = Some op" using u(2) by (simp_all add: lexed_iff)
  let ?t = "u\<lparr>nargc := nargc u - 1, t_wp := t_wp u + 1\<rparr>"
  have "here post ?t" by (rule here_forward [OF here(1)])
  moreover have "binop fs argv s = (case post of [] \<Rightarrow> syntax_error (Some (op_text op)) ''argument expected'' ?t
     | b # _ \<Rightarrow> eval_binop fs (op_num op) a b ?t)"
    using current_here_0 [OF assms(1)] u(1) here(2) next_arg_here(2) [OF here(1)]
    by (cases post) (simp_all add: binop_def text_of_def)
  ultimately show ?thesis by blast
qed

lemma good_binop:
  assumes "here (a # o' # post) s" "find_op o' = Some op" "op_type op = BINOP"
  shows "good (binop fs argv) (length post) s"
proof -
  obtain t where t: "here post t" "binop fs argv s =
      (case post of [] \<Rightarrow> syntax_error (Some (op_text op)) ''argument expected'' t
       | b # _ \<Rightarrow> eval_binop fs (op_num op) a b t)"
    using binop_run [OF assms] by blast
  show ?thesis
  proof (cases post)
    case Nil
    then show ?thesis using t(2) by (simp add: syntax_error_def fail_def)
  next
    case (Cons b bs)
    then show ?thesis
      using t eval_binop_cases [of fs "op_num op" a b t] good_Inr [OF _ t(1), of "binop fs argv" s] by auto
  qed
qed

lemma peek_here:
  assumes "here (a # xs) s"
  obtains n v where "peek argv s = Inr (n, s\<lparr>t_wp_op := v\<rparr>)"
    "\<And>op. v = Some op \<and> op_type op = BINOP \<longleftrightarrow> (\<exists>x ys. xs = x # ys \<and> find_op x = Some op \<and> op_type op = BINOP)"
proof -
  have next1: "current argv 1 s = Inr (head xs, s)"
    using current_here [OF assms, of 1] by (simp add: drop_Suc_Cons)
  have run: "peek argv s = t_lex argv (head xs) s"
    using next1 here_nargc [OF assms] by (simp add: peek_def)
  show thesis
  proof (cases xs)
    case Nil
    then show thesis using run that [of EOI None] by (simp add: t_lex_def set_op_def)
  next
    case (Cons x ys)
    show thesis
    proof (cases "find_op x")
      case None
      then show thesis using run Cons that [of OPERAND None] by (simp add: t_lex_def set_op_def)
    next
      case (Some op)
      show thesis
      proof (cases "op_type op = UNOP")
        case True
        obtain b where b: "isoperand argv s = Inr (b, s)" using isoperand_here [OF assms] by simp
        have "nargc s \<noteq> 1" using here_nargc [OF assms] Cons by simp
        then have "peek argv s = (if b then Inr (OPERAND, s\<lparr>t_wp_op := None\<rparr>)
            else Inr (op_num op, s\<lparr>t_wp_op := Some op\<rparr>))"
          using run Cons Some True b by (simp add: t_lex_def set_op_def)
        then have run': "peek argv s = Inr (if b then OPERAND else op_num op, s\<lparr>t_wp_op := if b then None else Some op\<rparr>)"
          by simp
        show thesis by (rule that [OF run']) (use Cons Some True in \<open>auto split: if_splits\<close>)
      next
        case False
        have "nargc s \<noteq> 1" using here_nargc [OF assms] Cons by simp
        then have "peek argv s = Inr (op_num op, s\<lparr>t_wp_op := Some op\<rparr>)"
          using run Cons Some False by (simp add: t_lex_def set_op_def)
        then show thesis using that [of "op_num op" "Some op"] Cons Some by auto
      qed
    qed
  qed
qed

lemma operand_or_binop_run:
  assumes "here (a # xs) s"
  shows "\<exists>v. here (a # xs) (s\<lparr>t_wp_op := v\<rparr>) \<and> operand_or_binop fs argv s =
    (if \<exists>x ys op. xs = x # ys \<and> find_op x = Some op \<and> op_type op = BINOP
     then binop fs argv (s\<lparr>t_wp_op := v\<rparr>) else Inr (a \<noteq> [], s\<lparr>t_wp_op := v\<rparr>))"
proof -
  obtain n v where v: "peek argv s = Inr (n, s\<lparr>t_wp_op := v\<rparr>)"
    "\<And>op. v = Some op \<and> op_type op = BINOP \<longleftrightarrow> (\<exists>x ys. xs = x # ys \<and> find_op x = Some op \<and> op_type op = BINOP)"
    by (rule peek_here [OF assms]) blast
  have here: "here (a # xs) (s\<lparr>t_wp_op := v\<rparr>)" using assms by simp
  have "operand_or_binop fs argv s =
    (if \<exists>op. v = Some op \<and> op_type op = BINOP
     then binop fs argv (s\<lparr>t_wp_op := v\<rparr>) else Inr (a \<noteq> [], s\<lparr>t_wp_op := v\<rparr>))"
    using v(1) current_here_0 [OF here] by (cases v) (simp_all add: operand_or_binop_def text_of_def)
  then show ?thesis using v(2) here by metis
qed

lemma good_operand_or_binop:
  assumes "here (a # xs) s"
  shows "good (operand_or_binop fs argv) (length (a # xs)) s"
proof -
  obtain v where v: "here (a # xs) (s\<lparr>t_wp_op := v\<rparr>)" "operand_or_binop fs argv s =
    (if \<exists>x ys op. xs = x # ys \<and> find_op x = Some op \<and> op_type op = BINOP
     then binop fs argv (s\<lparr>t_wp_op := v\<rparr>) else Inr (a \<noteq> [], s\<lparr>t_wp_op := v\<rparr>))"
    using operand_or_binop_run [OF assms] by blast
  show ?thesis
  proof (cases "\<exists>x ys op. xs = x # ys \<and> find_op x = Some op \<and> op_type op = BINOP")
    case True
    then obtain x ys op where x: "xs = x # ys" "find_op x = Some op" "op_type op = BINOP" by blast
    have "good (binop fs argv) (length ys) (s\<lparr>t_wp_op := v\<rparr>)"
      using good_binop [OF v(1) [unfolded x(1)] x(2,3)] by simp
    then have "good (operand_or_binop fs argv) (length ys) s" using v(2) True by (simp add: good_def)
    then show ?thesis by (rule good_mono) (simp add: x(1))
  next
    case False
    then have "operand_or_binop fs argv s = Inr (a \<noteq> [], s\<lparr>t_wp_op := v\<rparr>)" using v(2) by (simp only: if_False)
    then show ?thesis by (rule good_Inr [OF _ v(1)]) simp
  qed
qed

lemma token_UNOP:
  assumes "snd (token_at rem) = Some op" "op_type op = UNOP"
  obtains u x post where "rem = u # x # post"
proof (cases rem)
  case (Cons u xs)
  then have "xs \<noteq> []" using assms by (auto simp: token_at_def split: option.splits if_splits)
  then show ?thesis using that Cons by (cases xs) auto
qed (use assms in \<open>simp add: token_at_def\<close>)

lemma token_EOI: "rem = [] \<longleftrightarrow> fst (token_at rem) = EOI"
proof
  have "\<forall>op\<in>set ops. op_num op \<noteq> EOI" by (simp add: ops_def)
  moreover assume "fst (token_at rem) = EOI"
  ultimately show "rem = []"
    by (auto simp: token_at_def find_op_def find_Some_iff split: list.splits option.splits if_splits)
qed (simp add: token_at_def)

text \<open>Reading on after a sub-expression: either the operator is there, or the position is restored.\<close>

lemma good_more:
  assumes here: "here rem s" and r: "length rem \<le> max r 1"
    and rec: "\<And>t u. lexed (tl (tl rem)) t u \<Longrightarrow> 2 \<le> length rem \<Longrightarrow> good (f t) (max r 1) u"
    and op: "op \<noteq> EOI"
  shows "good (andthen (lex_next argv) (\<lambda>t. if t = op then andthen (lex_next argv) f
    else andthen step_back (\<lambda>_. yield res))) (max r 1) s"
proof -
  obtain t where t: "lex_next argv s = Inr (fst (token_at (tl rem)), t)" "lexed (tl rem) (fst (token_at (tl rem))) t"
    "step_back t = Inr ((), t\<lparr>t_wp := t_wp t - 1, nargc := nargc t + 1\<rparr>)"
    "here (if rem = [] then [last args] else rem) (t\<lparr>t_wp := t_wp t - 1, nargc := nargc t + 1\<rparr>)"
    by (rule lex_next_here [OF here]) blast
  show ?thesis
  proof (cases "fst (token_at (tl rem)) = op")
    case True
    then have "tl rem \<noteq> []" using op token_EOI [of "tl rem"] by auto
    then have 2: "2 \<le> length rem" by (cases rem; cases "tl rem") auto
    have "here (tl rem) t" using t(2) by (simp add: lexed_iff)
    then obtain u where u: "lex_next argv t = Inr (fst (token_at (tl (tl rem))), u)"
      "lexed (tl (tl rem)) (fst (token_at (tl (tl rem)))) u"
      by (rule lex_next_here) blast
    show ?thesis using t(1) True u(1) rec [OF u(2) 2] by (simp add: good_def)
  next
    case False
    then show ?thesis using t r by (auto simp: good_def split: if_splits)
  qed
qed

text \<open>
  The four functions, each relying on the ones it calls with less fuel. A position with \<open>r\<close>
  arguments left needs \<open>4 * r + 4\<close> units for \<open>oexpr\<close>, and one less for each level below.
\<close>

definition good_o :: "file_system \<Rightarrow> nat \<Rightarrow> bool" where
  "good_o fs k \<longleftrightarrow> (\<forall>rem n s. lexed rem n s \<longrightarrow> 4 * length rem + 4 \<le> k \<longrightarrow>
     good (oexpr fs argv k n) (max (length rem) 1) s)"

definition good_a :: "file_system \<Rightarrow> nat \<Rightarrow> bool" where
  "good_a fs k \<longleftrightarrow> (\<forall>rem n s. lexed rem n s \<longrightarrow> 4 * length rem + 3 \<le> k \<longrightarrow>
     good (aexpr fs argv k n) (max (length rem) 1) s)"

definition good_n :: "file_system \<Rightarrow> nat \<Rightarrow> bool" where
  "good_n fs k \<longleftrightarrow> (\<forall>rem n s. lexed rem n s \<longrightarrow> 4 * length rem + 2 \<le> k \<longrightarrow>
     good (nexpr fs argv k n) (length rem) s)"

definition good_p :: "file_system \<Rightarrow> nat \<Rightarrow> bool" where
  "good_p fs k \<longleftrightarrow> (\<forall>rem n s. lexed rem n s \<longrightarrow> 4 * length rem + 1 \<le> k \<longrightarrow>
     good (primary fs argv k n) (length rem) s)"

lemma good_oexpr:
  assumes IHa: "good_a fs k" and IHo: "good_o fs k"
  shows "good_o fs (Suc k)"
  unfolding good_o_def oexpr.simps
proof (intro allI impI)
  fix rem n s assume that: "lexed rem n s" "4 * length rem + 4 \<le> Suc k"
  have "good (aexpr fs argv k n) (max (length rem) 1) s" using IHa that by (auto simp: good_a_def)
  then show "good (andthen (aexpr fs argv k n) (\<lambda>res. andthen (lex_next argv) (\<lambda>t. if t = BOR
        then andthen (lex_next argv) (\<lambda>u. andthen (oexpr fs argv k u) (\<lambda>right. yield (right \<or> res)))
        else andthen step_back (\<lambda>_. yield res)))) (max (length rem) 1) s"
  proof (rule good_andthen)
    fix res t rem' assume t: "here rem' t" "length rem' \<le> max (length rem) 1"
    show "good (andthen (lex_next argv) (\<lambda>t. if t = BOR
        then andthen (lex_next argv) (\<lambda>u. andthen (oexpr fs argv k u) (\<lambda>right. yield (right \<or> res)))
        else andthen step_back (\<lambda>_. yield res))) (max (length rem) 1) t"
    proof (rule good_more [OF t])
      fix u v assume u: "lexed (tl (tl rem')) u v" "2 \<le> length rem'"
      have "4 * length (tl (tl rem')) + 4 \<le> k" using t(2) u(2) that(2) by auto
      then have "good (oexpr fs argv k u) (max (length (tl (tl rem'))) 1) v"
        using IHo u(1) unfolding good_o_def by blast
      then show "good (andthen (oexpr fs argv k u) (\<lambda>right. yield (right \<or> res))) (max (length rem) 1) v"
        by (rule good_andthen) (use t(2) u(2) in \<open>auto intro!: good_Inr\<close>)
    qed simp
  qed
qed

lemma good_aexpr:
  assumes IHn: "good_n fs k" and IHa: "good_a fs k"
  shows "good_a fs (Suc k)"
  unfolding good_a_def aexpr.simps
proof (intro allI impI)
  fix rem n s assume that: "lexed rem n s" "4 * length rem + 3 \<le> Suc k"
  have "good (nexpr fs argv k n) (length rem) s" using IHn that by (auto simp: good_n_def)
  then show "good (andthen (nexpr fs argv k n) (\<lambda>res. andthen (lex_next argv) (\<lambda>t. if t = BAND
        then andthen (lex_next argv) (\<lambda>u. andthen (aexpr fs argv k u) (\<lambda>right. yield (right \<and> res)))
        else andthen step_back (\<lambda>_. yield res)))) (max (length rem) 1) s"
  proof (rule good_andthen)
    fix res t rem' assume t: "here rem' t" "length rem' \<le> length rem"
    show "good (andthen (lex_next argv) (\<lambda>t. if t = BAND
        then andthen (lex_next argv) (\<lambda>u. andthen (aexpr fs argv k u) (\<lambda>right. yield (right \<and> res)))
        else andthen step_back (\<lambda>_. yield res))) (max (length rem) 1) t"
    proof (rule good_more [OF t(1)])
      fix u v assume u: "lexed (tl (tl rem')) u v" "2 \<le> length rem'"
      have "4 * length (tl (tl rem')) + 3 \<le> k" using t(2) u(2) that(2) by auto
      then have "good (aexpr fs argv k u) (max (length (tl (tl rem'))) 1) v"
        using IHa u(1) unfolding good_a_def by blast
      then show "good (andthen (aexpr fs argv k u) (\<lambda>right. yield (right \<and> res))) (max (length rem) 1) v"
        by (rule good_andthen) (use t(2) u(2) in \<open>auto intro!: good_Inr\<close>)
    qed (use t(2) in auto)
  qed
qed

lemma good_nexpr:
  assumes IHn: "good_n fs k" and IHp: "good_p fs k"
  shows "good_n fs (Suc k)"
  unfolding good_n_def
proof (intro allI impI)
  fix rem n s assume that: "lexed rem n s" "4 * length rem + 2 \<le> Suc k"
  show "good (nexpr fs argv (Suc k) n) (length rem) s"
  proof (cases "n = UNOT")
    case True
    have here: "here rem s" "rem \<noteq> []" using that(1) True token_EOI [of rem] by (auto simp: lexed_iff)
    obtain t where t: "lex_next argv s = Inr (fst (token_at (tl rem)), t)"
      "lexed (tl rem) (fst (token_at (tl rem))) t"
      by (rule lex_next_here [OF here(1)]) blast
    have "4 * length (tl rem) + 2 \<le> k" using that(2) here(2) by (cases rem) auto
    then have "good (nexpr fs argv k (fst (token_at (tl rem)))) (length (tl rem)) t"
      using IHn t(2) unfolding good_n_def by blast
    then have "good (andthen (nexpr fs argv k (fst (token_at (tl rem)))) (\<lambda>res. yield (\<not> res))) (length rem) t"
      by (rule good_andthen) (auto intro!: good_Inr)
    then show ?thesis using True t(1) by (simp add: good_def)
  next
    case False
    then show ?thesis using IHp that by (simp add: good_p_def good_def)
  qed
qed

lemma good_paren:
  assumes IHo: "good_o fs k" and here: "here rem s" "rem \<noteq> []" and k: "4 * length rem \<le> k"
  shows "good (andthen (lex_next argv) (\<lambda>nn. if nn = RPAREN then yield False
        else andthen (oexpr fs argv k nn) (\<lambda>res. andthen (lex_next argv) (\<lambda>t.
          if t \<noteq> RPAREN then syntax_error None ''closing paren expected'' else yield res)))) (length rem) s"
proof -
  let ?n = "fst (token_at (tl rem))"
  obtain t where t: "lex_next argv s = Inr (?n, t)" "lexed (tl rem) ?n t"
    by (rule lex_next_here [OF here(1)]) blast
  have "4 * length (tl rem) + 4 \<le> k" using k here(2) by (cases rem) auto
  then have "good (oexpr fs argv k ?n) (max (length (tl rem)) 1) t"
    using IHo t(2) unfolding good_o_def by blast
  then have "good (andthen (oexpr fs argv k ?n) (\<lambda>res. andthen (lex_next argv) (\<lambda>t.
          if t \<noteq> RPAREN then syntax_error None ''closing paren expected'' else yield res))) (length rem) t"
  proof (rule good_andthen)
    fix res u rem' assume u: "here rem' u" "length rem' \<le> max (length (tl rem)) 1"
    obtain v where v: "lex_next argv u = Inr (fst (token_at (tl rem')), v)"
      "lexed (tl rem') (fst (token_at (tl rem'))) v"
      by (rule lex_next_here [OF u(1)]) blast
    have "here (tl rem') v" "length (tl rem') \<le> length rem" using v(2) u(2) by (auto simp: lexed_iff)
    then show "good (andthen (lex_next argv) (\<lambda>t.
          if t \<noteq> RPAREN then syntax_error None ''closing paren expected'' else yield res)) (length rem) u"
      using v(1) by (auto simp: good_def syntax_error_def fail_def)
  qed
  moreover have "good (yield False) (length rem) t"
    using t(2) by (auto simp: lexed_iff intro!: good_Inr)
  ultimately show ?thesis using t(1) by (simp add: good_def)
qed

lemma good_primary:
  assumes "good_o fs k"
  shows "good_p fs (Suc k)"
  unfolding good_p_def
proof (intro allI impI)
  fix rem n s assume that: "lexed rem n s" "4 * length rem + 1 \<le> Suc k"
  have here: "here rem s" "n = fst (token_at rem)" "t_wp_op s = snd (token_at rem)"
    using that(1) by (simp_all add: lexed_iff)
  show "good (primary fs argv (Suc k) n) (length rem) s"
  proof (cases "rem = []")
    case True
    then show ?thesis using here token_EOI [of rem] by (auto intro!: good_Inr)
  next
    case False
    then obtain a xs where rem: "rem = a # xs" by (cases rem) auto
    have n: "n \<noteq> EOI" using False token_EOI [of rem] by (simp add: here(2))
    have paren: "good (primary fs argv (Suc k) n) (length rem) s" if "n = LPAREN"
      using good_paren [OF assms here(1) False] \<open>4 * length rem + 1 \<le> Suc k\<close> that n by (simp add: good_def)
    have op: "good (operand_or_binop fs argv) (length rem) s"
      using good_operand_or_binop here(1) rem by simp
    have un: "good (unop fs argv op n) (length rem) s" if "t_wp_op s = Some op" "op_type op = UNOP" for op
    proof -
      have "snd (token_at rem) = Some op" using that(1) here(3) by simp
      from this that(2) obtain u x post where "rem = u # x # post" by (rule token_UNOP)
      then show ?thesis using good_mono [OF good_unop [of u x post s fs op n]] here(1) by simp
    qed
    have rest: "primary fs argv (Suc k) n s = (case t_wp_op s of
          Some op \<Rightarrow> if op_type op = UNOP then unop fs argv op n s else operand_or_binop fs argv s
        | None \<Rightarrow> operand_or_binop fs argv s)" if "n \<noteq> LPAREN"
      using n that by simp
    show ?thesis
    proof (cases "n = LPAREN")
      case False
      then show ?thesis
        using op un unfolding good_def rest [OF False] by (cases "t_wp_op s") (simp_all split: if_splits)
    qed (rule paren)
  qed
qed

lemma evaluator_good: "good_o fs k \<and> good_a fs k \<and> good_n fs k \<and> good_p fs k"
proof (induction k)
  case 0
  then show ?case by (simp add: good_o_def good_a_def good_n_def good_p_def)
next
  case (Suc k)
  then show ?case using good_oexpr good_aexpr good_nexpr good_primary by blast
qed

text \<open>The evaluation starts at the second argument.\<close>

abbreviation start :: "test_state" where
  "start \<equiv> \<lparr>nargc = int (length args) - 1, t_wp = 1, t_wp_op = None\<rparr>"

lemma test_start:
  obtains n t where "lexed (tl args) n t" "andthen (current argv 0) (t_lex argv) start = Inr (n, t)"
proof -
  obtain p rest where args: "args = p # rest" using some_args by (cases args) auto
  have here: "here (tl args) start"
    unfolding here_def by (rule exI [of _ "[p]"]) (simp add: args)
  then have "lexed (tl args) (fst (token_at (tl args))) (start\<lparr>t_wp_op := snd (token_at (tl args))\<rparr>)"
    by (simp add: lexed_iff here_def)
  moreover have "andthen (current argv 0) (t_lex argv) start =
      Inr (fst (token_at (tl args)), start\<lparr>t_wp_op := snd (token_at (tl args))\<rparr>)"
    using current_here_0 [OF here] t_lex_here [OF here] by simp
  ultimately show thesis by (rule that)
qed

lemma test_expr_run:
  obtains n t where "lexed (tl args) n t"
    "test_expr fs argv (int (length args)) =
       (case oexpr fs argv (4 * length args) n t of
          Inl e \<Rightarrow> Inl e
        | Inr (v, st) \<Rightarrow>
            if nargc st - 1 > 0
            then map_sum id fst (andthen (current argv 0) (\<lambda>p. syntax_error p ''unexpected operator'') st)
            else Inr (if v then 0 else 1))"
proof (rule test_start)
  fix n t assume "lexed (tl args) n t" "andthen (current argv 0) (t_lex argv) start = Inr (n, t)"
  then show thesis using some_args by (intro that [of n t]) (simp_all add: test_expr_def)
qed

lemma test_expr_ends:
  "test_expr fs argv (int (length args)) \<noteq> Inl Overrun \<and> test_expr fs argv (int (length args)) \<noteq> Inl Endless"
proof (rule test_expr_run)
  fix n t
  assume lexed: "lexed (tl args) n t" and run: "test_expr fs argv (int (length args)) =
       (case oexpr fs argv (4 * length args) n t of
          Inl e \<Rightarrow> Inl e
        | Inr (v, st) \<Rightarrow>
            if nargc st - 1 > 0
            then map_sum id fst (andthen (current argv 0) (\<lambda>p. syntax_error p ''unexpected operator'') st)
            else Inr (if v then 0 else 1))"
  have "4 * length (tl args) + 4 \<le> 4 * length args" using some_args by simp
  then have good: "good (oexpr fs argv (4 * length args) n) (max (length (tl args)) 1) t"
    using evaluator_good lexed unfolding good_o_def by blast
  show ?thesis
  proof (cases "oexpr fs argv (4 * length args) n t")
    case (Inl e)
    then show ?thesis using good run by (simp add: good_def)
  next
    case (Inr x)
    then obtain v st where st: "oexpr fs argv (4 * length args) n t = Inr (v, st)" by (cases x) auto
    then obtain rem where "here rem st" using good by (auto simp: good_def)
    from current_here_0 [OF this] show ?thesis using st run by (auto simp: syntax_error_def fail_def)
  qed
qed

end

section \<open>Memory safety and termination\<close>

text \<open>The vectors \<open>test_main\<close> builds: at least two arguments, a null pointer, and what was behind it.\<close>

interpretation argument_vector: arguments "map Some (p # x # rest) @ None # beyond" "p # x # rest"
  for p x rest beyond
  by unfold_locales (simp_all add: nth_append flip: list.map)

text \<open>
  C20: whatever the arguments and the files, \<open>test\<close> and \<open>[\<close> end, with a result or an error message, and
  never read outside of the argument vector or through its terminating null pointer.
\<close>

theorem test_safe:
  assumes "argv \<noteq> []"
  shows "case test_main fs argv of Inl e \<Rightarrow> (\<exists>msg. e = Failed msg) | Inr v \<Rightarrow> v = 0 \<or> v = 1"
proof -
  have short: "test_expr fs a (int n) = Inr 1" if "n < 2" for a n using that by (simp add: test_expr_def)
  have val: "test_expr fs a n = Inr v \<Longrightarrow> v = 0 \<or> v = 1" for a n v
    by (auto simp: test_expr_def syntax_error_def fail_def andthen_def split: sum.splits if_splits)
  have err: "test_expr fs (map Some as @ None # beyond) (int (length as)) \<noteq> Inl Overrun \<and>
      test_expr fs (map Some as @ None # beyond) (int (length as)) \<noteq> Inl Endless" for as beyond
  proof (cases "2 \<le> length as")
    case True
    then obtain p x rest where "as = p # x # rest" by (auto simp: numeral_eq_Suc Suc_le_length_iff)
    then show ?thesis using argument_vector.test_expr_ends [of fs p x rest beyond] by simp
  qed (use short [of "length as"] in simp)
  have res: "case test_expr fs (map Some as @ None # beyond) (int (length as)) of
      Inl e \<Rightarrow> (\<exists>msg. e = Failed msg) | Inr v \<Rightarrow> v = 0 \<or> v = 1" for as beyond
    using err [of as beyond] val by (auto split: sum.split) (metis test_error.exhaust)
  have len: "int (length argv) - 1 = int (length (butlast argv))" using assms by (cases argv) auto
  show ?thesis
    unfolding test_main_def len
    using res [of "butlast argv" "[None]"] res [of argv "[]"] by (simp only: split: if_split) simp
qed

definition no_files :: file_system where
  "no_files = \<lparr>fs_stat = (\<lambda>_. None), fs_lstat = (\<lambda>_. None), fs_access = (\<lambda>_ _. False),
     fs_isatty = (\<lambda>_. False), fs_euid = 0, fs_egid = 0\<rparr>"

theorem test_safe_witness:
  "case test_main no_files [''['', ''('', ''!'', '']''] of Inl e \<Rightarrow> (\<exists>msg. e = Failed msg) | Inr v \<Rightarrow> v = 0 \<or> v = 1"
  using test_safe [of "[''['', ''('', ''!'', '']'']" no_files] by blast

section \<open>The grammar\<close>

text \<open>
  Expressions as the grammar in the source has them. Both sides of \<open>-a\<close> and \<open>-o\<close> are evaluated; an
  expression has no value when one of its numbers is malformed.
\<close>

datatype oexp = Last_or aexp | Or aexp oexp
  and aexp = Last_and nexp | And nexp aexp
  and nexp = Prim prim | Not nexp
  and prim = Operand string | Unary t_op string | Binary string t_op string | Paren oexp

primrec render_o :: "oexp \<Rightarrow> string list" and render_a :: "aexp \<Rightarrow> string list"
  and render_n :: "nexp \<Rightarrow> string list" and render_p :: "prim \<Rightarrow> string list" where
  "render_o (Last_or a) = render_a a"
| "render_o (Or a e) = render_a a @ ''-o'' # render_o e"
| "render_a (Last_and n) = render_n n"
| "render_a (And n a) = render_n n @ ''-a'' # render_a a"
| "render_n (Prim p) = render_p p"
| "render_n (Not n) = ''!'' # render_n n"
| "render_p (Operand x) = [x]"
| "render_p (Unary u x) = [op_text u, x]"
| "render_p (Binary x b y) = [x, op_text b, y]"
| "render_p (Paren e) = ''('' # render_o e @ ['')'']"

definition plain :: "string \<Rightarrow> bool" where
  "plain x \<longleftrightarrow> find_op x = None"

primrec wf_o :: "oexp \<Rightarrow> bool" and wf_a :: "aexp \<Rightarrow> bool" and wf_n :: "nexp \<Rightarrow> bool"
  and wf_p :: "prim \<Rightarrow> bool" where
  "wf_o (Last_or a) = wf_a a"
| "wf_o (Or a e) = (wf_a a \<and> wf_o e)"
| "wf_a (Last_and n) = wf_n n"
| "wf_a (And n a) = (wf_n n \<and> wf_a a)"
| "wf_n (Prim p) = wf_p p"
| "wf_n (Not n) = wf_n n"
| "wf_p (Operand x) = plain x"
| "wf_p (Unary u x) = (find_op (op_text u) = Some u \<and> op_type u = UNOP \<and> plain x)"
| "wf_p (Binary x b y) = (plain x \<and> find_op (op_text b) = Some b \<and> op_type b = BINOP)"
| "wf_p (Paren e) = wf_o e"

definition result_of :: "bool test \<Rightarrow> bool option" where
  "result_of m = (case m \<lparr>nargc = 0, t_wp = 0, t_wp_op = None\<rparr> of Inl e \<Rightarrow> None | Inr (v, s) \<Rightarrow> Some v)"

definition both :: "(bool \<Rightarrow> bool \<Rightarrow> bool) \<Rightarrow> bool option \<Rightarrow> bool option \<Rightarrow> bool option" where
  "both f x y = Option.bind x (\<lambda>a. Option.bind y (\<lambda>b. Some (f a b)))"

primrec val_o :: "file_system \<Rightarrow> oexp \<Rightarrow> bool option" and val_a :: "file_system \<Rightarrow> aexp \<Rightarrow> bool option"
  and val_n :: "file_system \<Rightarrow> nexp \<Rightarrow> bool option" and val_p :: "file_system \<Rightarrow> prim \<Rightarrow> bool option" where
  "val_o fs (Last_or a) = val_a fs a"
| "val_o fs (Or a e) = both (\<or>) (val_a fs a) (val_o fs e)"
| "val_a fs (Last_and n) = val_n fs n"
| "val_a fs (And n a) = both (\<and>) (val_n fs n) (val_a fs a)"
| "val_n fs (Prim p) = val_p fs p"
| "val_n fs (Not n) = map_option HOL.Not (val_n fs n)"
| "val_p fs (Operand x) = Some (x \<noteq> [])"
| "val_p fs (Unary u x) = result_of (eval_unop fs (op_num u) x)"
| "val_p fs (Binary x b y) = result_of (eval_binop fs (op_num b) x y)"
| "val_p fs (Paren e) = val_o fs e"

lemma both_Some: "both f x y = Some v \<longleftrightarrow> (\<exists>a b. x = Some a \<and> y = Some b \<and> v = f a b)"
  by (auto simp: both_def bind_eq_Some_conv)

lemma get_number_val: "get_number w x s = Inr (v, t) \<Longrightarrow> get_number w x s' = Inr (v, s')"
  by (auto simp: get_number_def fail_def split: option.splits if_splits prod.splits)

lemma getq_val: "getq x s = Inr (v, t) \<Longrightarrow> getq x s' = Inr (v, s')"
  unfolding getq_def by (rule get_number_val)

lemma intcmp_val:
  assumes "intcmp x y s = Inr (v, t)"
  shows "intcmp x y s' = Inr (v, s')"
proof -
  obtain a s1 b s2 where run: "getq x s = Inr (a, s1)" "getq y s1 = Inr (b, s2)"
    using assms by (auto simp: intcmp_def andthen_def split: sum.splits)
  show ?thesis using assms run getq_val [OF run(1), of s'] getq_val [OF run(2), of s'] by (simp add: intcmp_def)
qed

lemma eval_unop_val: "result_of (eval_unop fs n x) = Some v \<Longrightarrow> eval_unop fs n x s = Inr (v, s)"
  by (auto simp: result_of_def eval_unop_def getn_def andthen_def split: sum.splits token.splits
      dest: get_number_val [where s' = s])

lemma eval_binop_val: "result_of (eval_binop fs n x y) = Some v \<Longrightarrow> eval_binop fs n x y s = Inr (v, s)"
  by (cases n) (auto simp: result_of_def eval_binop_def Let_def fail_def andthen_def split: sum.splits
      dest: intcmp_val [where s' = s])

lemma find_op_words:
  "find_op ''('' = Some (T_op ''('' LPAREN PAREN)" "find_op '')'' = Some (T_op '')'' RPAREN PAREN)"
  "find_op ''!'' = Some (T_op ''!'' UNOT BUNOP)" "find_op ''-a'' = Some (T_op ''-a'' BAND BBINOP)"
  "find_op ''-o'' = Some (T_op ''-o'' BOR BBINOP)"
  by (simp_all add: find_op_def ops_def)

lemma find_op_kind:
  assumes "find_op x = Some op" "op_type op = UNOP"
  shows "op_num op \<notin> {LPAREN, RPAREN, UNOT, EOI}"
proof -
  have "op \<in> set ops" using assms by (auto simp: find_op_def find_Some_iff)
  moreover have "\<forall>op\<in>set ops. op_type op = UNOP \<longrightarrow> op_num op \<notin> {LPAREN, RPAREN, UNOT, EOI}"
    by (simp add: ops_def)
  ultimately show ?thesis using assms(2) by blast
qed

text \<open>What may follow a sub-expression: nothing, or one of the given words.\<close>

definition ends :: "string set \<Rightarrow> string list \<Rightarrow> bool" where
  "ends W post \<longleftrightarrow> post = [] \<or> hd post \<in> W"

context arguments
begin

lemma token_words:
  "token_at ('')'' # r) = (RPAREN, Some (T_op '')'' RPAREN PAREN))"
  "token_at (''!'' # r) = (UNOT, Some (T_op ''!'' UNOT BUNOP))"
  "token_at (''-a'' # r) = (BAND, Some (T_op ''-a'' BAND BBINOP))"
  "token_at (''-o'' # r) = (BOR, Some (T_op ''-o'' BOR BBINOP))"
  "token_at (''('' # x # r) = (LPAREN, Some (T_op ''('' LPAREN PAREN))"
  "token_at [] = (EOI, None)"
  by (simp_all add: token_at_def find_op_words)

lemma token_plain: "plain x \<Longrightarrow> token_at (x # r) = (OPERAND, None)"
  by (simp add: token_at_def plain_def)

lemma token_unary:
  assumes "find_op (op_text u) = Some u" "op_type u = UNOP" "plain x"
  shows "token_at (op_text u # x # r) = (op_num u, Some u)"
  using assms find_op_kind [OF assms(1,2)] by (auto simp: token_at_def plain_def)

lemma ends_token:
  "ends {'')''} post \<Longrightarrow> fst (token_at post) \<noteq> BOR"
  "ends {'')'', ''-o''} post \<Longrightarrow> fst (token_at post) \<noteq> BAND"
  by (cases post; auto simp: ends_def token_words)+

lemma first_token:
  "wf_o e \<Longrightarrow> fst (token_at (render_o e @ post)) \<noteq> RPAREN \<and> render_o e \<noteq> []"
  "wf_a a \<Longrightarrow> fst (token_at (render_a a @ post)) \<noteq> RPAREN \<and> render_a a \<noteq> []"
  "wf_n n \<Longrightarrow> fst (token_at (render_n n @ post)) \<noteq> RPAREN \<and> render_n n \<noteq> []"
  "wf_p p \<Longrightarrow> fst (token_at (render_p p @ post)) \<noteq> RPAREN \<and> render_p p \<noteq> []"
proof (induction e and a and n and p arbitrary: post and post and post and post)
  case (Unary u x)
  then show ?case using find_op_kind [of "op_text u" u] by (simp add: token_unary)
next
  case (Paren e)
  then obtain x xs where "render_o e = x # xs" by (cases "render_o e") auto
  then show ?case by (simp add: token_words)
qed (simp_all add: token_words token_plain)

definition run_o :: "file_system \<Rightarrow> oexp \<Rightarrow> bool" where
  "run_o fs e \<longleftrightarrow> (\<forall>post n s k v. ends {'')''} post \<longrightarrow> lexed (render_o e @ post) n s \<longrightarrow>
     4 * length (render_o e) + 4 \<le> k \<longrightarrow> val_o fs e = Some v \<longrightarrow>
     (\<exists>x t. oexpr fs argv k n s = Inr (v, t) \<and> here (x # post) t))"

definition run_a :: "file_system \<Rightarrow> aexp \<Rightarrow> bool" where
  "run_a fs a \<longleftrightarrow> (\<forall>post n s k v. ends {'')'', ''-o''} post \<longrightarrow> lexed (render_a a @ post) n s \<longrightarrow>
     4 * length (render_a a) + 3 \<le> k \<longrightarrow> val_a fs a = Some v \<longrightarrow>
     (\<exists>x t. aexpr fs argv k n s = Inr (v, t) \<and> here (x # post) t))"

definition run_n :: "file_system \<Rightarrow> nexp \<Rightarrow> bool" where
  "run_n fs e \<longleftrightarrow> (\<forall>post n s k v. ends {'')'', ''-o'', ''-a''} post \<longrightarrow> lexed (render_n e @ post) n s \<longrightarrow>
     4 * length (render_n e) + 2 \<le> k \<longrightarrow> val_n fs e = Some v \<longrightarrow>
     (\<exists>x t. nexpr fs argv k n s = Inr (v, t) \<and> here (x # post) t))"

definition run_p :: "file_system \<Rightarrow> prim \<Rightarrow> bool" where
  "run_p fs e \<longleftrightarrow> (\<forall>post n s k v. ends {'')'', ''-o'', ''-a''} post \<longrightarrow> lexed (render_p e @ post) n s \<longrightarrow>
     4 * length (render_p e) + 1 \<le> k \<longrightarrow> val_p fs e = Some v \<longrightarrow>
     (\<exists>x t. primary fs argv k n s = Inr (v, t) \<and> here (x # post) t))"

lemma ends_mono: "ends W post \<Longrightarrow> W \<subseteq> W' \<Longrightarrow> ends W' post"
  by (auto simp: ends_def)

text \<open>After the last operand the lexer looks ahead and steps back.\<close>

lemma look_ahead:
  assumes "here (x # post) s" "fst (token_at post) \<noteq> b"
  shows "\<exists>t. andthen (lex_next argv) (\<lambda>t. if t = b then m else andthen step_back (\<lambda>_. yield res)) s = Inr (res, t) \<and>
    here (x # post) t"
proof -
  obtain t where "lex_next argv s = Inr (fst (token_at post), t)"
    "step_back t = Inr ((), t\<lparr>t_wp := t_wp t - 1, nargc := nargc t + 1\<rparr>)"
    "here (x # post) (t\<lparr>t_wp := t_wp t - 1, nargc := nargc t + 1\<rparr>)"
    by (rule lex_next_here [OF assms(1)]) simp
  then show ?thesis using assms(2) by simp
qed

text \<open>An operator is read, and the token behind it.\<close>

lemma read_operator:
  assumes "here (x # w # post) s" "fst (token_at (w # post)) = b"
  shows "\<exists>u. lexed post (fst (token_at post)) u \<and>
    andthen (lex_next argv) (\<lambda>t. if t = b then andthen (lex_next argv) m else m') s = m (fst (token_at post)) u"
proof -
  obtain t where t: "lex_next argv s = Inr (b, t)" "lexed (w # post) b t"
    using lex_next_here [OF assms(1)] assms(2) by auto
  then have "here (w # post) t" by (simp add: lexed_iff)
  from lex_next_here [OF this] obtain u where
    u: "lex_next argv t = Inr (fst (token_at post), u)" "lexed post (fst (token_at post)) u" by auto
  show ?thesis using t(1) u by (intro exI [of _ u]) simp
qed

lemma run_Last_or: assumes "run_a fs a" shows "run_o fs (Last_or a)"
  unfolding run_o_def
proof (intro allI impI)
  fix post n s k v
  assume asm: "ends {'')''} post" "lexed (render_o (Last_or a) @ post) n s"
    "4 * length (render_o (Last_or a)) + 4 \<le> k" "val_o fs (Last_or a) = Some v"
  obtain j where k: "k = Suc j" using asm(3) by (cases k) auto
  have "ends {'')'', ''-o''} post" using asm(1) by (rule ends_mono) auto
  moreover have "lexed (render_a a @ post) n s" using asm(2) by simp
  moreover have "4 * length (render_a a) + 3 \<le> j" using asm(3) k by simp
  moreover have "val_a fs a = Some v" using asm(4) by simp
  ultimately obtain x t where t: "aexpr fs argv j n s = Inr (v, t)" "here (x # post) t"
    using assms unfolding run_a_def by blast
  from look_ahead [OF t(2) ends_token(1) [OF asm(1)]] t(1)
  show "\<exists>x t. oexpr fs argv k n s = Inr (v, t) \<and> here (x # post) t" by (fastforce simp: k)
qed

lemma run_Or: assumes "run_a fs a" "run_o fs e" shows "run_o fs (Or a e)"
  unfolding run_o_def
proof (intro allI impI)
  fix post n s k v
  assume asm: "ends {'')''} post" "lexed (render_o (Or a e) @ post) n s"
    "4 * length (render_o (Or a e)) + 4 \<le> k" "val_o fs (Or a e) = Some v"
  obtain j where k: "k = Suc j" using asm(3) by (cases k) auto
  obtain v1 v2 where v: "val_a fs a = Some v1" "val_o fs e = Some v2" "v = (v1 \<or> v2)"
    using asm(4) by (auto simp: both_Some)
  have "ends {'')'', ''-o''} (''-o'' # render_o e @ post)" by (simp add: ends_def)
  moreover have "lexed (render_a a @ ''-o'' # render_o e @ post) n s" using asm(2) by simp
  moreover have fuel: "4 * length (render_a a) + 3 \<le> j" "4 * length (render_o e) + 4 \<le> j" using asm(3) k by simp_all
  ultimately obtain x t where t: "aexpr fs argv j n s = Inr (v1, t)" "here (x # ''-o'' # render_o e @ post) t"
    using assms(1) v(1) unfolding run_a_def by blast
  obtain u where u: "lexed (render_o e @ post) (fst (token_at (render_o e @ post))) u"
    "oexpr fs argv k n s = andthen (oexpr fs argv j (fst (token_at (render_o e @ post)))) (\<lambda>right. yield (right \<or> v1)) u"
    using read_operator [OF t(2), of BOR "\<lambda>u. andthen (oexpr fs argv j u) (\<lambda>right. yield (right \<or> v1))"] t(1)
    by (fastforce simp: k token_words)
  obtain y w where "oexpr fs argv j (fst (token_at (render_o e @ post))) u = Inr (v2, w)" "here (y # post) w"
    using assms(2) asm(1) u(1) fuel(2) v(2) unfolding run_o_def by blast
  then show "\<exists>x t. oexpr fs argv k n s = Inr (v, t) \<and> here (x # post) t" using u(2) v(3) by auto
qed


lemma run_Last_and: assumes "run_n fs e" shows "run_a fs (Last_and e)"
  unfolding run_a_def
proof (intro allI impI)
  fix post n s k v
  assume asm: "ends {'')'', ''-o''} post" "lexed (render_a (Last_and e) @ post) n s"
    "4 * length (render_a (Last_and e)) + 3 \<le> k" "val_a fs (Last_and e) = Some v"
  obtain j where k: "k = Suc j" using asm(3) by (cases k) auto
  have "ends {'')'', ''-o'', ''-a''} post" using asm(1) by (rule ends_mono) auto
  moreover have "lexed (render_n e @ post) n s" using asm(2) by simp
  moreover have "4 * length (render_n e) + 2 \<le> j" using asm(3) k by simp
  moreover have "val_n fs e = Some v" using asm(4) by simp
  ultimately obtain x t where t: "nexpr fs argv j n s = Inr (v, t)" "here (x # post) t"
    using assms unfolding run_n_def by blast
  from look_ahead [OF t(2) ends_token(2) [OF asm(1)]] t(1)
  show "\<exists>x t. aexpr fs argv k n s = Inr (v, t) \<and> here (x # post) t" by (fastforce simp: k)
qed

lemma run_And: assumes "run_n fs e" "run_a fs a" shows "run_a fs (And e a)"
  unfolding run_a_def
proof (intro allI impI)
  fix post n s k v
  assume asm: "ends {'')'', ''-o''} post" "lexed (render_a (And e a) @ post) n s"
    "4 * length (render_a (And e a)) + 3 \<le> k" "val_a fs (And e a) = Some v"
  obtain j where k: "k = Suc j" using asm(3) by (cases k) auto
  obtain v1 v2 where v: "val_n fs e = Some v1" "val_a fs a = Some v2" "v = (v1 \<and> v2)"
    using asm(4) by (auto simp: both_Some)
  have "ends {'')'', ''-o'', ''-a''} (''-a'' # render_a a @ post)" by (simp add: ends_def)
  moreover have "lexed (render_n e @ ''-a'' # render_a a @ post) n s" using asm(2) by simp
  moreover have fuel: "4 * length (render_n e) + 2 \<le> j" "4 * length (render_a a) + 3 \<le> j" using asm(3) k by simp_all
  ultimately obtain x t where t: "nexpr fs argv j n s = Inr (v1, t)" "here (x # ''-a'' # render_a a @ post) t"
    using assms(1) v(1) unfolding run_n_def by blast
  obtain u where u: "lexed (render_a a @ post) (fst (token_at (render_a a @ post))) u"
    "aexpr fs argv k n s = andthen (aexpr fs argv j (fst (token_at (render_a a @ post)))) (\<lambda>right. yield (right \<and> v1)) u"
    using read_operator [OF t(2), of BAND "\<lambda>u. andthen (aexpr fs argv j u) (\<lambda>right. yield (right \<and> v1))"] t(1)
    by (fastforce simp: k token_words)
  obtain y w where "aexpr fs argv j (fst (token_at (render_a a @ post))) u = Inr (v2, w)" "here (y # post) w"
    using assms(2) asm(1) u(1) fuel(2) v(2) unfolding run_a_def by blast
  then show "\<exists>x t. aexpr fs argv k n s = Inr (v, t) \<and> here (x # post) t" using u(2) v(3) by auto
qed

lemma run_Not: assumes "run_n fs e" shows "run_n fs (Not e)"
  unfolding run_n_def
proof (intro allI impI)
  fix post n s k v
  assume asm: "ends {'')'', ''-o'', ''-a''} post" "lexed (render_n (Not e) @ post) n s"
    "4 * length (render_n (Not e)) + 2 \<le> k" "val_n fs (Not e) = Some v"
  obtain j where k: "k = Suc j" using asm(3) by (cases k) auto
  let ?n = "fst (token_at (render_n e @ post))"
  have n: "n = UNOT" "here (''!'' # render_n e @ post) s" using asm(2) by (simp_all add: lexed_iff token_words)
  from lex_next_here [OF n(2)] obtain t where t: "lex_next argv s = Inr (?n, t)" "lexed (render_n e @ post) ?n t" by auto
  have fuel: "4 * length (render_n e) + 2 \<le> j" using asm(3) k by simp
  have v: "val_n fs e = Some (\<not> v)" using asm(4) by auto
  obtain x u where "nexpr fs argv j ?n t = Inr (\<not> v, u)" "here (x # post) u"
    using assms asm(1) t(2) fuel v unfolding run_n_def by blast
  then show "\<exists>x t. nexpr fs argv k n s = Inr (v, t) \<and> here (x # post) t" using t(1) n(1) k by auto
qed

lemma prim_token: "wf_p p \<Longrightarrow> fst (token_at (render_p p @ post)) \<noteq> UNOT"
  using first_token(1) find_op_kind
  by (cases p; fastforce simp: token_plain token_unary token_words neq_Nil_conv)

lemma run_Prim: assumes "run_p fs p" "wf_p p" shows "run_n fs (Prim p)"
  unfolding run_n_def
proof (intro allI impI)
  fix post n s k v
  assume asm: "ends {'')'', ''-o'', ''-a''} post" "lexed (render_n (Prim p) @ post) n s"
    "4 * length (render_n (Prim p)) + 2 \<le> k" "val_n fs (Prim p) = Some v"
  obtain j where k: "k = Suc j" using asm(3) by (cases k) auto
  have "n \<noteq> UNOT" using asm(2) prim_token [OF assms(2)] by (simp add: lexed_iff)
  moreover have "\<exists>x t. primary fs argv j n s = Inr (v, t) \<and> here (x # post) t"
    using assms(1) asm k unfolding run_p_def by simp
  ultimately show "\<exists>x t. nexpr fs argv k n s = Inr (v, t) \<and> here (x # post) t" by (simp add: k)
qed

lemma run_Operand: assumes "plain x" shows "run_p fs (Operand x)"
  unfolding run_p_def
proof (intro allI impI)
  fix post n s k v
  assume asm: "ends {'')'', ''-o'', ''-a''} post" "lexed (render_p (Operand x) @ post) n s"
    "4 * length (render_p (Operand x)) + 1 \<le> k" "val_p fs (Operand x) = Some v"
  obtain j where k: "k = Suc j" using asm(3) by (cases k) auto
  have n: "n = OPERAND" "t_wp_op s = None" "here (x # post) s"
    using asm(2) token_plain [OF assms] by (simp_all add: lexed_iff)
  have "\<not> (\<exists>y ys op. post = y # ys \<and> find_op y = Some op \<and> op_type op = BINOP)"
    using asm(1) by (auto simp: ends_def find_op_words)
  then obtain t where "operand_or_binop fs argv s = Inr (x \<noteq> [], t)" "here (x # post) t"
    using operand_or_binop_run [OF n(3), of fs] by (auto simp only: if_False)
  then show "\<exists>x t. primary fs argv k n s = Inr (v, t) \<and> here (x # post) t"
    using n k asm(4) by auto
qed

lemma run_Unary:
  assumes "find_op (op_text u) = Some u" "op_type u = UNOP" "plain x"
  shows "run_p fs (Unary u x)"
  unfolding run_p_def
proof (intro allI impI)
  fix post n s k v
  assume asm: "ends {'')'', ''-o'', ''-a''} post" "lexed (render_p (Unary u x) @ post) n s"
    "4 * length (render_p (Unary u x)) + 1 \<le> k" "val_p fs (Unary u x) = Some v"
  obtain j where k: "k = Suc j" using asm(3) by (cases k) auto
  have n: "n = op_num u" "t_wp_op s = Some u" "here (op_text u # x # post) s"
    using asm(2) token_unary [OF assms] by (simp_all add: lexed_iff)
  obtain t where t: "here (x # post) t" "unop fs argv u n s = eval_unop fs n x t"
    using unop_run [OF n(3)] by blast
  have "eval_unop fs n x t = Inr (v, t)" using asm(4) n(1) by (simp add: eval_unop_val)
  then show "\<exists>x t. primary fs argv k n s = Inr (v, t) \<and> here (x # post) t"
    using n t k assms(2) find_op_kind [OF assms(1,2)] by auto
qed

lemma run_Binary:
  assumes "plain x" "find_op (op_text b) = Some b" "op_type b = BINOP"
  shows "run_p fs (Binary x b y)"
  unfolding run_p_def
proof (intro allI impI)
  fix post n s k v
  assume asm: "ends {'')'', ''-o'', ''-a''} post" "lexed (render_p (Binary x b y) @ post) n s"
    "4 * length (render_p (Binary x b y)) + 1 \<le> k" "val_p fs (Binary x b y) = Some v"
  obtain j where k: "k = Suc j" using asm(3) by (cases k) auto
  have n: "n = OPERAND" "t_wp_op s = None" "here (x # op_text b # y # post) s"
    using asm(2) token_plain [OF assms(1)] by (simp_all add: lexed_iff)
  obtain t where t: "here (x # op_text b # y # post) t" "operand_or_binop fs argv s = binop fs argv t"
    using operand_or_binop_run [OF n(3), of fs] assms(2,3) by (auto simp del: here_op)
  obtain u where "here (y # post) u" "binop fs argv t = eval_binop fs (op_num b) x y u"
    using binop_run [OF t(1) assms(2,3)] by auto
  moreover have "eval_binop fs (op_num b) x y u = Inr (v, u)" using asm(4) by (simp add: eval_binop_val)
  ultimately show "\<exists>x t. primary fs argv k n s = Inr (v, t) \<and> here (x # post) t"
    using n(1,2) t(2) k by auto
qed

lemma run_Paren: assumes "run_o fs e" "wf_o e" shows "run_p fs (Paren e)"
  unfolding run_p_def
proof (intro allI impI)
  fix post n s k v
  assume asm: "ends {'')'', ''-o'', ''-a''} post" "lexed (render_p (Paren e) @ post) n s"
    "4 * length (render_p (Paren e)) + 1 \<le> k" "val_p fs (Paren e) = Some v"
  obtain j where k: "k = Suc j" using asm(3) by (cases k) auto
  let ?rest = "render_o e @ '')'' # post"
  let ?n = "fst (token_at ?rest)"
  have first: "?n \<noteq> RPAREN" "render_o e \<noteq> []" using first_token(1) [OF assms(2)] by auto
  then have n: "n = LPAREN" "here (''('' # ?rest) s"
    using asm(2) by (auto simp: lexed_iff token_words neq_Nil_conv)
  from lex_next_here [OF n(2)] obtain t where t: "lex_next argv s = Inr (?n, t)" "lexed ?rest ?n t" by auto
  have "4 * length (render_o e) + 4 \<le> j" using asm(3) k by simp
  moreover have "ends {'')''} ('')'' # post)" by (simp add: ends_def)
  moreover have "val_o fs e = Some v" using asm(4) by simp
  ultimately obtain x u where u: "oexpr fs argv j ?n t = Inr (v, u)" "here (x # '')'' # post) u"
    using assms(1) t(2) unfolding run_o_def by blast
  from lex_next_here [OF u(2)] obtain w where "lex_next argv u = Inr (RPAREN, w)" "here ('')'' # post) w"
    by (auto simp: token_words lexed_iff)
  then show "\<exists>x t. primary fs argv k n s = Inr (v, t) \<and> here (x # post) t" using n(1) t(1) u(1) first(1) k by auto
qed

lemma run_expression:
  "wf_o e \<Longrightarrow> run_o fs e" "wf_a a \<Longrightarrow> run_a fs a" "wf_n n \<Longrightarrow> run_n fs n" "wf_p p \<Longrightarrow> run_p fs p"
  by (induction e and a and n and p)
    (simp_all add: run_Last_or run_Or run_Last_and run_And run_Not run_Prim run_Operand run_Unary run_Binary run_Paren)

lemma test_expr_value:
  assumes "args = name # render_o e" "wf_o e" "val_o fs e = Some v"
  shows "test_expr fs argv (int (length args)) = Inr (if v then 0 else 1)"
proof (rule test_expr_run)
  fix n t
  assume lexed: "lexed (tl args) n t" and run: "test_expr fs argv (int (length args)) =
       (case oexpr fs argv (4 * length args) n t of
          Inl e \<Rightarrow> Inl e
        | Inr (v, st) \<Rightarrow>
            if nargc st - 1 > 0
            then map_sum id fst (andthen (current argv 0) (\<lambda>p. syntax_error p ''unexpected operator'') st)
            else Inr (if v then 0 else 1))"
  have "run_o fs e" using assms(2) by (rule run_expression)
  moreover have "lexed (render_o e @ []) n t" using lexed assms(1) by simp
  moreover have "4 * length (render_o e) + 4 \<le> 4 * length args" using assms(1) by simp
  moreover have "ends {'')''} []" by (simp add: ends_def)
  ultimately obtain x st where "oexpr fs argv (4 * length args) n t = Inr (v, st)" "here [x] st"
    using assms(3) unfolding run_o_def by blast
  then show ?thesis using run here_nargc [of "[x]" st] by simp
qed

end

lemma test_expr_rendered:
  assumes "wf_o e" "val_o fs e = Some v"
  shows "test_expr fs (map Some (name # render_o e) @ None # beyond) (int (length (name # render_o e))) =
    Inr (if v then 0 else 1)"
proof -
  obtain x rest where "render_o e = x # rest"
    using argument_vector.first_token(1) [OF assms(1)] by (cases "render_o e") auto
  then show ?thesis using argument_vector.test_expr_value [of name x rest name e fs v beyond] assms by simp
qed

lemma test_main_rendered:
  assumes "wf_o e" "val_o fs e = Some v"
  shows "test_main fs (if base_name name = ''['' then name # render_o e @ ['']''] else name # render_o e) =
    Inr (if v then 0 else 1)"
  using test_expr_rendered [OF assms, of name "[]"] test_expr_rendered [OF assms, of name "[None]"]
  by (simp add: test_main_def butlast_append)

text \<open>
  C7: \<open>test\<close> implements its grammar. For every expression of the grammar whose operands are not
  themselves operators and whose numbers are well-formed, the words of the expression given to \<open>test\<close>,
  or to \<open>[\<close> with a closing bracket, exit with 0 when the expression is true and with 1 when it is
  false: \<open>!\<close> binds tighter than \<open>-a\<close>, \<open>-a\<close> tighter than \<open>-o\<close>, and parentheses group.
\<close>

theorem test_evaluates:
  assumes "wf_o e" "val_o fs e = Some v"
  shows "test_main fs (if base_name name = ''['' then name # render_o e @ ['']''] else name # render_o e) =
    Inr (if v then 0 else 1)"
  by (rule test_main_rendered [OF assms])

text \<open>The expression \<open>! ( 3 -gt 12 -o -z word ) -a x != y\<close>, for the shell and for \<open>[\<close>.\<close>

definition sample_test :: oexp where
  "sample_test = Last_or (And (Not (Prim (Paren (Or (Last_and (Prim (Binary ''3'' (T_op ''-gt'' INTGT BINOP) ''12'')))
     (Last_or (Last_and (Prim (Unary (T_op ''-z'' STREZ UNOP) ''word''))))))))
     (Last_and (Prim (Binary ''x'' (T_op ''!='' STRNE BINOP) ''y''))))"

lemma sample_ok: "wf_o sample_test" "val_o no_files sample_test = Some True"
  by code_simp+

theorem test_evaluates_witness:
  "test_main no_files (''/system/bin/test'' # render_o sample_test) = Inr 0 \<and>
   test_main no_files (''['' # render_o sample_test @ ['']'']) = Inr 0"
  using test_evaluates [OF sample_ok, of "''/system/bin/test''"] test_evaluates [OF sample_ok, of "''[''"]
  by (simp add: base_name_def)

end
