(* ===== verification/Motobox_Tools.thy ===== *)
theory Motobox_Tools
  imports Test_Cmd
begin

text \<open>
  The front end of \<open>motobox\<close> and its small commands (\<open>src/motobox/motobox.c\<close>, \<open>tools.h\<close>, \<open>ptf.c\<close>, \<open>mkswap.c\<close>, \<open>swapon.c\<close>,
  \<open>swapoff.c\<close>, \<open>swap.h\<close>). Messages to the standard error stream are not part of the model.
\<close>

unbundle bit_operations_syntax

section \<open>The front end\<close>

text \<open>What a call of the box comes to: a tool with its arguments, the banner, or the message that there is no such tool.\<close>

datatype invocation = Run string "string list" | Banner | No_such_tool string

text \<open>\<open>devutils\<close>: the build has the library for messages to the boot loader (\<open>HAVE_DEVUTILS\<close>).\<close>

definition tools :: "bool \<Rightarrow> string list" where
  "tools devutils = [''test'', ''getconfig'', ''ptf''] @ (if devutils then [''setconfig'', ''masterclear''] else [])"

definition tool_name :: "string list \<Rightarrow> string \<times> string list" where
  "tool_name argv =
     (if length argv > 1 \<and> argv ! 1 \<noteq> [] \<and> hd (argv ! 1) = CHR ''@'' then (tl (argv ! 1), tl argv)
      else (base_name (argv ! 0), argv))"

text \<open>\<open>motobox foo ...\<close> is taken as \<open>foo ...\<close>.\<close>

function motobox_main :: "bool \<Rightarrow> string list \<Rightarrow> invocation" where
  "motobox_main devutils argv =
     (let (nm, argv') = tool_name argv in
      if nm = ''motobox'' then (if length argv' > 1 then motobox_main devutils (tl argv') else Banner)
      else if nm = ''['' then Run ''test'' argv'
      else if nm \<in> set (tools devutils) then Run nm argv'
      else No_such_tool (hd argv'))"
  by pat_completeness auto

termination
  by (relation "measure (\<lambda>(d, argv). length argv)") (auto simp: tool_name_def split: if_splits)

declare motobox_main.simps [simp del]

section \<open>Swap space\<close>

datatype tool_call =
    Open string | Fstat int | Blkgetsize64 int | Read int nat | Write int "8 word list" | Close int
  | Swapon string "32 word" | Swapoff string | Open_fb string | Get_vscreeninfo int | Printf string

type_synonym tool_state = "tool_call io_state"
type_synonym 'a tool = "(tool_state, 'a) state"

abbreviation "PAGE_SIZE \<equiv> 4096 :: nat"
abbreviation "SWAP_FLAG_PREFER \<equiv> 0x8000 :: 32 word"
abbreviation "SWAP_FLAG_PRIO_MASK \<equiv> 0x7fff :: 32 word"

text \<open>The fields of the header that are set.\<close>

record swap_header =
  version :: "32 word"
  last_page :: "32 word"
  sws_uuid :: "8 word list"
  magic :: "8 word list"

definition le32 :: "32 word \<Rightarrow> 8 word list" where
  "le32 w = [ucast w, ucast (drop_bit 8 w), ucast (drop_bit 16 w), ucast (drop_bit 24 w)]"

definition header_bytes :: "swap_header \<Rightarrow> 8 word list" where
  "header_bytes h = replicate 1024 0 @ le32 (version h) @ le32 (last_page h) @ replicate 4 0 @ sws_uuid h @
     replicate (PAGE_SIZE - 10 - (1024 + 12 + 16)) 0 @ magic h"

definition bytes_of :: "string \<Rightarrow> 8 word list" where
  "bytes_of s = map (\<lambda>c. word_of_nat (of_char c)) s"

text \<open>The bits of a version 4 UUID.\<close>

definition mark_uuid :: "8 word list \<Rightarrow> 8 word list" where
  "mark_uuid u = u[6 := (u ! 6 AND 0x0F) OR 0x40, 8 := (u ! 8 AND 0x3F) OR 0x80]"

text \<open>The bytes that the random source put over the first bytes of the cleared UUID.\<close>

definition random_uuid :: "tool_call os \<Rightarrow> 8 word list tool" where
  "random_uuid os = do {
     r \<leftarrow> syscall os (Open ''/dev/urandom'');
     if ret_val r < 0 then return (replicate 16 0)
     else do {
       d \<leftarrow> syscall os (Read (ret_val r) 16);
       syscall os (Close (ret_val r));
       let got = take (nat (ret_val d)) (bytes_of (take 16 (ret_data d)));
       return (got @ replicate (16 - length got) 0)
     }
   }"

text \<open>
  \<open>BLKGETSIZE64\<close> stores eight bytes into \<open>dev_size\<close>, a \<open>size_t\<close> of four bytes on this processor: memory
  behind the variable is overwritten. The variable has the low half.
\<close>

definition write_header :: "tool_call os \<Rightarrow> int \<Rightarrow> int \<Rightarrow> bool tool" where
  "write_header os dev_fd size64 = do {
     undefined_behaviour;
     let dev_size = (word_of_int size64 :: 32 word);
     uuid \<leftarrow> random_uuid os;
     let hdr = \<lparr>version = 1, last_page = dev_size div 4096 - 1, sws_uuid = mark_uuid uuid, magic = bytes_of ''SWAPSPACE2''\<rparr>;
     w \<leftarrow> syscall os (Write dev_fd (header_bytes hdr));
     return (\<not> ret_val w < int PAGE_SIZE)
   }"

text \<open>One device; the result tells that it went well. \<open>Fstat\<close> answers the type bits in \<open>ret_aux\<close>.\<close>

definition mkswap_device :: "tool_call os \<Rightarrow> string \<Rightarrow> bool tool" where
  "mkswap_device os dev = do {
     f \<leftarrow> syscall os (Open dev);
     if ret_val f < 0 then return False
     else do {
       let dev_fd = ret_val f;
       st \<leftarrow> syscall os (Fstat dev_fd);
       ok \<leftarrow> (if ret_val st < 0 \<or> word_of_int (ret_aux st) AND (0xF000 :: 32 word) \<noteq> 0x6000 then return False
             else do {
               b \<leftarrow> syscall os (Blkgetsize64 dev_fd);
               if ret_val b < 0 then return False else write_header os dev_fd (ret_aux b)
             });
       syscall os (Close dev_fd);
       return ok
     }
   }"

primrec mkswap_devices :: "tool_call os \<Rightarrow> string list \<Rightarrow> bool tool" where
  "mkswap_devices os [] = return True"
| "mkswap_devices os (d # ds) = do { a \<leftarrow> mkswap_device os d; b \<leftarrow> mkswap_devices os ds; return (a \<and> b) }"

definition mkswap_main :: "tool_call os \<Rightarrow> string list \<Rightarrow> int tool" where
  "mkswap_main os argv =
     (if length argv < 2 then return 1
      else do { ok \<leftarrow> mkswap_devices os (tl argv); return (if ok then 0 else 1) })"

text \<open>\<open>strtoul(s, &end, 10)\<close>: the value and what is left; without digits nothing is taken.\<close>

definition strtoul :: "string \<Rightarrow> 32 word \<times> string" where
  "strtoul s =
     (let t = dropWhile isspace s;
          minus = (t \<noteq> [] \<and> hd t = CHR ''-'');
          u = (if t \<noteq> [] \<and> hd t \<in> {CHR ''-'', CHR ''+''} then tl t else t);
          ds = takeWhile isdigit u;
          v = digits_val 0 ds in
      if ds = [] then (0, s)
      else (if 2 ^ 32 \<le> v then -1 else if minus then - word_of_nat v else word_of_nat v, dropWhile isdigit u))"

definition swapon_main :: "tool_call os \<Rightarrow> string list \<Rightarrow> int tool" where
  "swapon_main os argv =
     (if length argv \<noteq> 2 \<and> length argv \<noteq> 4 then return 1
      else if length argv = 4 \<and> strncmp_eq (argv ! 1) ''-p'' 4 then return 1
      else if length argv = 4 \<and> (snd (strtoul (argv ! 2)) = argv ! 2 \<or> snd (strtoul (argv ! 2)) = []) then return 1
      else do {
        r \<leftarrow> syscall os
          (if length argv = 4 then Swapon (argv ! 3) (SWAP_FLAG_PREFER OR (fst (strtoul (argv ! 2)) AND SWAP_FLAG_PRIO_MASK))
           else Swapon (argv ! 1) 0);
        return (if ret_val r < 0 then 1 else 0)
      })"

definition swapoff_main :: "tool_call os \<Rightarrow> string list \<Rightarrow> int tool" where
  "swapoff_main os argv =
     (if length argv \<noteq> 2 then return 1
      else do { r \<leftarrow> syscall os (Swapoff (argv ! 1)); return (if ret_val r < 0 then 1 else 0) })"

section \<open>Display properties\<close>

definition vinfo_fields :: "string list" where
  "vinfo_fields = [''xres'', ''yres'', ''xres_virtual'', ''yres_virtual'', ''xoffset'', ''yoffset'', ''bits_per_pixel'',
     ''grayscale'', ''nonstd'', ''activate'', ''height'', ''width'', ''rotate'']"

text \<open>\<open>vinfo\<close>: the fields of the structure that the driver fills in, by the number in its answer. \<open>device\<close> has 20 bytes.\<close>

definition display_properties :: "tool_call os \<Rightarrow> (int \<Rightarrow> string \<Rightarrow> nat) \<Rightarrow> string \<Rightarrow> unit tool" where
  "display_properties os vinfo disp =
     (if length disp > 2
      then do { syscall os (Printf (''ERROR: invalid dispprops argument: '' @ disp @ [CHR 0x0A])); return () }
      else do {
        let device = ''/dev/graphics/fb'' @ disp;
        whenM (20 < length device + 1) undefined_behaviour;
        fb \<leftarrow> syscall os (Open_fb device);
        if ret_val fb < 0
        then do { syscall os (Printf (''ERROR: cannot open device: '' @ device @ [CHR 0x0A])); return () }
        else do {
          r \<leftarrow> syscall os (Get_vscreeninfo (ret_val fb));
          syscall os (Close (ret_val fb));
          if ret_val r < 0
          then do { syscall os (Printf (''ERROR: ioctl returned: '' @ show_int (ret_val r) @ [CHR 0x0A])); return () }
          else foldr (\<lambda>f m. do { syscall os (Printf (f @ '':'' @ show_nat (vinfo (ret_aux r) f) @ [CHR 0x0A])); m })
            vinfo_fields (return ())
        }
      })"

definition ptf_main :: "tool_call os \<Rightarrow> (int \<Rightarrow> string \<Rightarrow> nat) \<Rightarrow> string list \<Rightarrow> int tool" where
  "ptf_main os vinfo argv = do {
     (if length argv = 1 then do { syscall os (Printf (''argument expected'' @ [CHR 0x0A])); return () }
      else if argv ! 1 = ''swversion'' then do { syscall os (Printf (''Sholes'' @ [CHR 0x0A])); return () }
      else if argv ! 1 = ''dispprops''
      then display_properties os vinfo (if length argv = 2 then ''0'' else argv ! 2)
      else do { syscall os (Printf (''ERROR: unexpected command: '' @ argv ! 1 @ [CHR 0x0A])); return () });
     return 0
   }"

section \<open>Calling \<open>test\<close> through the box\<close>

text \<open>The exit code of an invocation of \<open>test\<close>.\<close>

definition run_test :: "file_system \<Rightarrow> invocation \<Rightarrow> (test_error + int) option" where
  "run_test fs call = (case call of Run t argv \<Rightarrow> if t = ''test'' then Some (test_main fs argv) else None | _ \<Rightarrow> None)"

definition at_word :: "string list \<Rightarrow> bool" where
  "at_word ws \<longleftrightarrow> ws \<noteq> [] \<and> hd ws \<noteq> [] \<and> hd (hd ws) = CHR ''@''"

lemma motobox_direct:
  assumes "\<not> at_word ws" "base_name p = ''test'' \<or> base_name p = ''[''"
  shows "motobox_main d (p # ws) = Run ''test'' (p # ws)"
proof -
  have "tool_name (p # ws) = (base_name p, p # ws)" using assms(1) by (cases ws) (auto simp: tool_name_def at_word_def)
  then show ?thesis using assms(2) by (subst motobox_main.simps) (auto simp: tools_def)
qed

lemma motobox_indirect:
  assumes "base_name b = ''motobox''" "p = [] \<or> hd p \<noteq> CHR ''@''"
  shows "motobox_main d (b # p # ws) = motobox_main d (p # ws)"
proof -
  have "tool_name (b # p # ws) = (''motobox'', b # p # ws)" using assms by (auto simp: tool_name_def)
  then show ?thesis by (subst motobox_main.simps) simp
qed

text \<open>
  \<open>motobox\<close> hands a test to \<open>test\<close> unchanged: under the name \<open>test\<close>, under the name \<open>[\<close> with a closing bracket, and behind the
  word \<open>motobox\<close>, an expression of the grammar exits with its value, as long as its first word does not start with the sign \<open>@\<close>
  that the box keeps for itself.
\<close>

lemma motobox_runs_test:
  assumes "wf_o e" "val_o fs e = Some v" "\<not> at_word (render_o e)"
    and "base_name p = ''test''" "base_name q = ''[''" "base_name b = ''motobox''" "hd p \<noteq> CHR ''@''"
  shows "run_test fs (motobox_main d (p # render_o e)) = Some (Inr (if v then 0 else 1)) \<and>
    run_test fs (motobox_main d (q # render_o e @ ['']''])) = Some (Inr (if v then 0 else 1)) \<and>
    run_test fs (motobox_main d (b # p # render_o e)) = Some (Inr (if v then 0 else 1))"
proof -
  have "\<not> at_word (render_o e @ ['']''])" using assms(3) by (cases "render_o e") (auto simp: at_word_def)
  moreover have "test_main fs (p # render_o e) = Inr (if v then 0 else 1)" "test_main fs (q # render_o e @ ['']'']) = Inr (if v then 0 else 1)"
    using test_main_rendered [OF assms(1,2), of p] test_main_rendered [OF assms(1,2), of q] assms(4,5) by simp_all
  ultimately show ?thesis using assms(3-7) by (simp add: motobox_direct motobox_indirect run_test_def)
qed

lemma motobox_runs_test_witness:
  "run_test no_files (motobox_main True (''/system/bin/test'' # render_o sample_test)) = Some (Inr 0)"
  using motobox_runs_test [OF sample_ok, of "''/system/bin/test''" "''[''" "''motobox''" True]
  by (simp add: base_name_def at_word_def sample_test_def)

text \<open>A test whose first word starts with the sign is not run.\<close>

lemma at_word_misread:
  assumes "w = CHR ''@'' # x" "x \<notin> set (tools d)" "x \<noteq> ''motobox''" "x \<noteq> ''[''"
  shows "motobox_main d (p # w # ws) = No_such_tool w"
  using assms by (subst motobox_main.simps) (simp add: tool_name_def)

section \<open>The header of a swap device\<close>

lemma mark_uuid_bits:
  assumes "length u = 16"
  shows "mark_uuid u ! 6 AND 0xF0 = 0x40" "mark_uuid u ! 8 AND 0xC0 = 0x80" "length (mark_uuid u) = 16"
proof -
  have "((x AND 0x0F) OR 0x40) AND 0xF0 = 0x40" for x :: "8 word"
    by (simp add: bit.conj_disj_distrib2 and.assoc)
  moreover have "((x AND 0x3F) OR 0x80) AND 0xC0 = 0x80" for x :: "8 word"
    by (simp add: bit.conj_disj_distrib2 and.assoc)
  ultimately show "mark_uuid u ! 6 AND 0xF0 = 0x40" "mark_uuid u ! 8 AND 0xC0 = 0x80" "length (mark_uuid u) = 16"
    using assms by (simp_all add: mark_uuid_def)
qed

lemma random_uuid_length: "length (eval_in (random_uuid os) s) = 16"
  by (simp add: random_uuid_def bytes_of_def Let_def)

text \<open>Where the parts of the header are.\<close>

lemma header_layout:
  assumes "length (sws_uuid h) = 16" "length (magic h) = 10"
  shows "length (header_bytes h) = PAGE_SIZE" "drop 4086 (header_bytes h) = magic h"
    "take 4 (drop 1024 (header_bytes h)) = le32 (version h)" "take 4 (drop 1028 (header_bytes h)) = le32 (last_page h)"
    "take 16 (drop 1036 (header_bytes h)) = sws_uuid h"
  using assms by (simp_all add: header_bytes_def le32_def)

text \<open>
  Every header that \<open>mkswap\<close> writes is a page with the mark of a swap device at its end, version 1, the number of the last page of
  a device below 4 GB, and a UUID that is marked as a random one of version 4, whatever the random source delivers.
\<close>

lemma mkswap_header_valid:
  assumes "0 \<le> sz" "sz < 2 ^ 32" "4096 \<le> sz"
  shows "\<exists>cs b. calls (exec (write_header os fd sz) s) = cs @ [Write fd b] \<and> length b = PAGE_SIZE \<and>
    drop 4086 b = bytes_of ''SWAPSPACE2'' \<and> take 4 (drop 1024 b) = le32 1 \<and>
    take 4 (drop 1028 b) = le32 (word_of_int (sz div 4096 - 1)) \<and>
    take 16 (drop 1036 b) ! 6 AND 0xF0 = 0x40 \<and> take 16 (drop 1036 b) ! 8 AND 0xC0 = 0x80"
proof -
  let ?u = "eval_in (random_uuid os) (s\<lparr>fault := True\<rparr>)"
  define h where "h = \<lparr>version = 1, last_page = word_of_int sz div 4096 - 1, sws_uuid = mark_uuid ?u, magic = bytes_of ''SWAPSPACE2''\<rparr>"
  have "length ?u = 16" by (rule random_uuid_length)
  note bits = mark_uuid_bits [OF this]
  have h: "length (sws_uuid h) = 16" "length (magic h) = 10" using bits(3) by (simp_all add: h_def bytes_of_def)
  have lp: "(word_of_int sz :: 32 word) div 4096 - 1 = word_of_int (sz div 4096 - 1)"
  proof -
    have "uint (word_of_int sz :: 32 word) = sz" using assms by (simp add: take_bit_int_eq_self unsigned_of_int)
    then show ?thesis by (simp add: word_div_def)
  qed
  have "calls (exec (write_header os fd sz) s) =
      calls (exec (random_uuid os) (s\<lparr>fault := True\<rparr>)) @ [Write fd (header_bytes h)]"
    by (simp add: write_header_def h_def split_beta Let_def)
  moreover have "version h = 1" "last_page h = word_of_int (sz div 4096 - 1)" "sws_uuid h = mark_uuid ?u" "magic h = bytes_of ''SWAPSPACE2''"
    by (simp_all only: h_def lp swap_header.simps)
  ultimately show ?thesis
    by - (intro exI [of _ "calls (exec (random_uuid os) (s\<lparr>fault := True\<rparr>))"] exI [of _ "header_bytes h"] conjI, assumption,
        simp_all only: header_layout [OF h] bits)
qed

lemma mkswap_header_valid_witness:
  "\<exists>cs b. calls (exec (write_header (\<lambda>h c. failure 2) 3 8192) \<lparr>trace = [], fault = False\<rparr>) = cs @ [Write 3 b] \<and>
     length b = PAGE_SIZE \<and> take 4 (drop 1028 b) = le32 1"
  using mkswap_header_valid [of 8192 "\<lambda>h c. failure 2" 3 "\<lparr>trace = [], fault = False\<rparr>"] by auto

section \<open>What the commands get wrong\<close>

text \<open>\<open>swapon -p priority device\<close> is always refused, and so is every proper number: both tests are the wrong way round.\<close>

lemma swapon_priority_rejected:
  assumes "length argv = 4" "argv ! 1 = ''-p'' \<or> snd (strtoul (argv ! 2)) = []"
  shows "run_state (swapon_main os argv) s = (1, s)"
  using assms by (auto simp: swapon_main_def strncmp_eq_def)

text \<open>\<open>mkswap\<close> stores a size of eight bytes into a variable of four.\<close>

lemma mkswap_overwrites:
  "fault (exec (write_header os fd sz) s)"
  by (simp add: write_header_def random_uuid_def split_beta Let_def)

end
