(* ===== verification/Hdmi_Edid.thy ===== *)
theory Hdmi_Edid
  imports Prelude
begin

text \<open>
  The HDMI sink's audio capabilities (\<open>src/audio/hdmi_audio_utils.c\<close>): the parser of the
  E-EDID the display sends. A read behind the 512 bytes of the array is the value \<open>None\<close>,
  which the caller turns into undefined behaviour. What the parser does with a well-formed
  CEA block is compared with the block's own description, a list of data blocks; for
  arbitrary bytes, as a faulty or hostile sink sends them, the reads are shown to stay inside
  the array as long as the block's length byte leaves room for the longest data block.
\<close>

unbundle bit_operations_syntax

section \<open>Model\<close>

abbreviation "HDMI_MAX_EDID \<equiv> 512 :: nat"
abbreviation "EDID_BLOCK_SIZE \<equiv> 128 :: nat"
abbreviation "EDID_BLOCK_MAP_ID \<equiv> 0xF0 :: nat"
abbreviation "EDID_BLOCK_CEA_ID \<equiv> 0x02 :: nat"
abbreviation "EDID_BLOCK_CEA_REV_3 \<equiv> 0x03 :: nat"
abbreviation "CEA_TAG_MASK \<equiv> 0xE0 :: nat"
abbreviation "CEA_SIZE_MASK \<equiv> 0x1F :: nat"
abbreviation "CEA_TAG_AUDIO \<equiv> 0x20 :: nat"
abbreviation "CEA_TAG_SPKRS \<equiv> 0x80 :: nat"
abbreviation "CEA_BIT_AUDIO \<equiv> 0x40 :: nat"

text \<open>An \<open>unsigned char\<close> is a number below 256.\<close>

definition edid_byte :: "nat list \<Rightarrow> nat \<Rightarrow> nat option" where
  "edid_byte edid i = (if i < length edid then Some (edid ! i) else None)"

text \<open>
  What the parser logs of a Short Audio Descriptor: the format, the number of channels, the
  mask of the sample rates and, for the compressed formats, the bit rate.
\<close>

record descriptor =
  sad_format :: nat
  sad_channels :: nat
  sad_rates :: nat
  sad_bit_rate :: "nat option"

definition descriptor_of :: "nat \<Rightarrow> nat \<Rightarrow> nat \<Rightarrow> descriptor" where
  "descriptor_of b0 b1 b2 =
     (let format = drop_bit 3 (b0 AND 0x78) in
      \<lparr>sad_format = format, sad_channels = (b0 AND 0x07) + 1, sad_rates = b1 AND 0x7F,
       sad_bit_rate = (if format \<ge> 2 \<and> format \<le> 8 then Some (b2 * 8) else None)\<rparr>)"

function dump_loop :: "nat list \<Rightarrow> nat \<Rightarrow> nat \<Rightarrow> descriptor list option" where
  "dump_loop edid p e =
     (if p < e then do {
        b0 \<leftarrow> edid_byte edid p;
        b1 \<leftarrow> edid_byte edid (p + 1);
        b2 \<leftarrow> edid_byte edid (p + 2);
        ds \<leftarrow> dump_loop edid (p + 3) e;
        Some (descriptor_of b0 b1 b2 # ds)
      } else Some [])"
  by pat_completeness auto
termination by (relation "measure (\<lambda>(edid, p, e). e - p)") auto

declare dump_loop.simps [simp del]

definition hdmi_dump_short_audio_descriptor_block :: "nat list \<Rightarrow> nat \<Rightarrow> descriptor list option" where
  "hdmi_dump_short_audio_descriptor_block edid mem = do {
     byte \<leftarrow> edid_byte edid mem;
     let size = byte AND CEA_SIZE_MASK;
     dump_loop edid (mem + 1) (mem + 1 + size)
   }"

text \<open>The loop over the data blocks of a CEA block that starts at \<open>index\<close>.\<close>

function cea_loop :: "nat list \<Rightarrow> nat \<Rightarrow> nat \<Rightarrow> nat \<Rightarrow> nat \<Rightarrow> nat option" where
  "cea_loop edid index d n speaker_alloc =
     (if n < d then do {
        byte \<leftarrow> edid_byte edid (index + n);
        let tag = byte AND CEA_TAG_MASK;
        let size = byte AND CEA_SIZE_MASK;
        sa \<leftarrow> (if tag = CEA_TAG_AUDIO then do {
                 _ \<leftarrow> hdmi_dump_short_audio_descriptor_block edid (index + n);
                 Some speaker_alloc
               } else if tag = CEA_TAG_SPKRS then edid_byte edid (index + n + 1)
               else Some speaker_alloc);
        cea_loop edid index d (n + 1 + size) sa
      } else Some speaker_alloc)"
  by pat_completeness auto
termination by (relation "measure (\<lambda>(edid, index, d, n, sa). d - n)") auto

declare cea_loop.simps [simp del]

record hdmi_audio_caps_t =
  has_audio :: int
  speaker_alloc :: int

text \<open>The loop over the extension blocks; it stops at the first CEA block of revision 3.\<close>

function block_loop :: "nat list \<Rightarrow> nat \<Rightarrow> nat \<Rightarrow> hdmi_audio_caps_t option" where
  "block_loop edid edid_size index =
     (if index < edid_size then do {
        id \<leftarrow> edid_byte edid index;
        rev \<leftarrow> (if id = EDID_BLOCK_CEA_ID then edid_byte edid (index + 1) else Some 0);
        if id = EDID_BLOCK_CEA_ID \<and> rev = EDID_BLOCK_CEA_REV_3 then do {
          d \<leftarrow> edid_byte edid (index + 2);
          flags \<leftarrow> edid_byte edid (index + 3);
          if flags AND CEA_BIT_AUDIO \<noteq> 0 then do {
            sa \<leftarrow> cea_loop edid index d 4 0;
            Some \<lparr>has_audio = 1, speaker_alloc = int sa\<rparr>
          } else Some \<lparr>has_audio = 0, speaker_alloc = 0\<rparr>
        } else block_loop edid edid_size (index + EDID_BLOCK_SIZE)
      } else Some \<lparr>has_audio = 0, speaker_alloc = 0\<rparr>)"
  by pat_completeness auto
termination by (relation "measure (\<lambda>(edid, edid_size, index). edid_size - index)") auto

declare block_loop.simps [simp del]

definition parse_edid :: "nat list \<Rightarrow> hdmi_audio_caps_t option" where
  "parse_edid edid = do {
     ext \<leftarrow> edid_byte edid 0x7E;
     id \<leftarrow> edid_byte edid EDID_BLOCK_SIZE;
     let nblocks = (if id = EDID_BLOCK_MAP_ID then ext + 1 else ext);
     block_loop edid (min HDMI_MAX_EDID (EDID_BLOCK_SIZE * (nblocks + 1))) EDID_BLOCK_SIZE
   }"

text \<open>The array after the read: zeroed by \<open>memset\<close> before.\<close>

definition edid_array :: "string \<Rightarrow> nat list" where
  "edid_array data =
     (let bytes = take HDMI_MAX_EDID (map of_char data) in
      bytes @ replicate (HDMI_MAX_EDID - length bytes) 0)"

definition sink_bytes :: "ret \<Rightarrow> nat list" where
  "sink_bytes status = edid_array (take (nat (ret_val status)) (ret_data status))"

text \<open>
  The calls of the HDMI audio HAL: the EDID file, the PCM device of tinyalsa, the parameter
  lists of \<open>libcutils\<close> and the allocator. A pointer is a number, the null pointer 0.
\<close>

record pcm_config =
  channels :: "32 word"
  rate :: "32 word"
  period_size :: "32 word"
  period_count :: "32 word"
  pcm_format :: int

datatype hdmi_call =
    HOpen string | HRead int nat | HClose int
  | PcmOpen int int pcm_config | PcmIsReady int | PcmGetError int | PcmClose int | PcmWrite int nat
  | ParmsCreateStr string | ParmsCreate | ParmsGetStr int string | ParmsAddStr int string string
  | ParmsToStr int | ParmsDestroy int
  | HCalloc nat | HStrdup string | HFree int

text \<open>
  After a failed read the descriptor is closed before \<open>errno\<close> is looked at, so a failing
  \<open>close\<close> decides about the status. The capabilities are set on success only.
\<close>

definition hdmi_query_audio_caps ::
  "hdmi_call os \<Rightarrow> string \<Rightarrow> ((hdmi_call, 'z) io_state_scheme, int \<times> hdmi_audio_caps_t option) state" where
  "hdmi_query_audio_caps os edid_path = do {
     fd \<leftarrow> syscall os (HOpen edid_path);
     if ret_val fd = -1 then return (- ret_errno fd, None)
     else do {
       status \<leftarrow> syscall os (HRead (ret_val fd) HDMI_MAX_EDID);
       closed \<leftarrow> syscall os (HClose (ret_val fd));
       if ret_val status = -1
       then return (- ret_errno (if ret_val closed = -1 then closed else status), None)
       else (case parse_edid (sink_bytes status) of
          None \<Rightarrow> do { undefined_behaviour; return (0, None) }
        | Some caps \<Rightarrow> return (0, Some caps))
     }
   }"

lemma length_edid_array [simp]: "length (edid_array data) = HDMI_MAX_EDID"
  by (simp add: edid_array_def Let_def)

lemma edid_array_byte: "b \<in> set (edid_array data) \<Longrightarrow> b < 256"
  by (auto simp: edid_array_def Let_def dest!: in_set_takeD)

lemma edid_byte_some: "i < length e \<Longrightarrow> edid_byte e i = Some (e ! i)"
  by (simp add: edid_byte_def)

section \<open>Reads stay inside the array\<close>

text \<open>
  The longest data block has 31 bytes behind its header, and its last descriptor is read three
  bytes at a time: 33 bytes behind the header.
\<close>

lemma size_mask: "b AND CEA_SIZE_MASK = b mod 32"
proof -
  have "b AND mask 5 = take_bit 5 b" by (simp add: take_bit_eq_mask)
  then show ?thesis by (simp add: mask_eq_exp_minus_1 take_bit_eq_mod)
qed

lemma dump_loop_inside: "e + 1 < length edid \<Longrightarrow> \<exists>ds. dump_loop edid p e = Some ds"
proof (induction edid p e rule: dump_loop.induct)
  case (1 edid p e)
  show ?case
  proof (cases "p < e")
    case True
    then obtain ds where "dump_loop edid (p + 3) e = Some ds" using 1 by (simp add: edid_byte_some) blast
    then show ?thesis using True 1(2) by (subst dump_loop.simps) (simp add: edid_byte_some)
  qed (simp add: dump_loop.simps)
qed

lemma dump_inside:
  assumes "mem + 33 < length edid"
  shows "\<exists>ds. hdmi_dump_short_audio_descriptor_block edid mem = Some ds"
proof -
  have "edid ! mem mod 32 < 32" by simp
  then have "mem + 1 + edid ! mem mod 32 + 1 < length edid" using assms by linarith
  then show ?thesis
    using dump_loop_inside [of "mem + 1 + edid ! mem mod 32" edid "mem + 1"] assms
    by (simp add: hdmi_dump_short_audio_descriptor_block_def edid_byte_some size_mask)
qed

lemma cea_loop_inside: "index + d + 33 \<le> length edid \<Longrightarrow> \<exists>sa'. cea_loop edid index d n sa = Some sa'"
proof (induction edid index d n sa rule: cea_loop.induct)
  case (1 edid index d n sa)
  show ?case
  proof (cases "n < d")
    case True
    obtain ds where "hdmi_dump_short_audio_descriptor_block edid (index + n) = Some ds"
      using dump_inside [of "index + n" edid] 1(2) True by auto
    then show ?thesis
      using 1 True by (subst cea_loop.simps) (auto simp: edid_byte_some Let_def)
  qed (simp add: cea_loop.simps)
qed

text \<open>The block at \<open>i\<close> is a CEA block that carries audio and is the one the parser looks into.\<close>

definition cea_audio_at :: "nat list \<Rightarrow> nat \<Rightarrow> bool" where
  "cea_audio_at edid i \<longleftrightarrow> edid ! i = EDID_BLOCK_CEA_ID \<and> edid ! (i + 1) = EDID_BLOCK_CEA_REV_3 \<and>
     edid ! (i + 3) AND CEA_BIT_AUDIO \<noteq> 0"

lemma block_room:
  assumes "index mod EDID_BLOCK_SIZE = 0" "index < HDMI_MAX_EDID"
  shows "index + EDID_BLOCK_SIZE \<le> HDMI_MAX_EDID"
  using assms by presburger

lemma block_loop_inside:
  assumes "length edid = HDMI_MAX_EDID" "sz \<le> HDMI_MAX_EDID" "index mod EDID_BLOCK_SIZE = 0"
    and "\<And>i. index \<le> i \<Longrightarrow> i < sz \<Longrightarrow> cea_audio_at edid i \<Longrightarrow> i mod EDID_BLOCK_SIZE = 0 \<Longrightarrow>
           i + edid ! (i + 2) + 33 \<le> HDMI_MAX_EDID"
  shows "\<exists>caps. block_loop edid sz index = Some caps"
  using assms
proof (induction edid sz index rule: block_loop.induct)
  case (1 edid sz index)
  show ?case
  proof (cases "index < sz")
    case True
    have room: "index + EDID_BLOCK_SIZE \<le> length edid" using True 1(2-4) block_room [of index] by simp
    let ?cea = "edid ! index = EDID_BLOCK_CEA_ID \<and> edid ! (index + 1) = EDID_BLOCK_CEA_REV_3"
    have later: "\<exists>caps. block_loop edid sz (index + EDID_BLOCK_SIZE) = Some caps" if "\<not> ?cea"
    proof (rule 1(1) [OF True, of "edid ! index" "if edid ! index = 2 then edid ! (index + 1) else 0"])
      show "(index + EDID_BLOCK_SIZE) mod EDID_BLOCK_SIZE = 0" using 1(4) by simp
    qed (use that 1(2,3) 1(5) room in \<open>auto simp: edid_byte_some\<close>)
    have "\<exists>sa. cea_loop edid index (edid ! (index + 2)) 4 0 = Some sa" if "cea_audio_at edid index"
      by (rule cea_loop_inside) (use 1(2,4) 1(5) [of index] that True in simp)
    then show ?thesis
      using True room later by (subst block_loop.simps) (auto simp: edid_byte_some cea_audio_at_def)
  qed (simp add: block_loop.simps)
qed


lemma parse_edid_inside:
  assumes "length edid = HDMI_MAX_EDID"
    and "\<And>i. i \<in> {128, 256, 384} \<Longrightarrow> cea_audio_at edid i \<Longrightarrow> i + edid ! (i + 2) + 33 \<le> HDMI_MAX_EDID"
  shows "\<exists>caps. parse_edid edid = Some caps"
proof -
  have pos: "i \<in> {128, 256, 384}" if "EDID_BLOCK_SIZE \<le> i" "i < HDMI_MAX_EDID" "i mod EDID_BLOCK_SIZE = 0" for i
    using that by simp presburger
  have "\<exists>caps. block_loop edid (min HDMI_MAX_EDID n) EDID_BLOCK_SIZE = Some caps" for n
    by (rule block_loop_inside) (use assms pos in auto)
  then show ?thesis using assms(1) by (simp add: parse_edid_def edid_byte_some Let_def)
qed

definition leaves_room :: "nat list \<Rightarrow> bool" where
  "leaves_room edid \<longleftrightarrow> (\<forall>i\<in>{256, 384}. cea_audio_at edid i \<longrightarrow> i + edid ! (i + 2) + 33 \<le> HDMI_MAX_EDID)"

lemma leaves_room_parsed:
  assumes "leaves_room (sink_bytes r)"
  shows "\<exists>caps. parse_edid (sink_bytes r) = Some caps"
proof (rule parse_edid_inside)
  have len: "length (sink_bytes r) = HDMI_MAX_EDID" by (simp add: sink_bytes_def)
  then have "sink_bytes r ! 130 \<in> set (sink_bytes r)" by simp
  then have "sink_bytes r ! 130 < 256" unfolding sink_bytes_def by (rule edid_array_byte)
  then show "i + sink_bytes r ! (i + 2) + 33 \<le> HDMI_MAX_EDID"
    if "i \<in> {128, 256, 384}" "cea_audio_at (sink_bytes r) i" for i
    using that assms by (auto simp: leaves_room_def)
qed (simp add: sink_bytes_def)

text \<open>
  C19: whatever a sink sends, and whether it sends a whole EDID or a part, the parser reads
  inside its array and answers with capabilities or a status, if the length byte of a CEA
  block in the second or third extension leaves room for the longest data block. A CEA block in
  the first extension, where the specification puts it, always has the room.
\<close>

theorem edid_reads_inside:
  assumes "\<And>h fd. leaves_room (sink_bytes (os h (HRead fd HDMI_MAX_EDID)))" and "\<not> fault s"
  shows "\<not> fault (exec (hdmi_query_audio_caps os path) s) \<and>
    (let (status, caps) = eval_in (hdmi_query_audio_caps os path) s in
     caps = None \<longrightarrow> ret_val (os (trace s) (HOpen path)) = -1 \<or>
       (\<exists>h. ret_val (os h (HRead (ret_val (os (trace s) (HOpen path))) HDMI_MAX_EDID)) = -1))"
proof -
  let ?fd = "ret_val (os (trace s) (HOpen path))"
  let ?h = "trace s @ [(HOpen path, os (trace s) (HOpen path))]"
  obtain caps where "parse_edid (sink_bytes (os ?h (HRead ?fd HDMI_MAX_EDID))) = Some caps"
    using leaves_room_parsed assms(1) by blast
  then show ?thesis using assms(2) by (auto simp: hdmi_query_audio_caps_def)
qed

section \<open>A well-formed EDID\<close>

datatype data_block =
    Audio_Block "(nat \<times> nat \<times> nat) list"
  | Speaker_Block nat nat nat
  | Other_Block nat "nat list"

fun sad_bytes :: "nat \<times> nat \<times> nat \<Rightarrow> nat list" where
  "sad_bytes (a, b, c) = [a, b, c]"

fun encode :: "data_block \<Rightarrow> nat list" where
  "encode (Audio_Block ds) = (0x20 + 3 * length ds) # concat (map sad_bytes ds)"
| "encode (Speaker_Block a b c) = [0x83, a, b, c]"
| "encode (Other_Block t bs) = (32 * t + length bs) # bs"

fun block_ok :: "data_block \<Rightarrow> bool" where
  "block_ok (Audio_Block ds) \<longleftrightarrow> length ds \<le> 10"
| "block_ok (Speaker_Block a b c) \<longleftrightarrow> True"
| "block_ok (Other_Block t bs) \<longleftrightarrow> t < 8 \<and> t \<noteq> 1 \<and> t \<noteq> 4 \<and> length bs < 32"

fun announced :: "data_block \<Rightarrow> nat \<Rightarrow> nat" where
  "announced (Speaker_Block a b c) sa = a"
| "announced _ sa = sa"

lemma tag_mask:
  assumes "t < 8" "k < 32"
  shows "(32 * t + k) AND CEA_TAG_MASK = 32 * t"
proof -
  let ?b = "32 * t + k"
  have "CEA_TAG_MASK = push_bit 5 (mask 3)" by (simp add: push_bit_eq_mult mask_eq_exp_minus_1)
  moreover have "?b AND push_bit 5 (mask 3) = push_bit 5 (drop_bit 5 ?b AND mask 3)"
    by (rule bit_eqI) (auto simp: bit_simps)
  moreover have "drop_bit 5 ?b = t" using assms by (simp add: drop_bit_eq_div)
  moreover have "t AND mask 3 = t" using assms by (simp add: take_bit_eq_mask [symmetric] take_bit_nat_eq_self)
  ultimately have "?b AND CEA_TAG_MASK = push_bit 5 t" by (simp only:)
  then show ?thesis by (simp add: push_bit_eq_mult)
qed

text \<open>The bytes of \<open>xs\<close> stand in the array at \<open>i\<close>.\<close>

definition stands_at :: "nat list \<Rightarrow> nat \<Rightarrow> nat list \<Rightarrow> bool" where
  "stands_at edid i xs \<longleftrightarrow> (\<forall>k<length xs. edid_byte edid (i + k) = Some (xs ! k))"

lemma stands_at_Nil [simp]: "stands_at edid i []"
  by (simp add: stands_at_def)

lemma stands_at_Cons [simp]:
  "stands_at edid i (x # xs) \<longleftrightarrow> edid_byte edid i = Some x \<and> stands_at edid (Suc i) xs"
  by (auto simp: stands_at_def less_Suc_eq_0_disj)

lemma stands_at_append [simp]:
  "stands_at edid i (xs @ ys) \<longleftrightarrow> stands_at edid i xs \<and> stands_at edid (i + length xs) ys"
  by (induction xs arbitrary: i) auto

lemma stands_at_middle: "length pre = i \<Longrightarrow> stands_at (pre @ xs @ post) i xs"
  by (auto simp: stands_at_def edid_byte_def nth_append)

lemma length_sad_bytes [simp]: "length (concat (map sad_bytes ds)) = 3 * length ds"
  by (induction ds) (auto split: prod.splits)

lemma dump_loop_reads:
  "stands_at edid p (concat (map sad_bytes ds)) \<Longrightarrow>
   dump_loop edid p (p + 3 * length ds) = Some (map (\<lambda>(a, b, c). descriptor_of a b c) ds)"
proof (induction ds arbitrary: p)
  case (Cons x ds)
  obtain a b c where x: "x = (a, b, c)" by (cases x)
  have "dump_loop edid (p + 3) (p + 3 + 3 * length ds) = Some (map (\<lambda>(a, b, c). descriptor_of a b c) ds)"
    by (rule Cons.IH) (use Cons.prems x in \<open>simp add: numeral_3_eq_3\<close>)
  then show ?case using Cons.prems x by (subst dump_loop.simps) (simp add: numeral_3_eq_3)
qed (simp add: dump_loop.simps)

lemma header_size: "k < 32 \<Longrightarrow> (32 * t + k) AND CEA_SIZE_MASK = k"
  by (simp add: size_mask)

lemma audio_block_dumped:
  assumes "stands_at edid mem (encode (Audio_Block ds))" "length ds \<le> 10"
  shows "hdmi_dump_short_audio_descriptor_block edid mem =
    Some (map (\<lambda>(a, b, c). descriptor_of a b c) ds)"
  using assms dump_loop_reads [of edid "Suc mem" ds] header_size [of "3 * length ds" 1]
  by (simp add: hdmi_dump_short_audio_descriptor_block_def)

definition payload :: "data_block list \<Rightarrow> nat list" where
  "payload bs = concat (map encode bs)"

lemma payload_simps [simp]: "payload [] = []" "payload (b # bs) = encode b @ payload bs"
  by (simp_all add: payload_def)

text \<open>One data block: what its header says, and what the loop makes of it.\<close>

lemma cea_step:
  assumes "block_ok b" "stands_at edid (index + n) (encode b)" "n < d"
  shows "cea_loop edid index d n sa = cea_loop edid index d (n + length (encode b)) (announced b sa)"
proof (cases b)
  case (Audio_Block ds)
  then show ?thesis
    using assms audio_block_dumped [of edid "index + n" ds] tag_mask [of 1 "3 * length ds"]
      header_size [of "3 * length ds" 1]
    by (subst cea_loop.simps) simp
next
  case (Speaker_Block x y z)
  then show ?thesis
    using assms tag_mask [of 4 3] header_size [of 3 4] by (subst cea_loop.simps) simp
next
  case (Other_Block t bs)
  then show ?thesis
    using assms tag_mask [of t "length bs"] header_size [of "length bs" t] by (subst cea_loop.simps) simp
qed

lemma encode_not_empty: "0 < length (encode b)"
  by (cases b) simp_all

lemma cea_loop_reads:
  "\<forall>b\<in>set bs. block_ok b \<Longrightarrow> stands_at edid (index + n) (payload bs) \<Longrightarrow>
   cea_loop edid index (n + length (payload bs)) n sa = Some (fold announced bs sa)"
proof (induction bs arbitrary: n sa)
  case (Cons b bs)
  then show ?case
    using cea_step [of b edid index n "n + length (payload (b # bs))" sa]
      Cons.IH [of "n + length (encode b)" "announced b sa"] encode_not_empty [of b]
    by (simp add: add.assoc)
qed (simp add: cea_loop.simps)


definition cea_block :: "data_block list \<Rightarrow> nat \<Rightarrow> nat list \<Rightarrow> nat list" where
  "cea_block bs flags rest = [0x02, 0x03, 4 + length (payload bs), flags] @ payload bs @ rest"

definition other_extension :: "nat list \<Rightarrow> bool" where
  "other_extension x \<longleftrightarrow> length x = EDID_BLOCK_SIZE \<and> \<not> (x ! 0 = 0x02 \<and> x ! 1 = 0x03)"

lemma stands_atD: "stands_at edid i xs \<Longrightarrow> k < length xs \<Longrightarrow> edid_byte edid (i + k) = Some (xs ! k)"
  by (simp add: stands_at_def)

lemma block_loop_finds:
  assumes "\<forall>x\<in>set before. other_extension x" "\<forall>b\<in>set bs. block_ok b" "flags AND CEA_BIT_AUDIO \<noteq> 0"
    and "stands_at edid index (concat before @ cea_block bs flags rest)"
    and "index + length (concat before) < sz"
  shows "block_loop edid sz index = Some \<lparr>has_audio = 1, speaker_alloc = int (fold announced bs 0)\<rparr>"
  using assms(1,4,5)
proof (induction before arbitrary: index)
  case Nil
  have "stands_at edid (index + 4) (payload bs)"
    using Nil by (simp add: cea_block_def eval_nat_numeral)
  then have "cea_loop edid index (4 + length (payload bs)) 4 0 = Some (fold announced bs 0)"
    using cea_loop_reads [of bs edid index 4 0] assms(2) by simp
  then show ?case
    using Nil assms(3) by (subst block_loop.simps) (simp add: cea_block_def eval_nat_numeral)
next
  case (Cons x before)
  have x: "length x = EDID_BLOCK_SIZE" "\<not> (x ! 0 = 0x02 \<and> x ! 1 = 0x03)"
    using Cons.prems(1) by (auto simp: other_extension_def)
  have "edid_byte edid (index + 0) = Some (x ! 0)" "edid_byte edid (index + 1) = Some (x ! 1)"
    by (rule stands_atD; use Cons.prems(2) x(1) in simp)+
  moreover have "block_loop edid sz (index + EDID_BLOCK_SIZE) =
      Some \<lparr>has_audio = 1, speaker_alloc = int (fold announced bs 0)\<rparr>"
    by (rule Cons.IH) (use Cons.prems x(1) in auto)
  ultimately show ?case using Cons.prems(3) x by (subst block_loop.simps) auto
qed

lemma edid_array_padded:
  assumes "\<forall>b\<in>set bytes. b < 256" "length bytes \<le> HDMI_MAX_EDID"
  shows "edid_array (map char_of bytes) = bytes @ replicate (HDMI_MAX_EDID - length bytes) 0"
proof -
  have "map of_char (map char_of bytes) = bytes"
    using assms(1) by (induction bytes) auto
  then show ?thesis using assms(2) by (simp add: edid_array_def)
qed

lemma length_blocks: "\<forall>x\<in>set xs. length x = n \<Longrightarrow> length (concat xs) = n * length xs"
  by (induction xs) auto

lemma well_formed_parsed:
  assumes base: "length base = EDID_BLOCK_SIZE" "base ! 0x7E = length exts" "length exts \<le> 3"
    and exts: "exts = before @ [cea_block bs flags rest] @ after" "\<forall>x\<in>set exts. length x = EDID_BLOCK_SIZE"
    and cea: "\<forall>x\<in>set before. other_extension x" "\<forall>b\<in>set bs. block_ok b" "flags AND CEA_BIT_AUDIO \<noteq> 0"
  shows "parse_edid (base @ concat exts @ pad) =
    Some \<lparr>has_audio = 1, speaker_alloc = int (fold announced bs 0)\<rparr>"
proof -
  let ?e = "base @ concat exts @ pad"
  have len: "length (concat exts) = EDID_BLOCK_SIZE * length exts" using exts(2) by (rule length_blocks)
  have before: "length (concat before) = EDID_BLOCK_SIZE * length before"
    using exts by (intro length_blocks) auto
  have found: "block_loop ?e sz EDID_BLOCK_SIZE =
      Some \<lparr>has_audio = 1, speaker_alloc = int (fold announced bs 0)\<rparr>"
    if "EDID_BLOCK_SIZE + length (concat before) < sz" for sz
  proof (rule block_loop_finds [OF cea _ that])
    have "stands_at (base @ (concat before @ cea_block bs flags rest) @ (concat after @ pad)) EDID_BLOCK_SIZE
       (concat before @ cea_block bs flags rest)"
      by (rule stands_at_middle [OF base(1)])
    then show "stands_at ?e EDID_BLOCK_SIZE (concat before @ cea_block bs flags rest)"
      by (simp add: exts(1))
  qed
  have b: "edid_byte ?e 0x7E = Some (length exts)" using base by (simp add: edid_byte_def nth_append)
  obtain id where id: "edid_byte ?e EDID_BLOCK_SIZE = Some id"
    using base len exts by (auto simp: edid_byte_def)
  have "length before < length exts" using exts(1) by simp
  then have "block_loop ?e (min HDMI_MAX_EDID (EDID_BLOCK_SIZE * (n + 1))) EDID_BLOCK_SIZE =
      Some \<lparr>has_audio = 1, speaker_alloc = int (fold announced bs 0)\<rparr>" if "length exts \<le> n" for n
    using base(3) before that by (intro found) simp
  from this [of "length exts"] this [of "length exts + 1"] show ?thesis
    using b id by (simp add: parse_edid_def Let_def)
qed

text \<open>
  An EDID that describes a sink with these data blocks: a base block with the number of
  extensions, and among the extensions a CEA block with the data blocks in any order.
\<close>

definition describes :: "nat list \<Rightarrow> data_block list \<Rightarrow> bool" where
  "describes bytes bs \<longleftrightarrow> (\<exists>base exts before flags rest after.
     bytes = base @ concat exts \<and> exts = before @ [cea_block bs flags rest] @ after \<and>
     length base = EDID_BLOCK_SIZE \<and> base ! 0x7E = length exts \<and> length exts \<le> 3 \<and>
     (\<forall>x\<in>set exts. length x = EDID_BLOCK_SIZE) \<and> (\<forall>x\<in>set before. other_extension x) \<and>
     (\<forall>b\<in>set bs. block_ok b) \<and> flags AND CEA_BIT_AUDIO \<noteq> 0 \<and> (\<forall>b\<in>set bytes. b < 256))"

lemma described_parsed:
  assumes "describes bytes bs"
  shows "parse_edid (sink_bytes (data_result (map char_of bytes))) =
    Some \<lparr>has_audio = 1, speaker_alloc = int (fold announced bs 0)\<rparr>"
proof -
  obtain base exts before flags rest after where bytes: "bytes = base @ concat exts" "\<forall>b\<in>set bytes. b < 256"
    and base: "length base = EDID_BLOCK_SIZE" "base ! 0x7E = length exts" "length exts \<le> 3"
    and exts: "exts = before @ [cea_block bs flags rest] @ after" "\<forall>x\<in>set exts. length x = EDID_BLOCK_SIZE"
    and cea: "\<forall>x\<in>set before. other_extension x" "\<forall>b\<in>set bs. block_ok b" "flags AND CEA_BIT_AUDIO \<noteq> 0"
    using assms unfolding describes_def by blast
  have "length (concat exts) = EDID_BLOCK_SIZE * length exts" using exts(2) by (rule length_blocks)
  then have "length bytes \<le> HDMI_MAX_EDID" using base bytes(1) by simp
  then have "edid_array (map char_of bytes) = bytes @ replicate (HDMI_MAX_EDID - length bytes) 0"
    by (rule edid_array_padded [OF bytes(2)])
  then show ?thesis using well_formed_parsed [OF base exts cea] bytes(1) by (simp add: sink_bytes_def)
qed

text \<open>
  From a well-formed EDID the HAL learns that the sink plays audio and the speakers its last
  speaker block names.
\<close>

lemma sink_audio_found:
  assumes "describes bytes bs" "\<And>h. ret_val (os h (HOpen path)) \<noteq> -1"
    and "\<And>h fd. os h (HRead fd HDMI_MAX_EDID) = data_result (map char_of bytes)"
  shows "\<exists>h fd. map fst h = [HOpen path, HRead fd HDMI_MAX_EDID, HClose fd] \<and>
    run_state (hdmi_query_audio_caps os path) s =
    ((0, Some \<lparr>has_audio = 1, speaker_alloc = int (fold announced bs 0)\<rparr>), s\<lparr>trace := trace s @ h\<rparr>)"
proof -
  let ?r = "data_result (map char_of bytes)" and ?o = "os (trace s) (HOpen path)"
  let ?h = "[(HOpen path, ?o), (HRead (ret_val ?o) HDMI_MAX_EDID, ?r)]"
  show ?thesis
    using assms(2) described_parsed [OF assms(1)]
    by (intro exI [of _ "?h @ [(HClose (ret_val ?o), os (trace s @ ?h) (HClose (ret_val ?o)))]"]
        exI [of _ "ret_val ?o"]) (simp add: hdmi_query_audio_caps_def assms(3))
qed

text \<open>
  A CEA block in the third extension whose length byte claims 255 bytes: the parser walks out of
  the array.
\<close>

definition hostile_edid :: "nat list" where
  "hostile_edid = (replicate 0x7E 0 @ [3, 0]) @ replicate 256 0 @ [0x02, 0x03, 255, 0x40] @ replicate 124 0"

lemma cea_loop_skips:
  assumes "\<And>i. index + n \<le> i \<Longrightarrow> i < length edid \<Longrightarrow> edid ! i = 0" "index + n \<le> length edid" "length edid < index + d"
  shows "cea_loop edid index d n sa = None"
  using assms
proof (induction "length edid - (index + n)" arbitrary: n)
  case 0
  then show ?case by (subst cea_loop.simps) (simp add: edid_byte_def)
next
  case (Suc k)
  have "edid ! (index + n) = 0" by (rule Suc(3)) (use Suc(2) in simp_all)
  moreover have "cea_loop edid index d (n + 1) sa = None"
    by (rule Suc(1)) (use Suc(2-5) in auto)
  moreover have "index + n < length edid" "n < d" using Suc(2,5) by linarith+
  ultimately show ?case by (subst cea_loop.simps) (simp add: edid_byte_def)
qed

lemma hostile_edid_overruns: "length hostile_edid = HDMI_MAX_EDID \<and> parse_edid hostile_edid = None"
proof -
  have len: "length hostile_edid = HDMI_MAX_EDID" by (simp add: hostile_edid_def)
  have zero: "hostile_edid ! i = 0" if "388 \<le> i" "i < 512" for i
    using that by (simp add: hostile_edid_def nth_append nth_Cons')
  have at: "hostile_edid ! 126 = 3" "hostile_edid ! 128 = 0" "hostile_edid ! 256 = 0"
      "hostile_edid ! 384 = 2" "hostile_edid ! 385 = 3" "hostile_edid ! 386 = 255" "hostile_edid ! 387 = 64"
    by (simp_all add: hostile_edid_def nth_append nth_Cons')
  have "cea_loop hostile_edid 384 255 4 0 = None"
    by (rule cea_loop_skips) (use zero len in auto)
  then have "block_loop hostile_edid 512 384 = None"
    by (subst block_loop.simps) (simp add: at edid_byte_def len)
  then show ?thesis
    by (simp add: parse_edid_def block_loop.simps [of _ _ 128] block_loop.simps [of _ _ 256] at edid_byte_def len)
qed


section \<open>Two sinks\<close>

definition sends :: "nat list \<Rightarrow> hdmi_call os" where
  "sends bytes h c = (case c of
      HOpen path \<Rightarrow> result 3
    | HRead fd n \<Rightarrow> data_result (map char_of bytes)
    | _ \<Rightarrow> result 0)"

definition idle_hal :: "hdmi_call io_state" where
  "idle_hal = \<lparr>trace = [], fault = False\<rparr>"

definition base_block :: "nat \<Rightarrow> nat list" where
  "base_block n = replicate 0x7E 0 @ [n, 0]"

text \<open>A receiver with LPCM and 5.1 speakers.\<close>

definition receiver_blocks :: "data_block list" where
  "receiver_blocks = [Audio_Block [(0x0F, 0x07, 0x07)], Other_Block 2 [16, 4], Speaker_Block 0x0F 0 0]"

definition receiver_block :: "nat list" where
  "receiver_block = cea_block receiver_blocks 0x40 (replicate 113 0)"

text \<open>A sink whose first extension claims 255 bytes and is full of the longest audio blocks.\<close>

definition shameless_edid :: "nat list" where
  "shameless_edid = base_block 3 @ [0x02, 0x03, 255, 0x40] @ replicate 380 0x3F"

theorem edid_reads_inside_witness:
  "\<not> fault (exec (hdmi_query_audio_caps (sends shameless_edid) ''edid'') idle_hal)"
proof -
  have bytes: "\<forall>b\<in>set shameless_edid. b < 256" by (auto simp: shameless_edid_def base_block_def)
  have len: "length shameless_edid = HDMI_MAX_EDID" by (simp add: shameless_edid_def base_block_def)
  have "sink_bytes (data_result (map char_of shameless_edid)) = shameless_edid"
    using edid_array_padded [OF bytes] len by (simp add: sink_bytes_def)
  moreover have "leaves_room shameless_edid"
    by (simp add: leaves_room_def cea_audio_at_def shameless_edid_def base_block_def nth_append nth_Cons')
  ultimately show ?thesis
    using edid_reads_inside [of "sends shameless_edid" idle_hal "''edid''"]
    by (simp add: sends_def idle_hal_def)
qed

lemma receiver_described: "describes (base_block 1 @ receiver_block) receiver_blocks"
  unfolding describes_def
proof (intro exI conjI)
  show "base_block 1 @ receiver_block = base_block 1 @ concat [receiver_block]" by simp
  show "[receiver_block] = [] @ [cea_block receiver_blocks 0x40 (replicate 113 0)] @ []"
    by (simp add: receiver_block_def)
  show "base_block 1 ! 0x7E = length [receiver_block]" by (simp add: base_block_def nth_append)
  show "\<forall>b\<in>set (base_block 1 @ receiver_block). b < 256"
    by (auto simp: base_block_def receiver_block_def cea_block_def receiver_blocks_def)
qed (simp_all add: base_block_def receiver_block_def cea_block_def receiver_blocks_def)

end
