(* ===== verification/Hdmi_Audio.thy ===== *)
theory Hdmi_Audio
  imports Hdmi_Edid
begin

text \<open>
  The HDMI audio HAL (\<open>src/audio/hdmi_audio_hw.c\<close>): output streams that open the PCM device on
  the first write and close it in standby. The streams live on the heap, each with the \<open>up\<close>
  flag and the handle of its device. The constants of \<open>system/audio.h\<close> and of tinyalsa are
  the parameter \<open>audio_h\<close>; of tinyalsa and the allocator only what their headers promise is
  used: a handle or a block that is still in use is not handed out again.
\<close>

section \<open>Model\<close>

record audio_h =
  AUDIO_FORMAT_DEFAULT :: "32 word"
  AUDIO_FORMAT_PCM_16_BIT :: "32 word"
  AUDIO_CHANNEL_OUT_FRONT_LEFT :: "32 word"
  AUDIO_CHANNEL_OUT_FRONT_RIGHT :: "32 word"
  AUDIO_CHANNEL_OUT_FRONT_CENTER :: "32 word"
  AUDIO_CHANNEL_OUT_BACK_CENTER :: "32 word"
  AUDIO_CHANNEL_OUT_STEREO :: "32 word"
  AUDIO_CHANNEL_OUT_QUAD :: "32 word"
  AUDIO_CHANNEL_OUT_5POINT1 :: "32 word"
  AUDIO_CHANNEL_OUT_7POINT1 :: "32 word"
  PCM_FORMAT_S16_LE :: int
  AUDIO_PARAMETER_STREAM_SUP_CHANNELS :: string

definition HDMI_AUDIO_CHANNEL_OUT_SURROUND :: "audio_h \<Rightarrow> 32 word" where
  "HDMI_AUDIO_CHANNEL_OUT_SURROUND c =
     AUDIO_CHANNEL_OUT_FRONT_LEFT c OR AUDIO_CHANNEL_OUT_FRONT_RIGHT c OR
     AUDIO_CHANNEL_OUT_FRONT_CENTER c OR AUDIO_CHANNEL_OUT_BACK_CENTER c"

abbreviation "HDMI_PCM_DEV \<equiv> 0 :: int"
abbreviation "HDMI_SAMPLING_RATE \<equiv> 44100 :: 32 word"
abbreviation "HDMI_PERIOD_SIZE \<equiv> 1920 :: 32 word"
abbreviation "HDMI_PERIOD_COUNT \<equiv> 4 :: 32 word"
abbreviation "HDMI_EDID_PATH \<equiv> ''/sys/devices/omapdss/display1/edid''"
abbreviation "ENOMEM \<equiv> 12 :: int"
abbreviation "ENOSYS \<equiv> 38 :: int"

record audio_config =
  sample_rate :: "32 word"
  channel_mask :: "32 word"
  aformat :: "32 word"

record hdmi_out =
  out_config :: pcm_config
  out_pcm :: int
  android_config :: audio_config
  out_up :: bool

record hdmi_state = "hdmi_call io_state" +
  outs :: "int \<rightharpoonup> hdmi_out"

type_synonym 'a hdmi = "(hdmi_state, 'a) state"

definition init_hdmi :: hdmi_state where
  "init_hdmi = \<lparr>trace = [], fault = False, outs = Map.empty\<rparr>"

text \<open>The object behind a stream pointer; there is none behind a freed one.\<close>

definition with_out :: "int \<Rightarrow> 'a \<Rightarrow> (hdmi_out \<Rightarrow> 'a hdmi) \<Rightarrow> 'a hdmi" where
  "with_out p x f = do {
     o' \<leftarrow> gets (\<lambda>s. outs s p);
     (case o' of None \<Rightarrow> do { undefined_behaviour; return x } | Some out \<Rightarrow> f out)
   }"

definition set_out :: "int \<Rightarrow> (hdmi_out \<Rightarrow> hdmi_out) \<Rightarrow> unit hdmi" where
  "set_out p f = modify (\<lambda>s. s\<lparr>outs := (outs s)(p := map_option f (outs s p))\<rparr>)"

definition hdmi_out_get_sample_rate :: "hdmi_out \<Rightarrow> 32 word" where
  "hdmi_out_get_sample_rate out = rate (out_config out)"

text \<open>\<open>audio_stream_frame_size\<close> is a function of the Android headers.\<close>

definition hdmi_out_get_buffer_size :: "(hdmi_out \<Rightarrow> 32 word) \<Rightarrow> hdmi_out \<Rightarrow> 32 word" where
  "hdmi_out_get_buffer_size audio_stream_frame_size out =
     audio_stream_frame_size out * period_size (out_config out)"

definition hdmi_out_get_channels :: "hdmi_out \<Rightarrow> 32 word" where
  "hdmi_out_get_channels out = channel_mask (android_config out)"

definition hdmi_out_get_format :: "hdmi_out \<Rightarrow> 32 word" where
  "hdmi_out_get_format out = aformat (android_config out)"

definition hdmi_out_standby :: "hdmi_call os \<Rightarrow> int \<Rightarrow> int hdmi" where
  "hdmi_out_standby os p = with_out p 0 (\<lambda>out. do {
     whenM (out_up out \<and> out_pcm out \<noteq> 0) (do {
       set_out p (\<lambda>out. out\<lparr>out_up := False\<rparr>);
       syscall os (PcmClose (out_pcm out));
       set_out p (\<lambda>out. out\<lparr>out_pcm := 0\<rparr>)
     });
     return 0
   })"

abbreviation "MASK_CEA_QUAD \<equiv> 0x09 :: nat"
abbreviation "MASK_CEA_SURROUND \<equiv> 0x15 :: nat"
abbreviation "MASK_CEA_5POINT1 \<equiv> 0x0F :: nat"
abbreviation "MASK_CEA_7POINT1 \<equiv> 0x4F :: nat"

definition SUPPORTS_ARR :: "nat \<Rightarrow> nat \<Rightarrow> bool" where
  "SUPPORTS_ARR spkalloc profile \<longleftrightarrow> spkalloc AND profile = profile"

text \<open>One of the four statements that add the name of a layout; the pair is \<open>first\<close> and \<open>value\<close>.\<close>

fun add_layout :: "nat \<Rightarrow> nat \<Rightarrow> string \<Rightarrow> bool \<times> string \<Rightarrow> bool \<times> string" where
  "add_layout sa profile name (first, value) =
     (if SUPPORTS_ARR sa profile
      then (False, (if first then value else value @ ''|'') @ name)
      else (first, value))"

definition sup_channels :: "nat \<Rightarrow> string" where
  "sup_channels sa = snd
     (add_layout sa MASK_CEA_7POINT1 ''AUDIO_CHANNEL_OUT_7POINT1''
     (add_layout sa MASK_CEA_5POINT1 ''AUDIO_CHANNEL_OUT_5POINT1''
     (add_layout sa MASK_CEA_SURROUND ''AUDIO_CHANNEL_OUT_SURROUND''
     (add_layout sa MASK_CEA_QUAD ''AUDIO_CHANNEL_OUT_QUAD'' (True, '''')))))"

text \<open>
  The names are appended to \<open>char value[256]\<close>; \<open>strdup\<close> reads the text behind its argument. The
  result is the pointer to the answer.
\<close>

definition hdmi_out_get_parameters :: "audio_h \<Rightarrow> hdmi_call os \<Rightarrow> string \<Rightarrow> int hdmi" where
  "hdmi_out_get_parameters c os keys = do {
     query \<leftarrow> syscall os (ParmsCreateStr keys);
     reply \<leftarrow> syscall os ParmsCreate;
     (failed, caps) \<leftarrow> hdmi_query_audio_caps os HDMI_EDID_PATH;
     str \<leftarrow> (if failed \<noteq> 0 then syscall os (HCalloc 1) else case caps of
         None \<Rightarrow> do { undefined_behaviour; return (result 0) }
       | Some caps \<Rightarrow> do {
           status \<leftarrow> syscall os (ParmsGetStr (ret_val query) (AUDIO_PARAMETER_STREAM_SUP_CHANNELS c));
           if ret_val status \<ge> 0 then do {
             let val = sup_channels (nat (speaker_alloc caps));
             whenM (length val \<ge> 256) undefined_behaviour;
             syscall os (ParmsAddStr (ret_val reply) (AUDIO_PARAMETER_STREAM_SUP_CHANNELS c) val);
             txt \<leftarrow> syscall os (ParmsToStr (ret_val reply));
             whenM (ret_val txt = 0) undefined_behaviour;
             syscall os (HStrdup (ret_data txt))
           } else syscall os (HStrdup keys)
         });
     syscall os (ParmsDestroy (ret_val query));
     syscall os (ParmsDestroy (ret_val reply));
     return (ret_val str)
   }"

text \<open>Milliseconds; a stream with rate 0 would divide by zero.\<close>

definition hdmi_out_get_latency :: "int \<Rightarrow> (32 word) hdmi" where
  "hdmi_out_get_latency p = with_out p 0 (\<lambda>out.
     let config = out_config out in
     if rate config = 0 then do { undefined_behaviour; return 0 }
     else return ((1000 * period_size config * period_count config) div rate config))"

definition hdmi_out_find_card :: int where
  "hdmi_out_find_card = 1"

definition hdmi_out_open_pcm :: "hdmi_call os \<Rightarrow> int \<Rightarrow> int hdmi" where
  "hdmi_out_open_pcm os p = with_out p 1 (\<lambda>out.
     if out_up out then return 0
     else do {
       r \<leftarrow> syscall os (PcmOpen hdmi_out_find_card HDMI_PCM_DEV (out_config out));
       set_out p (\<lambda>out. out\<lparr>out_pcm := ret_val r\<rparr>);
       ready \<leftarrow> (if ret_val r \<noteq> 0 then do {
                    k \<leftarrow> syscall os (PcmIsReady (ret_val r));
                    return (ret_val k \<noteq> 0)
                  } else return False);
       if ready then do {
         set_out p (\<lambda>out. out\<lparr>out_up := True\<rparr>);
         return 0
       } else do {
         syscall os (PcmGetError (ret_val r));
         syscall os (PcmClose (ret_val r));
         set_out p (\<lambda>out. out\<lparr>out_pcm := 0, out_up := False\<rparr>);
         return 1
       }
     })"

definition hdmi_out_write :: "hdmi_call os \<Rightarrow> int \<Rightarrow> nat \<Rightarrow> int hdmi" where
  "hdmi_out_write os p bytes = with_out p 0 (\<lambda>out. do {
     failed \<leftarrow> (if \<not> out_up out then hdmi_out_open_pcm os p else return 0);
     if failed \<noteq> 0 then return (- ENOSYS)
     else with_out p 0 (\<lambda>out. do {
       r \<leftarrow> syscall os (PcmWrite (out_pcm out) bytes);
       if ret_val r \<noteq> 0 then do {
         syscall os (PcmGetError (out_pcm out));
         hdmi_out_standby os p;
         return (if ret_val r < 0 then ret_val r else - ret_val r)
       } else return (int bytes)
     })
   })"

text \<open>The format and the channel count for a configuration; \<open>None\<close> is the rejected format.\<close>

definition accepted_format :: "audio_h \<Rightarrow> 32 word \<Rightarrow> 32 word option" where
  "accepted_format c f =
     (if f = AUDIO_FORMAT_DEFAULT c \<or> f = AUDIO_FORMAT_PCM_16_BIT c
      then Some (AUDIO_FORMAT_PCM_16_BIT c) else None)"

definition mask_channels :: "audio_h \<Rightarrow> 32 word \<Rightarrow> 32 word \<times> 32 word" where
  "mask_channels c m =
     (if m = AUDIO_CHANNEL_OUT_STEREO c then (m, 2)
      else if m = AUDIO_CHANNEL_OUT_QUAD c \<or> m = HDMI_AUDIO_CHANNEL_OUT_SURROUND c then (m, 4)
      else if m = AUDIO_CHANNEL_OUT_5POINT1 c then (m, 6)
      else if m = AUDIO_CHANNEL_OUT_7POINT1 c then (m, 8)
      else (AUDIO_CHANNEL_OUT_7POINT1 c, 8))"

text \<open>The answer is the status, the stream and the caller's configuration, whose mask may change.\<close>

definition hdmi_adev_open_output_stream ::
  "audio_h \<Rightarrow> hdmi_call os \<Rightarrow> audio_config \<Rightarrow> (int \<times> int \<times> audio_config) hdmi" where
  "hdmi_adev_open_output_stream c os config = do {
     r \<leftarrow> syscall os (HCalloc 1);
     let p = ret_val r;
     if p = 0 then return (- ENOMEM, 0, config)
     else do {
       let hz = (if sample_rate config \<noteq> 0 then sample_rate config else HDMI_SAMPLING_RATE);
       (case accepted_format c (aformat config) of
          None \<Rightarrow> do { syscall os (HFree p); return (- ENOSYS, 0, config) }
        | Some f \<Rightarrow> do {
            let (m, n) = mask_channels c (channel_mask config);
            modify (\<lambda>s. s\<lparr>outs := (outs s)(p \<mapsto>
              \<lparr>out_config = \<lparr>channels = n, rate = hz, period_size = HDMI_PERIOD_SIZE,
                              period_count = HDMI_PERIOD_COUNT, pcm_format = PCM_FORMAT_S16_LE c\<rparr>,
               out_pcm = 0,
               android_config = \<lparr>sample_rate = hz, channel_mask = m, aformat = f\<rparr>,
               out_up = False\<rparr>)\<rparr>);
            return (0, p, config\<lparr>channel_mask := m\<rparr>)
          })
     }
   }"

definition hdmi_adev_close_output_stream :: "hdmi_call os \<Rightarrow> int \<Rightarrow> unit hdmi" where
  "hdmi_adev_close_output_stream os p = with_out p () (\<lambda>_. do {
     hdmi_out_standby os p;
     syscall os (HFree p);
     modify (\<lambda>s. s\<lparr>outs := (outs s)(p := None)\<rparr>)
   })"

text \<open>What the audio framework asks of the HAL.\<close>

datatype hdmi_request =
    Open_Stream audio_config | Write int nat | Standby int | Latency int | Close_Stream int

fun hdmi_serve :: "audio_h \<Rightarrow> hdmi_call os \<Rightarrow> hdmi_request \<Rightarrow> unit hdmi" where
  "hdmi_serve c os (Open_Stream config) = do { hdmi_adev_open_output_stream c os config; return () }"
| "hdmi_serve c os (Write p n) = do { hdmi_out_write os p n; return () }"
| "hdmi_serve c os (Standby p) = do { hdmi_out_standby os p; return () }"
| "hdmi_serve c os (Latency p) = do { hdmi_out_get_latency p; return () }"
| "hdmi_serve c os (Close_Stream p) = hdmi_adev_close_output_stream os p"

fun hdmi_serve_all :: "audio_h \<Rightarrow> hdmi_call os \<Rightarrow> hdmi_request list \<Rightarrow> unit hdmi" where
  "hdmi_serve_all c os [] = return ()"
| "hdmi_serve_all c os (r # rs) = do { hdmi_serve c os r; hdmi_serve_all c os rs }"


section \<open>What the libraries see\<close>

text \<open>
  The PCM handles and the blocks in use after a history, \<open>None\<close> if a handle was used or closed
  that was not open, or a block freed that was not allocated.
\<close>

fun pcm_step :: "int set option \<Rightarrow> hdmi_call \<times> ret \<Rightarrow> int set option" where
  "pcm_step None _ = None"
| "pcm_step (Some l) (PcmOpen k d cfg, r) =
     (if ret_val r = 0 \<or> ret_val r \<in> l then None else Some (insert (ret_val r) l))"
| "pcm_step (Some l) (PcmClose p, r) = (if p \<in> l then Some (l - {p}) else None)"
| "pcm_step (Some l) (PcmWrite p n, r) = (if p \<in> l then Some l else None)"
| "pcm_step (Some l) (PcmIsReady p, r) = (if p \<in> l then Some l else None)"
| "pcm_step (Some l) (PcmGetError p, r) = (if p \<in> l then Some l else None)"
| "pcm_step (Some l) _ = Some l"

definition open_pcms :: "hdmi_call hist \<Rightarrow> int set option" where
  "open_pcms h = foldl pcm_step (Some {}) h"

fun heap_step :: "int set option \<Rightarrow> hdmi_call \<times> ret \<Rightarrow> int set option" where
  "heap_step None _ = None"
| "heap_step (Some l) (HCalloc n, r) =
     (if ret_val r = 0 then Some l else if ret_val r \<in> l then None else Some (insert (ret_val r) l))"
| "heap_step (Some l) (HFree p, r) = (if p \<in> l then Some (l - {p}) else None)"
| "heap_step (Some l) _ = Some l"

definition blocks :: "hdmi_call hist \<Rightarrow> int set option" where
  "blocks h = foldl heap_step (Some {}) h"

lemma open_pcms_append [simp]: "open_pcms (h @ h') = foldl pcm_step (open_pcms h) h'"
  by (simp add: open_pcms_def)

lemma blocks_append [simp]: "blocks (h @ h') = foldl heap_step (blocks h) h'"
  by (simp add: blocks_def)

text \<open>
  tinyalsa's \<open>pcm_open\<close> answers a handle, if need be one that is not ready, and the allocator a
  block; neither hands out what is still in use.
\<close>

definition hands_out_fresh :: "hdmi_call os \<Rightarrow> bool" where
  "hands_out_fresh os \<longleftrightarrow>
     (\<forall>h l k d cfg. open_pcms h = Some l \<longrightarrow>
        ret_val (os h (PcmOpen k d cfg)) \<noteq> 0 \<and> ret_val (os h (PcmOpen k d cfg)) \<notin> l) \<and>
     (\<forall>h l n. blocks h = Some l \<longrightarrow> ret_val (os h (HCalloc n)) \<notin> l)"

text \<open>The handle each stream holds.\<close>

definition owner :: "hdmi_state \<Rightarrow> int \<rightharpoonup> int" where
  "owner s p = (case outs s p of
      None \<Rightarrow> None
    | Some out \<Rightarrow> if out_up out then Some (out_pcm out) else None)"

definition hal_inv :: "hdmi_state \<Rightarrow> bool" where
  "hal_inv s \<longleftrightarrow> \<not> fault s \<and> open_pcms (trace s) = Some (ran (owner s)) \<and>
     inj_on (owner s) (dom (owner s)) \<and> blocks (trace s) = Some (dom (outs s)) \<and>
     (\<forall>p out. outs s p = Some out \<longrightarrow>
        (out_up out \<longleftrightarrow> out_pcm out \<noteq> 0) \<and> rate (out_config out) \<noteq> 0)"

lemma hal_invD:
  assumes "hal_inv s"
  shows "\<not> fault s" "open_pcms (trace s) = Some (ran (owner s))" "inj_on (owner s) (dom (owner s))"
    "blocks (trace s) = Some (dom (outs s))"
    "outs s p = Some out \<Longrightarrow> out_up out \<longleftrightarrow> out_pcm out \<noteq> 0"
    "outs s p = Some out \<Longrightarrow> rate (out_config out) \<noteq> 0"
  using assms by (auto simp: hal_inv_def)

lemma owner_update:
  "owner (s\<lparr>trace := t, outs := (outs s)(p \<mapsto> out)\<rparr>) =
    (owner s)(p := if out_up out then Some (out_pcm out) else None)"
  by (auto simp: owner_def)

lemma owner_trace [simp]: "owner (s\<lparr>trace := t\<rparr>) = owner s"
  by (auto simp: owner_def)

lemma owner_held:
  assumes "outs s p = Some out" "out_up out"
  shows "owner s p = Some (out_pcm out)" "out_pcm out \<in> ran (owner s)"
proof -
  show "owner s p = Some (out_pcm out)" using assms by (simp add: owner_def)
  then show "out_pcm out \<in> ran (owner s)" by (rule ranI)
qed

lemma ran_drop:
  assumes "inj_on m (dom m)" "m p = Some x"
  shows "ran (m(p := None)) = ran m - {x}" "inj_on (m(p := None)) (dom (m(p := None)))"
proof -
  have only: "m q = Some x \<longleftrightarrow> q = p" for q
    using inj_onD [OF assms(1), of q p] assms(2) by (auto simp: domI)
  have "(\<exists>q. q \<noteq> p \<and> m q = Some y) \<longleftrightarrow> (\<exists>q. m q = Some y) \<and> y \<noteq> x" for y
    using only assms(2) by (metis option.inject)
  then show "ran (m(p := None)) = ran m - {x}" by (auto simp: ran_def)
  have "inj_on m (dom m - {p})" using assms(1) by (rule inj_on_subset) blast
  then have "inj_on (m(p := None)) (dom m - {p})" by (rule inj_on_cong [THEN iffD1, rotated]) simp
  then show "inj_on (m(p := None)) (dom (m(p := None)))" by simp
qed

lemma ran_add:
  assumes "inj_on m (dom m)" "m p = None" "x \<notin> ran m"
  shows "ran (m(p \<mapsto> x)) = insert x (ran m)" "inj_on (m(p \<mapsto> x)) (dom (m(p \<mapsto> x)))"
proof -
  show "ran (m(p \<mapsto> x)) = insert x (ran m)" using assms(2) by (rule ran_map_upd)
  have "inj_on (m(p \<mapsto> x)) (dom m)"
    using assms(1) by (rule inj_on_cong [THEN iffD1, rotated]) (use assms(2) in auto)
  moreover have "Some x \<notin> m ` dom m" using assms(3) by (auto simp: ran_def)
  then have "Some x \<notin> (m(p \<mapsto> x)) ` (dom m - {p})" by (auto simp: image_iff)
  ultimately show "inj_on (m(p \<mapsto> x)) (dom (m(p \<mapsto> x)))" by simp
qed

text \<open>The device is closed, opened, or opened and found not ready; a block comes or goes.\<close>

lemma inv_closed:
  assumes "hal_inv s" "outs s p = Some out" "out_up out"
  shows "hal_inv (s\<lparr>trace := trace s @ [(PcmClose (out_pcm out), r)],
    outs := (outs s)(p \<mapsto> out\<lparr>out_up := False, out_pcm := 0\<rparr>)\<rparr>)"
  using hal_invD [OF assms(1)] assms(2) owner_held [OF assms(2,3)]
    ran_drop [OF hal_invD(3) [OF assms(1)] owner_held(1) [OF assms(2,3)]]
  unfolding hal_inv_def owner_update by (auto simp: insert_absorb domI)

lemma inv_used:
  assumes "hal_inv s" "\<forall>e\<in>set h. pcm_step (Some (ran (owner s))) e = Some (ran (owner s)) \<and> heap_step (Some (dom (outs s))) e = Some (dom (outs s))"
  shows "hal_inv (s\<lparr>trace := trace s @ h\<rparr>)"
proof -
  have "foldl pcm_step (Some (ran (owner s))) h = Some (ran (owner s))"
    "foldl heap_step (Some (dom (outs s))) h = Some (dom (outs s))"
    using assms(2) by (induction h) auto
  then show ?thesis using hal_invD [OF assms(1)] by (auto simp: hal_inv_def)
qed


lemma inv_ready:
  assumes "hal_inv s" "outs s p = Some out" "\<not> out_up out" "x \<noteq> 0" "x \<notin> ran (owner s)"
    and "ret_val r = x"
  shows "hal_inv (s\<lparr>trace := trace s @ [(PcmOpen k d cfg, r), (PcmIsReady x, r')],
    outs := (outs s)(p \<mapsto> out\<lparr>out_pcm := x, out_up := True\<rparr>)\<rparr>)"
proof -
  have "owner s p = None" using assms(2,3) by (simp add: owner_def)
  then show ?thesis
    using hal_invD [OF assms(1)] assms(2-6) ran_add [OF hal_invD(3) [OF assms(1)] _ assms(5), of p]
    unfolding hal_inv_def owner_update by (auto simp: insert_absorb domI)
qed

lemma inv_not_ready:
  assumes "hal_inv s" "outs s p = Some out" "\<not> out_up out" "x \<noteq> 0" "x \<notin> ran (owner s)"
    and "ret_val r = x"
  shows "hal_inv (s\<lparr>trace := trace s @ [(PcmOpen k d cfg, r), (PcmIsReady x, r'), (PcmGetError x, e), (PcmClose x, z)],
    outs := (outs s)(p \<mapsto> out\<lparr>out_pcm := 0, out_up := False\<rparr>)\<rparr>)"
proof -
  have "owner s p = None" using assms(2,3) by (simp add: owner_def)
  then have "(owner s)(p := None) = owner s" by auto
  then show ?thesis
    using hal_invD [OF assms(1)] assms(2-6)
    unfolding hal_inv_def owner_update by (auto simp: insert_absorb domI)
qed

lemma run_with_out [simp]:
  "outs s p = Some out \<Longrightarrow> run_state (with_out p x f) s = run_state (f out) s"
  by (simp add: with_out_def)

lemma run_set_out [simp]:
  "run_state (set_out p f) s = ((), s\<lparr>outs := (outs s)(p := map_option f (outs s p))\<rparr>)"
  by (simp add: set_out_def)

lemma standby_inv:
  assumes "hal_inv s" "outs s p = Some out"
  shows "hal_inv (exec (hdmi_out_standby os p) s)"
    "outs (exec (hdmi_out_standby os p) s) = (outs s)(p \<mapsto> out\<lparr>out_up := False, out_pcm := 0\<rparr>)"
proof -
  have "out = out\<lparr>out_up := False, out_pcm := 0\<rparr>" if "\<not> out_up out"
    using hal_invD(5) [OF assms] that by (cases out) simp
  then show "hal_inv (exec (hdmi_out_standby os p) s)"
    "outs (exec (hdmi_out_standby os p) s) = (outs s)(p \<mapsto> out\<lparr>out_up := False, out_pcm := 0\<rparr>)"
    using assms hal_invD(5) [OF assms] inv_closed [OF assms]
    by (auto simp: hdmi_out_standby_def fun_upd_idem)
qed

lemma open_pcm_inv:
  assumes "hands_out_fresh os" "hal_inv s" "outs s p = Some out" "\<not> out_up out"
  shows "hal_inv (exec (hdmi_out_open_pcm os p) s) \<and>
    (\<exists>out'. outs (exec (hdmi_out_open_pcm os p) s) p = Some out' \<and>
       (eval_in (hdmi_out_open_pcm os p) s = 0 \<longrightarrow> out_up out'))"
proof -
  let ?c = "PcmOpen hdmi_out_find_card HDMI_PCM_DEV (out_config out)"
  let ?x = "ret_val (os (trace s) ?c)"
  have x: "?x \<noteq> 0" "?x \<notin> ran (owner s)"
    using assms(1) hal_invD(2) [OF assms(2)] by (auto simp: hands_out_fresh_def)
  show ?thesis
    using assms(3,4) x inv_ready [OF assms(2-4) x refl] inv_not_ready [OF assms(2-4) x refl]
    by (simp add: hdmi_out_open_pcm_def)
qed

lemma write_inv:
  assumes "hands_out_fresh os" "hal_inv s" "outs s p = Some out"
  shows "hal_inv (exec (hdmi_out_write os p n) s)"
proof -
  have up: "hal_inv (exec (with_out p 0 (\<lambda>out. do {
       r \<leftarrow> syscall os (PcmWrite (out_pcm out) n);
       if ret_val r \<noteq> 0 then do {
         syscall os (PcmGetError (out_pcm out));
         hdmi_out_standby os p;
         return (if ret_val r < 0 then ret_val r else - ret_val r)
       } else return (int n)
     })) t)" if t: "hal_inv t" "outs t p = Some out'" "out_up out'" for t out'
  proof -
    let ?w = "(PcmWrite (out_pcm out') n, os (trace t) (PcmWrite (out_pcm out') n))"
    have w: "hal_inv (t\<lparr>trace := trace t @ [?w, e]\<rparr>)" "hal_inv (t\<lparr>trace := trace t @ [?w]\<rparr>)"
      if "fst e = PcmGetError (out_pcm out')" for e
      using inv_used [OF t(1), of "[?w, e]"] inv_used [OF t(1), of "[?w]"] owner_held(2) [OF t(2,3)] that
      by (cases e; simp)+
    then show ?thesis
      using t standby_inv(1) [OF w(1), of _ p out'] by (auto simp: split_beta)
  qed
  show ?thesis
  proof (cases "out_up out")
    case True
    then show ?thesis using up [OF assms(2,3)] assms(3) by (simp add: hdmi_out_write_def)
  next
    case False
    obtain out' where o: "hal_inv (exec (hdmi_out_open_pcm os p) s)"
      "outs (exec (hdmi_out_open_pcm os p) s) p = Some out'"
      "eval_in (hdmi_out_open_pcm os p) s = 0 \<longrightarrow> out_up out'"
      using open_pcm_inv [OF assms False] by blast
    then show ?thesis
      using up [OF o(1,2)] assms(3) False by (simp add: hdmi_out_write_def split_beta)
  qed
qed


lemma inv_allocated:
  assumes "hal_inv s" "x \<noteq> 0" "outs s x = None" "\<not> out_up out" "out_pcm out = 0" "rate (out_config out) \<noteq> 0"
    and "ret_val r = x"
  shows "hal_inv (s\<lparr>trace := trace s @ [(HCalloc n, r)], outs := (outs s)(x \<mapsto> out)\<rparr>)"
proof -
  have "(owner s)(x := None) = owner s" using assms(3) by (auto simp: owner_def)
  then show ?thesis
    using hal_invD [OF assms(1)] assms(2-7) unfolding hal_inv_def owner_update by auto
qed

lemma inv_freed:
  assumes "hal_inv s" "outs s p = Some out" "\<not> out_up out"
  shows "hal_inv (s\<lparr>trace := trace s @ [(HFree p, r)], outs := (outs s)(p := None)\<rparr>)"
proof -
  have "owner (s\<lparr>trace := trace s @ [(HFree p, r)], outs := (outs s)(p := None)\<rparr>) = owner s"
    using assms(2,3) by (auto simp: owner_def)
  then show ?thesis
    using hal_invD [OF assms(1)] assms(2) unfolding hal_inv_def by (auto simp: domI)
qed

lemma open_stream_inv:
  assumes "hands_out_fresh os" "hal_inv s"
  shows "hal_inv (exec (hdmi_adev_open_output_stream c os config) s)"
proof -
  let ?r = "os (trace s) (HCalloc 1)"
  have "ret_val ?r \<notin> dom (outs s)"
    using assms(1) hal_invD(4) [OF assms(2)] unfolding hands_out_fresh_def by blast
  then have x: "outs s (ret_val ?r) = None" by (simp add: domIff)
  have "hal_inv (s\<lparr>trace := trace s @ [(HCalloc 1, ?r)]\<rparr>)" if "ret_val ?r = 0"
    by (rule inv_used [OF assms(2)]) (use that in simp)
  moreover have "hal_inv (s\<lparr>trace := trace s @ [(HCalloc 1, ?r), (HFree (ret_val ?r), z)]\<rparr>)"
    if "ret_val ?r \<noteq> 0" for z
    using hal_invD [OF assms(2)] x that by (auto simp: hal_inv_def domIff)
  ultimately show ?thesis
    using inv_allocated [OF assms(2) _ x]
    by (auto simp: hdmi_adev_open_output_stream_def Let_def split: option.splits prod.splits)
qed

lemma close_stream_inv:
  assumes "hal_inv s" "outs s p = Some out"
  shows "hal_inv (exec (hdmi_adev_close_output_stream os p) s)"
  using inv_freed [OF standby_inv(1) [OF assms], of os p] standby_inv(2) [OF assms, of os] assms(2)
  by (simp add: hdmi_adev_close_output_stream_def split_beta)

lemma latency_run:
  assumes "hal_inv s" "outs s p = Some out"
  shows "run_state (hdmi_out_get_latency p) s =
    ((1000 * period_size (out_config out) * period_count (out_config out)) div rate (out_config out), s)"
  using assms hal_invD(6) [OF assms] by (simp add: hdmi_out_get_latency_def Let_def)

section \<open>Streams and devices\<close>

text \<open>A client that only talks to streams it has open.\<close>

fun addressed :: "hdmi_request \<Rightarrow> int option" where
  "addressed (Open_Stream config) = None"
| "addressed (Write p n) = Some p"
| "addressed (Standby p) = Some p"
| "addressed (Latency p) = Some p"
| "addressed (Close_Stream p) = Some p"

fun polite :: "audio_h \<Rightarrow> hdmi_call os \<Rightarrow> hdmi_request list \<Rightarrow> hdmi_state \<Rightarrow> bool" where
  "polite c os [] s \<longleftrightarrow> True"
| "polite c os (r # rs) s \<longleftrightarrow>
     (case addressed r of None \<Rightarrow> True | Some p \<Rightarrow> outs s p \<noteq> None) \<and>
     polite c os rs (exec (hdmi_serve c os r) s)"

lemma hdmi_serve_inv:
  assumes "hands_out_fresh os" "hal_inv s" "case addressed r of None \<Rightarrow> True | Some p \<Rightarrow> outs s p \<noteq> None"
  shows "hal_inv (exec (hdmi_serve c os r) s)"
  using assms
  by (cases r) (auto simp: split_beta latency_run
      intro: open_stream_inv write_inv standby_inv(1) close_stream_inv)

lemma hdmi_serve_all_inv:
  "hands_out_fresh os \<Longrightarrow> hal_inv s \<Longrightarrow> polite c os rs s \<Longrightarrow> hal_inv (exec (hdmi_serve_all c os rs) s)"
  by (induction rs arbitrary: s) (auto simp: split_beta intro: hdmi_serve_inv)

text \<open>
  C17: whatever a client does with streams it has open, the devices answer and the memory
  allows, the HAL uses and closes PCM handles only while they are open, each exactly once, and
  frees only what it holds: afterwards the open handles are those of the streams that play, and
  the allocated blocks are the streams. No request divides by zero or touches a freed stream.
\<close>

theorem hdmi_handles_balanced:
  assumes "hands_out_fresh os" "polite c os rs init_hdmi"
  shows "let s = exec (hdmi_serve_all c os rs) init_hdmi in
    \<not> fault s \<and> open_pcms (trace s) = Some {out_pcm out |p out. outs s p = Some out \<and> out_up out} \<and>
    blocks (trace s) = Some (dom (outs s)) \<and>
    (\<forall>p out. outs s p = Some out \<longrightarrow> (out_up out \<longleftrightarrow> out_pcm out \<noteq> 0))"
proof -
  let ?s = "exec (hdmi_serve_all c os rs) init_hdmi"
  have "owner init_hdmi = Map.empty" by (auto simp: owner_def init_hdmi_def)
  then have "hal_inv init_hdmi"
    by (simp add: hal_inv_def open_pcms_def blocks_def) (simp add: init_hdmi_def)
  then have inv: "hal_inv ?s" using assms by (intro hdmi_serve_all_inv)
  have "ran (owner ?s) = {out_pcm out |p out. outs ?s p = Some out \<and> out_up out}"
    by (auto simp: ran_def owner_def split: option.splits if_splits)
  then show ?thesis using hal_invD [OF inv] by (auto simp: Let_def)
qed

section \<open>The layouts a sink plays\<close>

definition layouts :: "(nat \<times> string) list" where
  "layouts = [(MASK_CEA_QUAD, ''AUDIO_CHANNEL_OUT_QUAD''), (MASK_CEA_SURROUND, ''AUDIO_CHANNEL_OUT_SURROUND''),
     (MASK_CEA_5POINT1, ''AUDIO_CHANNEL_OUT_5POINT1''), (MASK_CEA_7POINT1, ''AUDIO_CHANNEL_OUT_7POINT1'')]"

fun joined :: "string list \<Rightarrow> string" where
  "joined [] = ''''"
| "joined [x] = x"
| "joined (x # y # xs) = x @ ''|'' @ joined (y # xs)"

definition playable :: "nat \<Rightarrow> string list" where
  "playable sa = [name. (m, name) \<leftarrow> layouts, sa AND m = m]"

text \<open>The entries that are put into a reply.\<close>

fun added :: "hdmi_call list \<Rightarrow> (string \<times> string) list" where
  "added [] = []"
| "added (ParmsAddStr reply k v # cs) = (k, v) # added cs"
| "added (c # cs) = added cs"

lemma added_append [simp]: "added (cs @ cs') = added cs @ added cs'"
  by (induction cs rule: added.induct) simp_all

lemma sup_channels_joined: "sup_channels sa = joined (playable sa)"
  by (simp add: sup_channels_def SUPPORTS_ARR_def playable_def layouts_def)

lemma sup_channels_fits: "length (sup_channels sa) < 256"
  by (simp add: sup_channels_def SUPPORTS_ARR_def)

text \<open>
  C18: asked for the channel layouts of a sink that sent a well-formed EDID, the HAL answers with
  the names of exactly those multichannel layouts whose speakers the sink's speaker block
  announces, joined by bars, and the 256 bytes of the buffer are enough.
\<close>

theorem layouts_reported:
  assumes "describes bytes bs" "\<And>h. ret_val (os h (HOpen HDMI_EDID_PATH)) \<noteq> -1"
    and "\<And>h fd. os h (HRead fd HDMI_MAX_EDID) = data_result (map char_of bytes)"
    and asked: "\<And>h q. 0 \<le> ret_val (os h (ParmsGetStr q (AUDIO_PARAMETER_STREAM_SUP_CHANNELS c)))"
    and memory: "\<And>h q. ret_val (os h (ParmsToStr q)) \<noteq> 0"
    and "\<not> fault s"
  shows "let t = exec (hdmi_out_get_parameters c os keys) s in
    \<not> fault t \<and> added (calls t) =
      added (calls s) @ [(AUDIO_PARAMETER_STREAM_SUP_CHANNELS c, joined (playable (fold announced bs 0)))]"
proof -
  let ?q = "syscall os (ParmsCreateStr keys)" and ?p = "syscall os ParmsCreate"
  obtain h fd where "map fst h = [HOpen HDMI_EDID_PATH, HRead fd HDMI_MAX_EDID, HClose fd]"
    "run_state (hdmi_query_audio_caps os HDMI_EDID_PATH) (exec ?p (exec ?q s)) =
      ((0, Some \<lparr>has_audio = 1, speaker_alloc = int (fold announced bs 0)\<rparr>),
       (exec ?p (exec ?q s))\<lparr>trace := trace (exec ?p (exec ?q s)) @ h\<rparr>)"
    using sink_audio_found [of bytes bs os HDMI_EDID_PATH "exec ?p (exec ?q s)", OF assms(1-3)]
    by (elim exE conjE) (rule that)
  then show ?thesis
    using assms(6) asked memory sup_channels_fits [of "fold announced bs 0"]
    by (simp add: hdmi_out_get_parameters_def sup_channels_joined Let_def not_le split_beta)
qed

section \<open>A television\<close>

text \<open>An environment that hands out numbers larger than all answers before.\<close>

definition unused :: "hdmi_call hist \<Rightarrow> int" where
  "unused h = 1 + sum_list (map (\<lambda>e. \<bar>ret_val (snd e)\<bar>) h)"

definition television :: "nat list \<Rightarrow> hdmi_call os" where
  "television bytes h c = (case c of
      PcmOpen k d cfg \<Rightarrow> result (unused h)
    | PcmIsReady p \<Rightarrow> result 1
    | HCalloc n \<Rightarrow> result (unused h)
    | ParmsToStr q \<Rightarrow> result 7
    | _ \<Rightarrow> sends bytes h c)"

definition android :: audio_h where
  "android = \<lparr>AUDIO_FORMAT_DEFAULT = 0, AUDIO_FORMAT_PCM_16_BIT = 1,
     AUDIO_CHANNEL_OUT_FRONT_LEFT = 1, AUDIO_CHANNEL_OUT_FRONT_RIGHT = 2,
     AUDIO_CHANNEL_OUT_FRONT_CENTER = 4, AUDIO_CHANNEL_OUT_BACK_CENTER = 0x100,
     AUDIO_CHANNEL_OUT_STEREO = 3, AUDIO_CHANNEL_OUT_QUAD = 0x33, AUDIO_CHANNEL_OUT_5POINT1 = 0x3F,
     AUDIO_CHANNEL_OUT_7POINT1 = 0x63F, PCM_FORMAT_S16_LE = 0,
     AUDIO_PARAMETER_STREAM_SUP_CHANNELS = ''sup_channels''\<rparr>"

lemma unused_above: "e \<in> set h \<Longrightarrow> ret_val (snd e) < unused h"
proof -
  assume "e \<in> set h"
  then have "\<bar>ret_val (snd e)\<bar> \<le> sum_list (map (\<lambda>e. \<bar>ret_val (snd e)\<bar>) h)"
    by (intro member_le_sum_list) auto
  then show ?thesis by (simp add: unused_def)
qed

text \<open>
  What a library has handed out, handles or blocks, is among its answers; the locale says what
  this needs of the account of one call.
\<close>

locale handed_out =
  fixes step :: "int set option \<Rightarrow> hdmi_call \<times> ret \<Rightarrow> int set option"
  assumes misused: "step None e = None"
    and handed: "step (Some l) (c, r) = Some l' \<Longrightarrow> l' \<subseteq> insert (ret_val r) l"
begin

lemma answered: "foldl step (Some {}) h = Some l \<Longrightarrow> l \<subseteq> (\<lambda>e. ret_val (snd e)) ` set h"
proof (induction h arbitrary: l rule: rev_induct)
  case (snoc e h)
  obtain c r where e: "e = (c, r)" by (cases e)
  obtain l' where l': "foldl step (Some {}) h = Some l'"
    using snoc.prems misused by (cases "foldl step (Some {}) h") auto
  have "l \<subseteq> insert (ret_val r) l'" by (rule handed) (use snoc.prems l' e in simp)
  then show ?case using snoc.IH [OF l'] by (auto simp: e)
qed simp

end

interpretation pcms: handed_out pcm_step
proof
  show "l' \<subseteq> insert (ret_val r) l" if "pcm_step (Some l) (c, r) = Some l'" for l c r l'
    using that by (cases c) (auto split: if_splits)
qed simp

interpretation memory: handed_out heap_step
proof
  show "l' \<subseteq> insert (ret_val r) l" if "heap_step (Some l) (c, r) = Some l'" for l c r l'
    using that by (cases c) (auto split: if_splits)
qed simp

lemma television_fresh: "hands_out_fresh (television bytes)"
proof -
  have pos: "0 < unused h" for h
    by (induction h) (auto simp: unused_def)
  have "unused h \<notin> l" if "l \<subseteq> (\<lambda>e. ret_val (snd e)) ` set h" for h l
    using that unused_above [of _ h] by fastforce
  then show ?thesis
    using pos pcms.answered memory.answered unfolding open_pcms_def blocks_def
    by (auto simp: hands_out_fresh_def television_def open_pcms_def blocks_def) (metis less_irrefl)
qed

abbreviation film :: "hdmi_request list" where
  "film \<equiv> [Open_Stream \<lparr>sample_rate = 0, channel_mask = 0x3F, aformat = 0\<rparr>, Write 1 4096, Latency 1,
     Standby 1, Write 1 4096, Close_Stream 1]"

theorem hdmi_handles_balanced_witness:
  "let s = exec (hdmi_serve_all android (television []) film) init_hdmi in
    \<not> fault s \<and> open_pcms (trace s) = Some {out_pcm out |p out. outs s p = Some out \<and> out_up out} \<and>
    blocks (trace s) = Some (dom (outs s)) \<and>
    (\<forall>p out. outs s p = Some out \<longrightarrow> (out_up out \<longleftrightarrow> out_pcm out \<noteq> 0))"
proof (rule hdmi_handles_balanced [OF television_fresh])
  show "polite android (television []) film init_hdmi"
    by (simp add: television_def android_def init_hdmi_def unused_def hdmi_adev_open_output_stream_def
        accepted_format_def mask_channels_def HDMI_AUDIO_CHANNEL_OUT_SURROUND_def hdmi_out_write_def
        hdmi_out_open_pcm_def hdmi_out_standby_def hdmi_out_get_latency_def
        hdmi_adev_close_output_stream_def sends_def Let_def)
qed

theorem layouts_reported_witness:
  "let t = exec (hdmi_out_get_parameters android (television (base_block 1 @ receiver_block)) ''sup_channels'') init_hdmi in
    \<not> fault t \<and> added (calls t) = [(''sup_channels'', ''AUDIO_CHANNEL_OUT_QUAD|AUDIO_CHANNEL_OUT_5POINT1'')]"
proof -
  have "joined (playable (fold announced receiver_blocks 0)) =
      ''AUDIO_CHANNEL_OUT_QUAD|AUDIO_CHANNEL_OUT_5POINT1''"
    by (simp add: receiver_blocks_def playable_def layouts_def)
  then show ?thesis
    using layouts_reported [OF receiver_described, of "television (base_block 1 @ receiver_block)" android init_hdmi]
    by (simp add: television_def sends_def android_def init_hdmi_def)
qed

end
