(* ===== verification/Audio_Wrapper.thy ===== *)
theory Audio_Wrapper
  imports Prelude
begin

text \<open>
  The audio HAL wrapper (\<open>src/audio/wrapper.c\<close>): it presents the vendor's HAL of an older
  Android to the present one. Two tables, one for each direction, map the streams the framework
  sees to the streams of the vendor's HAL; the macros that are instantiated for both directions
  are definitions with a direction as argument. A stream call holds the mutex of its table; a
  read or a write gives it back during the transfer and keeps a pointer to its row, whose use
  count makes every other call on the stream wait. The transfer is therefore three steps, and
  \<open>sched\<close> interleaves them with the other calls. In-call muting goes to a mixer control behind
  the HAL's back. The vendor's HAL, the mixer and the allocator are the environment; the ICS
  voice blob, a build option that is off, is left out.
\<close>

unbundle bit_operations_syntax

section \<open>Model\<close>

datatype direction = In | Out

datatype mutex = Streams direction | Row direction int | Hal

datatype wrap_call =
    WLock mutex | WUnlock mutex | WSignal mutex | WWait mutex
  | JbOpen direction int "32 word" | JbClose direction int | JbCall direction string int
  | JbTransfer direction int nat | JbHal string | JbSetMicMute bool | JbSetMode int | JbDevClose
  | Realloc int nat nat | Malloc | WFree int
  | MixerOpen | MixerGetCtl int string | MixerGetValue int | MixerSetEnum int string
  | MixerSetValue int int | MixerClose int
  | DlOpen string | DlSym int | HwOpen int | DlClose int

text \<open>\<open>struct wrapper_in_stream\<close> and \<open>struct wrapper_out_stream\<close>; the tables and their addresses.\<close>

record row =
  row_stream :: int
  row_jb :: int
  row_in_use :: int

record table =
  base :: int
  rows :: "row list"

record wrapper_state = "wrap_call io_state" +
  in_streams :: table
  out_streams :: table
  jb_hw_dev :: int
  dso_handle :: int
  last_mute_ctl_value :: int
  hal_audio_mode :: int

type_synonym 'a wrapper = "(wrapper_state, 'a) state"

abbreviation "ENODEV \<equiv> 19 :: int"
abbreviation "EINVAL \<equiv> 22 :: int"
abbreviation "ENOMEM \<equiv> 12 :: int"
abbreviation "MUTE_CTL \<equiv> ''Analog Right Capture Route''"
abbreviation "MUTE_VALUE \<equiv> ''Off''"

fun stream_table :: "direction \<Rightarrow> wrapper_state \<Rightarrow> table" where
  "stream_table In s = in_streams s"
| "stream_table Out s = out_streams s"

fun set_stream_table :: "direction \<Rightarrow> table \<Rightarrow> wrapper_state \<Rightarrow> wrapper_state" where
  "set_stream_table In t s = s\<lparr>in_streams := t\<rparr>"
| "set_stream_table Out t s = s\<lparr>out_streams := t\<rparr>"

definition no_streams :: table where
  "no_streams = \<lparr>base = 0, rows = []\<rparr>"

definition init_wrapper :: "int \<Rightarrow> int \<Rightarrow> wrapper_state" where
  "init_wrapper dev mode = \<lparr>trace = [], fault = False, in_streams = no_streams, out_streams = no_streams,
     jb_hw_dev = dev, dso_handle = 0, last_mute_ctl_value = -1, hal_audio_mode = mode\<rparr>"

text \<open>The search every stream function starts with; a table that was lost is a null pointer.\<close>

fun find_row :: "int \<Rightarrow> row list \<Rightarrow> nat option" where
  "find_row p [] = None"
| "find_row p (r # rs) = (if row_stream r = p then Some 0 else map_option Suc (find_row p rs))"

definition search :: "direction \<Rightarrow> int \<Rightarrow> (nat option) wrapper" where
  "search d p = do {
     t \<leftarrow> gets (stream_table d);
     whenM (rows t \<noteq> [] \<and> base t = 0) undefined_behaviour;
     return (find_row p (rows t))
   }"

definition lock :: "wrap_call os \<Rightarrow> mutex \<Rightarrow> unit wrapper" where
  "lock os m = do { syscall os (WLock m); return () }"

definition unlock :: "wrap_call os \<Rightarrow> mutex \<Rightarrow> unit wrapper" where
  "unlock os m = do { syscall os (WUnlock m); return () }"

definition signal_unlock :: "wrap_call os \<Rightarrow> mutex \<Rightarrow> unit wrapper" where
  "signal_unlock os m = do { syscall os (WSignal m); syscall os (WUnlock m); return () }"

text \<open>
  \<open>WAIT_FOR_FREE\<close>: the answer is false when the row is in use. The thread then sleeps on the
  condition, with the mutex of the table still locked; its call has no result at this point of
  the interleaving, which is the value \<open>None\<close> of the functions below.
\<close>

definition wait_for_free :: "wrap_call os \<Rightarrow> direction \<Rightarrow> row \<Rightarrow> bool wrapper" where
  "wait_for_free os d r = do {
     lock os (Row d (row_stream r));
     if row_in_use r \<noteq> 0 then do { syscall os (WWait (Row d (row_stream r))); return False }
     else return True
   }"

text \<open>A call of the vendor's HAL between \<open>WAIT_FOR_FREE(in_use)\<close>, a counter that is never raised, and \<open>UNLOCK_FREE(in_use)\<close>.\<close>

definition hal_call :: "wrap_call os \<Rightarrow> wrap_call \<Rightarrow> ret wrapper" where
  "hal_call os c = do {
     lock os Hal;
     dev \<leftarrow> gets jb_hw_dev;
     whenM (dev = 0) undefined_behaviour;
     r \<leftarrow> syscall os c;
     signal_unlock os Hal;
     return r
   }"

text \<open>\<open>_WRAP_STREAM_LOCKED\<close>: \<open>fn\<close> is the function of the vendor's stream, \<open>err\<close> the answer for an unknown stream.\<close>

definition wrap_stream_locked ::
  "wrap_call os \<Rightarrow> direction \<Rightarrow> string \<Rightarrow> int \<Rightarrow> int \<Rightarrow> unit wrapper \<Rightarrow> (int option) wrapper" where
  "wrap_stream_locked os d fn err stream post_fn = do {
     lock os (Streams d);
     i \<leftarrow> search d stream;
     (case i of
        None \<Rightarrow> do { unlock os (Streams d); return (Some err) }
      | Some i \<Rightarrow> do {
          r \<leftarrow> gets (\<lambda>s. rows (stream_table d s) ! i);
          free \<leftarrow> wait_for_free os d r;
          if \<not> free then return None
          else do {
            ret \<leftarrow> syscall os (JbCall d fn (row_jb r));
            post_fn;
            signal_unlock os (Row d (row_stream r));
            unlock os (Streams d);
            return (Some (ret_val ret))
          }
        })
   }"

text \<open>The pointer \<open>&(in_streams[i])\<close>: the address of the table when it was taken, and the index.\<close>

type_synonym row_ptr = "int \<times> nat"

definition row_at :: "direction \<Rightarrow> row_ptr \<Rightarrow> (row option) wrapper" where
  "row_at d q = do {
     t \<leftarrow> gets (stream_table d);
     if fst q = base t \<and> base t \<noteq> 0 \<and> snd q < length (rows t) then return (Some (rows t ! snd q))
     else do { undefined_behaviour; return None }
   }"

definition set_in_use :: "direction \<Rightarrow> nat \<Rightarrow> int \<Rightarrow> unit wrapper" where
  "set_in_use d i n = modify (\<lambda>s. let t = stream_table d s in
     set_stream_table d (t\<lparr>rows := (rows t)[i := (rows t ! i)\<lparr>row_in_use := n\<rparr>]\<rparr>) s)"

text \<open>The three steps of \<open>wrapper_read\<close> and \<open>wrapper_write\<close>: find and count, transfer, count down.\<close>

definition io_begin :: "wrap_call os \<Rightarrow> direction \<Rightarrow> int \<Rightarrow> (row_ptr option) wrapper" where
  "io_begin os d stream = do {
     lock os (Streams d);
     i \<leftarrow> search d stream;
     q \<leftarrow> (case i of
        None \<Rightarrow> return None
      | Some i \<Rightarrow> do {
          t \<leftarrow> gets (stream_table d);
          lock os (Row d stream);
          set_in_use d i (row_in_use (rows t ! i) + 1);
          unlock os (Row d stream);
          return (Some (base t, i))
        });
     unlock os (Streams d);
     return q
   }"

definition io_transfer :: "wrap_call os \<Rightarrow> direction \<Rightarrow> row_ptr \<Rightarrow> nat \<Rightarrow> int wrapper" where
  "io_transfer os d q bytes = do {
     r \<leftarrow> row_at d q;
     (case r of
        None \<Rightarrow> return 0
      | Some r \<Rightarrow> do { n \<leftarrow> syscall os (JbTransfer d (row_jb r) bytes); return (ret_val n) })
   }"

definition io_end :: "wrap_call os \<Rightarrow> direction \<Rightarrow> row_ptr \<Rightarrow> unit wrapper" where
  "io_end os d q = do {
     r \<leftarrow> row_at d q;
     (case r of
        None \<Rightarrow> return ()
      | Some r \<Rightarrow> do {
          lock os (Row d (row_stream r));
          set_in_use d (snd q) (row_in_use r - 1);
          signal_unlock os (Row d (row_stream r))
        })
   }"

definition wrapper_hal_is_resampling :: "int \<Rightarrow> bool" where
  "wrapper_hal_is_resampling real \<longleftrightarrow> real = 192"

definition wrapper_read :: "wrap_call os \<Rightarrow> int \<Rightarrow> nat \<Rightarrow> int wrapper" where
  "wrapper_read os stream bytes = do {
     q \<leftarrow> io_begin os In stream;
     (case q of
        None \<Rightarrow> return (- ENODEV)
      | Some q \<Rightarrow> do { ret \<leftarrow> io_transfer os In q bytes; io_end os In q; return ret })
   }"

definition wrapper_write :: "wrap_call os \<Rightarrow> int \<Rightarrow> nat \<Rightarrow> int wrapper" where
  "wrapper_write os stream bytes = do {
     q \<leftarrow> io_begin os Out stream;
     (case q of
        None \<Rightarrow> return (- ENODEV)
      | Some q \<Rightarrow> do {
          written \<leftarrow> io_transfer os Out q bytes;
          io_end os Out q;
          return (if written > 0 \<and> written \<noteq> int bytes \<and> wrapper_hal_is_resampling written
                  then int bytes else written)
        })
   }"

definition wrapper_close_stream :: "wrap_call os \<Rightarrow> direction \<Rightarrow> int \<Rightarrow> (unit option) wrapper" where
  "wrapper_close_stream os d stream = do {
     lock os (Streams d);
     i \<leftarrow> search d stream;
     (case i of
        None \<Rightarrow> do { unlock os (Streams d); return (Some ()) }
      | Some i \<Rightarrow> do {
          t \<leftarrow> gets (stream_table d);
          let r = rows t ! i;
          free \<leftarrow> wait_for_free os d r;
          if \<not> free then return None
          else do {
            signal_unlock os (Row d (row_stream r));
            syscall os (WFree (row_stream r));
            let n = length (rows t) - 1;
            b \<leftarrow> syscall os (Realloc (base t) (length (rows t)) n);
            modify (set_stream_table d \<lparr>base = ret_val b, rows = take i (rows t) @ drop (Suc i) (rows t)\<rparr>);
            (if row_jb r \<noteq> 0 then do { hal_call os (JbClose d (row_jb r)); return () } else return ());
            unlock os (Streams d);
            return (Some ())
          }
        })
   }"

text \<open>Conversion of the input devices to those of the older Android.\<close>

definition jb_devices :: "32 word \<Rightarrow> 32 word" where
  "jb_devices devices =
     (if devices AND 0x80000000 \<noteq> 0 then
        (let d = devices AND NOT 0x80000000 in
         if d < 0x2000 then d * 0x10000 else d OR 0x10000)
      else devices)"

text \<open>The answer of the HAL is its status and, as the auxiliary value, its stream.\<close>

definition wrapper_open_stream ::
  "wrap_call os \<Rightarrow> direction \<Rightarrow> int \<Rightarrow> 32 word \<Rightarrow> (int \<times> int) wrapper" where
  "wrapper_open_stream os d handle devices = do {
     lock os (Streams d);
     ret \<leftarrow> hal_call os (JbOpen d handle (case d of In \<Rightarrow> jb_devices devices | Out \<Rightarrow> devices));
     if ret_val ret = 0 then do {
       t \<leftarrow> gets (stream_table d);
       let n = length (rows t);
       b \<leftarrow> syscall os (Realloc (base t) n (n + 1));
       if ret_val b = 0 then do { unlock os (Streams d); return (- ENOMEM, 0) }
       else do {
         modify (set_stream_table d (t\<lparr>base := ret_val b\<rparr>));
         m \<leftarrow> syscall os Malloc;
         if ret_val m = 0 then do { unlock os (Streams d); return (- ENOMEM, 0) }
         else do {
           modify (set_stream_table d \<lparr>base = ret_val b, rows = rows t @
             [\<lparr>row_stream = ret_val m, row_jb = ret_aux ret, row_in_use = 0\<rparr>]\<rparr>);
           unlock os (Streams d);
           return (0, ret_val m)
         }
       }
     } else do { unlock os (Streams d); return (ret_val ret, 0) }
   }"

definition lock_tables :: "wrap_call os \<Rightarrow> unit wrapper" where
  "lock_tables os = do { lock os (Streams Out); lock os (Streams In) }"

definition unlock_tables :: "wrap_call os \<Rightarrow> unit wrapper" where
  "unlock_tables os = do { unlock os (Streams In); unlock os (Streams Out) }"

definition wrap_hal_locked :: "wrap_call os \<Rightarrow> string \<Rightarrow> int wrapper" where
  "wrap_hal_locked os fn = do {
     lock_tables os;
     ret \<leftarrow> hal_call os (JbHal fn);
     unlock_tables os;
     return (ret_val ret)
   }"

definition wrap_hal :: "wrap_call os \<Rightarrow> string \<Rightarrow> int wrapper" where
  "wrap_hal os fn = do {
     dev \<leftarrow> gets jb_hw_dev;
     whenM (dev = 0) undefined_behaviour;
     ret \<leftarrow> syscall os (JbHal fn);
     return (ret_val ret)
   }"

definition alsa_set_mic_mute :: "wrap_call os \<Rightarrow> bool \<Rightarrow> int wrapper" where
  "alsa_set_mic_mute os state = do {
     last \<leftarrow> gets last_mute_ctl_value;
     if \<not> state \<and> last = -1 then return 0
     else do {
       mixer \<leftarrow> syscall os MixerOpen;
       if ret_val mixer = 0 then return 0
       else do {
         ctl \<leftarrow> syscall os (MixerGetCtl (ret_val mixer) MUTE_CTL);
         if ret_val ctl = 0 then do { syscall os (MixerClose (ret_val mixer)); return 0 }
         else do {
           failed \<leftarrow> (if state then do {
               whenM (last = -1) (do {
                 v \<leftarrow> syscall os (MixerGetValue (ret_val ctl));
                 modify (\<lambda>s. s\<lparr>last_mute_ctl_value := ret_val v\<rparr>)
               });
               syscall os (MixerSetEnum (ret_val ctl) MUTE_VALUE)
             } else do {
               r \<leftarrow> syscall os (MixerSetValue (ret_val ctl) last);
               modify (\<lambda>s. s\<lparr>last_mute_ctl_value := -1\<rparr>);
               return r
             });
           syscall os (MixerClose (ret_val mixer));
           return (if ret_val failed \<noteq> 0 then 0 else 1)
         }
       }
     }
   }"

text \<open>\<open>AUDIO_MODE_IN_CALL\<close> is a constant of \<open>system/audio.h\<close>, the argument \<open>call_mode\<close>.\<close>

definition restore_mute :: "wrap_call os \<Rightarrow> int \<Rightarrow> unit wrapper" where
  "restore_mute os call_mode = do {
     mode \<leftarrow> gets hal_audio_mode;
     last \<leftarrow> gets last_mute_ctl_value;
     whenM (mode = call_mode \<and> last \<noteq> -1) (do { alsa_set_mic_mute os True; return () })
   }"

definition wrapper_set_mic_mute :: "wrap_call os \<Rightarrow> int \<Rightarrow> bool \<Rightarrow> int wrapper" where
  "wrapper_set_mic_mute os call_mode state = do {
     lock_tables os;
     lock os Hal;
     dev \<leftarrow> gets jb_hw_dev;
     whenM (dev = 0) undefined_behaviour;
     ret \<leftarrow> syscall os (JbSetMicMute state);
     mode \<leftarrow> gets hal_audio_mode;
     whenM (mode = call_mode) (do { alsa_set_mic_mute os state; return () });
     signal_unlock os Hal;
     unlock_tables os;
     return (ret_val ret)
   }"

definition wrapper_set_mode :: "wrap_call os \<Rightarrow> int \<Rightarrow> int \<Rightarrow> int wrapper" where
  "wrapper_set_mode os call_mode mode = do {
     lock_tables os;
     lock os Hal;
     dev \<leftarrow> gets jb_hw_dev;
     whenM (dev = 0) undefined_behaviour;
     ret \<leftarrow> syscall os (JbSetMode mode);
     old \<leftarrow> gets hal_audio_mode;
     last \<leftarrow> gets last_mute_ctl_value;
     whenM (old = call_mode \<and> mode \<noteq> call_mode \<and> last \<noteq> -1) (do {
       alsa_set_mic_mute os False;
       modify (\<lambda>s. s\<lparr>last_mute_ctl_value := -1\<rparr>)
     });
     modify (\<lambda>s. s\<lparr>hal_audio_mode := mode\<rparr>);
     signal_unlock os Hal;
     unlock_tables os;
     return (ret_val ret)
   }"

text \<open>
  The functions the macro is instantiated for, and the answers for an unknown stream. Setting the
  parameters of an output restores the mute afterwards.
\<close>

fun stream_functions :: "direction \<Rightarrow> (string \<times> int) list" where
  "stream_functions In =
     [(''set_gain'', - ENODEV), (''standby'', - ENODEV), (''set_parameters'', - ENODEV), (''get_sample_rate'', 0),
      (''set_sample_rate'', - ENODEV), (''get_buffer_size'', 0), (''get_channels'', 0), (''get_format'', 0),
      (''set_format'', - ENODEV), (''dump'', - ENODEV), (''get_device'', 0), (''set_device'', - ENODEV),
      (''get_parameters'', 0), (''add_audio_effect'', - ENODEV), (''remove_audio_effect'', - ENODEV)]"
| "stream_functions Out =
     [(''set_volume'', - ENODEV), (''standby'', - ENODEV), (''set_parameters'', - ENODEV), (''get_sample_rate'', 0),
      (''set_sample_rate'', - ENODEV), (''get_buffer_size'', 0), (''get_channels'', 0), (''get_format'', 0),
      (''set_format'', - ENODEV), (''dump'', - ENODEV), (''get_device'', 0), (''set_device'', - ENODEV),
      (''get_parameters'', 0), (''add_audio_effect'', - ENODEV), (''remove_audio_effect'', - ENODEV),
      (''get_latency'', 0), (''get_render_position'', - ENODEV), (''get_next_write_timestamp'', - ENODEV)]"

definition stream_function :: "wrap_call os \<Rightarrow> int \<Rightarrow> direction \<Rightarrow> string \<Rightarrow> int \<Rightarrow> (int option) wrapper" where
  "stream_function os call_mode d fn stream =
     (case map_of (stream_functions d) fn of
        None \<Rightarrow> return (Some 0)
      | Some err \<Rightarrow> wrap_stream_locked os d fn err stream
          (if d = Out \<and> fn = ''set_parameters'' then restore_mute os call_mode else return ()))"

definition wrapper_close_input_stream :: "wrap_call os \<Rightarrow> int \<Rightarrow> (unit option) wrapper" where
  "wrapper_close_input_stream os = wrapper_close_stream os In"

definition wrapper_close_output_stream :: "wrap_call os \<Rightarrow> int \<Rightarrow> (unit option) wrapper" where
  "wrapper_close_output_stream os = wrapper_close_stream os Out"

definition wrapper_open_input_stream :: "wrap_call os \<Rightarrow> int \<Rightarrow> 32 word \<Rightarrow> (int \<times> int) wrapper" where
  "wrapper_open_input_stream os = wrapper_open_stream os In"

definition wrapper_open_output_stream :: "wrap_call os \<Rightarrow> int \<Rightarrow> 32 word \<Rightarrow> (int \<times> int) wrapper" where
  "wrapper_open_output_stream os = wrapper_open_stream os Out"

definition wrapper_close :: "wrap_call os \<Rightarrow> int wrapper" where
  "wrapper_close os = do {
     lock_tables os;
     lock os Hal;
     dev \<leftarrow> gets jb_hw_dev;
     whenM (dev = 0) undefined_behaviour;
     ret \<leftarrow> syscall os JbDevClose;
     dso \<leftarrow> gets dso_handle;
     syscall os (DlClose dso);
     syscall os (WFree dev);
     modify (\<lambda>s. s\<lparr>dso_handle := 0, jb_hw_dev := 0\<rparr>);
     outs \<leftarrow> gets (base \<circ> out_streams);
     (if outs \<noteq> 0 then do {
        syscall os (WFree outs);
        modify (\<lambda>s. s\<lparr>out_streams := no_streams\<rparr>)
      } else return ());
     ins \<leftarrow> gets (base \<circ> in_streams);
     (if ins \<noteq> 0 then do {
        syscall os (WFree ins);
        modify (\<lambda>s. s\<lparr>in_streams := no_streams\<rparr>)
      } else return ());
     signal_unlock os Hal;
     unlock_tables os;
     return (ret_val ret)
   }"

text \<open>The answer of \<open>audio_hw_device_open\<close> is its status and, as the auxiliary value, the device.\<close>

definition wrapper_open :: "wrap_call os \<Rightarrow> (int \<times> int) wrapper" where
  "wrapper_open os = do {
     dev \<leftarrow> gets jb_hw_dev;
     if dev \<noteq> 0 then return (- ENODEV, 0)
     else do {
       dso \<leftarrow> syscall os (DlOpen ''/system/lib/hw/audio.primary.omap4.so'');
       modify (\<lambda>s. s\<lparr>dso_handle := ret_val dso\<rparr>);
       if ret_val dso = 0 then return (- EINVAL, 0)
       else do {
         hmi \<leftarrow> syscall os (DlSym (ret_val dso));
         if ret_val hmi = 0 then do {
           syscall os (DlClose (ret_val dso));
           modify (\<lambda>s. s\<lparr>dso_handle := 0\<rparr>);
           return (- EINVAL, 0)
         } else do {
           r \<leftarrow> syscall os (HwOpen (ret_val hmi));
           modify (\<lambda>s. s\<lparr>jb_hw_dev := ret_aux r\<rparr>);
           if ret_val r \<noteq> 0 then do {
             syscall os (DlClose (ret_val dso));
             modify (\<lambda>s. s\<lparr>dso_handle := 0\<rparr>);
             return (ret_val r, 0)
           } else do {
             device \<leftarrow> syscall os Malloc;
             if ret_val device = 0 then do {
               syscall os (DlClose (ret_val dso));
               modify (\<lambda>s. s\<lparr>dso_handle := 0\<rparr>);
               return (- ENOMEM, 0)
             } else return (0, ret_val device)
           }
         }
       }
     }
   }"


lemma run_locks [simp]:
  "run_state (lock os m) s = ((), s\<lparr>trace := trace s @ [(WLock m, os (trace s) (WLock m))]\<rparr>)"
  "run_state (unlock os m) s = ((), s\<lparr>trace := trace s @ [(WUnlock m, os (trace s) (WUnlock m))]\<rparr>)"
  by (simp_all add: lock_def unlock_def)

lemma run_signal_unlock [simp]:
  "run_state (signal_unlock os m) s = ((), s\<lparr>trace := trace s @ [(WSignal m, os (trace s) (WSignal m)),
     (WUnlock m, os (trace s @ [(WSignal m, os (trace s) (WSignal m))]) (WUnlock m))]\<rparr>)"
  by (simp add: signal_unlock_def)

end
