(* ===== verification/Audio_Mute.thy ===== *)
theory Audio_Mute
  imports Audio_Wrapper
begin

text \<open>
  Muting the microphone during a call. The vendor's HAL does not mute it, so the wrapper turns a
  mixer control off and remembers the value it had. The control is followed through the history
  of mixer calls: changing the output's parameters lets the vendor's HAL set it anew (the
  argument \<open>reroute\<close>), which is why the wrapper mutes again afterwards.
\<close>

datatype mute_request = Mute bool | Mode int | Out_Parameters int | Hal_Function string

fun mute_step :: "wrap_call os \<Rightarrow> int \<Rightarrow> mute_request \<Rightarrow> unit wrapper" where
  "mute_step os call_mode (Mute b) = do { wrapper_set_mic_mute os call_mode b; return () }"
| "mute_step os call_mode (Mode m) = do { wrapper_set_mode os call_mode m; return () }"
| "mute_step os call_mode (Out_Parameters p) = do { stream_function os call_mode Out ''set_parameters'' p; return () }"
| "mute_step os call_mode (Hal_Function fn) = do { wrap_hal_locked os fn; return () }"

fun mute_steps :: "wrap_call os \<Rightarrow> int \<Rightarrow> mute_request list \<Rightarrow> unit wrapper" where
  "mute_steps os call_mode [] = return ()"
| "mute_steps os call_mode (r # rs) = do { mute_step os call_mode r; mute_steps os call_mode rs }"

text \<open>The value of the control after a history; \<open>off\<close> is the number of the entry \<open>Off\<close>.\<close>

fun turn :: "(int \<Rightarrow> int) \<Rightarrow> int \<Rightarrow> int \<Rightarrow> wrap_call \<times> ret \<Rightarrow> int" where
  "turn reroute off v (MixerSetEnum c name, r) = (if name = MUTE_VALUE then off else v)"
| "turn reroute off v (MixerSetValue c n, r) = n"
| "turn reroute off v (JbCall d fn jb, r) = (if d = Out \<and> fn = ''set_parameters'' then reroute v else v)"
| "turn reroute off v _ = v"

definition control :: "(int \<Rightarrow> int) \<Rightarrow> int \<Rightarrow> int \<Rightarrow> wrap_call hist \<Rightarrow> int" where
  "control reroute off v h = foldl (turn reroute off) v h"

lemma control_append [simp]:
  "control reroute off v (h @ h') = foldl (turn reroute off) (control reroute off v h) h'"
  by (simp add: control_def)












text \<open>A mixer whose control has the value 3, with 0 for \<open>Off\<close>.\<close>

definition codec :: "wrap_call os" where
  "codec h c = (case c of
      MixerOpen \<Rightarrow> result 1
    | MixerGetCtl m name \<Rightarrow> result 1
    | MixerGetValue ctl \<Rightarrow> result (control id 0 3 h)
    | _ \<Rightarrow> result 0)"


text \<open>
  A mixer that fails when the call ends: the value is forgotten although it was not restored, and
  the microphone stays off.
\<close>

definition failing_codec :: "wrap_call os" where
  "failing_codec h c = (case c of
      MixerOpen \<Rightarrow> result (if hd (map fst (filter (\<lambda>e. case fst e of JbSetMode m \<Rightarrow> True | _ \<Rightarrow> False) (rev h))) = JbSetMode 2
                     then 1 else 0)
    | _ \<Rightarrow> codec h c)"

lemma failed_restore_forgotten:
  "let s = exec (mute_steps failing_codec 2 [Mode 2, Mute True, Mode 0]) (init_wrapper 5 0) in
    hal_audio_mode s = 0 \<and> control id 0 3 (trace s) = 0 \<and> last_mute_ctl_value s = -1"
  by code_simp

text \<open>
  An open that runs out of memory after the vendor's HAL was opened unloads the library, but
  keeps the pointer into it: every later open is refused.
\<close>

lemma failed_open_blocks:
  assumes "jb_hw_dev s = 0" "\<And>h p. ret_val (os h (DlOpen p)) \<noteq> 0" "\<And>h d. ret_val (os h (DlSym d)) \<noteq> 0"
    and "\<And>h d. ret_val (os h (HwOpen d)) = 0 \<and> ret_aux (os h (HwOpen d)) \<noteq> 0" "\<And>h. ret_val (os h Malloc) = 0"
  shows "let t = exec (wrapper_open os) s in
    dso_handle t = 0 \<and> jb_hw_dev t \<noteq> 0 \<and> (\<forall>os'. eval_in (wrapper_open os') t = (- ENODEV, 0))"
  using assms by (simp add: wrapper_open_def Let_def)

end
