(* ===== verification/Audio_Interleaving.thy ===== *)
theory Audio_Interleaving
  imports Audio_Wrapper
begin

text \<open>
  Reads, writes and the other stream calls of the audio wrapper in any order. A step of
  \<open>sched\<close> is a call that runs under the mutex of its table, or one of the three steps of a
  transfer, which runs without it. As long as streams are not opened or closed while transfers of
  the same direction are under way, the use counts are exact, every transfer reaches the vendor's
  stream that belongs to it, and a stream that transfers is not closed. The mutex does not
  enforce the condition: closing one stream moves the rows of the others under the pointers of
  their transfers.
\<close>

section \<open>Steps\<close>

type_synonym flight = "direction \<times> int \<times> row_ptr"
type_synonym config = "wrapper_state \<times> flight list"

datatype event =
    Start_IO direction int | Transfer_IO nat nat | Finish_IO nat
  | Wrap_Open direction int "32 word" | Wrap_Close direction int | Invoke direction string int
  | Device_Call string | Mic_Mute bool | Change_Mode int

text \<open>\<open>None\<close>: the call would wait, or there is no such transfer.\<close>

fun sched :: "wrap_call os \<Rightarrow> int \<Rightarrow> event \<Rightarrow> config \<Rightarrow> config option" where
  "sched os call_mode (Start_IO d p) (s, fl) =
     (let (q, s') = run_state (io_begin os d p) s in
      Some (s', case q of None \<Rightarrow> fl | Some q \<Rightarrow> fl @ [(d, p, q)]))"
| "sched os call_mode (Transfer_IO k n) (s, fl) =
     (if k < length fl then let (d, p, q) = fl ! k in Some (exec (io_transfer os d q n) s, fl) else None)"
| "sched os call_mode (Finish_IO k) (s, fl) =
     (if k < length fl then let (d, p, q) = fl ! k in
        Some (exec (io_end os d q) s, take k fl @ drop (Suc k) fl) else None)"
| "sched os call_mode (Wrap_Open d h devices) (s, fl) = Some (exec (wrapper_open_stream os d h devices) s, fl)"
| "sched os call_mode (Wrap_Close d p) (s, fl) =
     (let (r, s') = run_state (wrapper_close_stream os d p) s in map_option (\<lambda>_. (s', fl)) r)"
| "sched os call_mode (Invoke d fn p) (s, fl) =
     (let (r, s') = run_state (stream_function os call_mode d fn p) s in map_option (\<lambda>_. (s', fl)) r)"
| "sched os call_mode (Device_Call fn) (s, fl) = Some (exec (wrap_hal_locked os fn) s, fl)"
| "sched os call_mode (Mic_Mute b) (s, fl) = Some (exec (wrapper_set_mic_mute os call_mode b) s, fl)"
| "sched os call_mode (Change_Mode m) (s, fl) = Some (exec (wrapper_set_mode os call_mode m) s, fl)"

text \<open>No stream of a direction is opened or closed during a transfer of the same direction.\<close>

fun settled :: "event \<Rightarrow> flight list \<Rightarrow> bool" where
  "settled (Wrap_Open d h devices) fl \<longleftrightarrow> (\<forall>f\<in>set fl. fst f \<noteq> d)"
| "settled (Wrap_Close d p) fl \<longleftrightarrow> (\<forall>f\<in>set fl. fst f \<noteq> d)"
| "settled _ fl \<longleftrightarrow> True"

inductive calm_run :: "wrap_call os \<Rightarrow> int \<Rightarrow> int \<Rightarrow> config \<Rightarrow> bool" for os call_mode dev where
  calm_start: "calm_run os call_mode dev (init_wrapper dev mode, [])"
| calm_step: "calm_run os call_mode dev c \<Longrightarrow> settled ev (snd c) \<Longrightarrow> sched os call_mode ev c = Some c' \<Longrightarrow> calm_run os call_mode dev c'"

text \<open>A table that shrinks can always be had; growing may fail.\<close>

definition shrinks :: "wrap_call os \<Rightarrow> bool" where
  "shrinks os \<longleftrightarrow> (\<forall>h b n m. 0 < m \<longrightarrow> m < n \<longrightarrow> ret_val (os h (Realloc b n m)) \<noteq> 0)"

section \<open>The tables\<close>

lemma streams_set [simp]:
  "stream_table d (set_stream_table d' t s) = (if d = d' then t else stream_table d s)"
  by (cases d; cases d') simp_all

lemma set_streams_fields [simp]:
  "fault (set_stream_table d t s) = fault s" "jb_hw_dev (set_stream_table d t s) = jb_hw_dev s"
  "trace (set_stream_table d t s) = trace s"
  "set_stream_table d t (s\<lparr>trace := h\<rparr>) = (set_stream_table d t s)\<lparr>trace := h\<rparr>"
  "set_stream_table d t (set_stream_table d t' s) = set_stream_table d t s"
  by (cases d; simp)+

lemma streams_fields [simp]:
  "stream_table d (s\<lparr>trace := h\<rparr>) = stream_table d s" "stream_table d (s\<lparr>fault := b\<rparr>) = stream_table d s"
  by (cases d; simp)+

lemma find_row_Some: "find_row p rs = Some i \<Longrightarrow> i < length rs \<and> row_stream (rs ! i) = p"
  by (induction rs arbitrary: i) (auto split: if_splits)

lemma find_row_stable:
  "map row_stream rs = map row_stream rs' \<Longrightarrow> find_row p rs = find_row p rs'"
proof (induction rs arbitrary: rs')
  case (Cons r rs)
  then show ?case by (cases rs') auto
qed simp

lemma find_row_append: "find_row p rs = Some i \<Longrightarrow> find_row p (rs @ rs') = Some i"
  by (induction rs arbitrary: i) (auto split: if_splits)

lemma map_stream_update [simp]:
  "map row_stream (rs[i := (rs ! i)\<lparr>row_in_use := n\<rparr>]) = map row_stream rs"
  by (cases "i < length rs") (auto simp: map_update list_update_beyond intro!: nth_equalityI simp: nth_list_update)

section \<open>Counting transfers\<close>

definition flights_on :: "direction \<Rightarrow> nat \<Rightarrow> flight list \<Rightarrow> nat" where
  "flights_on d i fl = length (filter (\<lambda>f. fst f = d \<and> snd (snd (snd f)) = i) fl)"

fun counted :: "config \<Rightarrow> bool" where
  "counted (s, fl) \<longleftrightarrow> \<not> fault s \<and> jb_hw_dev s \<noteq> 0 \<and>
     (\<forall>d. (rows (stream_table d s) \<noteq> [] \<longrightarrow> base (stream_table d s) \<noteq> 0) \<and>
        (\<forall>i<length (rows (stream_table d s)). row_in_use (rows (stream_table d s) ! i) = int (flights_on d i fl))) \<and>
     (\<forall>(d, p, b, i)\<in>set fl. b = base (stream_table d s) \<and> find_row p (rows (stream_table d s)) = Some i)"

declare counted.simps [simp del]

lemma counted_trace [simp]: "counted (s\<lparr>trace := h\<rparr>, fl) = counted (s, fl)"
  by (simp add: counted.simps)

lemma countedD:
  assumes "counted (s, fl)"
  shows "\<not> fault s" "jb_hw_dev s \<noteq> 0" "rows (stream_table d s) \<noteq> [] \<Longrightarrow> base (stream_table d s) \<noteq> 0"
    "i < length (rows (stream_table d s)) \<Longrightarrow> row_in_use (rows (stream_table d s) ! i) = int (flights_on d i fl)"
    "(d, p, b, j) \<in> set fl \<Longrightarrow> b = base (stream_table d s)"
    "(d, p, b, j) \<in> set fl \<Longrightarrow> find_row p (rows (stream_table d s)) = Some j"
  using assms by (auto simp: counted.simps)

lemma run_search [simp]:
  "(rows (stream_table d s) \<noteq> [] \<longrightarrow> base (stream_table d s) \<noteq> 0) \<Longrightarrow>
   run_state (search d p) s = (find_row p (rows (stream_table d s)), s)"
  by (auto simp: search_def)

text \<open>A row whose use count follows the transfers.\<close>

lemma counted_update:
  assumes c: "counted (s, fl)" and i: "i < length (rows (stream_table d s))"
    and n: "n = int (flights_on d i fl')"
    and others: "\<And>d' j. (d', j) \<noteq> (d, i) \<Longrightarrow> flights_on d' j fl' = flights_on d' j fl"
    and fl': "\<And>d' p b j. (d', p, b, j) \<in> set fl' \<Longrightarrow>
       b = base (stream_table d' s) \<and> find_row p (rows (stream_table d' s)) = Some j"
  shows "counted (set_stream_table d ((stream_table d s)\<lparr>rows :=
      (rows (stream_table d s))[i := (rows (stream_table d s) ! i)\<lparr>row_in_use := n\<rparr>]\<rparr>) s, fl')"
proof -
  let ?t = "stream_table d s"
  let ?t' = "?t\<lparr>rows := (rows ?t)[i := (rows ?t ! i)\<lparr>row_in_use := n\<rparr>]\<rparr>"
  have find: "find_row p (rows ?t') = find_row p (rows ?t)" for p
    by (rule find_row_stable) simp
  have counts: "row_in_use (rows ?t' ! j) = int (flights_on d j fl')" if "j < length (rows ?t)" for j
    using that n others [of d j] countedD(4) [OF c that] by (cases "j = i") simp_all
  have counts': "row_in_use (rows (stream_table d' s) ! j) = int (flights_on d' j fl')"
    if "d' \<noteq> d" "j < length (rows (stream_table d' s))" for d' j
    using that(1) others [of d' j] countedD(4) [OF c that(2)] by simp
  show ?thesis
    using countedD(1-3) [OF c] find counts counts' fl' i unfolding counted.simps
    by (auto simp del: fun_upd_apply)
qed

lemma flights_on_append: "flights_on d i (fl @ fl') = flights_on d i fl + flights_on d i fl'"
  by (simp add: flights_on_def)

lemma flights_on_drop:
  assumes "k < length fl" "fl ! k = (d, p, b, i)"
  shows "flights_on d' j fl = flights_on d' j (take k fl @ drop (Suc k) fl) + (if d' = d \<and> j = i then 1 else 0)"
proof -
  have "fl = take k fl @ (d, p, b, i) # drop (Suc k) fl"
    using id_take_nth_drop [OF assms(1)] assms(2) by simp
  then have "flights_on d' j fl = flights_on d' j (take k fl @ [(d, p, b, i)] @ drop (Suc k) fl)" by simp
  then show ?thesis by (simp only: flights_on_append) (auto simp: flights_on_def)
qed

lemma start_counted:
  assumes "counted (s, fl)" "sched os call_mode (Start_IO d p) (s, fl) = Some c'"
  shows "counted c'"
proof (cases "find_row p (rows (stream_table d s))")
  case None
  then show ?thesis using assms countedD(3) [OF assms(1), of d] by (auto simp: io_begin_def)
next
  case (Some i)
  let ?t = "stream_table d s" and ?fl = "fl @ [(d, p, base (stream_table d s), i)]"
  have i: "i < length (rows ?t)" using find_row_Some [OF Some] by simp
  have "counted (set_stream_table d (?t\<lparr>rows := (rows ?t)[i := (rows ?t ! i)\<lparr>row_in_use :=
      row_in_use (rows ?t ! i) + 1\<rparr>]\<rparr>) s, ?fl)"
    by (rule counted_update [OF assms(1) i])
      (use countedD(4-6) [OF assms(1)] i Some in \<open>auto simp: flights_on_append, auto simp: flights_on_def\<close>)
  then show ?thesis
    using Some assms(2) countedD(3) [OF assms(1), of d] by (auto simp: io_begin_def set_in_use_def Let_def)
qed

lemma in_flight:
  assumes "counted (s, fl)" "k < length fl" "fl ! k = (d, p, b, i)"
  shows "b = base (stream_table d s)" "b \<noteq> 0" "i < length (rows (stream_table d s))"
    "row_stream (rows (stream_table d s) ! i) = p" "0 < flights_on d i fl"
proof -
  have f: "(d, p, b, i) \<in> set fl" using assms(2,3) nth_mem by metis
  show "b = base (stream_table d s)" by (rule countedD(5) [OF assms(1) f])
  have "find_row p (rows (stream_table d s)) = Some i" by (rule countedD(6) [OF assms(1) f])
  from find_row_Some [OF this] show i: "i < length (rows (stream_table d s))"
    and "row_stream (rows (stream_table d s) ! i) = p" by auto
  show "b \<noteq> 0" using countedD(3) [OF assms(1), of d] i \<open>b = _\<close> by (cases "rows (stream_table d s)") auto
  show "0 < flights_on d i fl" using f by (force simp: flights_on_def filter_empty_conv)
qed

lemma run_row_at:
  assumes "counted (s, fl)" "k < length fl" "fl ! k = (d, p, b, i)"
  shows "run_state (row_at d (b, i)) s = (Some (rows (stream_table d s) ! i), s)"
  using in_flight [OF assms] by (simp add: row_at_def)

lemma transfer_counted:
  assumes "counted (s, fl)" "sched os call_mode (Transfer_IO k n) (s, fl) = Some c'"
  shows "counted c'"
  using assms run_row_at [OF assms(1)]
  by (cases "fl ! k") (auto simp: io_transfer_def split: if_splits)

lemma finish_counted:
  assumes "counted (s, fl)" "sched os call_mode (Finish_IO k) (s, fl) = Some c'"
  shows "counted c'"
proof -
  have k: "k < length fl" using assms(2) by (simp split: if_splits)
  obtain d p b i where f: "fl ! k = (d, p, b, i)" by (metis prod_cases4)
  let ?t = "stream_table d s" and ?fl = "take k fl @ drop (Suc k) fl"
  note i = in_flight(3) [OF assms(1) k f]
  have sub: "set ?fl \<subseteq> set fl" using set_take_subset set_drop_subset by fastforce
  have "counted (set_stream_table d (?t\<lparr>rows := (rows ?t)[i := (rows ?t ! i)\<lparr>row_in_use :=
      row_in_use (rows ?t ! i) - 1\<rparr>]\<rparr>) s, ?fl)"
  proof (rule counted_update [OF assms(1) i])
    show "row_in_use (rows ?t ! i) - 1 = int (flights_on d i ?fl)"
      using countedD(4) [OF assms(1) i] flights_on_drop [OF k f, of d i] by simp
    show "flights_on d' j ?fl = flights_on d' j fl" if "(d', j) \<noteq> (d, i)" for d' j
      using flights_on_drop [OF k f, of d' j] that by simp
    show "b' = base (stream_table d' s) \<and> find_row p' (rows (stream_table d' s)) = Some j"
      if "(d', p', b', j) \<in> set ?fl" for d' p' b' j
      using that sub countedD(5,6) [OF assms(1)] by blast
  qed
  then show ?thesis
    using assms(2) k f run_row_at [OF assms(1) k f] by (auto simp: io_end_def set_in_use_def Let_def)
qed

text \<open>A table without transfers may be replaced by any other whose rows are free.\<close>

lemma counted_replace:
  assumes c: "counted (s, fl)" and calm: "\<forall>f\<in>set fl. fst f \<noteq> d"
    and t: "rows t \<noteq> [] \<longrightarrow> base t \<noteq> 0" "\<forall>r\<in>set (rows t). row_in_use r = 0"
  shows "counted (set_stream_table d t s, fl)"
proof -
  have "flights_on d i fl = 0" for i using calm by (simp add: flights_on_def filter_empty_conv)
  then have "row_in_use (rows t ! i) = int (flights_on d i fl)" if "i < length (rows t)" for i
    using t(2) that by simp
  moreover have "d' \<noteq> d" if "(d', p, b, i) \<in> set fl" for d' p b i using calm that by fastforce
  ultimately show ?thesis
    using countedD [OF c] t(1) unfolding counted.simps by auto
qed

lemma free_rows:
  assumes "counted (s, fl)" "\<forall>f\<in>set fl. fst f \<noteq> d" "r \<in> set (rows (stream_table d s))"
  shows "row_in_use r = 0"
proof -
  obtain i where "i < length (rows (stream_table d s))" "r = rows (stream_table d s) ! i"
    using assms(3) by (auto simp: in_set_conv_nth)
  moreover have "flights_on d i fl = 0" using assms(2) by (simp add: flights_on_def filter_empty_conv)
  ultimately show ?thesis using countedD(4) [OF assms(1)] by simp
qed

lemma hal_call_run:
  assumes "jb_hw_dev s \<noteq> 0"
  shows "\<exists>h r. run_state (hal_call os c) s = (r, s\<lparr>trace := h\<rparr>)"
  using assms by (auto simp: hal_call_def)

lemma open_counted:
  assumes c: "counted (s, fl)" and calm: "\<forall>f\<in>set fl. fst f \<noteq> d"
  shows "counted (exec (wrapper_open_stream os d handle devices) s, fl)"
proof -
  let ?l = "[(WLock (Streams d), os (trace s) (WLock (Streams d)))]"
  let ?c = "JbOpen d handle (case d of In \<Rightarrow> jb_devices devices | Out \<Rightarrow> devices)"
  obtain h r where r: "run_state (hal_call os ?c) (s\<lparr>trace := trace s @ ?l\<rparr>) = (r, s\<lparr>trace := h\<rparr>)"
    using hal_call_run [of "s\<lparr>trace := trace s @ ?l\<rparr>" os ?c] countedD(2) [OF c] by auto
  have base: "counted (set_stream_table d ((stream_table d s)\<lparr>base := b\<rparr>) s, fl)" if "b \<noteq> 0" for b
    by (rule counted_replace [OF c calm]) (use that free_rows [OF c calm] in auto)
  have grown: "counted (set_stream_table d \<lparr>base = b, rows = rows (stream_table d s) @
      [\<lparr>row_stream = p, row_jb = jb, row_in_use = 0\<rparr>]\<rparr> s, fl)" if "b \<noteq> 0" for b p jb
    by (rule counted_replace [OF c calm]) (use that free_rows [OF c calm] in auto)
  show ?thesis
    using c base grown by (simp add: wrapper_open_stream_def r Let_def)
qed

lemma close_counted:
  assumes "shrinks os" and c: "counted (s, fl)" and calm: "\<forall>f\<in>set fl. fst f \<noteq> d"
    and "sched os call_mode (Wrap_Close d p) (s, fl) = Some c'"
  shows "counted c'"
proof (cases "find_row p (rows (stream_table d s))")
  case None
  then show ?thesis using assms(4) c countedD(3) [OF c, of d] by (auto simp: wrapper_close_stream_def)
next
  case (Some i)
  let ?t = "stream_table d s" and ?r = "rows (stream_table d s) ! i"
  have i: "i < length (rows ?t)" using find_row_Some [OF Some] by simp
  have free: "row_in_use ?r = 0" using free_rows [OF c calm] i by simp
  have shrunk: "counted (set_stream_table d \<lparr>base = b, rows = take i (rows ?t) @ drop (Suc i) (rows ?t)\<rparr> s, fl)"
    if "length (rows ?t) - Suc 0 \<noteq> 0 \<longrightarrow> b \<noteq> 0" for b
    by (rule counted_replace [OF c calm])
      (use that i free_rows [OF c calm] in \<open>auto dest: in_set_takeD in_set_dropD\<close>)
  have realloc: "length (rows ?t) - Suc 0 \<noteq> 0 \<longrightarrow>
      ret_val (os h (Realloc (base ?t) (length (rows ?t)) (length (rows ?t) - Suc 0))) \<noteq> 0" for h
    using assms(1) by (auto simp: shrinks_def)
  have hal: "counted (exec (hal_call os x) (set_stream_table d t s\<lparr>trace := h\<rparr>), fl) = counted (set_stream_table d t s, fl)" for x t h
    using hal_call_run [of "set_stream_table d t s\<lparr>trace := h\<rparr>" os x] countedD(2) [OF c] by auto
  show ?thesis
    using Some assms(4) countedD(3) [OF c, of d] free shrunk [OF realloc]
    by (auto simp: wrapper_close_stream_def wait_for_free_def Let_def split_beta hal split: if_splits)
qed

lemma counted_mute [simp]:
  "counted (s\<lparr>last_mute_ctl_value := v\<rparr>, fl) = counted (s, fl)"
  "counted (s\<lparr>hal_audio_mode := m\<rparr>, fl) = counted (s, fl)"
proof -
  have "stream_table d (s\<lparr>last_mute_ctl_value := v\<rparr>) = stream_table d s" "stream_table d (s\<lparr>hal_audio_mode := m\<rparr>) = stream_table d s" for d
    by (cases d; simp)+
  then show "counted (s\<lparr>last_mute_ctl_value := v\<rparr>, fl) = counted (s, fl)"
    "counted (s\<lparr>hal_audio_mode := m\<rparr>, fl) = counted (s, fl)"
    by (simp_all add: counted.simps)
qed

lemma mute_counted [simp]:
  "counted (exec (alsa_set_mic_mute os b) s, fl) = counted (s, fl)"
  "counted (exec (restore_mute os call_mode) s, fl) = counted (s, fl)"
proof -
  show alsa: "counted (exec (alsa_set_mic_mute os b) s, fl) = counted (s, fl)" for b s
    by (simp add: alsa_set_mic_mute_def)
  show "counted (exec (restore_mute os call_mode) s, fl) = counted (s, fl)"
    by (simp add: restore_mute_def split_beta alsa)
qed

lemma invoke_counted:
  assumes "counted (s, fl)" "sched os call_mode (Invoke d fn p) (s, fl) = Some c'"
  shows "counted c'"
  using assms countedD(3) [OF assms(1), of d]
  by (cases "find_row p (rows (stream_table d s))"; cases "map_of (stream_functions d) fn")
    (auto simp: stream_function_def wrap_stream_locked_def wait_for_free_def split_beta split: if_splits)

lemma device_counted:
  assumes "counted (s, fl)"
  shows "counted (exec (wrap_hal_locked os fn) s, fl)"
  using assms countedD(2) [OF assms]
  by (simp add: wrap_hal_locked_def lock_tables_def unlock_tables_def hal_call_def)

lemma mic_counted:
  assumes "counted (s, fl)"
  shows "counted (exec (wrapper_set_mic_mute os call_mode b) s, fl)"
    "counted (exec (wrapper_set_mode os call_mode m) s, fl)"
  using assms countedD(2) [OF assms]
  by (simp_all add: wrapper_set_mic_mute_def wrapper_set_mode_def lock_tables_def unlock_tables_def split_beta)

lemma sched_counted:
  assumes "shrinks os" "counted c" "settled ev (snd c)" "sched os call_mode ev c = Some c'"
  shows "counted c'"
proof -
  obtain s fl where c: "c = (s, fl)" by (cases c)
  note cnt = assms(2) [unfolded c] and stp = assms(4) [unfolded c] and calm = assms(3) [unfolded c snd_conv]
  show ?thesis
  proof (cases ev)
    case (Start_IO d p)
    show ?thesis by (rule start_counted [OF cnt stp [unfolded Start_IO]])
  next
    case (Transfer_IO k n)
    show ?thesis by (rule transfer_counted [OF cnt stp [unfolded Transfer_IO]])
  next
    case (Finish_IO k)
    show ?thesis by (rule finish_counted [OF cnt stp [unfolded Finish_IO]])
  next
    case (Wrap_Open d h devices)
    then show ?thesis using open_counted [OF cnt, of d os h devices] stp calm by simp
  next
    case (Wrap_Close d p)
    then show ?thesis using close_counted [OF assms(1) cnt _ stp [unfolded Wrap_Close]] calm by simp
  next
    case (Invoke d fn p)
    show ?thesis by (rule invoke_counted [OF cnt stp [unfolded Invoke]])
  next
    case (Device_Call fn)
    then show ?thesis using device_counted [OF cnt, of os fn] stp by simp
  next
    case (Mic_Mute b)
    then show ?thesis using mic_counted(1) [OF cnt, of os call_mode b] stp by simp
  next
    case (Change_Mode m)
    then show ?thesis using mic_counted(2) [OF cnt, of os call_mode m] stp by simp
  qed
qed

lemma calm_run_counted: "calm_run os call_mode dev c \<Longrightarrow> shrinks os \<Longrightarrow> dev \<noteq> 0 \<Longrightarrow> counted c"
proof (induction rule: calm_run.induct)
  case (calm_start mode)
  have "stream_table d (init_wrapper dev mode) = no_streams" for d by (cases d) (simp_all add: init_wrapper_def)
  then show ?case using calm_start by (simp add: counted.simps no_streams_def) (simp add: init_wrapper_def)
next
  case (calm_step c ev c')
  then show ?case by (blast intro: sched_counted)
qed

text \<open>
  C14: if no stream is opened or closed while a transfer of its direction is under way, then in
  every interleaving of opens, closes, calls and the steps of transfers no pointer to a row goes
  stale, the use count of every row is the number of its transfers, every transfer reaches the
  vendor's stream of the row it was started on, and a stream that transfers cannot be closed.
\<close>

theorem transfers_counted:
  assumes "calm_run os call_mode dev (s, fl)" "shrinks os" "dev \<noteq> 0"
  shows "\<not> fault s \<and>
    (\<forall>d. \<forall>i<length (rows (stream_table d s)). row_in_use (rows (stream_table d s) ! i) = int (flights_on d i fl)) \<and>
    (\<forall>(d, p, q)\<in>set fl. \<exists>r\<in>set (rows (stream_table d s)). row_stream r = p \<and>
       (\<forall>n. calls (exec (io_transfer os d q n) s) = calls s @ [JbTransfer d (row_jb r) n]) \<and>
       sched os call_mode (Wrap_Close d p) (s, fl) = None)"
proof -
  note c = calm_run_counted [OF assms]
  have "\<exists>r\<in>set (rows (stream_table d s)). row_stream r = p \<and>
       (\<forall>n. calls (exec (io_transfer os d (b, i) n) s) = calls s @ [JbTransfer d (row_jb r) n]) \<and>
       sched os call_mode (Wrap_Close d p) (s, fl) = None" if f: "(d, p, b, i) \<in> set fl" for d p b i
  proof -
    obtain k where k: "k < length fl" "fl ! k = (d, p, b, i)" using f by (auto simp: in_set_conv_nth)
    have "row_in_use (rows (stream_table d s) ! i) \<noteq> 0"
      using in_flight(3,5) [OF c k] countedD(4) [OF c, of i d] by simp
    then have "sched os call_mode (Wrap_Close d p) (s, fl) = None"
      using countedD(3) [OF c, of d] countedD(6) [OF c f]
      by (simp add: wrapper_close_stream_def wait_for_free_def Let_def)
    then show ?thesis
      using in_flight [OF c k] run_row_at [OF c k] by (auto simp: io_transfer_def)
  qed
  then show ?thesis using countedD(1,4) [OF c] by fastforce
qed

section \<open>A vendor's HAL\<close>

definition mallocs :: "wrap_call hist \<Rightarrow> nat" where
  "mallocs h = length (filter (\<lambda>e. case fst e of Malloc \<Rightarrow> True | _ \<Rightarrow> False) h)"

text \<open>Streams have the addresses 1, 2, \<dots>, those of the vendor 101, 102, \<dots>; tables never move.\<close>

definition vendor :: "wrap_call os" where
  "vendor h c = (case c of
      JbOpen d handle devices \<Rightarrow> (result 0)\<lparr>ret_aux := 101 + int (mallocs h)\<rparr>
    | Malloc \<Rightarrow> result (1 + int (mallocs h))
    | Realloc b n m \<Rightarrow> result (if m = 0 then 0 else 7)
    | _ \<Rightarrow> result 0)"

fun sched_all :: "wrap_call os \<Rightarrow> int \<Rightarrow> event list \<Rightarrow> config \<Rightarrow> config option" where
  "sched_all os call_mode [] c = Some c"
| "sched_all os call_mode (ev # evs) c = Option.bind (sched os call_mode ev c) (sched_all os call_mode evs)"

fun settled_all :: "wrap_call os \<Rightarrow> int \<Rightarrow> event list \<Rightarrow> config \<Rightarrow> bool" where
  "settled_all os call_mode [] c \<longleftrightarrow> True"
| "settled_all os call_mode (ev # evs) c \<longleftrightarrow> settled ev (snd c) \<and>
     (case sched os call_mode ev c of None \<Rightarrow> True | Some c' \<Rightarrow> settled_all os call_mode evs c')"

lemma sched_all_calm:
  "calm_run os call_mode dev c \<Longrightarrow> settled_all os call_mode evs c \<Longrightarrow> sched_all os call_mode evs c = Some c' \<Longrightarrow> calm_run os call_mode dev c'"
  by (induction evs arbitrary: c) (auto split: option.splits intro: calm_step)

definition recording_events :: "event list" where
  "recording_events = [Wrap_Open In 0 0x80000004, Wrap_Open Out 1 2, Wrap_Open Out 1 2,
     Start_IO In 1, Start_IO Out 3, Invoke Out ''standby'' 2, Transfer_IO 0 320, Transfer_IO 1 640,
     Start_IO In 1, Finish_IO 0]"

definition recording :: config where
  "recording = the (sched_all vendor 2 recording_events (init_wrapper 5 0, []))"

theorem transfers_counted_witness:
  "\<not> fault (fst recording) \<and> (Out, 3, 7, 1) \<in> set (snd recording) \<and>
    sched vendor 2 (Wrap_Close Out 3) (fst recording, snd recording) = None"
proof -
  have "sched_all vendor 2 recording_events (init_wrapper 5 0, []) \<noteq> None" by code_simp
  then have "sched_all vendor 2 recording_events (init_wrapper 5 0, []) = Some recording"
    by (auto simp: recording_def)
  moreover have "settled_all vendor 2 recording_events (init_wrapper 5 0, [])" by code_simp
  ultimately have "calm_run vendor 2 5 (fst recording, snd recording)"
    using sched_all_calm [OF calm_start] by simp
  moreover have "shrinks vendor" by (simp add: shrinks_def vendor_def)
  moreover have "(Out, 3, 7, 1) \<in> set (snd recording)" by code_simp
  ultimately show ?thesis
    using transfers_counted [of vendor 2 5 "fst recording" "snd recording"] by fastforce
qed

text \<open>
  Three recordings; the second one transfers when the first is closed. The row of the second moves
  to the place of the first, and the transfer counts down the row of the third: the third can
  never be closed, nor the second, and the mutex of the table stays locked.
\<close>

definition three_recordings :: "event list" where
  "three_recordings = [Wrap_Open In 0 4, Wrap_Open In 0 4, Wrap_Open In 0 4, Start_IO In 2,
     Wrap_Close In 1, Finish_IO 0]"

lemma close_moves_rows:
  "case sched_all vendor 2 three_recordings (init_wrapper 5 0, []) of
      None \<Rightarrow> False
    | Some (s, fl) \<Rightarrow> fl = [] \<and> \<not> fault s \<and>
        map (\<lambda>r. (row_stream r, row_in_use r)) (rows (in_streams s)) = [(2, 1), (3, -1)] \<and>
        sched vendor 2 (Wrap_Close In 2) (s, fl) = None \<and> sched vendor 2 (Wrap_Close In 3) (s, fl) = None"
  by code_simp

text \<open>With two recordings the pointer leads behind the table.\<close>

lemma close_leaves_stale_row:
  "case sched_all vendor 2 [Wrap_Open In 0 4, Wrap_Open In 0 4, Start_IO In 2, Wrap_Close In 1, Finish_IO 0]
      (init_wrapper 5 0, []) of
      None \<Rightarrow> False
    | Some (s, fl) \<Rightarrow> fault s"
  by code_simp

end
