(* ===== verification/Audio_Locks.thy ===== *)
theory Audio_Locks
  imports Audio_Interleaving
begin

text \<open>
  The mutexes of the audio wrapper: every function takes them in one order and gives them back,
  which rules out that two threads wait for each other's mutexes.
\<close>

fun rank :: "mutex \<Rightarrow> nat" where
  "rank (Streams Out) = 0"
| "rank (Streams In) = 1"
| "rank (Row d p) = 2"
| "rank Hal = 3"

text \<open>
  The mutexes a thread holds after its calls, the last one first; \<open>None\<close> if it took one out of
  order or gave back another than the last.
\<close>

fun lock_step :: "mutex list option \<Rightarrow> wrap_call \<times> ret \<Rightarrow> mutex list option" where
  "lock_step None _ = None"
| "lock_step (Some ms) (WLock m, r) = (if \<forall>m'\<in>set ms. rank m' < rank m then Some (m # ms) else None)"
| "lock_step (Some ms) (WUnlock m, r) = (case ms of m' # ms' \<Rightarrow> if m' = m then Some ms' else None | [] \<Rightarrow> None)"
| "lock_step (Some ms) _ = Some ms"

definition held_locks :: "wrap_call hist \<Rightarrow> mutex list option" where
  "held_locks h = foldl lock_step (Some []) h"

definition holds :: "mutex list \<Rightarrow> wrapper_state \<Rightarrow> bool" where
  "holds ms s \<longleftrightarrow> held_locks (trace s) = Some ms"

named_theorems lock_rules "code between locks"

lemma held_locks_append [simp]: "held_locks (h @ h') = foldl lock_step (held_locks h) h'"
  by (simp add: held_locks_def)

lemma rank_streams [simp]: "rank (Streams d) < 2" "rank (Streams d) < 3"
  by (cases d; simp)+

text \<open>Any call but those on mutexes.\<close>

fun on_mutex :: "wrap_call \<Rightarrow> bool" where
  "on_mutex (WLock m) \<longleftrightarrow> True"
| "on_mutex (WUnlock m) \<longleftrightarrow> True"
| "on_mutex _ \<longleftrightarrow> False"

lemma lock_step_other: "\<not> on_mutex c \<Longrightarrow> lock_step (Some ms) (c, r) = Some ms"
  by (cases c) simp_all

lemma keeps_call [lock_rules]: "\<not> on_mutex c \<Longrightarrow> keeps (holds ms) (syscall os c)"
  by (simp add: valid_def holds_def lock_step_other)

lemma keeps_unseen [lock_rules]: "(\<And>s. trace (f s) = trace s) \<Longrightarrow> keeps (holds ms) (modify f)"
  by (simp add: valid_def holds_def)

lemma lock_bind [lock_rules]:
  "(\<forall>m'\<in>set ms. rank m' < rank m) \<Longrightarrow> valid (holds (m # ms)) (f ()) Q \<Longrightarrow>
   valid (holds ms) (lock os m \<bind> f) Q"
  by (auto simp: valid_def holds_def)

lemma unlock_bind [lock_rules]:
  "valid (holds ms) (f ()) Q \<Longrightarrow> valid (holds (m # ms)) (unlock os m \<bind> f) Q"
  by (auto simp: valid_def holds_def)

lemma signal_unlock_bind [lock_rules]:
  "valid (holds ms) (f ()) Q \<Longrightarrow> valid (holds (m # ms)) (signal_unlock os m \<bind> f) Q"
  by (auto simp: valid_def holds_def)

lemma signal_unlock_last [lock_rules]: "valid (holds (m # ms)) (signal_unlock os m) (\<lambda>_. holds ms)"
  by (auto simp: valid_def holds_def)

lemma unlock_last [lock_rules]: "valid (holds (m # ms)) (unlock os m) (\<lambda>_. holds ms)"
  by (auto simp: valid_def holds_def)

lemma lock_last [lock_rules]:
  "\<forall>m'\<in>set ms. rank m' < rank m \<Longrightarrow> valid (holds ms) (lock os m) (\<lambda>_. holds (m # ms))"
  by (auto simp: valid_def holds_def)

lemma keeps_undefined [lock_rules]: "keeps (holds ms) undefined_behaviour"
  by (simp add: valid_def holds_def)

lemma keeps_search [lock_rules]: "keeps (holds ms) (search d p)"
  by (simp add: valid_def holds_def search_def)

lemma keeps_row_at [lock_rules]: "keeps (holds ms) (row_at d q)"
  by (simp add: valid_def holds_def row_at_def)

lemma keeps_set_in_use [lock_rules]: "keeps (holds ms) (set_in_use d i n)"
  unfolding set_in_use_def by (intro lock_rules) (simp add: Let_def)

lemma keeps_hal_call [lock_rules]:
  "\<forall>m\<in>set ms. rank m < 3 \<Longrightarrow> \<not> on_mutex c \<Longrightarrow> keeps (holds ms) (hal_call os c)"
  unfolding hal_call_def by (intro lock_rules wp_rules) simp_all

lemma wait_for_free_bind [lock_rules]:
  assumes "\<forall>m\<in>set ms. rank m < 2" "\<And>b. valid (holds (Row d (row_stream r) # ms)) (f b) Q"
  shows "valid (holds ms) (wait_for_free os d r \<bind> f) Q"
proof (rule valid_bind)
  show "valid (holds ms) (wait_for_free os d r) (\<lambda>_. holds (Row d (row_stream r) # ms))"
    unfolding wait_for_free_def by (intro lock_rules wp_rules) (use assms(1) in simp_all)
qed (rule assms(2))

lemma returns: "(\<And>s. P s \<Longrightarrow> Q x s) \<Longrightarrow> valid P (return x) Q"
  by (simp add: valid_def)

section \<open>The functions\<close>

lemma io_begin_locks: "keeps (holds []) (io_begin os d p)"
  unfolding io_begin_def by (intro lock_rules wp_rules) simp_all

lemma io_transfer_locks: "keeps (holds []) (io_transfer os d q n)"
  unfolding io_transfer_def by (intro lock_rules wp_rules) simp_all

lemma io_end_locks: "keeps (holds []) (io_end os d q)"
  unfolding io_end_def by (intro lock_rules wp_rules) simp_all

lemma open_locks: "keeps (holds []) (wrapper_open_stream os d h devices)"
  unfolding wrapper_open_stream_def by (intro lock_rules wp_rules) (simp_all add: Let_def)

text \<open>A call that waits keeps the mutex of its table.\<close>

definition all_back :: "direction \<Rightarrow> 'a option \<Rightarrow> wrapper_state \<Rightarrow> bool" where
  "all_back d r s \<longleftrightarrow> (case r of
      None \<Rightarrow> \<exists>p. holds [Row d p, Streams d] s
    | Some x \<Rightarrow> holds [] s)"

lemma close_locks: "valid (holds []) (wrapper_close_stream os d p) (all_back d)"
  unfolding wrapper_close_stream_def
  by (intro lock_rules wp_rules returns) (auto simp: all_back_def)

lemma stream_locked_locks:
  assumes "\<And>p. keeps (holds [Row d p, Streams d]) post_fn"
  shows "valid (holds []) (wrap_stream_locked os d fn err p post_fn) (all_back d)"
  unfolding wrap_stream_locked_def
  by (intro lock_rules wp_rules returns assms) (auto simp: all_back_def)

lemma lock_tables_bind [lock_rules]:
  "valid (holds [Streams In, Streams Out]) (f ()) Q \<Longrightarrow> valid (holds []) (lock_tables os \<bind> f) Q"
  by (rule valid_bind [of _ _ "\<lambda>_. holds [Streams In, Streams Out]"])
    (auto simp: lock_tables_def intro!: lock_rules)

lemma unlock_tables_bind [lock_rules]:
  "valid (holds []) (f ()) Q \<Longrightarrow> valid (holds [Streams In, Streams Out]) (unlock_tables os \<bind> f) Q"
  by (rule valid_bind [of _ _ "\<lambda>_. holds []"]) (auto simp: unlock_tables_def intro!: lock_rules)

lemma hal_locked_locks: "keeps (holds []) (wrap_hal_locked os fn)"
  unfolding wrap_hal_locked_def by (intro lock_rules wp_rules) simp_all

lemma alsa_locks [lock_rules]: "keeps (holds ms) (alsa_set_mic_mute os state)"
  unfolding alsa_set_mic_mute_def by (intro lock_rules wp_rules) simp_all

lemma restore_mute_locks: "keeps (holds ms) (restore_mute os call_mode)"
  unfolding restore_mute_def by (intro lock_rules wp_rules)

lemma set_mic_mute_locks: "keeps (holds []) (wrapper_set_mic_mute os call_mode b)"
  unfolding wrapper_set_mic_mute_def by (intro lock_rules wp_rules) simp_all

lemma set_mode_locks: "keeps (holds []) (wrapper_set_mode os call_mode m)"
  unfolding wrapper_set_mode_def by (intro lock_rules wp_rules) simp_all

lemma close_device_locks: "keeps (holds []) (wrapper_close os)"
  unfolding wrapper_close_def by (intro lock_rules wp_rules) simp_all

lemma stream_function_locks: "valid (holds []) (stream_function os call_mode d fn p) (all_back d)"
  unfolding stream_function_def
  by (intro wp_rules returns stream_locked_locks restore_mute_locks) (auto simp: all_back_def)

lemma sched_locks:
  assumes "holds [] s" "sched os call_mode ev (s, fl) = Some (s', fl')"
  shows "holds [] s'"
proof (cases ev)
  case (Start_IO d p)
  then show ?thesis using assms validD [OF io_begin_locks assms(1)] by (auto simp: split_beta)
next
  case (Transfer_IO k n)
  then show ?thesis using assms validD [OF io_transfer_locks assms(1)]
    by (cases "fl ! k") (auto split: if_splits)
next
  case (Finish_IO k)
  then show ?thesis using assms validD [OF io_end_locks assms(1)]
    by (cases "fl ! k") (auto split: if_splits)
next
  case (Wrap_Open d h devices)
  then show ?thesis using assms validD [OF open_locks assms(1)] by auto
next
  case (Wrap_Close d p)
  then show ?thesis using assms validD [OF close_locks assms(1), of d os p]
    by (auto simp: split_beta all_back_def)
next
  case (Invoke d fn p)
  then show ?thesis using assms validD [OF stream_function_locks assms(1), of d os call_mode fn p]
    by (auto simp: split_beta all_back_def)
next
  case (Device_Call fn)
  then show ?thesis using assms validD [OF hal_locked_locks assms(1)] by auto
next
  case (Mic_Mute b)
  then show ?thesis using assms validD [OF set_mic_mute_locks assms(1)] by auto
next
  case (Change_Mode m)
  then show ?thesis using assms validD [OF set_mode_locks assms(1)] by auto
qed

text \<open>
  C15: every call that returns, every step of a transfer and closing the device take their mutexes
  in the order output table, input table, row, HAL and give back all of them, whatever the vendor's
  HAL, the mixer and the allocator answer. So no two threads can wait for each other's mutexes. A
  close that has to wait for a transfer holds those of its table and row meanwhile.
\<close>

theorem locks_ordered:
  assumes "held_locks (trace s) = Some []"
  shows "(\<forall>ev fl s' fl'. sched os call_mode ev (s, fl) = Some (s', fl') \<longrightarrow> held_locks (trace s') = Some []) \<and>
    held_locks (trace (exec (wrapper_close os) s)) = Some [] \<and>
    (let (r, t) = run_state (wrapper_close_stream os d p) s in
     if r = None then \<exists>p. held_locks (trace t) = Some [Row d p, Streams d]
     else held_locks (trace t) = Some [])"
proof -
  have s: "holds [] s" using assms by (simp add: holds_def)
  show ?thesis
    using sched_locks [OF s] validD [OF close_device_locks s] validD [OF close_locks s, of d os p]
    by (auto simp: holds_def all_back_def split_beta split: option.splits)
qed

theorem locks_ordered_witness:
  "held_locks (trace (exec (wrapper_close vendor) (fst recording))) = Some []"
proof -
  have "held_locks (trace (fst recording)) = Some []" by code_simp
  then show ?thesis using locks_ordered [of "fst recording" vendor 2 In 1] by simp
qed

end
