(* ===== verification/Gps_Wrapper.thy ===== *)
theory Gps_Wrapper
  imports Prelude
begin

text \<open>
  The GPS HAL wrapper (\<open>src/gps/wrapper.c\<close>): it loads the vendor's GPS library and puts itself
  between the library and the framework at one place, the callback that creates threads, because
  the library takes a thread number with the top bit set for an error. A function pointer is a
  function of this file or the number of foreign code; the structures in the vendor's memory are
  the argument \<open>mem\<close>.
\<close>

section \<open>Model\<close>

datatype fn =
    Wrapper_create_thread | Wrapper_xtra_init | Wrapper_get_extension | Wrapper_init
  | Wrapper_get_gps_interface | Foreign int

text \<open>The structures of \<open>hardware/gps.h\<close>: the entries this file replaces, and the others.\<close>

record callbacks =
  create_thread_cb :: fn
  other_callbacks :: "int list"

record gps_interface =
  gi_init :: fn
  gi_get_extension :: fn
  gi_others :: "int list"

record xtra_interface =
  xi_init :: fn
  xi_others :: "int list"

record gps_device =
  get_gps_interface :: fn
  device_others :: "int list"

record vendor_memory =
  interface_at :: "int \<Rightarrow> gps_interface"
  xtra_at :: "int \<Rightarrow> xtra_interface"
  device_at :: "int \<Rightarrow> gps_device"

datatype gps_call =
    GMalloc | GDlOpen string | GDlSym int | GDlClose int | VendorOpen int
  | VendorGetInterface | VendorGetExtension string | VendorInit callbacks | VendorXtraInit callbacks
  | CreateThread fn string

record gps_state = "gps_call io_state" +
  moto_gps_device :: int
  moto_gps_interface :: int
  my_gps_interface :: "gps_interface option"
  real_gps_callbacks :: "callbacks option"
  moto_xtra_interface :: int
  my_xtra_interface :: "xtra_interface option"
  real_xtra_callbacks :: "callbacks option"
  my_devices :: "int \<rightharpoonup> gps_device"

type_synonym 'a gps = "(gps_state, 'a) state"

abbreviation "GPS_XTRA_INTERFACE \<equiv> ''gps-xtra''"
abbreviation "GPS_EINVAL \<equiv> 22 :: int"

definition init_gps :: gps_state where
  "init_gps = \<lparr>trace = [], fault = False, moto_gps_device = 0, moto_gps_interface = 0,
     my_gps_interface = None, real_gps_callbacks = None, moto_xtra_interface = 0,
     my_xtra_interface = None, real_xtra_callbacks = None, my_devices = Map.empty\<rparr>"

definition wrapper_gps_create_thread :: "gps_call os \<Rightarrow> string \<Rightarrow> int gps" where
  "wrapper_gps_create_thread os name = do {
     cbs \<leftarrow> gets real_gps_callbacks;
     (case cbs of
        None \<Rightarrow> do { undefined_behaviour; return 0 }
      | Some c \<Rightarrow> do {
          r \<leftarrow> syscall os (CreateThread (create_thread_cb c) name);
          return (if ret_val r \<noteq> 0 then 0x42 else ret_val r)
        })
   }"

definition wrapper_xtra_init :: "gps_call os \<Rightarrow> callbacks \<Rightarrow> int gps" where
  "wrapper_xtra_init os cbs = do {
     modify (\<lambda>s. s\<lparr>real_xtra_callbacks := Some cbs\<rparr>);
     x \<leftarrow> gets moto_xtra_interface;
     whenM (x = 0) undefined_behaviour;
     r \<leftarrow> syscall os (VendorXtraInit (cbs\<lparr>create_thread_cb := Wrapper_create_thread\<rparr>));
     return (ret_val r)
   }"

text \<open>The answer is a pointer into the vendor's memory, or \<open>None\<close> for the address of \<open>my_xtra_interface\<close>.\<close>

definition wrapper_get_extension :: "vendor_memory \<Rightarrow> gps_call os \<Rightarrow> string \<Rightarrow> (int option) gps" where
  "wrapper_get_extension mem os name = do {
     i \<leftarrow> gets moto_gps_interface;
     whenM (i = 0) undefined_behaviour;
     r \<leftarrow> syscall os (VendorGetExtension name);
     if name = GPS_XTRA_INTERFACE \<and> ret_val r \<noteq> 0 then do {
       modify (\<lambda>s. s\<lparr>moto_xtra_interface := ret_val r,
         my_xtra_interface := Some ((xtra_at mem (ret_val r))\<lparr>xi_init := Wrapper_xtra_init\<rparr>)\<rparr>);
       return None
     } else return (Some (ret_val r))
   }"

definition wrapper_init :: "gps_call os \<Rightarrow> callbacks \<Rightarrow> int gps" where
  "wrapper_init os cbs = do {
     modify (\<lambda>s. s\<lparr>real_gps_callbacks := Some cbs\<rparr>);
     i \<leftarrow> gets moto_gps_interface;
     whenM (i = 0) undefined_behaviour;
     r \<leftarrow> syscall os (VendorInit (cbs\<lparr>create_thread_cb := Wrapper_create_thread\<rparr>));
     return (ret_val r)
   }"

definition wrapper_get_gps_interface :: "vendor_memory \<Rightarrow> gps_call os \<Rightarrow> unit gps" where
  "wrapper_get_gps_interface mem os = do {
     d \<leftarrow> gets moto_gps_device;
     whenM (d = 0) undefined_behaviour;
     r \<leftarrow> syscall os VendorGetInterface;
     whenM (ret_val r = 0) undefined_behaviour;
     modify (\<lambda>s. s\<lparr>moto_gps_interface := ret_val r,
       my_gps_interface := Some ((interface_at mem (ret_val r))\<lparr>gi_init := Wrapper_init,
         gi_get_extension := Wrapper_get_extension\<rparr>)\<rparr>)
   }"

definition gps_open :: "vendor_memory \<Rightarrow> gps_call os \<Rightarrow> (int \<times> int) gps" where
  "gps_open mem os = do {
     m \<leftarrow> syscall os GMalloc;
     if ret_val m = 0 then return (- GPS_EINVAL, 0)
     else do {
       dso \<leftarrow> syscall os (GDlOpen ''/system/lib/hw/gps.vendor.so'');
       if ret_val dso = 0 then return (- GPS_EINVAL, 0)
       else do {
         hmi \<leftarrow> syscall os (GDlSym (ret_val dso));
         if ret_val hmi = 0 then do { syscall os (GDlClose (ret_val dso)); return (- GPS_EINVAL, 0) }
         else do {
           r \<leftarrow> syscall os (VendorOpen (ret_val hmi));
           modify (\<lambda>s. s\<lparr>moto_gps_device := ret_aux r\<rparr>);
           if ret_val r \<noteq> 0 then do { syscall os (GDlClose (ret_val dso)); return (- GPS_EINVAL, 0) }
           else do {
             whenM (ret_aux r = 0) undefined_behaviour;
             modify (\<lambda>s. s\<lparr>my_devices := (my_devices s)(ret_val m \<mapsto>
               (device_at mem (ret_aux r))\<lparr>get_gps_interface := Wrapper_get_gps_interface\<rparr>)\<rparr>);
             return (0, ret_val m)
           }
         }
       }
     }
   }"

section \<open>The way of a thread\<close>

text \<open>
  Once the framework has opened the device, fetched the interface and initialised it, the vendor's
  library has the framework's callbacks with one exception, and a thread it creates is created by
  the framework; the answer is zero or positive as a signed number.
\<close>

lemma threads_reach_framework:
  assumes "\<And>h. ret_val (os h VendorGetInterface) \<noteq> 0" "moto_gps_device s \<noteq> 0" "\<not> fault s"
  shows "let t = exec (wrapper_init os cbs) (exec (wrapper_get_gps_interface mem os) s);
      (r, u) = run_state (wrapper_gps_create_thread os name) t in
    \<not> fault u \<and> last (calls t) = VendorInit (cbs\<lparr>create_thread_cb := Wrapper_create_thread\<rparr>) \<and>
    calls u = calls t @ [CreateThread (create_thread_cb cbs) name] \<and>
    (r = 0 \<longleftrightarrow> ret_val (os (trace t) (CreateThread (create_thread_cb cbs) name)) = 0) \<and> r \<in> {0, 0x42}"
  using assms
  by (auto simp: wrapper_init_def wrapper_get_gps_interface_def wrapper_gps_create_thread_def)

text \<open>
  A thread of the XTRA extension goes to the callback of the GPS interface, whatever callback the
  extension was given; without an initialised GPS interface it is a null pointer.
\<close>

lemma xtra_threads_misdirected:
  assumes "moto_xtra_interface s \<noteq> 0" "\<not> fault s"
  shows "let t = exec (wrapper_xtra_init os cbs) s; u = exec (wrapper_gps_create_thread os name) t in
    (case real_gps_callbacks s of
       None \<Rightarrow> fault u
     | Some c \<Rightarrow> calls u = calls t @ [CreateThread (create_thread_cb c) name])"
  using assms by (auto simp: wrapper_xtra_init_def wrapper_gps_create_thread_def Let_def split: option.splits)

text \<open>A failed open keeps the block of the device: no pointer to it is left, and nothing frees it.\<close>

lemma failed_open_leaks:
  assumes "ret_val (os (trace s) GMalloc) \<noteq> 0" "\<And>h p. ret_val (os h (GDlOpen p)) = 0"
  shows "eval_in (gps_open mem os) s = (- GPS_EINVAL, 0) \<and>
    my_devices (exec (gps_open mem os) s) = my_devices s \<and>
    calls (exec (gps_open mem os) s) = calls s @ [GMalloc, GDlOpen ''/system/lib/hw/gps.vendor.so'']"
  using assms by (simp add: gps_open_def)

end
